(* ===== verification/Wf_Prelude.thy ===== *)
theory Wf_Prelude
  imports Main
begin

text \<open>
  Shared vocabulary of the development: Go errors as values, effectful Go code as state
  passing with an error result, the Hoare-style triples the component proofs use, and the
  generic list lemmas. Nothing here is specific to one component.

  \<^item> \<open>go_error\<close>: the sentinel errors the server compares with \<open>errors.Is\<close>, the
    opaque errors of third-party code (\<open>ErrDB\<close>, \<open>ErrUpstream\<close>), plain
    \<open>errors.New\<close> texts, \<open>fmt.Errorf("ctx: %w", err)\<close> (\<open>Wrapf\<close>),
    \<open>fmt.Errorf("%w: %w", e1, e2)\<close> (\<open>Wrap2\<close>) and \<open>errors.Join\<close>
    (\<open>Joined\<close>).
  \<^item> \<open>('s, 'a) eff\<close>: a Go function that reads and writes the state \<open>'s\<close> and
    returns \<open>(T, error)\<close>; the state survives an error, as side effects do in Go.
  \<^item> \<open>triple P m Q\<close>: from a state with \<open>P\<close>, the outcome of \<open>m\<close> (error or
    value) and the final state satisfy \<open>Q\<close>; \<open>keeps f m\<close>: \<open>m\<close> never changes
    the view \<open>f\<close> of the state.
\<close>

named_theorems eff_defs "definitions of the state-and-error combinators"
named_theorems keep_intros "frame rules: operations that leave a view of the state alone"

section \<open>Basic types\<close>

text \<open>
  \<open>time.Time\<close> is a number of nanoseconds counted from Go's zero instant, so
  \<open>IsZero\<close> is equality with 0; \<open>time.Duration\<close> is a number of nanoseconds.
  A nullable timestamp \<open>*time.Time\<close> is an option.
\<close>

type_synonym time = int
type_synonym duration = int

abbreviation time_is_zero :: "time \<Rightarrow> bool" where
  "time_is_zero t \<equiv> t = 0"

abbreviation dur_second :: duration where "dur_second \<equiv> 1000000000"
abbreviation dur_minute :: duration where "dur_minute \<equiv> 60 * dur_second"
abbreviation dur_hour :: duration where "dur_hour \<equiv> 60 * dur_minute"

section \<open>Errors\<close>

datatype go_error =
    ErrNotFound
  | ErrAccountNotFound
  | ErrInvalidToken
  | ErrTokenExpired
  | ErrInvalidRefreshToken
  | ErrEmailNotAllowed
  | ErrInvalidOTP
  | ErrCanceled
  | ErrNotTracked
  | ErrSteamUpstream
  | ErrDB string
  | ErrUpstream string
  | ErrText string
  | Wrapf string go_error
  | Wrap2 go_error go_error
  | Joined "go_error list"

type_synonym 'a res = "go_error + 'a"

text \<open>\<open>errors.Is\<close>: the error itself, or one it wraps or joins.\<close>

fun errors_is :: "go_error \<Rightarrow> go_error \<Rightarrow> bool" where
  "errors_is (Wrapf c e) t \<longleftrightarrow> Wrapf c e = t \<or> errors_is e t"
| "errors_is (Wrap2 a b) t \<longleftrightarrow> Wrap2 a b = t \<or> errors_is a t \<or> errors_is b t"
| "errors_is (Joined es) t \<longleftrightarrow> Joined es = t \<or> (\<exists>e\<in>set es. errors_is e t)"
| "errors_is e t \<longleftrightarrow> e = t"

lemma errors_is_refl [simp]: "errors_is e e"
  by (cases e) simp_all

text \<open>\<open>err.Error()\<close>.\<close>

fun err_text :: "go_error \<Rightarrow> string" where
  "err_text ErrNotFound = ''repository: not found''"
| "err_text ErrAccountNotFound = ''account not found''"
| "err_text ErrInvalidToken = ''auth: invalid token''"
| "err_text ErrTokenExpired = ''auth: token expired''"
| "err_text ErrInvalidRefreshToken = ''auth: invalid refresh token''"
| "err_text ErrEmailNotAllowed = ''auth: email not allowed''"
| "err_text ErrInvalidOTP = ''auth: invalid otp''"
| "err_text ErrCanceled = ''context canceled''"
| "err_text ErrNotTracked = ''steamprices: item not tracked''"
| "err_text ErrSteamUpstream = ''steamprices: steam upstream unavailable''"
| "err_text (ErrDB m) = m"
| "err_text (ErrUpstream m) = m"
| "err_text (ErrText m) = m"
| "err_text (Wrapf c e) = c @ '': '' @ err_text e"
| "err_text (Wrap2 a b) = err_text a @ '': '' @ err_text b"
| "err_text (Joined es) = tl (concat (map (\<lambda>e. CHR 0x0A # err_text e) es))"

text \<open>
  \<open>errors.Join\<close> of possibly nil errors: nil when every argument is nil, otherwise the
  non-nil ones in order.
\<close>

fun errors_join :: "go_error option list \<Rightarrow> go_error option" where
  "errors_join es = (case List.map_filter id es of [] \<Rightarrow> None | xs \<Rightarrow> Some (Joined xs))"

lemma errors_join_None_iff: "errors_join es = None \<longleftrightarrow> (\<forall>e\<in>set es. e = None)"
  by (induction es) (auto simp: map_filter_simps split: list.splits option.splits)

section \<open>State and error\<close>

type_synonym ('s, 'a) eff = "'s \<Rightarrow> 'a res \<times> 's"

definition ret :: "'a \<Rightarrow> ('s, 'a) eff" where
  [eff_defs]: "ret x = (\<lambda>s. (Inr x, s))"

definition raise :: "go_error \<Rightarrow> ('s, 'a) eff" where
  [eff_defs]: "raise e = (\<lambda>s. (Inl e, s))"

definition bind_eff :: "('s, 'a) eff \<Rightarrow> ('a \<Rightarrow> ('s, 'b) eff) \<Rightarrow> ('s, 'b) eff" where
  [eff_defs]: "bind_eff m f = (\<lambda>s. case m s of (Inl e, s') \<Rightarrow> (Inl e, s') | (Inr x, s') \<Rightarrow> f x s')"

text \<open>\<open>m; n\<close> with the early return of \<open>if err != nil\<close>.\<close>

definition seq_eff :: "('s, unit) eff \<Rightarrow> ('s, 'b) eff \<Rightarrow> ('s, 'b) eff" where
  [eff_defs]: "seq_eff m n = bind_eff m (\<lambda>_. n)"

text \<open>\<open>if err != nil { return fmt.Errorf("ctx: %w", err) }\<close>.\<close>

definition wrap_err :: "string \<Rightarrow> ('s, 'a) eff \<Rightarrow> ('s, 'a) eff" where
  [eff_defs]: "wrap_err c m = (\<lambda>s. case m s of (Inl e, s') \<Rightarrow> (Inl (Wrapf c e), s') | (Inr x, s') \<Rightarrow> (Inr x, s'))"

text \<open>The result of \<open>m\<close> as a value, when the code inspects \<open>err\<close> itself.\<close>

definition attempt :: "('s, 'a) eff \<Rightarrow> ('s, 'a res) eff" where
  [eff_defs]: "attempt m = (\<lambda>s. case m s of (r, s') \<Rightarrow> (Inr r, s'))"

definition reading :: "('s \<Rightarrow> 'a) \<Rightarrow> ('s, 'a) eff" where
  [eff_defs]: "reading f = (\<lambda>s. (Inr (f s), s))"

definition writing :: "('s \<Rightarrow> 's) \<Rightarrow> ('s, unit) eff" where
  [eff_defs]: "writing f = (\<lambda>s. (Inr (), f s))"

text \<open>\<open>for _, x := range xs { ... }\<close> with early return on error.\<close>

fun for_each :: "('a \<Rightarrow> ('s, unit) eff) \<Rightarrow> 'a list \<Rightarrow> ('s, unit) eff" where
  "for_each f [] = ret ()"
| "for_each f (x # xs) = seq_eff (f x) (for_each f xs)"

text \<open>The same loop carrying local variables.\<close>

fun fold_eff :: "('a \<Rightarrow> 'b \<Rightarrow> ('s, 'b) eff) \<Rightarrow> 'a list \<Rightarrow> 'b \<Rightarrow> ('s, 'b) eff" where
  "fold_eff f [] b = ret b"
| "fold_eff f (x # xs) b = bind_eff (f x b) (fold_eff f xs)"

lemma bind_eff_apply:
  "bind_eff m f s = (case m s of (Inl e, s') \<Rightarrow> (Inl e, s') | (Inr x, s') \<Rightarrow> f x s')"
  by (simp add: bind_eff_def)

lemma seq_eff_apply:
  "seq_eff m n s = (case m s of (Inl e, s') \<Rightarrow> (Inl e, s') | (Inr _, s') \<Rightarrow> n s')"
  by (simp add: seq_eff_def bind_eff_def)

section \<open>Triples\<close>

definition triple :: "('s \<Rightarrow> bool) \<Rightarrow> ('s, 'a) eff \<Rightarrow> ('a res \<Rightarrow> 's \<Rightarrow> bool) \<Rightarrow> bool" where
  "triple P m Q \<longleftrightarrow> (\<forall>s. P s \<longrightarrow> (case m s of (r, s') \<Rightarrow> Q r s'))"

lemma tripleI: "(\<And>s r s'. P s \<Longrightarrow> m s = (r, s') \<Longrightarrow> Q r s') \<Longrightarrow> triple P m Q"
  unfolding triple_def by (auto split: prod.splits)

lemma tripleD: "triple P m Q \<Longrightarrow> P s \<Longrightarrow> m s = (r, s') \<Longrightarrow> Q r s'"
  unfolding triple_def by (force split: prod.splits)

lemma triple_conseq:
  "triple P' m Q' \<Longrightarrow> (\<And>s. P s \<Longrightarrow> P' s) \<Longrightarrow> (\<And>r s. Q' r s \<Longrightarrow> Q r s) \<Longrightarrow> triple P m Q"
  unfolding triple_def by (force split: prod.splits)

lemma triple_ret: "(\<And>s. P s \<Longrightarrow> Q (Inr x) s) \<Longrightarrow> triple P (ret x) Q"
  by (auto simp: triple_def ret_def)

lemma triple_bind:
  assumes "triple P m R"
    and "\<And>x. triple (\<lambda>s. R (Inr x) s) (f x) Q"
    and "\<And>e s. R (Inl e) s \<Longrightarrow> Q (Inl e) s"
  shows "triple P (bind_eff m f) Q"
  using assms unfolding triple_def bind_eff_def
  by (fastforce split: prod.splits sum.splits)

lemma triple_seq:
  assumes "triple P m R" and "triple (\<lambda>s. R (Inr ()) s) n Q"
    and "\<And>e s. R (Inl e) s \<Longrightarrow> Q (Inl e) s"
  shows "triple P (seq_eff m n) Q"
  unfolding seq_eff_def by (rule triple_bind [OF assms(1)]) (use assms in auto)

lemma triple_wrap:
  "triple P m (\<lambda>r s. Q (case r of Inl e \<Rightarrow> Inl (Wrapf c e) | Inr x \<Rightarrow> Inr x) s) \<Longrightarrow>
   triple P (wrap_err c m) Q"
  unfolding triple_def wrap_err_def by (force split: prod.splits sum.splits)

text \<open>
  The loop rule: an invariant indexed by the elements already processed; on an early
  return, some prefix has been processed and the invariant's error form holds.
\<close>

lemma triple_for_each:
  assumes step: "\<And>done x rest. xs = done @ x # rest \<Longrightarrow>
      triple (I done) (f x) (\<lambda>r s. case r of Inl e \<Rightarrow> E s | Inr _ \<Rightarrow> I (done @ [x]) s)"
  shows "triple (I []) (for_each f xs) (\<lambda>r s. case r of Inl e \<Rightarrow> E s | Inr _ \<Rightarrow> I xs s)"
proof -
  have "triple (I pre) (for_each f ys) (\<lambda>r s. case r of Inl e \<Rightarrow> E s | Inr _ \<Rightarrow> I xs s)"
    if "xs = pre @ ys" for pre ys
    using that
  proof (induction ys arbitrary: pre)
    case Nil
    then show ?case by (simp add: triple_ret)
  next
    case (Cons y ys)
    have "triple (I pre) (f y) (\<lambda>r s. case r of Inl e \<Rightarrow> E s | Inr _ \<Rightarrow> I (pre @ [y]) s)"
      by (rule step) (use Cons.prems in simp)
    moreover have "triple (I (pre @ [y])) (for_each f ys)
        (\<lambda>r s. case r of Inl e \<Rightarrow> E s | Inr _ \<Rightarrow> I xs s)"
      by (rule Cons.IH) (use Cons.prems in simp)
    ultimately show ?case
      by (auto intro: triple_seq)
  qed
  from this [of "[]" xs] show ?thesis by simp
qed

subsection \<open>Frames\<close>

text \<open>\<open>keeps f m\<close>: whatever \<open>m\<close> returns, the view \<open>f\<close> of the state is unchanged.\<close>

definition keeps :: "('s \<Rightarrow> 'v) \<Rightarrow> ('s, 'a) eff \<Rightarrow> bool" where
  "keeps f m \<longleftrightarrow> (\<forall>s. f (snd (m s)) = f s)"

lemma keepsI: "(\<And>s. f (snd (m s)) = f s) \<Longrightarrow> keeps f m"
  by (simp add: keeps_def)

lemma keepsD: "keeps f m \<Longrightarrow> f (snd (m s)) = f s"
  by (simp add: keeps_def)

lemma keeps_eq: "keeps f m \<Longrightarrow> m s = (r, s') \<Longrightarrow> f s' = f s"
  by (metis keepsD snd_conv)

lemma keeps_ret [keep_intros]: "keeps f (ret x)"
  and keeps_raise [keep_intros]: "keeps f (raise e)"
  and keeps_reading [keep_intros]: "keeps f (reading g)"
  by (simp_all add: keeps_def eff_defs)

lemma keeps_bind [keep_intros]:
  "keeps f m \<Longrightarrow> (\<And>x. keeps f (g x)) \<Longrightarrow> keeps f (bind_eff m g)"
  unfolding keeps_def bind_eff_def
  by (simp split: prod.splits sum.splits) (metis snd_conv)

lemma keeps_seq [keep_intros]: "keeps f m \<Longrightarrow> keeps f n \<Longrightarrow> keeps f (seq_eff m n)"
  unfolding seq_eff_def by (intro keeps_bind)

lemma keeps_wrap [keep_intros]: "keeps f m \<Longrightarrow> keeps f (wrap_err c m)"
  unfolding keeps_def wrap_err_def by (simp split: prod.splits sum.splits) (metis snd_conv)

lemma keeps_attempt [keep_intros]: "keeps f m \<Longrightarrow> keeps f (attempt m)"
  unfolding keeps_def attempt_def by (simp split: prod.splits) (metis snd_conv)

lemma keeps_for_each [keep_intros]:
  "(\<And>x. x \<in> set xs \<Longrightarrow> keeps f (g x)) \<Longrightarrow> keeps f (for_each g xs)"
  by (induction xs) (auto intro: keep_intros)

lemma keeps_fold_eff [keep_intros]:
  "(\<And>x b. x \<in> set xs \<Longrightarrow> keeps f (g x b)) \<Longrightarrow> keeps f (fold_eff g xs b)"
  by (induction xs arbitrary: b) (auto intro: keep_intros)

lemma keeps_if [keep_intros]:
  "(b \<Longrightarrow> keeps f m) \<Longrightarrow> (\<not> b \<Longrightarrow> keeps f n) \<Longrightarrow> keeps f (if b then m else n)"
  by simp

lemma keeps_let [keep_intros]: "keeps f (g x) \<Longrightarrow> keeps f (let y = x in g y)"
  by simp

lemma keeps_case_option [keep_intros]:
  "keeps f m \<Longrightarrow> (\<And>x. keeps f (n x)) \<Longrightarrow> keeps f (case o' of None \<Rightarrow> m | Some x \<Rightarrow> n x)"
  by (cases o') auto

lemma keeps_case_sum [keep_intros]:
  "(\<And>x. keeps f (m x)) \<Longrightarrow> (\<And>x. keeps f (n x)) \<Longrightarrow>
   keeps f (case o' of Inl x \<Rightarrow> m x | Inr x \<Rightarrow> n x)"
  by (cases o') auto

lemma keeps_case_prod [keep_intros]:
  "(\<And>x y. keeps f (m x y)) \<Longrightarrow> keeps f (case p of (x, y) \<Rightarrow> m x y)"
  by (cases p) auto

subsection \<open>Invariants\<close>

text \<open>\<open>preserves P m\<close>: if \<open>P\<close> holds before \<open>m\<close>, it holds after it, error or not.\<close>

definition preserves :: "('s \<Rightarrow> bool) \<Rightarrow> ('s, 'a) eff \<Rightarrow> bool" where
  "preserves P m \<longleftrightarrow> (\<forall>s. P s \<longrightarrow> P (snd (m s)))"

named_theorems pres_intros "invariant rules for the combinators and the repository operations"

lemma preservesI: "(\<And>s. P s \<Longrightarrow> P (snd (m s))) \<Longrightarrow> preserves P m"
  by (simp add: preserves_def)

lemma preservesD: "preserves P m \<Longrightarrow> P s \<Longrightarrow> P (snd (m s))"
  by (simp add: preserves_def)

lemma preserves_of_keeps: "keeps f m \<Longrightarrow> preserves (\<lambda>s. Q (f s)) m"
  by (simp add: keeps_def preserves_def)

lemma preserves_ret [pres_intros]: "preserves P (ret x)"
  and preserves_raise [pres_intros]: "preserves P (raise e)"
  and preserves_reading [pres_intros]: "preserves P (reading g)"
  by (simp_all add: preserves_def eff_defs)

lemma preserves_bind [pres_intros]:
  "preserves P m \<Longrightarrow> (\<And>x. preserves P (g x)) \<Longrightarrow> preserves P (bind_eff m g)"
  unfolding preserves_def bind_eff_def
  by (simp split: prod.splits sum.splits) (metis snd_conv)

lemma preserves_seq [pres_intros]:
  "preserves P m \<Longrightarrow> preserves P n \<Longrightarrow> preserves P (seq_eff m n)"
  unfolding seq_eff_def by (intro preserves_bind)

lemma preserves_wrap [pres_intros]: "preserves P m \<Longrightarrow> preserves P (wrap_err c m)"
  unfolding preserves_def wrap_err_def by (simp split: prod.splits sum.splits) (metis snd_conv)

lemma preserves_attempt [pres_intros]: "preserves P m \<Longrightarrow> preserves P (attempt m)"
  unfolding preserves_def attempt_def by (simp split: prod.splits) (metis snd_conv)

lemma preserves_for_each [pres_intros]:
  "(\<And>x. x \<in> set xs \<Longrightarrow> preserves P (g x)) \<Longrightarrow> preserves P (for_each g xs)"
  by (induction xs) (auto intro: pres_intros)

lemma preserves_fold_eff [pres_intros]:
  "(\<And>x b. x \<in> set xs \<Longrightarrow> preserves P (g x b)) \<Longrightarrow> preserves P (fold_eff g xs b)"
  by (induction xs arbitrary: b) (auto intro: pres_intros)

lemma preserves_if [pres_intros]:
  "(b \<Longrightarrow> preserves P m) \<Longrightarrow> (\<not> b \<Longrightarrow> preserves P n) \<Longrightarrow> preserves P (if b then m else n)"
  by simp

lemma preserves_let [pres_intros]: "preserves P (g x) \<Longrightarrow> preserves P (let y = x in g y)"
  by simp

lemma preserves_case_option [pres_intros]:
  "preserves P m \<Longrightarrow> (\<And>x. preserves P (n x)) \<Longrightarrow>
   preserves P (case o' of None \<Rightarrow> m | Some x \<Rightarrow> n x)"
  by (cases o') auto

lemma preserves_case_sum [pres_intros]:
  "(\<And>x. preserves P (m x)) \<Longrightarrow> (\<And>x. preserves P (n x)) \<Longrightarrow>
   preserves P (case o' of Inl x \<Rightarrow> m x | Inr x \<Rightarrow> n x)"
  by (cases o') auto

lemma preserves_case_prod [pres_intros]:
  "(\<And>x y. preserves P (m x y)) \<Longrightarrow> preserves P (case p of (x, y) \<Rightarrow> m x y)"
  by (cases p) auto

lemma preserves_conj: "preserves P m \<Longrightarrow> preserves Q m \<Longrightarrow> preserves (\<lambda>s. P s \<and> Q s) m"
  by (simp add: preserves_def)

lemma preserves_all: "(\<And>i. preserves (P i) m) \<Longrightarrow> preserves (\<lambda>s. \<forall>i. P i s) m"
  by (simp add: preserves_def)

lemma preserves_eq: "preserves P m \<Longrightarrow> m s = (r, s') \<Longrightarrow> P s \<Longrightarrow> P s'"
  by (metis preservesD snd_conv)

section \<open>Successful runs\<close>

lemma bind_eff_InrE:
  assumes "bind_eff m f s = (Inr y, s')"
  obtains x s1 where "m s = (Inr x, s1)" and "f x s1 = (Inr y, s')"
  using assms by (auto simp: bind_eff_apply split: prod.splits sum.splits)

lemma seq_eff_InrE:
  assumes "seq_eff m n s = (Inr y, s')"
  obtains s1 where "m s = (Inr (), s1)" and "n s1 = (Inr y, s')"
  using assms by (auto simp: seq_eff_apply split: prod.splits sum.splits)

lemma wrap_err_InrD: "wrap_err c m s = (Inr y, s') \<Longrightarrow> m s = (Inr y, s')"
  by (auto simp: wrap_err_def split: prod.splits sum.splits)

text \<open>A loop that succeeds has run every element, and what an element establishes, later ones keep.\<close>

lemma for_each_establishes:
  assumes "for_each f xs s = (Inr (), s')" and "x \<in> set xs"
    and "\<And>t t'. f x t = (Inr (), t') \<Longrightarrow> P t'"
    and "\<And>y. y \<in> set xs \<Longrightarrow> preserves P (f y)"
  shows "P s'"
  using assms
proof (induction xs arbitrary: s)
  case (Cons y ys)
  from Cons.prems(1) obtain s1 where s1: "f y s = (Inr (), s1)" "for_each f ys s1 = (Inr (), s')"
    by (auto elim: seq_eff_InrE)
  show ?case
  proof (cases "x \<in> set ys")
    case True
    then show ?thesis using Cons.IH [OF s1(2)] Cons.prems(3,4) by auto
  next
    case False
    with Cons.prems(2) s1(1) Cons.prems(3) have "P s1" by auto
    moreover have "preserves P (for_each f ys)" using Cons.prems(4) by (auto intro: preserves_for_each)
    ultimately show ?thesis using s1(2) by (metis preservesD snd_conv)
  qed
qed simp

text \<open>As above for a loop invariant and the last element that matters.\<close>

lemma for_each_establishes_last:
  assumes "for_each f (ys @ x # zs) s = (Inr (), s')"
    and "\<And>t t'. f x t = (Inr (), t') \<Longrightarrow> P t'"
    and "\<And>y. y \<in> set zs \<Longrightarrow> preserves P (f y)"
  shows "P s'"
  using assms(1)
proof (induction ys arbitrary: s)
  case Nil
  then obtain s1 where "f x s = (Inr (), s1)" "for_each f zs s1 = (Inr (), s')"
    by (auto elim: seq_eff_InrE)
  with assms(2) preserves_for_each [of zs P f, OF assms(3)] show ?case by (metis preservesD snd_conv)
next
  case (Cons y ys)
  then show ?case by (auto elim: seq_eff_InrE)
qed

end
