(* ===== verification/Go_Strings.thy ===== *)
theory Go_Strings
  imports Wf_Prelude "HOL-Library.Char_ord" "HOL-Library.List_Lexorder"
begin

text \<open>
  The part of Go's \<open>strings\<close> and \<open>strconv\<close> packages the server uses. A Go string is a
  byte sequence, here a list of characters; order on strings is bytewise
  (\<open>List_Lexorder\<close> over \<open>Char_ord\<close>), as Go and a C-collated database compare them.
  Case mapping and white space are those of ASCII: the identifiers, tickers and enum texts
  the server folds are ASCII, and bytes above 127 are left as they are.
\<close>

named_theorems str_simps "rewriting of the string operations"

section \<open>Characters\<close>

definition char_code :: "char \<Rightarrow> nat" where
  "char_code c = of_char c"

definition is_digit :: "char \<Rightarrow> bool" where
  "is_digit c \<longleftrightarrow> 48 \<le> char_code c \<and> char_code c \<le> 57"

definition is_space :: "char \<Rightarrow> bool" where
  "is_space c \<longleftrightarrow> (9 \<le> char_code c \<and> char_code c \<le> 13) \<or> char_code c = 32"

definition up_char :: "char \<Rightarrow> char" where
  "up_char c = (if 97 \<le> char_code c \<and> char_code c \<le> 122 then char_of (char_code c - 32) else c)"

definition low_char :: "char \<Rightarrow> char" where
  "low_char c = (if 65 \<le> char_code c \<and> char_code c \<le> 90 then char_of (char_code c + 32) else c)"

lemma char_code_char_of: "n < 256 \<Longrightarrow> char_code (char_of n) = n"
  by (simp add: char_code_def)

lemma char_code_up_char:
  assumes "97 \<le> char_code c \<and> char_code c \<le> 122"
  shows "char_code (up_char c) = char_code c - 32"
proof -
  have "char_code c - 32 < 256" using assms by linarith
  then show ?thesis using assms by (simp add: up_char_def char_code_char_of)
qed

lemma up_char_idem [simp]: "up_char (up_char c) = up_char c"
proof (cases "97 \<le> char_code c \<and> char_code c \<le> 122")
  case True
  then have "char_code (up_char c) = char_code c - 32"
    by (rule char_code_up_char)
  with True have "\<not> 97 \<le> char_code (up_char c)" by linarith
  then show ?thesis by (simp add: up_char_def [of "up_char c"])
qed (auto simp: up_char_def)

lemma low_char_idem [simp]: "low_char (low_char c) = low_char c"
proof (cases "65 \<le> char_code c \<and> char_code c \<le> 90")
  case True
  then have "char_code (low_char c) = char_code c + 32"
    by (simp add: low_char_def char_code_char_of)
  with True show ?thesis by (simp add: low_char_def)
qed (auto simp: low_char_def)

lemma is_space_up_char [simp]: "is_space (up_char c) \<longleftrightarrow> is_space c"
proof (cases "97 \<le> char_code c \<and> char_code c \<le> 122")
  case True
  then have "char_code (up_char c) = char_code c - 32"
    by (rule char_code_up_char)
  with True show ?thesis by (auto simp: is_space_def)
qed (auto simp: up_char_def)

lemma is_space_low_char [simp]: "is_space (low_char c) \<longleftrightarrow> is_space c"
proof (cases "65 \<le> char_code c \<and> char_code c \<le> 90")
  case True
  then have "char_code (low_char c) = char_code c + 32"
    by (simp add: low_char_def char_code_char_of)
  with True show ?thesis by (auto simp: is_space_def)
qed (auto simp: low_char_def)

section \<open>Case and white space\<close>

definition to_upper :: "string \<Rightarrow> string" where
  "to_upper s = map up_char s"

definition to_lower :: "string \<Rightarrow> string" where
  "to_lower s = map low_char s"

definition equal_fold :: "string \<Rightarrow> string \<Rightarrow> bool" where
  "equal_fold a b \<longleftrightarrow> to_lower a = to_lower b"

definition trim_right :: "string \<Rightarrow> string" where
  "trim_right s = rev (dropWhile is_space (rev s))"

definition trim_space :: "string \<Rightarrow> string" where
  "trim_space s = trim_right (dropWhile is_space s)"

lemma to_upper_idem [simp, str_simps]: "to_upper (to_upper s) = to_upper s"
  by (simp add: to_upper_def)

lemma to_lower_idem [simp, str_simps]: "to_lower (to_lower s) = to_lower s"
  by (simp add: to_lower_def)

lemma dropWhile_map_keep:
  "(\<And>c. P (f c) = P c) \<Longrightarrow> dropWhile P (map f xs) = map f (dropWhile P xs)"
  by (induction xs) auto

lemma trim_space_to_upper [str_simps]: "trim_space (to_upper s) = to_upper (trim_space s)"
  by (simp add: trim_space_def trim_right_def to_upper_def rev_map dropWhile_map_keep)

lemma trim_space_to_lower [str_simps]: "trim_space (to_lower s) = to_lower (trim_space s)"
  by (simp add: trim_space_def trim_right_def to_lower_def rev_map dropWhile_map_keep)

lemma dropWhile_idem: "dropWhile P (dropWhile P xs) = dropWhile P xs"
  by (induction xs) auto

lemma hd_dropWhile_not: "dropWhile P xs \<noteq> [] \<Longrightarrow> \<not> P (hd (dropWhile P xs))"
  by (induction xs) auto

lemma trim_right_hd:
  assumes "trim_right s \<noteq> []" shows "hd (trim_right s) = hd s"
proof -
  obtain t where "rev s = t @ dropWhile is_space (rev s)"
    by (metis takeWhile_dropWhile_id)
  then have "s = trim_right s @ rev t"
    unfolding trim_right_def by (metis rev_append rev_rev_ident)
  with assms show ?thesis by (metis hd_append2)
qed

lemma trim_space_idem [simp, str_simps]: "trim_space (trim_space s) = trim_space s"
proof -
  define u where "u = dropWhile is_space s"
  have right: "trim_right (trim_right u) = trim_right u"
    by (simp add: trim_right_def dropWhile_idem)
  have "dropWhile is_space (trim_right u) = trim_right u"
  proof (cases "trim_right u")
    case (Cons c cs)
    have "u \<noteq> []" using Cons by (auto simp: trim_right_def)
    with Cons have "\<not> is_space c"
      using trim_right_hd [of u] hd_dropWhile_not [of is_space s] by (simp add: u_def)
    with Cons show ?thesis by simp
  qed simp
  with right show ?thesis by (simp add: trim_space_def u_def)
qed

lemma trim_space_Nil [simp]: "trim_space [] = []"
  by (simp add: trim_space_def trim_right_def)

section \<open>Prefixes, suffixes, substrings\<close>

definition has_prefix :: "string \<Rightarrow> string \<Rightarrow> bool" where
  "has_prefix s p \<longleftrightarrow> take (length p) s = p"

definition has_suffix :: "string \<Rightarrow> string \<Rightarrow> bool" where
  "has_suffix s p \<longleftrightarrow> length p \<le> length s \<and> drop (length s - length p) s = p"

definition trim_prefix :: "string \<Rightarrow> string \<Rightarrow> string" where
  "trim_prefix s p = (if has_prefix s p then drop (length p) s else s)"

definition trim_suffix :: "string \<Rightarrow> string \<Rightarrow> string" where
  "trim_suffix s p = (if has_suffix s p then take (length s - length p) s else s)"

fun contains_str :: "string \<Rightarrow> string \<Rightarrow> bool" where
  "contains_str [] p \<longleftrightarrow> p = []"
| "contains_str (c # s) p \<longleftrightarrow> has_prefix (c # s) p \<or> contains_str s p"

lemma has_prefix_iff: "has_prefix s p \<longleftrightarrow> (\<exists>t. s = p @ t)"
  unfolding has_prefix_def by (metis append_eq_conv_conj append_take_drop_id)

lemma has_suffix_iff: "has_suffix s p \<longleftrightarrow> (\<exists>t. s = t @ p)"
proof
  assume "has_suffix s p"
  then show "\<exists>t. s = t @ p" unfolding has_suffix_def by (metis append_take_drop_id)
qed (auto simp: has_suffix_def)

lemma has_prefix_append [simp]: "has_prefix (p @ t) p"
  by (simp add: has_prefix_iff)

lemma has_suffix_append [simp]: "has_suffix (t @ p) p"
  by (simp add: has_suffix_iff)

lemma trim_suffix_append [simp]: "trim_suffix (t @ p) p = t"
  by (simp add: trim_suffix_def)

lemma trim_prefix_append [simp]: "trim_prefix (p @ t) p = t"
  by (simp add: trim_prefix_def)

section \<open>Splitting and joining\<close>

text \<open>\<open>strings.Split(s, sep)\<close> for a one-byte separator: never empty.\<close>

fun split_on :: "char \<Rightarrow> string \<Rightarrow> string list" where
  "split_on c [] = [[]]"
| "split_on c (x # xs) =
     (if x = c then [] # split_on c xs
      else case split_on c xs of [] \<Rightarrow> [[x]] | y # ys \<Rightarrow> (x # y) # ys)"

fun join_with :: "string \<Rightarrow> string list \<Rightarrow> string" where
  "join_with sep [] = []"
| "join_with sep [x] = x"
| "join_with sep (x # y # ys) = x @ sep @ join_with sep (y # ys)"

definition remove_char :: "char \<Rightarrow> string \<Rightarrow> string" where
  "remove_char c s = filter (\<lambda>x. x \<noteq> c) s"

lemma split_on_nonempty [simp]: "split_on c s \<noteq> []"
  by (induction s) (auto split: list.splits)

lemma split_on_no_sep: "p \<in> set (split_on c s) \<Longrightarrow> c \<notin> set p"
  by (induction s arbitrary: p) (force split: list.splits if_splits)+

lemma join_split [simp]: "join_with [c] (split_on c s) = s"
proof (induction s)
  case (Cons x xs)
  obtain y ys where "split_on c xs = y # ys" by (cases "split_on c xs") auto
  with Cons show ?case by (cases ys) auto
qed simp

lemma split_on_absent: "c \<notin> set s \<Longrightarrow> split_on c s = [s]"
  by (induction s) auto

lemma split_on_append_sep: "c \<notin> set a \<Longrightarrow> split_on c (a @ c # b) = a # split_on c b"
  by (induction a) (auto split: list.splits)

section \<open>Decimal numbers\<close>

definition digit_char :: "nat \<Rightarrow> char" where
  "digit_char d = char_of (48 + d)"

definition digit_val :: "char \<Rightarrow> nat" where
  "digit_val c = char_code c - 48"

fun nat_digits :: "nat \<Rightarrow> string" where
  "nat_digits n = (if n < 10 then [digit_char n] else nat_digits (n div 10) @ [digit_char (n mod 10)])"

declare nat_digits.simps [simp del]

definition itoa :: "int \<Rightarrow> string" where
  "itoa i = (if i < 0 then ''-'' @ nat_digits (nat (- i)) else nat_digits (nat i))"

definition digits_val :: "string \<Rightarrow> nat" where
  "digits_val s = foldl (\<lambda>n c. 10 * n + digit_val c) 0 s"

text \<open>
  \<open>strconv.ParseInt(s, 10, 64)\<close> and \<open>strconv.Atoi\<close> on a 64-bit platform: an optional
  sign, one or more digits, and the range check.
\<close>

definition parse_int :: "string \<Rightarrow> int option" where
  "parse_int s =
     (let neg = (has_prefix s ''-'');
          ds = (if has_prefix s ''-'' \<or> has_prefix s ''+'' then tl s else s);
          v = (if neg then - int (digits_val ds) else int (digits_val ds))
      in if ds = [] \<or> \<not> list_all is_digit ds then None
         else if - (2 ^ 63) \<le> v \<and> v < 2 ^ 63 then Some v else None)"

lemma digit_char_is_digit [simp]: "d < 10 \<Longrightarrow> is_digit (digit_char d)"
  by (simp add: is_digit_def digit_char_def char_code_char_of)

lemma digit_val_digit_char [simp]: "d < 10 \<Longrightarrow> digit_val (digit_char d) = d"
  by (simp add: digit_val_def digit_char_def char_code_char_of)

lemma nat_digits_all_digits: "list_all is_digit (nat_digits n)"
  by (induction n rule: nat_digits.induct) (subst nat_digits.simps, simp)

lemma nat_digits_nonempty [simp]: "nat_digits n \<noteq> []"
  by (subst nat_digits.simps) simp

lemma digits_val_snoc: "digits_val (s @ [c]) = 10 * digits_val s + digit_val c"
  by (simp add: digits_val_def)

lemma digits_val_nat_digits [simp]: "digits_val (nat_digits n) = n"
proof (induction n rule: nat_digits.induct)
  case (1 n)
  show ?case
  proof (cases "n < 10")
    case True
    then show ?thesis by (subst nat_digits.simps) (simp add: digits_val_def)
  next
    case False
    with 1 show ?thesis by (subst nat_digits.simps) (simp add: digits_val_snoc)
  qed
qed

lemma is_digit_not_sign: "is_digit c \<Longrightarrow> c \<noteq> CHR ''-'' \<and> c \<noteq> CHR ''+''"
  by (auto simp: is_digit_def char_code_def)

lemma parse_int_itoa:
  assumes "- (2 ^ 63) \<le> i" and "i < 2 ^ 63"
  shows "parse_int (itoa i) = Some i"
proof (cases "i < 0")
  case True
  with assms nat_digits_all_digits [of "nat (- i)"] show ?thesis
    by (simp add: parse_int_def itoa_def has_prefix_def)
next
  case False
  obtain c cs where ds: "nat_digits (nat i) = c # cs"
    by (cases "nat_digits (nat i)") auto
  with nat_digits_all_digits [of "nat i"] have c: "is_digit c" by simp
  have sign: "\<not> has_prefix (nat_digits (nat i)) ''-''" "\<not> has_prefix (nat_digits (nat i)) ''+''"
    using is_digit_not_sign [OF c] ds by (auto simp: has_prefix_def)
  from False assms sign nat_digits_all_digits [of "nat i"] show ?thesis
    by (simp add: parse_int_def itoa_def)
qed

text \<open>Code equations on \<open>int\<close>, so that large numbers evaluate in binary.\<close>

function int_digits :: "int \<Rightarrow> string" where
  "int_digits i = (if i < 10 then [digit_char (nat i)]
     else int_digits (i div 10) @ [digit_char (nat (i mod 10))])"
  by pat_completeness auto
termination by (relation "measure nat") auto

declare int_digits.simps [simp del]

lemma int_digits_nat: "int_digits (int n) = nat_digits n"
proof (induction n rule: nat_digits.induct)
  case (1 n)
  then show ?case
    by (subst nat_digits.simps, subst int_digits.simps) (simp add: zdiv_int nat_mod_distrib)
qed

lemma itoa_code [code]:
  "itoa i = (if i < 0 then ''-'' @ int_digits (- i) else int_digits i)"
  using int_digits_nat [of "nat i"] int_digits_nat [of "nat (- i)"]
  by (simp add: itoa_def split: if_splits)

definition int_of_digits :: "string \<Rightarrow> int" where
  "int_of_digits s = foldl (\<lambda>n c. 10 * n + int (digit_val c)) 0 s"

lemma int_digits_val [code_unfold]: "int (digits_val s) = int_of_digits s"
  by (induction s rule: rev_induct) (simp_all add: digits_val_def int_of_digits_def)

end
