(* ===== verification/Go_Float.thy ===== *)
theory Go_Float
  imports Wf_Prelude Complex_Main
begin

text \<open>
  Go's \<open>float64\<close>: IEEE 754 binary64 with round-to-nearest-even, executable over the
  rationals. A finite value is its exact rational value; every arithmetic operation computes
  exactly and then rounds (\<open>fl\<close>) to 53 significant bits with the subnormal and overflow
  limits of the format. Infinities and NaN are separate constructors, and comparisons follow
  IEEE (NaN is unequal to everything). The sign of zero is not kept: no code modelled here
  divides by a zero it did not test or prints one.
\<close>

named_theorems f64_simps "evaluation of float64 operations on constructors"

section \<open>Rounding\<close>

function nbits :: "int \<Rightarrow> int" where
  "nbits n = (if n \<le> 0 then 0 else 1 + nbits (n div 2))"
  by pat_completeness auto
termination
  by (relation "measure nat") auto

declare nbits.simps [simp del]

lemma nbits_bounds: "0 < n \<Longrightarrow> 2 ^ nat (nbits n - 1) \<le> n \<and> n < 2 ^ nat (nbits n) \<and> 0 < nbits n"
proof (induction n rule: nbits.induct)
  case (1 n)
  show ?case
  proof (cases "n div 2 \<le> 0")
    case True
    with "1.prems" have "n = 1" by linarith
    then show ?thesis by (simp add: nbits.simps)
  next
    case False
    have step: "nbits n = 1 + nbits (n div 2)"
      using "1.prems" by (subst nbits.simps) simp
    have ih: "2 ^ nat (nbits (n div 2) - 1) \<le> n div 2" "n div 2 < 2 ^ nat (nbits (n div 2))"
        "0 < nbits (n div 2)"
      using "1.IH" "1.prems" False by simp_all
    then obtain k where k: "nbits (n div 2) = int (Suc k)"
      by (metis not0_implies_Suc of_nat_0_less_iff pos_int_cases less_numeral_extra(3))
    have "(2::int) ^ k \<le> n div 2" "n div 2 < 2 * 2 ^ k"
      using ih(1,2) by (simp_all add: k nat_add_distrib)
    then have "2 * 2 ^ k \<le> n" "n < 4 * 2 ^ k" by linarith+
    then show ?thesis unfolding step k by (simp add: nat_add_distrib)
  qed
qed

text \<open>\<open>flog2 q\<close> is the exponent of the leading bit of a positive rational.\<close>

definition flog2 :: "rat \<Rightarrow> int" where
  "flog2 q = (case quotient_of q of (n, d) \<Rightarrow>
     let e = nbits n - nbits d
     in if 2 powi e \<le> q then e else e - 1)"

lemma powi_of_nat_diff: "(2::rat) powi (int a - int b) = 2 ^ a / 2 ^ b"
  by (simp add: power_int_diff)

lemma nat_pred: "nat (k - 1) = nat k - 1"
  by arith

lemma flog2_bounds:
  assumes "0 < q"
  shows "2 powi flog2 q \<le> q" and "q < 2 powi (flog2 q + 1)"
proof -
  obtain n d where nd: "quotient_of q = (n, d)" by (cases "quotient_of q")
  have d: "0 < d" using nd by (rule quotient_of_denom_pos)
  have q: "q = of_int n / of_int d" using nd by (rule quotient_of_div)
  have n: "0 < n" using assms d by (simp add: q zero_less_divide_iff)
  define a b where "a = nat (nbits n)" and "b = nat (nbits d)"
  have nb: "2 ^ (a - 1) \<le> n" "n < 2 ^ a" "0 < a" and na: "nbits n = int a"
    using nbits_bounds [OF n] nat_pred [of "nbits n"] by (simp_all add: a_def)
  have db: "2 ^ (b - 1) \<le> d" "d < 2 ^ b" "0 < b" and nd': "nbits d = int b"
    using nbits_bounds [OF d] nat_pred [of "nbits d"] by (simp_all add: b_def)
  have n_lo: "2 ^ (a - 1) \<le> (of_int n :: rat)" and n_hi: "(of_int n :: rat) < 2 ^ a"
    using nb(1,2) by (metis of_int_le_iff of_int_numeral of_int_power,
        metis of_int_less_iff of_int_numeral of_int_power)
  have d_lo: "2 ^ (b - 1) \<le> (of_int d :: rat)" and d_hi: "(of_int d :: rat) < 2 ^ b"
    using db(1,2) by (metis of_int_le_iff of_int_numeral of_int_power,
        metis of_int_less_iff of_int_numeral of_int_power)
  obtain a' b' where suc: "a = Suc a'" "b = Suc b'"
    using nb(3) db(3) by (cases a; cases b) auto
  have dpos: "(0::rat) < of_int d" using d by simp
  let ?e = "int a - int b"
  have lower: "2 powi (?e - 1) \<le> q"
  proof -
    have "2 powi (?e - 1) = (2::rat) ^ a' / 2 ^ b"
      unfolding suc(1) by (simp add: power_int_diff)
    also have "\<dots> \<le> of_int n / of_int d"
      using n_lo d_hi dpos n unfolding suc(1)
      by (intro frac_le) (simp_all add: suc)
    finally show ?thesis by (simp add: q)
  qed
  have upper: "q < 2 powi (?e + 1)"
  proof -
    have "of_int n / of_int d < (2::rat) ^ a / 2 ^ b'"
      using n_hi d_lo dpos n unfolding suc(2)
      by (intro frac_less) simp_all
    also have "(2::rat) ^ a / 2 ^ b' = 2 powi (?e + 1)"
      unfolding suc(2) by (simp add: power_int_diff)
    finally show ?thesis by (simp add: q)
  qed
  have fl: "flog2 q = (if 2 powi ?e \<le> q then ?e else ?e - 1)"
    by (simp add: flog2_def nd na nd')
  show "2 powi flog2 q \<le> q" using lower by (simp add: fl)
  show "q < 2 powi (flog2 q + 1)" using upper by (simp add: fl)
qed

lemma flog2_less:
  assumes "0 < q" and "q < 2 powi k" shows "flog2 q < k"
proof (rule ccontr)
  assume "\<not> flog2 q < k"
  then have "(2::rat) powi k \<le> 2 powi flog2 q" by (simp add: power_int_increasing)
  with flog2_bounds(1) [OF assms(1)] assms(2) show False by linarith
qed

definition round_even :: "rat \<Rightarrow> int" where
  "round_even q = (let f = \<lfloor>q\<rfloor>; r = q - of_int f in
     if r < 1 / 2 then f else if 1 / 2 < r then f + 1 else if even f then f else f + 1)"

lemma round_even_of_int [simp]: "round_even (of_int n) = n"
  by (simp add: round_even_def)

lemma round_even_bounds: "\<lfloor>q\<rfloor> \<le> round_even q \<and> round_even q \<le> \<lfloor>q\<rfloor> + 1"
  by (simp add: round_even_def Let_def)

lemma round_even_nonneg: "0 \<le> q \<Longrightarrow> 0 \<le> round_even q"
  using round_even_bounds [of q] by (meson order_trans zero_le_floor)

lemma round_even_mono: "x \<le> y \<Longrightarrow> round_even x \<le> round_even y"
proof -
  assume le: "x \<le> y"
  show ?thesis
  proof (cases "\<lfloor>x\<rfloor> = \<lfloor>y\<rfloor>")
    case True
    with le show ?thesis by (auto simp: round_even_def Let_def)
  next
    case False
    with le have "\<lfloor>x\<rfloor> + 1 \<le> \<lfloor>y\<rfloor>" using floor_mono [OF le] by linarith
    then show ?thesis using round_even_bounds [of x] round_even_bounds [of y] by linarith
  qed
qed

text \<open>The unit in the last place of a result: 53 significant bits, not below \<open>2 ^ (-1074)\<close>.\<close>

definition ulp_exp :: "rat \<Rightarrow> int" where
  "ulp_exp q = max (flog2 \<bar>q\<bar> - 52) (- 1074)"

definition rnd :: "rat \<Rightarrow> rat" where
  "rnd q = (if q = 0 then 0
            else if 0 < q then (let u = 2 powi ulp_exp q in of_int (round_even (q / u)) * u)
            else (let u = 2 powi ulp_exp q in - (of_int (round_even (- q / u)) * u)))"

lemma rnd_zero [simp]: "rnd 0 = 0"
  by (simp add: rnd_def)

lemma rnd_nonneg: "0 \<le> q \<Longrightarrow> 0 \<le> rnd q"
  by (auto simp: rnd_def Let_def intro!: mult_nonneg_nonneg round_even_nonneg)

lemma rnd_minus: "rnd (- q) = - rnd q"
  by (auto simp: rnd_def Let_def ulp_exp_def)

lemma rnd_nonpos: "q \<le> 0 \<Longrightarrow> rnd q \<le> 0"
  using rnd_nonneg [of "- q"] by (simp add: rnd_minus)

text \<open>Integers of at most 53 bits are represented exactly.\<close>

lemma rnd_exact_pos:
  assumes "0 < n" and "n < 2 ^ 53"
  shows "rnd (of_int n) = of_int n"
proof -
  let ?q = "of_int n :: rat"
  have pos: "0 < ?q" using assms by simp
  have "?q < of_int (2 ^ 53)" using assms(2) by (simp only: of_int_less_iff)
  then have "flog2 ?q < 53" using pos by (intro flog2_less) simp_all
  then have "ulp_exp ?q \<le> 0" using assms by (simp add: ulp_exp_def)
  then obtain k where k: "ulp_exp ?q = - int k"
    by (metis minus_minus neg_0_le_iff_le nonneg_int_cases)
  have "?q / 2 powi ulp_exp ?q = of_int (n * 2 ^ k)"
    by (simp add: k power_int_minus divide_inverse)
  then have "round_even (?q / 2 powi ulp_exp ?q) = n * 2 ^ k"
    by (metis round_even_of_int)
  then show ?thesis using pos
    by (simp add: rnd_def Let_def k power_int_minus)
qed

lemma rnd_exact: "\<bar>n\<bar> < 2 ^ 53 \<Longrightarrow> rnd (of_int n) = of_int n"
  using rnd_exact_pos [of n] rnd_exact_pos [of "- n"] rnd_minus [of "of_int (- n)"]
  by (cases n "0 :: int" rule: linorder_cases) auto

lemma rnd_one [simp]: "rnd 1 = 1"
  using rnd_exact [of 1] by simp

section \<open>Values and arithmetic\<close>

datatype f64 = Fin rat | PInf | NInf | NaN

definition fl :: "rat \<Rightarrow> f64" where
  "fl q = (let r = rnd q in
     if r \<noteq> 0 \<and> 1024 \<le> flog2 \<bar>r\<bar> then (if 0 < r then PInf else NInf) else Fin r)"

lemma fl_exact [f64_simps]:
  assumes "\<bar>n\<bar> < 2 ^ 53" shows "fl (of_int n) = Fin (of_int n)"
proof -
  have "flog2 \<bar>of_int n\<bar> < 1024" if "n \<noteq> 0"
  proof -
    have "\<bar>of_int n :: rat\<bar> < of_int (2 ^ 53)" using assms
      by (metis of_int_abs of_int_less_iff)
    then have "\<bar>of_int n :: rat\<bar> < 2 powi 53" by simp
    then have "flog2 \<bar>of_int n :: rat\<bar> < 53" using that by (intro flog2_less) simp_all
    then show ?thesis by simp
  qed
  with assms show ?thesis by (auto simp: fl_def rnd_exact Let_def)
qed

lemma fl_zero [simp]: "fl 0 = Fin 0"
  using fl_exact [of 0] by simp

lemma fl_one [simp]: "fl 1 = Fin 1"
  using fl_exact [of 1] by simp

definition f64_of_int :: "int \<Rightarrow> f64" where
  "f64_of_int i = fl (of_int i)"

abbreviation f64_zero :: f64 where "f64_zero \<equiv> Fin 0"

fun f64_neg :: "f64 \<Rightarrow> f64" where
  "f64_neg (Fin a) = Fin (- a)"
| "f64_neg PInf = NInf"
| "f64_neg NInf = PInf"
| "f64_neg NaN = NaN"

fun f64_abs :: "f64 \<Rightarrow> f64" where
  "f64_abs (Fin a) = Fin \<bar>a\<bar>"
| "f64_abs PInf = PInf"
| "f64_abs NInf = PInf"
| "f64_abs NaN = NaN"

fun f64_add :: "f64 \<Rightarrow> f64 \<Rightarrow> f64" where
  "f64_add NaN _ = NaN"
| "f64_add _ NaN = NaN"
| "f64_add (Fin a) (Fin b) = fl (a + b)"
| "f64_add PInf NInf = NaN"
| "f64_add NInf PInf = NaN"
| "f64_add PInf _ = PInf"
| "f64_add NInf _ = NInf"
| "f64_add _ PInf = PInf"
| "f64_add _ NInf = NInf"

definition f64_sub :: "f64 \<Rightarrow> f64 \<Rightarrow> f64" where
  "f64_sub a b = f64_add a (f64_neg b)"

definition inf_signed :: "rat \<Rightarrow> f64" where
  "inf_signed s = (if 0 < s then PInf else if s < 0 then NInf else NaN)"

fun f64_sign :: "f64 \<Rightarrow> rat" where
  "f64_sign (Fin a) = sgn a"
| "f64_sign PInf = 1"
| "f64_sign NInf = - 1"
| "f64_sign NaN = 0"

fun f64_mul :: "f64 \<Rightarrow> f64 \<Rightarrow> f64" where
  "f64_mul NaN _ = NaN"
| "f64_mul _ NaN = NaN"
| "f64_mul (Fin a) (Fin b) = fl (a * b)"
| "f64_mul a b = inf_signed (f64_sign a * f64_sign b)"

fun f64_div :: "f64 \<Rightarrow> f64 \<Rightarrow> f64" where
  "f64_div NaN _ = NaN"
| "f64_div _ NaN = NaN"
| "f64_div (Fin a) (Fin b) = (if b = 0 then inf_signed a else fl (a / b))"
| "f64_div (Fin a) _ = Fin 0"
| "f64_div a (Fin b) = inf_signed (f64_sign a * (if b < 0 then - 1 else 1))"
| "f64_div _ _ = NaN"

fun f64_lt :: "f64 \<Rightarrow> f64 \<Rightarrow> bool" where
  "f64_lt (Fin a) (Fin b) \<longleftrightarrow> a < b"
| "f64_lt NInf b \<longleftrightarrow> b \<noteq> NInf \<and> b \<noteq> NaN"
| "f64_lt (Fin a) PInf \<longleftrightarrow> True"
| "f64_lt _ _ \<longleftrightarrow> False"

fun f64_eq :: "f64 \<Rightarrow> f64 \<Rightarrow> bool" where
  "f64_eq NaN _ \<longleftrightarrow> False"
| "f64_eq a b \<longleftrightarrow> a = b"

definition f64_le :: "f64 \<Rightarrow> f64 \<Rightarrow> bool" where
  "f64_le a b \<longleftrightarrow> f64_lt a b \<or> f64_eq a b"

abbreviation f64_gt :: "f64 \<Rightarrow> f64 \<Rightarrow> bool" where "f64_gt a b \<equiv> f64_lt b a"
abbreviation f64_ge :: "f64 \<Rightarrow> f64 \<Rightarrow> bool" where "f64_ge a b \<equiv> f64_le b a"

definition f64_is_nan :: "f64 \<Rightarrow> bool" where
  "f64_is_nan x \<longleftrightarrow> x = NaN"

definition f64_is_inf :: "f64 \<Rightarrow> bool" where
  "f64_is_inf x \<longleftrightarrow> x = PInf \<or> x = NInf"

definition f64_finite :: "f64 \<Rightarrow> bool" where
  "f64_finite x \<longleftrightarrow> (case x of Fin _ \<Rightarrow> True | _ \<Rightarrow> False)"

text \<open>\<open>math.Round\<close> (half away from zero), \<open>math.Floor\<close> and \<open>math.Trunc\<close>.\<close>

definition round_away :: "rat \<Rightarrow> int" where
  "round_away q = (if 0 \<le> q then \<lfloor>q + 1 / 2\<rfloor> else - \<lfloor>- q + 1 / 2\<rfloor>)"

fun f64_round :: "f64 \<Rightarrow> f64" where
  "f64_round (Fin a) = Fin (of_int (round_away a))"
| "f64_round x = x"

fun f64_floor :: "f64 \<Rightarrow> f64" where
  "f64_floor (Fin a) = Fin (of_int \<lfloor>a\<rfloor>)"
| "f64_floor x = x"

definition trunc_rat :: "rat \<Rightarrow> int" where
  "trunc_rat q = (if 0 \<le> q then \<lfloor>q\<rfloor> else - \<lfloor>- q\<rfloor>)"

fun f64_trunc :: "f64 \<Rightarrow> f64" where
  "f64_trunc (Fin a) = Fin (of_int (trunc_rat a))"
| "f64_trunc x = x"

section \<open>Laws the components use\<close>

lemma f64_eq_Fin_iff [simp]: "f64_eq x (Fin a) \<longleftrightarrow> x = Fin a"
  by (cases x) auto

lemma f64_div_self [simp]: "a \<noteq> 0 \<Longrightarrow> f64_div (Fin a) (Fin a) = Fin 1"
  by simp

lemma f64_mul_zero [simp]: "f64_mul (Fin 0) (Fin a) = Fin 0" "f64_mul (Fin a) (Fin 0) = Fin 0"
  by simp_all

lemma fl_nonneg: "0 \<le> q \<Longrightarrow> fl q = PInf \<or> (\<exists>r. fl q = Fin r \<and> 0 \<le> r)"
  using rnd_nonneg [of q] by (auto simp: fl_def Let_def)

lemma fl_nonpos: "q \<le> 0 \<Longrightarrow> fl q = NInf \<or> (\<exists>r. fl q = Fin r \<and> r \<le> 0)"
  using rnd_nonpos [of q] by (auto simp: fl_def Let_def)

lemma f64_lt_irrefl [simp]: "\<not> f64_lt x x"
  by (cases x) auto

lemma f64_lt_trans: "f64_lt x y \<Longrightarrow> f64_lt y z \<Longrightarrow> f64_lt x z"
  by (cases x; cases y; cases z) auto

lemma f64_lt_asym: "f64_lt x y \<Longrightarrow> \<not> f64_lt y x"
  by (cases x; cases y) auto

text \<open>\<open>int(x)\<close> on amd64: out of range and NaN give the least integer.\<close>

definition int_of_f64 :: "f64 \<Rightarrow> int" where
  "int_of_f64 x = (case x of Fin q \<Rightarrow> if - (2 ^ 63) \<le> trunc_rat q \<and> trunc_rat q < 2 ^ 63 then trunc_rat q else - (2 ^ 63)
     | _ \<Rightarrow> - (2 ^ 63))"

end
