(* ===== verification/Brokerage_Domain.thy ===== *)
theory Brokerage_Domain
  imports Go_Strings Go_Float
begin

text \<open>
  The domain entities of \<open>internal/domain/brokerage\<close> and the snapshot and paging types of
  \<open>internal/domain/sync\<close>: one record per Go struct, fields in the source's order. Go's
  string-typed enums (\<open>ConnectionStatus\<close>, \<open>AccountType\<close>, \<open>ActivityType\<close>,
  \<open>OptionSide\<close>) are strings with named constants, since the persistence layer converts
  any stored text to them. A pointer field is an option. Each \<open>zero_*\<close> constant is the
  type's Go zero value, so that a composite literal is an update of it.
\<close>

section \<open>Instruments\<close>

record currency =
  cur_code :: string
  cur_name :: string

record symbol_type =
  sty_code :: string
  sty_description :: string
  sty_is_supported :: bool

record exchange =
  exc_code :: string
  exc_mic_code :: string
  exc_name :: string
  exc_suffix :: string

record symbol =
  sym_symbol :: string
  sym_raw_symbol :: string
  sym_description :: string
  sym_name :: string
  sym_type :: symbol_type
  sym_exchange :: exchange
  sym_currency :: currency
  sym_figi_code :: string

definition zero_currency :: currency where
  "zero_currency = \<lparr>cur_code = [], cur_name = []\<rparr>"

definition zero_symbol_type :: symbol_type where
  "zero_symbol_type = \<lparr>sty_code = [], sty_description = [], sty_is_supported = False\<rparr>"

definition zero_exchange :: exchange where
  "zero_exchange = \<lparr>exc_code = [], exc_mic_code = [], exc_name = [], exc_suffix = []\<rparr>"

definition zero_symbol :: symbol where
  "zero_symbol = \<lparr>sym_symbol = [], sym_raw_symbol = [], sym_description = [], sym_name = [],
     sym_type = zero_symbol_type, sym_exchange = zero_exchange, sym_currency = zero_currency,
     sym_figi_code = []\<rparr>"

abbreviation currency_of :: "string \<Rightarrow> currency" where
  "currency_of c \<equiv> \<lparr>cur_code = c, cur_name = []\<rparr>"

definition OptionCall :: string where "OptionCall = ''CALL''"
definition OptionPut :: string where "OptionPut = ''PUT''"

record option_symbol =
  opt_ticker :: string
  opt_option_type :: string
  opt_strike_price :: f64
  opt_expiration_date :: time
  opt_is_mini_option :: bool
  opt_underlying :: symbol

definition zero_option_symbol :: option_symbol where
  "zero_option_symbol = \<lparr>opt_ticker = [], opt_option_type = [], opt_strike_price = f64_zero,
     opt_expiration_date = 0, opt_is_mini_option = False, opt_underlying = zero_symbol\<rparr>"

section \<open>Connections and accounts\<close>

definition ConnectionActive :: string where "ConnectionActive = ''active''"
definition ConnectionDisconnected :: string where "ConnectionDisconnected = ''disconnected''"
definition ConnectionError :: string where "ConnectionError = ''error''"

record connection =
  con_id :: string
  con_authorization_id :: string
  con_brokerage_name :: string
  con_brokerage_slug :: string
  con_display_name :: string
  con_logo_url :: string
  con_square_logo_url :: string
  con_disabled :: bool
  con_name :: string
  con_status :: string
  con_updated_at :: time

definition zero_connection :: connection where
  "zero_connection = \<lparr>con_id = [], con_authorization_id = [], con_brokerage_name = [],
     con_brokerage_slug = [], con_display_name = [], con_logo_url = [], con_square_logo_url = [],
     con_disabled = False, con_name = [], con_status = [], con_updated_at = 0\<rparr>"

definition AccountTypeSecurities :: string where "AccountTypeSecurities = ''SECURITIES''"
definition AccountTypeMargin :: string where "AccountTypeMargin = ''MARGIN''"
definition AccountTypeCash :: string where "AccountTypeCash = ''CASH''"
definition AccountTypeCryptocurrency :: string where
  "AccountTypeCryptocurrency = ''CRYPTOCURRENCY''"
definition AccountTypeCreditCard :: string where "AccountTypeCreditCard = ''CREDIT_CARD''"

record account =
  acc_id :: string
  acc_name :: string
  acc_account_number :: string
  acc_type :: string
  acc_raw_type :: string
  acc_currency :: string
  acc_balance_total :: f64
  acc_balance_currency :: string
  acc_brokerage_authorization :: string
  acc_institution_name :: string
  acc_sync_enabled :: bool
  acc_shared_with_household :: bool
  acc_is_paper :: bool
  acc_status :: string
  acc_created_date :: time
  acc_last_tx_sync :: "time option"
  acc_last_holdings_sync :: "time option"
  acc_first_tx_date :: "time option"
  acc_initial_tx_sync_done :: bool
  acc_initial_holdings_done :: bool
  acc_activity_sync_offset :: int
  acc_owner_user_id :: string
  acc_owner_full_name :: string
  acc_owner_email :: string

definition zero_account :: account where
  "zero_account = \<lparr>acc_id = [], acc_name = [], acc_account_number = [], acc_type = [],
     acc_raw_type = [], acc_currency = [], acc_balance_total = f64_zero,
     acc_balance_currency = [], acc_brokerage_authorization = [], acc_institution_name = [],
     acc_sync_enabled = False, acc_shared_with_household = False, acc_is_paper = False,
     acc_status = [], acc_created_date = 0, acc_last_tx_sync = None,
     acc_last_holdings_sync = None, acc_first_tx_date = None, acc_initial_tx_sync_done = False,
     acc_initial_holdings_done = False, acc_activity_sync_offset = 0, acc_owner_user_id = [],
     acc_owner_full_name = [], acc_owner_email = []\<rparr>"

section \<open>Activities\<close>

definition ActivityBuy :: string where "ActivityBuy = ''BUY''"
definition ActivitySell :: string where "ActivitySell = ''SELL''"
definition ActivityDividend :: string where "ActivityDividend = ''DIVIDEND''"
definition ActivityInterest :: string where "ActivityInterest = ''INTEREST''"
definition ActivityDeposit :: string where "ActivityDeposit = ''DEPOSIT''"
definition ActivityWithdrawal :: string where "ActivityWithdrawal = ''WITHDRAWAL''"
definition ActivityTransferIn :: string where "ActivityTransferIn = ''TRANSFER_IN''"
definition ActivityTransferOut :: string where "ActivityTransferOut = ''TRANSFER_OUT''"
definition ActivityFee :: string where "ActivityFee = ''FEE''"
definition ActivityTax :: string where "ActivityTax = ''TAX''"
definition ActivitySplit :: string where "ActivitySplit = ''SPLIT''"
definition ActivityConversion :: string where "ActivityConversion = ''CONVERSION''"
definition ActivityOptionBuy :: string where "ActivityOptionBuy = ''OPTION_BUY''"
definition ActivityOptionSell :: string where "ActivityOptionSell = ''OPTION_SELL''"
definition ActivityOptionExpiry :: string where "ActivityOptionExpiry = ''OPTION_EXPIRY''"
definition ActivityOptionAssignment :: string where
  "ActivityOptionAssignment = ''OPTION_ASSIGNMENT''"
definition ActivityOptionExercise :: string where "ActivityOptionExercise = ''OPTION_EXERCISE''"
definition ActivityUnknown :: string where "ActivityUnknown = ''UNKNOWN''"

lemmas activity_type_defs =
  ActivityBuy_def ActivitySell_def ActivityDividend_def ActivityInterest_def ActivityDeposit_def
  ActivityWithdrawal_def ActivityTransferIn_def ActivityTransferOut_def ActivityFee_def
  ActivityTax_def ActivitySplit_def ActivityConversion_def ActivityOptionBuy_def
  ActivityOptionSell_def ActivityOptionExpiry_def ActivityOptionAssignment_def
  ActivityOptionExercise_def ActivityUnknown_def

record activity =
  act_id :: string
  act_account_id :: string
  act_symbol :: "symbol option"
  act_currency_symbol :: "symbol option"
  act_is_external :: bool
  act_option_symbol :: "option_symbol option"
  act_price :: f64
  act_units :: f64
  act_amount :: f64
  act_currency :: currency
  act_type :: string
  act_subtype :: string
  act_raw_type :: string
  act_option_type :: string
  act_description :: string
  act_trade_date :: time
  act_settlement_date :: "time option"
  act_fee :: f64
  act_fee_asset :: string
  act_fx_rate :: "f64 option"
  act_institution :: string
  act_external_reference_id :: string
  act_provider_type :: string
  act_source_system :: string
  act_source_record_id :: string
  act_source_group_id :: string
  act_source_fingerprint :: string
  act_needs_review :: bool

definition zero_activity :: activity where
  "zero_activity = \<lparr>act_id = [], act_account_id = [], act_symbol = None,
     act_currency_symbol = None, act_is_external = False, act_option_symbol = None,
     act_price = f64_zero, act_units = f64_zero, act_amount = f64_zero,
     act_currency = zero_currency, act_type = [], act_subtype = [], act_raw_type = [],
     act_option_type = [], act_description = [], act_trade_date = 0, act_settlement_date = None,
     act_fee = f64_zero, act_fee_asset = [], act_fx_rate = None, act_institution = [],
     act_external_reference_id = [], act_provider_type = [], act_source_system = [],
     act_source_record_id = [], act_source_group_id = [], act_source_fingerprint = [],
     act_needs_review = False\<rparr>"

section \<open>Holdings\<close>

record position =
  pos_symbol :: symbol
  pos_units :: f64
  pos_price :: f64
  pos_open_pnl :: f64
  pos_average_purchase_price :: f64
  pos_currency :: currency
  pos_cash_equivalent :: bool

definition zero_position :: position where
  "zero_position = \<lparr>pos_symbol = zero_symbol, pos_units = f64_zero, pos_price = f64_zero,
     pos_open_pnl = f64_zero, pos_average_purchase_price = f64_zero,
     pos_currency = zero_currency, pos_cash_equivalent = False\<rparr>"

record option_position =
  opp_option_symbol :: option_symbol
  opp_units :: f64
  opp_price :: f64
  opp_average_purchase_price :: f64
  opp_currency :: currency

record balance =
  bal_currency :: currency
  bal_cash :: f64
  bal_buying_power :: f64

record holdings =
  hol_account_id :: string
  hol_balances :: "balance list"
  hol_positions :: "position list"
  hol_option_positions :: "option_position list"
  hol_captured_at :: time
  hol_partial :: bool

definition zero_holdings :: holdings where
  "zero_holdings = \<lparr>hol_account_id = [], hol_balances = [], hol_positions = [],
     hol_option_positions = [], hol_captured_at = 0, hol_partial = False\<rparr>"

section \<open>Snapshots and paging\<close>

text \<open>
  A Go map keyed by account id is an association list: the order of the list is the order
  in which one \<open>range\<close> loop visits it, so a statement about every list covers every
  iteration order Go may choose.
\<close>

record broker_snapshot =
  snap_connection :: connection
  snap_connections :: "connection list"
  snap_accounts :: "account list"
  snap_holdings :: "holdings list"
  snap_activities :: "(string \<times> activity list) list"
  snap_retracted_activities :: "(string \<times> string list) list"

definition zero_snapshot :: broker_snapshot where
  "zero_snapshot = \<lparr>snap_connection = zero_connection, snap_connections = [],
     snap_accounts = [], snap_holdings = [], snap_activities = [],
     snap_retracted_activities = []\<rparr>"

record activity_sync_state =
  ass_account_id :: string
  ass_initial_sync_completed :: bool
  ass_last_successful_sync :: "time option"
  ass_next_offset :: int

record activity_page =
  pag_account_id :: string
  pag_items :: "activity list"
  pag_next_offset :: int
  pag_complete :: bool
  pag_first_transaction_date :: "time option"

text \<open>\<open>ActivitySyncProgress\<close>, the checkpoint of a paged import (\<open>domain/repository\<close>).\<close>

record activity_sync_progress =
  prg_next_offset :: int
  prg_first_transaction_date :: "time option"
  prg_completed_at :: "time option"

end
