(* ===== verification/Persistence_Models.thy ===== *)
theory Persistence_Models
  imports Brokerage_Domain
begin

text \<open>
  The persistence objects of \<open>internal/infrastructure/persistence/*_model.go\<close> and their
  conversions from and to the domain. The activities table flattens two symbols and one
  option contract into columns; the columns of one instrument are grouped here in
  \<open>symbol_cols\<close> and \<open>underlying_cols\<close> (which, as in the schema, has no name column).
  The JSONB columns of a holdings row are the encoded values themselves: \<open>encoding/json\<close>
  is the inverse of its decoder on finite numbers and refuses NaN and infinities.
\<close>

section \<open>Times and JSON\<close>

definition orZeroTime :: "time option \<Rightarrow> time" where
  "orZeroTime t = (case t of None \<Rightarrow> 0 | Some x \<Rightarrow> x)"

definition nullableTime :: "time \<Rightarrow> time option" where
  "nullableTime t = (if time_is_zero t then None else Some t)"

lemma orZeroTime_nullableTime [simp]: "orZeroTime (nullableTime t) = t"
  by (simp add: orZeroTime_def nullableTime_def)

section \<open>Connections\<close>

record connection_po =
  cpo_id :: string
  cpo_authorization_id :: string
  cpo_brokerage_name :: string
  cpo_brokerage_slug :: string
  cpo_display_name :: string
  cpo_logo_url :: string
  cpo_square_logo_url :: string
  cpo_disabled :: bool
  cpo_name :: string
  cpo_status :: string
  cpo_updated_at :: time

definition connection_to_domain :: "connection_po \<Rightarrow> connection" where
  "connection_to_domain p = \<lparr>con_id = cpo_id p, con_authorization_id = cpo_authorization_id p,
     con_brokerage_name = cpo_brokerage_name p, con_brokerage_slug = cpo_brokerage_slug p,
     con_display_name = cpo_display_name p, con_logo_url = cpo_logo_url p,
     con_square_logo_url = cpo_square_logo_url p, con_disabled = cpo_disabled p,
     con_name = cpo_name p, con_status = cpo_status p, con_updated_at = cpo_updated_at p\<rparr>"

definition connectionFromDomain :: "time \<Rightarrow> connection \<Rightarrow> connection_po" where
  "connectionFromDomain now c = \<lparr>cpo_id = con_id c,
     cpo_authorization_id = con_authorization_id c,
     cpo_brokerage_name = con_brokerage_name c, cpo_brokerage_slug = con_brokerage_slug c,
     cpo_display_name = con_display_name c, cpo_logo_url = con_logo_url c,
     cpo_square_logo_url = con_square_logo_url c, cpo_disabled = con_disabled c,
     cpo_name = con_name c,
     cpo_status = (if con_status c = [] then ConnectionActive else con_status c),
     cpo_updated_at = (if time_is_zero (con_updated_at c) then now else con_updated_at c)\<rparr>"

lemma connection_round_trip:
  "con_status c \<noteq> [] \<Longrightarrow> con_updated_at c \<noteq> 0 \<Longrightarrow>
   connection_to_domain (connectionFromDomain now c) = c"
  by (simp add: connection_to_domain_def connectionFromDomain_def)

section \<open>Accounts\<close>

record account_po =
  acp_id :: string
  acp_name :: string
  acp_account_number :: string
  acp_type :: string
  acp_raw_type :: string
  acp_currency :: string
  acp_balance_total :: f64
  acp_balance_currency :: string
  acp_brokerage_authorization :: string
  acp_institution_name :: string
  acp_sync_enabled :: bool
  acp_shared_with_household :: bool
  acp_is_paper :: bool
  acp_status :: string
  acp_created_date :: time
  acp_last_tx_sync :: "time option"
  acp_last_holdings_sync :: "time option"
  acp_first_tx_date :: "time option"
  acp_initial_tx_sync_done :: bool
  acp_initial_holdings_done :: bool
  acp_activity_sync_offset :: int
  acp_owner_user_id :: string
  acp_owner_full_name :: string
  acp_owner_email :: string

definition account_to_domain :: "account_po \<Rightarrow> account" where
  "account_to_domain p = \<lparr>acc_id = acp_id p, acc_name = acp_name p,
     acc_account_number = acp_account_number p, acc_type = acp_type p,
     acc_raw_type = acp_raw_type p, acc_currency = acp_currency p,
     acc_balance_total = acp_balance_total p, acc_balance_currency = acp_balance_currency p,
     acc_brokerage_authorization = acp_brokerage_authorization p,
     acc_institution_name = acp_institution_name p, acc_sync_enabled = acp_sync_enabled p,
     acc_shared_with_household = acp_shared_with_household p, acc_is_paper = acp_is_paper p,
     acc_status = acp_status p, acc_created_date = acp_created_date p,
     acc_last_tx_sync = acp_last_tx_sync p, acc_last_holdings_sync = acp_last_holdings_sync p,
     acc_first_tx_date = acp_first_tx_date p,
     acc_initial_tx_sync_done = acp_initial_tx_sync_done p,
     acc_initial_holdings_done = acp_initial_holdings_done p,
     acc_activity_sync_offset = acp_activity_sync_offset p,
     acc_owner_user_id = acp_owner_user_id p, acc_owner_full_name = acp_owner_full_name p,
     acc_owner_email = acp_owner_email p\<rparr>"

definition accountFromDomain :: "time \<Rightarrow> account \<Rightarrow> account_po" where
  "accountFromDomain now a = \<lparr>acp_id = acc_id a, acp_name = acc_name a,
     acp_account_number = acc_account_number a, acp_type = acc_type a,
     acp_raw_type = acc_raw_type a, acp_currency = acc_currency a,
     acp_balance_total = acc_balance_total a, acp_balance_currency = acc_balance_currency a,
     acp_brokerage_authorization = acc_brokerage_authorization a,
     acp_institution_name = acc_institution_name a, acp_sync_enabled = acc_sync_enabled a,
     acp_shared_with_household = acc_shared_with_household a, acp_is_paper = acc_is_paper a,
     acp_status = (if acc_status a = [] then ''open'' else acc_status a),
     acp_created_date = (if time_is_zero (acc_created_date a) then now else acc_created_date a),
     acp_last_tx_sync = acc_last_tx_sync a, acp_last_holdings_sync = acc_last_holdings_sync a,
     acp_first_tx_date = acc_first_tx_date a,
     acp_initial_tx_sync_done = acc_initial_tx_sync_done a,
     acp_initial_holdings_done = acc_initial_holdings_done a,
     acp_activity_sync_offset = acc_activity_sync_offset a,
     acp_owner_user_id = acc_owner_user_id a, acp_owner_full_name = acc_owner_full_name a,
     acp_owner_email = acc_owner_email a\<rparr>"

lemma account_round_trip:
  "acc_status a \<noteq> [] \<Longrightarrow> acc_created_date a \<noteq> 0 \<Longrightarrow>
   account_to_domain (accountFromDomain now a) = a"
  by (simp add: account_to_domain_def accountFromDomain_def)

section \<open>Activities\<close>

record symbol_cols =
  sc_ticker :: string
  sc_raw :: string
  sc_description :: string
  sc_name :: string
  sc_type_code :: string
  sc_type_desc :: string
  sc_type_supported :: bool
  sc_exchange_code :: string
  sc_exchange_mic :: string
  sc_exchange_name :: string
  sc_exchange_suffix :: string
  sc_currency_code :: string
  sc_currency_name :: string
  sc_figi :: string

record underlying_cols =
  uc_symbol :: string
  uc_raw :: string
  uc_desc :: string
  uc_type :: string
  uc_type_desc :: string
  uc_supported :: bool
  uc_exch :: string
  uc_mic :: string
  uc_exch_name :: string
  uc_exch_suffix :: string
  uc_curr :: string
  uc_curr_name :: string
  uc_figi :: string

record activity_po =
  apo_id :: string
  apo_account_id :: string
  apo_source_record_id :: string
  apo_symbol :: symbol_cols
  apo_currency_symbol :: symbol_cols
  apo_option_ticker :: string
  apo_option_side :: string
  apo_option_strike :: f64
  apo_option_expiry :: "time option"
  apo_option_is_mini :: bool
  apo_option_underlying :: underlying_cols
  apo_price :: f64
  apo_units :: f64
  apo_amount :: f64
  apo_currency_code :: string
  apo_currency_name :: string
  apo_type :: string
  apo_subtype :: string
  apo_raw_type :: string
  apo_option_type :: string
  apo_description :: string
  apo_trade_date :: time
  apo_settlement_date :: "time option"
  apo_fee :: f64
  apo_fee_asset :: string
  apo_fx_rate :: "f64 option"
  apo_institution :: string
  apo_external_reference_id :: string
  apo_provider_type :: string
  apo_source_system :: string
  apo_source_group_id :: string
  apo_source_fingerprint :: string
  apo_needs_review :: bool
  apo_is_external :: bool

definition symbol_of_cols :: "symbol_cols \<Rightarrow> symbol" where
  "symbol_of_cols c = \<lparr>sym_symbol = sc_ticker c, sym_raw_symbol = sc_raw c,
     sym_description = sc_description c, sym_name = sc_name c,
     sym_type = \<lparr>sty_code = sc_type_code c, sty_description = sc_type_desc c,
       sty_is_supported = sc_type_supported c\<rparr>,
     sym_exchange = \<lparr>exc_code = sc_exchange_code c, exc_mic_code = sc_exchange_mic c,
       exc_name = sc_exchange_name c, exc_suffix = sc_exchange_suffix c\<rparr>,
     sym_currency = \<lparr>cur_code = sc_currency_code c, cur_name = sc_currency_name c\<rparr>,
     sym_figi_code = sc_figi c\<rparr>"

definition cols_of_symbol :: "symbol \<Rightarrow> symbol_cols" where
  "cols_of_symbol s = \<lparr>sc_ticker = sym_symbol s, sc_raw = sym_raw_symbol s,
     sc_description = sym_description s, sc_name = sym_name s,
     sc_type_code = sty_code (sym_type s), sc_type_desc = sty_description (sym_type s),
     sc_type_supported = sty_is_supported (sym_type s),
     sc_exchange_code = exc_code (sym_exchange s), sc_exchange_mic = exc_mic_code (sym_exchange s),
     sc_exchange_name = exc_name (sym_exchange s), sc_exchange_suffix = exc_suffix (sym_exchange s),
     sc_currency_code = cur_code (sym_currency s), sc_currency_name = cur_name (sym_currency s),
     sc_figi = sym_figi_code s\<rparr>"

definition symbol_of_underlying :: "underlying_cols \<Rightarrow> symbol" where
  "symbol_of_underlying c = \<lparr>sym_symbol = uc_symbol c, sym_raw_symbol = uc_raw c,
     sym_description = uc_desc c, sym_name = [],
     sym_type = \<lparr>sty_code = uc_type c, sty_description = uc_type_desc c,
       sty_is_supported = uc_supported c\<rparr>,
     sym_exchange = \<lparr>exc_code = uc_exch c, exc_mic_code = uc_mic c,
       exc_name = uc_exch_name c, exc_suffix = uc_exch_suffix c\<rparr>,
     sym_currency = \<lparr>cur_code = uc_curr c, cur_name = uc_curr_name c\<rparr>,
     sym_figi_code = uc_figi c\<rparr>"

definition cols_of_underlying :: "symbol \<Rightarrow> underlying_cols" where
  "cols_of_underlying s = \<lparr>uc_symbol = sym_symbol s, uc_raw = sym_raw_symbol s,
     uc_desc = sym_description s, uc_type = sty_code (sym_type s),
     uc_type_desc = sty_description (sym_type s), uc_supported = sty_is_supported (sym_type s),
     uc_exch = exc_code (sym_exchange s), uc_mic = exc_mic_code (sym_exchange s),
     uc_exch_name = exc_name (sym_exchange s), uc_exch_suffix = exc_suffix (sym_exchange s),
     uc_curr = cur_code (sym_currency s), uc_curr_name = cur_name (sym_currency s),
     uc_figi = sym_figi_code s\<rparr>"

text \<open>A symbol or an option is present when its identifying columns are not empty.\<close>

definition symbol_opt_of_cols :: "symbol_cols \<Rightarrow> symbol option" where
  "symbol_opt_of_cols c =
     (if sc_ticker c \<noteq> [] \<or> sc_raw c \<noteq> [] then Some (symbol_of_cols c) else None)"

definition option_of_cols :: "activity_po \<Rightarrow> option_symbol option" where
  "option_of_cols p =
     (if apo_option_ticker p \<noteq> []
      then Some \<lparr>opt_ticker = apo_option_ticker p, opt_option_type = apo_option_side p,
             opt_strike_price = apo_option_strike p,
             opt_expiration_date = orZeroTime (apo_option_expiry p),
             opt_is_mini_option = apo_option_is_mini p,
             opt_underlying = symbol_of_underlying (apo_option_underlying p)\<rparr>
      else None)"

definition activity_to_domain :: "activity_po \<Rightarrow> activity" where
  "activity_to_domain p = \<lparr>act_id = apo_id p, act_account_id = apo_account_id p,
     act_symbol = symbol_opt_of_cols (apo_symbol p),
     act_currency_symbol = symbol_opt_of_cols (apo_currency_symbol p),
     act_is_external = apo_is_external p,
     act_option_symbol = option_of_cols p,
     act_price = apo_price p, act_units = apo_units p, act_amount = apo_amount p,
     act_currency = \<lparr>cur_code = apo_currency_code p, cur_name = apo_currency_name p\<rparr>,
     act_type = apo_type p, act_subtype = apo_subtype p, act_raw_type = apo_raw_type p,
     act_option_type = apo_option_type p, act_description = apo_description p,
     act_trade_date = apo_trade_date p, act_settlement_date = apo_settlement_date p,
     act_fee = apo_fee p, act_fee_asset = apo_fee_asset p, act_fx_rate = apo_fx_rate p,
     act_institution = apo_institution p,
     act_external_reference_id = apo_external_reference_id p,
     act_provider_type = apo_provider_type p, act_source_system = apo_source_system p,
     act_source_record_id = apo_source_record_id p, act_source_group_id = apo_source_group_id p,
     act_source_fingerprint = apo_source_fingerprint p,
     act_needs_review = apo_needs_review p\<rparr>"

definition activityFromDomain :: "string \<Rightarrow> activity \<Rightarrow> activity_po" where
  "activityFromDomain accountID a =
    (let s = (case act_symbol a of None \<Rightarrow> zero_symbol | Some x \<Rightarrow> x);
         cs = (case act_currency_symbol a of None \<Rightarrow> zero_symbol | Some x \<Rightarrow> x);
         opt = (case act_option_symbol a of None \<Rightarrow> zero_option_symbol | Some x \<Rightarrow> x)
     in \<lparr>apo_id = act_id a, apo_account_id = accountID,
         apo_source_record_id = act_source_record_id a,
         apo_symbol = cols_of_symbol s, apo_currency_symbol = cols_of_symbol cs,
         apo_option_ticker = opt_ticker opt, apo_option_side = opt_option_type opt,
         apo_option_strike = opt_strike_price opt,
         apo_option_expiry = nullableTime (opt_expiration_date opt),
         apo_option_is_mini = opt_is_mini_option opt,
         apo_option_underlying = cols_of_underlying (opt_underlying opt),
         apo_price = act_price a, apo_units = act_units a, apo_amount = act_amount a,
         apo_currency_code = cur_code (act_currency a),
         apo_currency_name = cur_name (act_currency a),
         apo_type = act_type a, apo_subtype = act_subtype a, apo_raw_type = act_raw_type a,
         apo_option_type = act_option_type a, apo_description = act_description a,
         apo_trade_date = act_trade_date a, apo_settlement_date = act_settlement_date a,
         apo_fee = act_fee a, apo_fee_asset = act_fee_asset a, apo_fx_rate = act_fx_rate a,
         apo_institution = act_institution a,
         apo_external_reference_id = act_external_reference_id a,
         apo_provider_type =
           (if act_provider_type a = [] then ''CUSTOM'' else act_provider_type a),
         apo_source_system =
           (if act_source_system a = [] then ''CUSTOM'' else act_source_system a),
         apo_source_group_id = act_source_group_id a,
         apo_source_fingerprint = act_source_fingerprint a,
         apo_needs_review = act_needs_review a, apo_is_external = act_is_external a\<rparr>)"

lemma symbol_of_cols_of_symbol [simp]: "symbol_of_cols (cols_of_symbol s) = s"
  by (simp add: symbol_of_cols_def cols_of_symbol_def)

lemma cols_of_symbol_of_cols [simp]: "cols_of_symbol (symbol_of_cols c) = c"
  by (simp add: symbol_of_cols_def cols_of_symbol_def)

lemma symbol_of_underlying_cols [simp]:
  "symbol_of_underlying (cols_of_underlying s) = s\<lparr>sym_name := []\<rparr>"
  by (simp add: symbol_of_underlying_def cols_of_underlying_def)

lemma cols_of_symbol_keys [simp]:
  "sc_ticker (cols_of_symbol s) = sym_symbol s" "sc_raw (cols_of_symbol s) = sym_raw_symbol s"
  by (simp_all add: cols_of_symbol_def)

subsection \<open>What the table can represent\<close>

text \<open>
  An activity survives the trip through its row exactly when its symbols have a ticker or a
  raw symbol, its option contract has a ticker and an underlying without a display name
  (the schema has no column for it), it belongs to the account the row is written under,
  and its provider and source system are set.
\<close>

definition symbol_storable :: "symbol option \<Rightarrow> bool" where
  "symbol_storable s \<longleftrightarrow>
     (case s of None \<Rightarrow> True | Some x \<Rightarrow> sym_symbol x \<noteq> [] \<or> sym_raw_symbol x \<noteq> [])"

definition option_storable :: "option_symbol option \<Rightarrow> bool" where
  "option_storable o' \<longleftrightarrow>
     (case o' of None \<Rightarrow> True | Some x \<Rightarrow> opt_ticker x \<noteq> [] \<and> sym_name (opt_underlying x) = [])"

definition activity_storable :: "string \<Rightarrow> activity \<Rightarrow> bool" where
  "activity_storable accountID a \<longleftrightarrow>
     act_account_id a = accountID \<and> symbol_storable (act_symbol a) \<and>
     symbol_storable (act_currency_symbol a) \<and> option_storable (act_option_symbol a) \<and>
     act_provider_type a \<noteq> [] \<and> act_source_system a \<noteq> []"

lemma symbol_opt_round_trip:
  "symbol_storable s \<Longrightarrow>
   symbol_opt_of_cols (cols_of_symbol (case s of None \<Rightarrow> zero_symbol | Some x \<Rightarrow> x)) = s"
  by (cases s) (auto simp: symbol_opt_of_cols_def symbol_storable_def zero_symbol_def)

lemma option_round_trip:
  "option_storable (act_option_symbol a) \<Longrightarrow>
   option_of_cols (activityFromDomain accountID a) = act_option_symbol a"
  by (cases "act_option_symbol a")
    (auto simp: option_of_cols_def option_storable_def activityFromDomain_def Let_def
      zero_option_symbol_def)

lemma activity_from_domain_symbols:
  "apo_symbol (activityFromDomain acc a) =
     cols_of_symbol (case act_symbol a of None \<Rightarrow> zero_symbol | Some x \<Rightarrow> x)"
  "apo_currency_symbol (activityFromDomain acc a) =
     cols_of_symbol (case act_currency_symbol a of None \<Rightarrow> zero_symbol | Some x \<Rightarrow> x)"
  by (simp_all add: activityFromDomain_def Let_def)

lemma activity_round_trip:
  "activity_storable accountID a \<longleftrightarrow>
   activity_to_domain (activityFromDomain accountID a) = a"
proof
  assume st: "activity_storable accountID a"
  then have "symbol_storable (act_symbol a)" "symbol_storable (act_currency_symbol a)"
      "option_storable (act_option_symbol a)" "act_provider_type a \<noteq> []"
      "act_source_system a \<noteq> []" "act_account_id a = accountID"
    by (simp_all add: activity_storable_def)
  then show "activity_to_domain (activityFromDomain accountID a) = a"
    unfolding activity_to_domain_def
    by (simp add: option_round_trip symbol_opt_round_trip activity_from_domain_symbols)
      (simp add: activityFromDomain_def Let_def)
next
  assume rt: "activity_to_domain (activityFromDomain accountID a) = a"
  let ?b = "activity_to_domain (activityFromDomain accountID a)"
  have "act_account_id ?b = accountID" "act_provider_type ?b \<noteq> []" "act_source_system ?b \<noteq> []"
    by (simp_all add: activity_to_domain_def activityFromDomain_def Let_def)
  moreover have "symbol_storable (act_symbol ?b)" "symbol_storable (act_currency_symbol ?b)"
    by (simp_all add: activity_to_domain_def symbol_opt_of_cols_def symbol_storable_def
        activity_from_domain_symbols symbol_of_cols_def cols_of_symbol_def)
  moreover have "option_storable (act_option_symbol ?b)"
    by (simp add: activity_to_domain_def option_of_cols_def option_storable_def
        symbol_of_underlying_def)
  ultimately show "activity_storable accountID a"
    unfolding rt by (simp add: activity_storable_def)
qed

lemma activity_from_domain_keys [simp]:
  "apo_account_id (activityFromDomain acc a) = acc"
  "apo_source_record_id (activityFromDomain acc a) = act_source_record_id a"
  "apo_id (activityFromDomain acc a) = act_id a"
  "apo_source_fingerprint (activityFromDomain acc a) = act_source_fingerprint a"
  "apo_needs_review (activityFromDomain acc a) = act_needs_review a"
  by (simp_all add: activityFromDomain_def Let_def)

section \<open>Holdings\<close>

record holdings_po =
  hpo_account_id :: string
  hpo_captured_at :: time
  hpo_balances :: "balance list"
  hpo_positions :: "position list"
  hpo_options :: "option_position list"

definition balance_finite :: "balance \<Rightarrow> bool" where
  "balance_finite b \<longleftrightarrow> f64_finite (bal_cash b) \<and> f64_finite (bal_buying_power b)"

definition position_finite :: "position \<Rightarrow> bool" where
  "position_finite p \<longleftrightarrow> f64_finite (pos_units p) \<and> f64_finite (pos_price p) \<and>
     f64_finite (pos_open_pnl p) \<and> f64_finite (pos_average_purchase_price p)"

definition option_position_finite :: "option_position \<Rightarrow> bool" where
  "option_position_finite p \<longleftrightarrow> f64_finite (opp_units p) \<and> f64_finite (opp_price p) \<and>
     f64_finite (opp_average_purchase_price p) \<and>
     f64_finite (opt_strike_price (opp_option_symbol p))"

text \<open>\<open>json.Marshal\<close> of a list of values, as far as the column can observe it.\<close>

definition json_marshal :: "('a \<Rightarrow> bool) \<Rightarrow> 'a list \<Rightarrow> 'a list res" where
  "json_marshal ok xs =
     (if list_all ok xs then Inr xs else Inl (ErrText ''json: unsupported value''))"

definition holdingsFromDomain :: "time \<Rightarrow> holdings \<Rightarrow> holdings_po res" where
  "holdingsFromDomain now h =
    (let captured = (if time_is_zero (hol_captured_at h) then now else hol_captured_at h) in
     case json_marshal balance_finite (hol_balances h) of
       Inl e \<Rightarrow> Inl (Wrapf ''holdings balances encode'' e)
     | Inr bs \<Rightarrow>
       (case json_marshal position_finite (hol_positions h) of
          Inl e \<Rightarrow> Inl (Wrapf ''holdings positions encode'' e)
        | Inr ps \<Rightarrow>
          (case json_marshal option_position_finite (hol_option_positions h) of
             Inl e \<Rightarrow> Inl (Wrapf ''holdings options encode'' e)
           | Inr os \<Rightarrow> Inr \<lparr>hpo_account_id = hol_account_id h, hpo_captured_at = captured,
               hpo_balances = bs, hpo_positions = ps, hpo_options = os\<rparr>)))"

definition holdings_to_domain :: "holdings_po \<Rightarrow> holdings" where
  "holdings_to_domain p = \<lparr>hol_account_id = hpo_account_id p, hol_balances = hpo_balances p,
     hol_positions = hpo_positions p, hol_option_positions = hpo_options p,
     hol_captured_at = hpo_captured_at p, hol_partial = False\<rparr>"

lemma holdings_round_trip:
  "holdingsFromDomain now h = Inr p \<Longrightarrow>
   holdings_to_domain p = h\<lparr>hol_captured_at :=
       (if hol_captured_at h = 0 then now else hol_captured_at h), hol_partial := False\<rparr>"
  by (auto simp: holdingsFromDomain_def holdings_to_domain_def json_marshal_def Let_def
      split: if_splits)

lemma holdings_from_domain_account:
  "holdingsFromDomain now h = Inr p \<Longrightarrow> hpo_account_id p = hol_account_id h"
  by (auto simp: holdingsFromDomain_def json_marshal_def Let_def split: if_splits)

section \<open>Cursors, tokens and prices\<close>

record sync_cursor =
  scu_scope :: string
  scu_position :: string
  scu_complete :: bool
  scu_updated_at :: time

record token_metadata =
  tok_token_id :: string
  tok_subject :: string
  tok_issued_at :: time
  tok_expires_at :: time

record historical_price =
  hpr_asset :: string
  hpr_timestamp :: time
  hpr_currency :: string
  hpr_price :: f64
  hpr_source :: string
  hpr_updated_at :: time

end
