(* ===== verification/Keyed_Table.thy ===== *)
theory Keyed_Table
  imports Wf_Prelude
begin

text \<open>
  A database table with a unique key, as the repositories use it: a list of rows in
  insertion order, \<open>INSERT ... ON CONFLICT (key) DO UPDATE\<close> (\<open>upsert_row\<close>, where
  \<open>merge old new\<close> says which columns the conflict clause refreshes; \<open>DO NOTHING\<close> is
  \<open>merge old new = old\<close>), \<open>UPDATE ... WHERE\<close> (\<open>update_rows\<close>) and
  \<open>DELETE ... WHERE\<close> (\<open>filter\<close>). The locale \<open>keyed_table\<close> states the one law
  a conflict clause must satisfy, that it leaves the key alone, and proves from it what every
  repository relies on; the repositories interpret it on their own rows.
\<close>

definition find_row :: "('r \<Rightarrow> 'k) \<Rightarrow> 'k \<Rightarrow> 'r list \<Rightarrow> 'r option" where
  "find_row key k rows = List.find (\<lambda>r. key r = k) rows"

fun upsert_row :: "('r \<Rightarrow> 'k) \<Rightarrow> ('r \<Rightarrow> 'r \<Rightarrow> 'r) \<Rightarrow> 'r \<Rightarrow> 'r list \<Rightarrow> 'r list" where
  "upsert_row key merge r [] = [r]"
| "upsert_row key merge r (x # xs) =
     (if key x = key r then merge x r # xs else x # upsert_row key merge r xs)"

definition update_rows :: "('r \<Rightarrow> bool) \<Rightarrow> ('r \<Rightarrow> 'r) \<Rightarrow> 'r list \<Rightarrow> 'r list" where
  "update_rows P f rows = map (\<lambda>r. if P r then f r else r) rows"

definition unique_keys :: "('r \<Rightarrow> 'k) \<Rightarrow> 'r list \<Rightarrow> bool" where
  "unique_keys key rows \<longleftrightarrow> distinct (map key rows)"

lemma find_row_Nil [simp]: "find_row key k [] = None"
  by (simp add: find_row_def)

lemma find_row_Cons [simp]:
  "find_row key k (r # rows) = (if key r = k then Some r else find_row key k rows)"
  by (simp add: find_row_def)

lemma find_row_SomeD: "find_row key k rows = Some r \<Longrightarrow> r \<in> set rows \<and> key r = k"
  by (induction rows) (auto split: if_splits)

lemma find_row_None_iff: "find_row key k rows = None \<longleftrightarrow> k \<notin> key ` set rows"
  by (induction rows) auto

lemma find_row_unique:
  "unique_keys key rows \<Longrightarrow> r \<in> set rows \<Longrightarrow> find_row key (key r) rows = Some r"
  by (induction rows) (auto simp: unique_keys_def)

lemma find_row_update_rows:
  assumes "\<And>r. P r \<Longrightarrow> key (f r) = key r"
  shows "find_row key k (update_rows P f rows) =
    map_option (\<lambda>r. if P r then f r else r) (find_row key k rows)"
  using assms by (induction rows) (auto simp: update_rows_def)

lemma find_row_update_key:
  assumes "\<And>r. key (f r) = key r"
  shows "find_row key k (update_rows (\<lambda>r. key r = j) f rows) =
    (if k = j then map_option f (find_row key k rows) else find_row key k rows)"
  using assms by (induction rows) (auto simp: update_rows_def)

lemma unique_keys_update_rows:
  assumes "\<And>r. P r \<Longrightarrow> key (f r) = key r"
  shows "unique_keys key (update_rows P f rows) \<longleftrightarrow> unique_keys key rows"
proof -
  have "map key (update_rows P f rows) = map key rows"
    using assms by (induction rows) (auto simp: update_rows_def)
  then show ?thesis by (simp add: unique_keys_def)
qed

lemma unique_keys_filter: "unique_keys key rows \<Longrightarrow> unique_keys key (filter P rows)"
  by (simp add: unique_keys_def distinct_map_filter)

lemma find_row_filter_key:
  "find_row key k (filter (\<lambda>r. key r \<notin> D) rows) = (if k \<in> D then None else find_row key k rows)"
  by (induction rows) auto

text \<open>A plain INSERT of some rows: a violated unique index rejects the whole statement.\<close>

definition insert_rows :: "('r \<Rightarrow> 'k) \<Rightarrow> 'r list \<Rightarrow> 'r list \<Rightarrow> 'r list res" where
  "insert_rows key rs rows =
    (if distinct (map key rs) \<and> (\<forall>r\<in>set rs. key r \<notin> key ` set rows) then Inr (rows @ rs)
     else Inl (ErrDB ''duplicate key value violates unique constraint''))"

lemma unique_keys_append:
  "unique_keys key (xs @ ys) \<longleftrightarrow>
     unique_keys key xs \<and> unique_keys key ys \<and> key ` set xs \<inter> key ` set ys = {}"
  by (simp add: unique_keys_def)

lemma insert_rows_Inr:
  "insert_rows key rs rows = Inr t \<longleftrightarrow>
     t = rows @ rs \<and> distinct (map key rs) \<and> (\<forall>r\<in>set rs. key r \<notin> key ` set rows)"
  by (auto simp: insert_rows_def)

lemma unique_insert_rows:
  "insert_rows key rs rows = Inr t \<Longrightarrow> unique_keys key rows \<Longrightarrow> unique_keys key t"
  by (auto simp: insert_rows_Inr unique_keys_def) (metis image_eqI)

text \<open>\<open>ON CONFLICT DO NOTHING\<close>: the stored row wins.\<close>

definition keep_old :: "'r \<Rightarrow> 'r \<Rightarrow> 'r" where
  "keep_old old new = old"

lemma find_upsert_keep_old:
  "find_row key k rows = Some e \<Longrightarrow> find_row key k (upsert_row key keep_old r rows) = Some e"
  by (induction rows) (auto simp: keep_old_def)

locale keyed_table =
  fixes key :: "'r \<Rightarrow> 'k"
    and merge :: "'r \<Rightarrow> 'r \<Rightarrow> 'r"
  assumes key_merge: "key old = key new \<Longrightarrow> key (merge old new) = key old"
begin

lemma keys_upsert: "key ` set (upsert_row key merge r rows) = insert (key r) (key ` set rows)"
  by (induction rows) (auto simp: key_merge)

lemma unique_upsert:
  "unique_keys key rows \<Longrightarrow> unique_keys key (upsert_row key merge r rows)"
proof (induction rows)
  case (Cons x xs)
  then show ?case
    using keys_upsert [of r xs] by (auto simp: unique_keys_def key_merge)
qed (simp add: unique_keys_def)

lemma find_upsert_same:
  "find_row key (key r) (upsert_row key merge r rows) =
     Some (case find_row key (key r) rows of None \<Rightarrow> r | Some x \<Rightarrow> merge x r)"
  by (induction rows) (auto simp: key_merge)

lemma find_upsert_other:
  "k \<noteq> key r \<Longrightarrow> find_row key k (upsert_row key merge r rows) = find_row key k rows"
  by (induction rows) (auto simp: key_merge)

lemma upsert_new: "key r \<notin> key ` set rows \<Longrightarrow> upsert_row key merge r rows = rows @ [r]"
  by (induction rows) auto

lemma upsert_keeps_others:
  "x \<in> set rows \<Longrightarrow> key x \<noteq> key r \<Longrightarrow> x \<in> set (upsert_row key merge r rows)"
  by (induction rows) auto

lemma filter_upsert_other:
  assumes "\<And>x. key x = key r \<Longrightarrow> \<not> P x"
  shows "filter P (upsert_row key merge r rows) = filter P rows"
  using assms key_merge by (induction rows) auto

lemma filter_upserts_other:
  assumes "\<And>r x. r \<in> set rs \<Longrightarrow> key x = key r \<Longrightarrow> \<not> P x"
  shows "filter P (fold (upsert_row key merge) rs rows) = filter P rows"
  using assms
proof (induction rs arbitrary: rows)
  case (Cons a rs)
  have "filter P (upsert_row key merge a rows) = filter P rows"
    using Cons.prems by (intro filter_upsert_other) auto
  then show ?case using Cons.IH [of "upsert_row key merge a rows"] Cons.prems by auto
qed simp

lemma find_upserts_other:
  "k \<notin> key ` set rs \<Longrightarrow>
   find_row key k (fold (upsert_row key merge) rs rows) = find_row key k rows"
  by (induction rs arbitrary: rows) (auto simp: find_upsert_other)

lemma unique_upserts:
  "unique_keys key rows \<Longrightarrow> unique_keys key (fold (upsert_row key merge) rs rows)"
  by (induction rs arbitrary: rows) (auto simp: unique_upsert)

lemma keys_upserts:
  "key ` set (fold (upsert_row key merge) rs rows) = key ` set rs \<union> key ` set rows"
  by (induction rs arbitrary: rows) (auto simp: keys_upsert)

lemma find_upserts_same:
  assumes "distinct (map key rs)" and "r \<in> set rs"
  shows "find_row key (key r) (fold (upsert_row key merge) rs rows) =
     Some (case find_row key (key r) rows of None \<Rightarrow> r | Some x \<Rightarrow> merge x r)"
  using assms
proof (induction rs arbitrary: rows)
  case (Cons y ys)
  show ?case
  proof (cases "r = y")
    case True
    with Cons.prems show ?thesis by (auto simp: find_upserts_other find_upsert_same)
  next
    case False
    with Cons.prems have r: "r \<in> set ys" "distinct (map key ys)" by auto
    moreover from this Cons.prems have "key r \<noteq> key y" by (metis distinct.simps(2) imageI list.simps(9) set_map)
    ultimately show ?thesis
      using Cons.IH [of "upsert_row key merge y rows"] by (simp add: find_upsert_other)
  qed
qed simp

end

lemma upsert_absorb:
  "find_row key (key r) rows = Some x \<Longrightarrow> merge x r = x \<Longrightarrow> upsert_row key merge r rows = rows"
  by (induction rows) (auto split: if_splits)

text \<open>
  A conflict clause that is settled by a second write of the same row: writing a batch again
  changes nothing.
\<close>

locale settled_table = keyed_table +
  assumes merge_again: "key old = key new \<Longrightarrow> merge (merge old new) new = merge old new"
    and merge_self: "merge new new = new"
begin

lemma upserts_again:
  assumes "distinct (map key rs)"
  shows "fold (upsert_row key merge) rs (fold (upsert_row key merge) rs rows) =
    fold (upsert_row key merge) rs rows"
proof -
  let ?rows = "fold (upsert_row key merge) rs rows"
  have absorb: "upsert_row key merge r ?rows = ?rows" if "r \<in> set rs" for r
  proof (cases "find_row key (key r) rows")
    case None
    with find_upserts_same [OF assms that, of rows] show ?thesis
      by (intro upsert_absorb [where x = r]) (simp_all add: merge_self)
  next
    case (Some x)
    then have "key x = key r" by (auto dest: find_row_SomeD)
    with Some find_upserts_same [OF assms that, of rows] show ?thesis
      by (intro upsert_absorb [where x = "merge x r"]) (simp_all add: merge_again)
  qed
  have "fold (upsert_row key merge) us ?rows = ?rows" if "set us \<subseteq> set rs" for us
    using that by (induction us) (auto simp: absorb)
  then show ?thesis by simp
qed

end

end
