(* ===== verification/Persistence_Repos.thy ===== *)
theory Persistence_Repos
  imports Persistence_Models Keyed_Table
begin

text \<open>
  The repositories of \<open>internal/infrastructure/persistence\<close> over a database state. Each SQL
  statement is one \<open>exec_sql\<close>, numbered by \<open>db_ops\<close>; the schedule \<open>db_fault\<close> says which
  statements fail, so a theorem over every state covers every failure pattern. The clock
  \<open>db_clock\<close> gives the instant of each reading of \<open>time.Now()\<close>. A GORM transaction
  (\<open>in_tx\<close>) restores the tables when its body or its commit fails.

  This theory holds the database state, connections and accounts; \<open>Activity_Repo\<close> the
  activities and \<open>Store_Repos\<close> the other tables. Each table is an instance of the
  \<open>keyed_table\<close> contract.
\<close>

section \<open>Database state\<close>

record db =
  db_connections :: "connection_po list"
  db_accounts :: "account_po list"
  db_activities :: "activity_po list"
  db_holdings :: "holdings_po list"
  db_cursors :: "sync_cursor list"
  db_tokens :: "token_metadata list"
  db_prices :: "historical_price list"
  db_ops :: nat
  db_fault :: "nat \<Rightarrow> string option"
  db_clock :: "nat \<Rightarrow> time"
  db_ticks :: nat

definition empty_db :: db where
  "empty_db = \<lparr>db_connections = [], db_accounts = [], db_activities = [], db_holdings = [],
     db_cursors = [], db_tokens = [], db_prices = [], db_ops = 0, db_fault = (\<lambda>_. None),
     db_clock = (\<lambda>n. 1 + int n), db_ticks = 0\<rparr>"

definition time_now :: "('x db_scheme, time) eff" where
  "time_now = (\<lambda>s. (Inr (db_clock s (db_ticks s)), s\<lparr>db_ticks := Suc (db_ticks s)\<rparr>))"

definition exec_sql :: "('x db_scheme, 'a) eff \<Rightarrow> ('x db_scheme, 'a) eff" where
  "exec_sql f = (\<lambda>s.
     let s' = s\<lparr>db_ops := Suc (db_ops s)\<rparr>
     in case db_fault s (db_ops s) of Some msg \<Rightarrow> (Inl (ErrDB msg), s') | None \<Rightarrow> f s')"

definition restore_tables :: "'x db_scheme \<Rightarrow> 'x db_scheme \<Rightarrow> 'x db_scheme" where
  "restore_tables old new = new\<lparr>db_connections := db_connections old,
     db_accounts := db_accounts old, db_activities := db_activities old,
     db_holdings := db_holdings old, db_cursors := db_cursors old,
     db_tokens := db_tokens old, db_prices := db_prices old\<rparr>"

definition in_tx :: "('x db_scheme, unit) eff \<Rightarrow> ('x db_scheme, unit) eff" where
  "in_tx m = seq_eff (exec_sql (ret ())) (\<lambda>s.
     case seq_eff m (exec_sql (ret ())) s of
       (Inl e, s') \<Rightarrow> (Inl e, restore_tables s s')
     | (Inr x, s') \<Rightarrow> (Inr x, s'))"

text \<open>No statement fails: the hypothesis of the success theorems.\<close>

definition no_faults :: "'x db_scheme \<Rightarrow> bool" where
  "no_faults s \<longleftrightarrow> (\<forall>n. db_fault s n = None)"

lemma exec_sql_no_faults [simp]:
  "no_faults s \<Longrightarrow> exec_sql f s = f (s\<lparr>db_ops := Suc (db_ops s)\<rparr>)"
  by (simp add: exec_sql_def no_faults_def Let_def)

lemma no_faults_update [simp]:
  "no_faults (s\<lparr>db_ops := n\<rparr>) = no_faults s" "no_faults (s\<lparr>db_ticks := n\<rparr>) = no_faults s"
  "no_faults (s\<lparr>db_accounts := x\<rparr>) = no_faults s"
  "no_faults (s\<lparr>db_activities := x2\<rparr>) = no_faults s"
  by (simp_all add: no_faults_def)

lemma keeps_time_now:
  "(\<And>s n. v (s\<lparr>db_ticks := n\<rparr>) = v s) \<Longrightarrow> keeps v time_now"
  by (simp add: keeps_def time_now_def)

lemma keeps_exec_sql:
  "(\<And>s n. v (s\<lparr>db_ops := n\<rparr>) = v s) \<Longrightarrow> keeps v m \<Longrightarrow> keeps v (exec_sql m)"
  by (simp add: keeps_def exec_sql_def Let_def split: option.splits)

lemma preserves_exec_sql:
  "(\<And>s n. P (s\<lparr>db_ops := n\<rparr>) = P s) \<Longrightarrow> preserves P m \<Longrightarrow> preserves P (exec_sql m)"
  by (simp add: preserves_def exec_sql_def Let_def split: option.splits)

lemma preserves_time_now:
  "(\<And>s n. P (s\<lparr>db_ticks := n\<rparr>) = P s) \<Longrightarrow> preserves P time_now"
  by (simp add: preserves_def time_now_def)

lemma exec_sql_cases:
  assumes "exec_sql m s = (r, s')"
  obtains msg where "r = Inl (ErrDB msg)" "s' = s\<lparr>db_ops := Suc (db_ops s)\<rparr>"
  | "m (s\<lparr>db_ops := Suc (db_ops s)\<rparr>) = (r, s')"
  using assms by (auto simp: exec_sql_def Let_def split: option.splits)

section \<open>Connections\<close>

definition connection_conflict :: "connection_po \<Rightarrow> connection_po \<Rightarrow> connection_po" where
  "connection_conflict old new = new\<lparr>cpo_id := cpo_id old\<rparr>"

definition connection_list :: "('x db_scheme, connection list) eff" where
  "connection_list = wrap_err ''connections list'' (exec_sql (reading (\<lambda>s.
     map connection_to_domain (sort_key cpo_brokerage_slug (db_connections s)))))"

definition connection_upsert :: "connection \<Rightarrow> ('x db_scheme, unit) eff" where
  "connection_upsert c = bind_eff time_now (\<lambda>now.
     wrap_err ''connection upsert'' (exec_sql (writing (\<lambda>s.
       s\<lparr>db_connections := upsert_row cpo_id connection_conflict (connectionFromDomain now c)
           (db_connections s)\<rparr>))))"

interpretation conn_table: keyed_table cpo_id connection_conflict
  by unfold_locales (simp add: connection_conflict_def)

section \<open>Accounts\<close>

definition account_list :: "('x db_scheme, account list) eff" where
  "account_list = wrap_err ''accounts list'' (exec_sql (reading (\<lambda>s.
     map account_to_domain (sort_key acp_id (db_accounts s)))))"

definition account_get :: "string \<Rightarrow> ('x db_scheme, account) eff" where
  "account_get i =
     bind_eff (wrap_err ''accounts get'' (exec_sql (reading (\<lambda>s. find_row acp_id i (db_accounts s)))))
       (\<lambda>r. case r of None \<Rightarrow> raise ErrNotFound | Some po \<Rightarrow> ret (account_to_domain po))"

text \<open>
  The conflict clause of an account upsert refreshes every column of
  \<open>accountConflictColumns\<close>; \<open>sync_enabled\<close>, the timestamps, the completion flags and
  the paging offset are not among them.
\<close>

definition account_conflict :: "account_po \<Rightarrow> account_po \<Rightarrow> account_po" where
  "account_conflict old new = old\<lparr>acp_name := acp_name new,
     acp_account_number := acp_account_number new, acp_type := acp_type new,
     acp_raw_type := acp_raw_type new, acp_currency := acp_currency new,
     acp_balance_total := acp_balance_total new,
     acp_balance_currency := acp_balance_currency new,
     acp_brokerage_authorization := acp_brokerage_authorization new,
     acp_institution_name := acp_institution_name new,
     acp_shared_with_household := acp_shared_with_household new,
     acp_is_paper := acp_is_paper new, acp_status := acp_status new,
     acp_owner_user_id := acp_owner_user_id new, acp_owner_full_name := acp_owner_full_name new,
     acp_owner_email := acp_owner_email new\<rparr>"

text \<open>
  The inserted row: GORM leaves a column out of the INSERT when its field is zero and
  declares a default, so \<open>SyncEnabled = false\<close> inserts the column's default, true.
\<close>

definition account_insert_row :: "account_po \<Rightarrow> account_po" where
  "account_insert_row po = po\<lparr>acp_sync_enabled := True\<rparr>"

definition account_update_sync_status ::
  "string \<Rightarrow> time option \<Rightarrow> time option \<Rightarrow> ('x db_scheme, unit) eff" where
  "account_update_sync_status i txSync holdingsSync =
    (if txSync = None \<and> holdingsSync = None then ret ()
     else wrap_err ''account sync status'' (exec_sql (writing (\<lambda>s.
       s\<lparr>db_accounts := update_rows (\<lambda>r. acp_id r = i) (\<lambda>r.
           let r1 = (case txSync of None \<Rightarrow> r
                     | Some t \<Rightarrow> r\<lparr>acp_last_tx_sync := Some t, acp_initial_tx_sync_done := True\<rparr>)
           in case holdingsSync of None \<Rightarrow> r1
              | Some t \<Rightarrow> r1\<lparr>acp_last_holdings_sync := Some t, acp_initial_holdings_done := True\<rparr>)
           (db_accounts s)\<rparr>))))"

definition account_upsert :: "account \<Rightarrow> ('x db_scheme, unit) eff" where
  "account_upsert a = bind_eff time_now (\<lambda>now.
     seq_eff
       (wrap_err ''account upsert'' (exec_sql (writing (\<lambda>s.
          s\<lparr>db_accounts := upsert_row acp_id account_conflict
              (account_insert_row (accountFromDomain now a)) (db_accounts s)\<rparr>))))
       (wrap_err ''account upsert sync status''
          (account_update_sync_status (acc_id a) (acc_last_tx_sync a) (acc_last_holdings_sync a))))"

definition apply_progress :: "activity_sync_progress \<Rightarrow> account_po \<Rightarrow> account_po" where
  "apply_progress p r =
    (let r1 = r\<lparr>acp_activity_sync_offset := prg_next_offset p\<rparr>;
         r2 = (case prg_first_transaction_date p of None \<Rightarrow> r1
               | Some d \<Rightarrow> r1\<lparr>acp_first_tx_date :=
                   (case acp_first_tx_date r of None \<Rightarrow> Some d
                    | Some d0 \<Rightarrow> if d < d0 then Some d else Some d0)\<rparr>)
     in case prg_completed_at p of None \<Rightarrow> r2
        | Some t \<Rightarrow> r2\<lparr>acp_last_tx_sync := Some t, acp_initial_tx_sync_done := True,
            acp_activity_sync_offset := 0\<rparr>)"

definition account_update_progress ::
  "string \<Rightarrow> activity_sync_progress \<Rightarrow> ('x db_scheme, unit) eff" where
  "account_update_progress i p =
     bind_eff (wrap_err ''account activity sync progress'' (exec_sql (\<lambda>s.
         (Inr (find_row acp_id i (db_accounts s) = None),
          s\<lparr>db_accounts := update_rows (\<lambda>r. acp_id r = i) (apply_progress p) (db_accounts s)\<rparr>))))
       (\<lambda>none. if none then raise ErrNotFound else ret ())"

definition account_set_sync_enabled :: "string \<Rightarrow> bool \<Rightarrow> ('x db_scheme, unit) eff" where
  "account_set_sync_enabled i enabled =
     bind_eff (wrap_err ''account set sync_enabled'' (exec_sql (\<lambda>s.
         (Inr (find_row acp_id i (db_accounts s) = None),
          s\<lparr>db_accounts := update_rows (\<lambda>r. acp_id r = i)
              (\<lambda>r. r\<lparr>acp_sync_enabled := enabled\<rparr>) (db_accounts s)\<rparr>))))
       (\<lambda>none. if none then raise ErrNotFound else ret ())"

interpretation acc_table: keyed_table acp_id account_conflict
  by unfold_locales (simp add: account_conflict_def)

lemma apply_progress_id [simp]: "acp_id (apply_progress p r) = acp_id r"
  by (simp add: apply_progress_def Let_def split: option.splits)

lemma apply_progress_enabled [simp]: "acp_sync_enabled (apply_progress p r) = acp_sync_enabled r"
  by (simp add: apply_progress_def Let_def split: option.splits)

text \<open>The row of an account, the view the frame lemmas of the sync engine use.\<close>

definition account_row :: "string \<Rightarrow> 'x db_scheme \<Rightarrow> account_po option" where
  "account_row i s = find_row acp_id i (db_accounts s)"

lemma account_row_updates [simp]:
  "account_row i (s\<lparr>db_ops := n\<rparr>) = account_row i s"
  "account_row i (s\<lparr>db_ticks := n\<rparr>) = account_row i s"
  "account_row i (s\<lparr>db_connections := a\<rparr>) = account_row i s"
  "account_row i (s\<lparr>db_activities := b\<rparr>) = account_row i s"
  "account_row i (s\<lparr>db_holdings := c\<rparr>) = account_row i s"
  by (simp_all add: account_row_def)

lemma account_row_update_rows:
  "(\<And>r. acp_id (f r) = acp_id r) \<Longrightarrow>
   account_row i (s\<lparr>db_accounts := update_rows (\<lambda>r. acp_id r = j) f (db_accounts s)\<rparr>) =
     (if i = j then map_option f (account_row i s) else account_row i s)"
  by (simp add: account_row_def find_row_update_key)

lemma account_get_keeps: "(\<And>s n. v (s\<lparr>db_ops := n\<rparr>) = v s) \<Longrightarrow> keeps v (account_get i)"
  unfolding account_get_def by (intro keep_intros keeps_exec_sql)

lemma account_get_no_faults:
  "no_faults s \<Longrightarrow> account_get i s =
     ((case account_row i s of None \<Rightarrow> Inl ErrNotFound | Some po \<Rightarrow> Inr (account_to_domain po)),
      s\<lparr>db_ops := Suc (db_ops s)\<rparr>)"
  by (simp add: account_get_def account_row_def eff_defs split: option.splits)

lemma account_get_result:
  assumes "account_get i s = (Inr a, s')"
  shows "\<exists>po. account_row i s = Some po \<and> a = account_to_domain po"
  using assms
  by (auto simp: account_get_def account_row_def exec_sql_def Let_def eff_defs
      split: option.splits sum.splits prod.splits)

end
