(* ===== verification/Activity_Repo.thy ===== *)
theory Activity_Repo
  imports Persistence_Repos
begin

text \<open>
  The activity repository (\<open>persistence/activities.go\<close>): listing with the exclusive upper
  bound, fingerprint reconciliation, deduplication by \<open>source_record_id\<close>, the chunked
  upsert in one transaction, and deletion. The lemmas show that a batch can never make the
  database reject a statement for touching a row twice, that no item is dropped, that
  identity columns and other accounts are left alone, and which of two rows with one
  fingerprint carries the review flag.
\<close>

section \<open>Listing\<close>

record activity_filter =
  afi_account_id :: string
  afi_start_date :: "time option"
  afi_end_date :: "time option"
  afi_offset :: int
  afi_limit :: int

definition activity_matches :: "activity_filter \<Rightarrow> activity_po \<Rightarrow> bool" where
  "activity_matches f r \<longleftrightarrow>
     apo_account_id r = afi_account_id f \<and>
     (case afi_start_date f of None \<Rightarrow> True | Some d \<Rightarrow> d \<le> apo_trade_date r) \<and>
     (case afi_end_date f of None \<Rightarrow> True | Some d \<Rightarrow> apo_trade_date r < d)"

text \<open>\<open>ORDER BY trade_date DESC, id\<close>: a stable sort by id, then one by falling date.\<close>

definition activity_order :: "activity_po list \<Rightarrow> activity_po list" where
  "activity_order rows = sort_key (\<lambda>r. - apo_trade_date r) (sort_key apo_id rows)"

definition activity_list :: "activity_filter \<Rightarrow> ('x db_scheme, activity list \<times> int) eff" where
  "activity_list f =
    (let limit = (if afi_limit f \<le> 0 then 1000 else afi_limit f);
         offset = (if afi_offset f < 0 then 0 else afi_offset f)
     in bind_eff (wrap_err ''activities count'' (exec_sql (reading (\<lambda>s.
            int (length (filter (activity_matches f) (db_activities s))))))) (\<lambda>total.
        bind_eff (wrap_err ''activities list'' (exec_sql (reading (\<lambda>s.
            take (nat limit) (drop (nat offset)
              (activity_order (filter (activity_matches f) (db_activities s)))))))) (\<lambda>pos.
        ret (map activity_to_domain pos, total))))"

section \<open>Upsert\<close>

definition activityUpsertChunkSize :: nat where "activityUpsertChunkSize = 500"

definition activity_key :: "activity_po \<Rightarrow> string \<times> string" where
  "activity_key r = (apo_account_id r, apo_source_record_id r)"

text \<open>
  Every column of \<open>activityConflictColumns\<close> is refreshed; the row keeps its id, account,
  source record id and external reference id.
\<close>

definition activity_conflict :: "activity_po \<Rightarrow> activity_po \<Rightarrow> activity_po" where
  "activity_conflict old new = new\<lparr>apo_id := apo_id old, apo_account_id := apo_account_id old,
     apo_source_record_id := apo_source_record_id old,
     apo_external_reference_id := apo_external_reference_id old\<rparr>"

definition applyFingerprintIdentity ::
  "activity \<Rightarrow> (string \<rightharpoonup> string) \<Rightarrow> activity \<times> (string \<rightharpoonup> string)" where
  "applyFingerprintIdentity item known =
    (if act_source_fingerprint item = [] then (item, known)
     else case known (act_source_fingerprint item) of
       Some prior \<Rightarrow>
         ((if prior \<noteq> act_source_record_id item then item\<lparr>act_needs_review := True\<rparr> else item), known)
     | None \<Rightarrow> (item, known(act_source_fingerprint item \<mapsto> act_source_record_id item)))"

text \<open>The loop of \<open>UpsertBatch\<close> over the items: the flagged items and the known map.\<close>

fun reconcile_items :: "activity list \<Rightarrow> (string \<rightharpoonup> string) \<Rightarrow> activity list" where
  "reconcile_items [] known = []"
| "reconcile_items (it # its) known =
     (case applyFingerprintIdentity it known of (it', known') \<Rightarrow> it' # reconcile_items its known')"

text \<open>
  The deduplication: \<open>order\<close> lists each source record id once, at its first position, and
  \<open>bySourceRecord\<close> holds the last item with that id.
\<close>

fun order_of :: "activity list \<Rightarrow> string list \<Rightarrow> string list" where
  "order_of [] seen = rev seen"
| "order_of (it # its) seen =
     order_of its (if act_source_record_id it \<in> set seen then seen else act_source_record_id it # seen)"

fun last_by_id :: "activity list \<Rightarrow> (string \<rightharpoonup> activity) \<Rightarrow> (string \<rightharpoonup> activity)" where
  "last_by_id [] m = m"
| "last_by_id (it # its) m = last_by_id its (m(act_source_record_id it \<mapsto> it))"

definition dedup_batch :: "string \<Rightarrow> activity list \<Rightarrow> activity_po list" where
  "dedup_batch accountID items =
    (let m = last_by_id items Map.empty
     in map (activityFromDomain accountID) (List.map_filter m (order_of items [])))"

function chunks_of :: "nat \<Rightarrow> 'a list \<Rightarrow> 'a list list" where
  "chunks_of n xs = (if xs = [] \<or> n = 0 then [] else take n xs # chunks_of n (drop n xs))"
  by pat_completeness auto
termination
  by (relation "measure (\<lambda>(n, xs). length xs)") auto

declare chunks_of.simps [simp del]

text \<open>
  One \<open>INSERT ... ON CONFLICT (account_id, source_record_id) DO UPDATE\<close>. PostgreSQL rejects
  the statement when two proposed rows have the same conflict key, and when a new row
  violates the primary key on \<open>id\<close>.
\<close>

fun insert_activities :: "activity_po list \<Rightarrow> activity_po list \<Rightarrow> activity_po list res" where
  "insert_activities [] rows = Inr rows"
| "insert_activities (r # rs) rows =
     (if find_row activity_key (activity_key r) rows = None \<and> find_row apo_id (apo_id r) rows \<noteq> None
      then Inl (ErrDB ''duplicate key value violates unique constraint activities_pkey'')
      else insert_activities rs (upsert_row activity_key activity_conflict r rows))"

definition upsert_activities_stmt :: "activity_po list \<Rightarrow> ('x db_scheme, unit) eff" where
  "upsert_activities_stmt chunk = exec_sql (\<lambda>s.
     if \<not> distinct (map activity_key chunk)
     then (Inl (ErrDB ''ON CONFLICT DO UPDATE command cannot affect row a second time''), s)
     else case insert_activities chunk (db_activities s) of
            Inl e \<Rightarrow> (Inl e, s)
          | Inr rows \<Rightarrow> (Inr (), s\<lparr>db_activities := rows\<rparr>))"

definition fingerprint_identities ::
  "string \<Rightarrow> string list \<Rightarrow> activity_po list \<Rightarrow> (string \<rightharpoonup> string)" where
  "fingerprint_identities accountID fps rows =
     fold (\<lambda>po m. m(apo_source_fingerprint po \<mapsto> apo_source_record_id po))
       (sort_key apo_source_record_id
         (filter (\<lambda>r. apo_account_id r = accountID \<and> apo_source_fingerprint r \<in> set fps) rows))
       Map.empty"

definition fingerprint_lookup ::
  "string \<Rightarrow> string list \<Rightarrow> ('x db_scheme, string \<rightharpoonup> string) eff" where
  "fingerprint_lookup accountID fps =
    (if fps = [] then ret Map.empty
     else wrap_err ''activity fingerprint lookup'' (exec_sql (reading (\<lambda>s.
            fingerprint_identities accountID fps (db_activities s)))))"

definition activity_upsert_batch :: "string \<Rightarrow> activity list \<Rightarrow> ('x db_scheme, unit) eff" where
  "activity_upsert_batch accountID items =
    (if items = [] then ret ()
     else bind_eff
          (fingerprint_lookup accountID (filter (\<lambda>f. f \<noteq> []) (map act_source_fingerprint items)))
          (\<lambda>known.
            wrap_err ''activity upsert'' (in_tx (for_each upsert_activities_stmt
              (chunks_of activityUpsertChunkSize
                (dedup_batch accountID (reconcile_items items known)))))))"

definition activity_delete :: "string \<Rightarrow> string list \<Rightarrow> ('x db_scheme, unit) eff" where
  "activity_delete accountID ids =
    (if ids = [] then ret ()
     else wrap_err ''activity delete'' (exec_sql (writing (\<lambda>s.
       s\<lparr>db_activities := filter (\<lambda>r. \<not> (apo_account_id r = accountID \<and>
           apo_source_record_id r \<in> set ids)) (db_activities s)\<rparr>))))"

interpretation act_table: settled_table activity_key activity_conflict
  by unfold_locales (simp_all add: activity_key_def activity_conflict_def)

section \<open>Deduplication\<close>

lemma set_order_of: "set (order_of items seen) = set seen \<union> act_source_record_id ` set items"
  by (induction items seen rule: order_of.induct) auto

lemma distinct_order_of: "distinct seen \<Longrightarrow> distinct (order_of items seen)"
  by (induction items seen rule: order_of.induct) auto

lemma last_by_id_cases:
  "last_by_id items m i = Some a \<Longrightarrow>
   (a \<in> set items \<and> act_source_record_id a = i) \<or> (i \<notin> act_source_record_id ` set items \<and> m i = Some a)"
  by (induction items m rule: last_by_id.induct) (auto split: if_splits)

lemma last_by_id_dom:
  "dom (last_by_id items m) = dom m \<union> act_source_record_id ` set items"
  by (induction items m rule: last_by_id.induct) (auto simp del: fun_upd_apply)

lemma last_by_id_present:
  "i \<in> act_source_record_id ` set items \<Longrightarrow>
   \<exists>a\<in>set items. last_by_id items Map.empty i = Some a \<and> act_source_record_id a = i"
  using last_by_id_dom [of items Map.empty] last_by_id_cases [of items Map.empty i]
  by (fastforce simp: domIff set_eq_iff)

lemma map_filter_present:
  "(\<And>i. i \<in> set is \<Longrightarrow> \<exists>a. m i = Some a \<and> f a = i) \<Longrightarrow> map f (List.map_filter m is) = is"
  by (induction "is") (force simp: map_filter_simps split: option.splits)+

text \<open>The deduplicated batch has one row per source record id, in first-seen order.\<close>

lemma dedup_batch_keys:
  "map apo_source_record_id (dedup_batch accountID items) = order_of items []"
proof -
  let ?m = "last_by_id items Map.empty"
  have "map act_source_record_id (List.map_filter ?m (order_of items [])) = order_of items []"
    by (rule map_filter_present) (use last_by_id_present in \<open>fastforce simp: set_order_of\<close>)
  then show ?thesis by (simp add: dedup_batch_def Let_def comp_def)
qed

lemma dedup_batch_account: "r \<in> set (dedup_batch accountID items) \<Longrightarrow> apo_account_id r = accountID"
  by (auto simp: dedup_batch_def Let_def)

lemma dedup_batch_distinct: "distinct (map activity_key (dedup_batch accountID items))"
proof -
  have "map activity_key (dedup_batch accountID items) =
      map (Pair accountID) (map apo_source_record_id (dedup_batch accountID items))"
    using dedup_batch_account [of _ accountID items] by (auto simp: activity_key_def)
  then show ?thesis
    by (simp add: dedup_batch_keys distinct_map distinct_order_of inj_on_def)
qed

lemma dedup_batch_covers:
  "it \<in> set items \<Longrightarrow> \<exists>r\<in>set (dedup_batch accountID items). activity_key r = (accountID, act_source_record_id it)"
proof -
  assume "it \<in> set items"
  then have "act_source_record_id it \<in> set (map apo_source_record_id (dedup_batch accountID items))"
    by (simp add: dedup_batch_keys set_order_of)
  then obtain r where "r \<in> set (dedup_batch accountID items)"
      "apo_source_record_id r = act_source_record_id it" by auto
  with dedup_batch_account show ?thesis by (auto simp: activity_key_def)
qed

section \<open>Chunks\<close>

lemma concat_chunks_of: "0 < n \<Longrightarrow> concat (chunks_of n xs) = xs"
proof (induction n xs rule: chunks_of.induct)
  case (1 n xs)
  then show ?case by (subst chunks_of.simps) auto
qed

lemma chunk_length: "c \<in> set (chunks_of n xs) \<Longrightarrow> 0 < length c \<and> length c \<le> n"
proof (induction n xs rule: chunks_of.induct)
  case (1 n xs)
  then show ?case by (cases "xs = [] \<or> n = 0") (auto simp: chunks_of.simps [of n xs])
qed

lemma chunk_distinct:
  assumes "0 < n" and "distinct (map f xs)" and "c \<in> set (chunks_of n xs)"
  shows "distinct (map f c)"
proof -
  have "concat (map (map f) (chunks_of n xs)) = map f xs"
    using concat_chunks_of [OF assms(1), of xs] by (metis map_concat)
  with assms(2) have "distinct (concat (map (map f) (chunks_of n xs)))" by simp
  with assms(3) show ?thesis by (auto simp: distinct_concat_iff)
qed

section \<open>The statements\<close>

lemma insert_activities_Inr:
  "insert_activities rs rows = Inr rows' \<Longrightarrow>
   rows' = fold (upsert_row activity_key activity_conflict) rs rows"
  by (induction rs arbitrary: rows) (auto split: if_splits)

lemma upsert_stmt_cases:
  assumes "upsert_activities_stmt c s = (r, s')"
  obtains e where "r = Inl e" "s' = s\<lparr>db_ops := Suc (db_ops s)\<rparr>"
  | "r = Inr ()" "s' = s\<lparr>db_ops := Suc (db_ops s),
      db_activities := fold (upsert_row activity_key activity_conflict) c (db_activities s)\<rparr>"
  using assms insert_activities_Inr
  by (fastforce simp: upsert_activities_stmt_def exec_sql_def Let_def
      split: option.splits if_splits sum.splits)

lemma upsert_stmts_result:
  assumes "for_each upsert_activities_stmt cs s = (r, s')"
  shows "\<exists>n rows. s' = s\<lparr>db_ops := n, db_activities := rows\<rparr> \<and>
    (r = Inr () \<longrightarrow>
      rows = fold (upsert_row activity_key activity_conflict) (concat cs) (db_activities s))"
  using assms
proof (induction cs arbitrary: s)
  case Nil
  then show ?case
    by (auto simp: eff_defs intro!: exI [of _ "db_ops s"] exI [of _ "db_activities s"])
next
  case (Cons c cs)
  obtain r1 s1 where c: "upsert_activities_stmt c s = (r1, s1)"
    by (cases "upsert_activities_stmt c s")
  from c show ?case
  proof (cases rule: upsert_stmt_cases)
    case (1 e)
    with Cons.prems c show ?thesis
      by (auto simp: eff_defs intro!: exI [of _ "Suc (db_ops s)"] exI [of _ "db_activities s"])
  next
    case 2
    with Cons.prems c have "for_each upsert_activities_stmt cs s1 = (r, s')"
      by (simp add: eff_defs)
    then obtain n rows where "s' = s1\<lparr>db_ops := n, db_activities := rows\<rparr>"
      "r = Inr () \<longrightarrow>
        rows = fold (upsert_row activity_key activity_conflict) (concat cs) (db_activities s1)"
      using Cons.IH by blast
    with 2 show ?thesis by (auto intro!: exI [of _ n] exI [of _ rows])
  qed
qed

lemma act_ops_commute:
  "s\<lparr>db_activities := rows, db_ops := n\<rparr> = s\<lparr>db_ops := n, db_activities := rows\<rparr>"
  by simp

lemma restore_activities_only:
  "restore_tables s (s\<lparr>db_ops := n, db_activities := rows\<rparr>) = s\<lparr>db_ops := n\<rparr>"
  by (simp add: restore_tables_def)

text \<open>The transaction is atomic: the whole batch, or the table as it was.\<close>

lemma upsert_tx_result:
  assumes "in_tx (for_each upsert_activities_stmt cs) s = (r, s')"
  shows "\<exists>n. s' = (case r of Inl e \<Rightarrow> s\<lparr>db_ops := n\<rparr>
     | Inr _ \<Rightarrow> s\<lparr>db_ops := n, db_activities :=
         fold (upsert_row activity_key activity_conflict) (concat cs) (db_activities s)\<rparr>)"
proof -
  let ?s1 = "s\<lparr>db_ops := Suc (db_ops s)\<rparr>"
  show ?thesis
  proof (cases "db_fault s (db_ops s)")
    case (Some msg)
    with assms show ?thesis
      by (auto simp: in_tx_def seq_eff_def bind_eff_def exec_sql_def Let_def)
  next
    case None
    obtain r2 s2 where m: "for_each upsert_activities_stmt cs ?s1 = (r2, s2)"
      by (cases "for_each upsert_activities_stmt cs ?s1")
    from upsert_stmts_result [OF m] obtain n rows where s2:
      "s2 = ?s1\<lparr>db_ops := n, db_activities := rows\<rparr>" and
      rows: "r2 = Inr () \<longrightarrow>
        rows = fold (upsert_row activity_key activity_conflict) (concat cs) (db_activities s)"
      by auto
    have inner: "in_tx (for_each upsert_activities_stmt cs) s =
        (case seq_eff (for_each upsert_activities_stmt cs) (exec_sql (ret ())) ?s1 of
           (Inl e, s') \<Rightarrow> (Inl e, restore_tables ?s1 s') | (Inr x, s') \<Rightarrow> (Inr x, s'))"
      using None by (simp add: in_tx_def seq_eff_apply exec_sql_def Let_def ret_def)
    show ?thesis
    proof (cases r2)
      case (Inl e)
      with inner m s2 assms restore_activities_only [of ?s1 rows n] show ?thesis
        by (auto simp: seq_eff_def bind_eff_def)
    next
      case (Inr u)
      with inner m s2 rows assms restore_activities_only [of ?s1 rows "Suc n"] show ?thesis
        by (auto simp: seq_eff_apply exec_sql_def Let_def ret_def act_ops_commute
            split: option.splits)
    qed
  qed
qed

text \<open>The known identities a batch is reconciled against: the stored rows' fingerprints.\<close>

definition batch_known :: "string \<Rightarrow> activity list \<Rightarrow> activity_po list \<Rightarrow> (string \<rightharpoonup> string)" where
  "batch_known accountID items rows =
    (let fps = filter (\<lambda>f. f \<noteq> []) (map act_source_fingerprint items)
     in if fps = [] then Map.empty else fingerprint_identities accountID fps rows)"

definition batch_rows :: "string \<Rightarrow> activity list \<Rightarrow> activity_po list \<Rightarrow> activity_po list" where
  "batch_rows accountID items rows =
     dedup_batch accountID (reconcile_items items (batch_known accountID items rows))"

lemma upsert_batch_result:
  assumes "activity_upsert_batch accountID items s = (r, s')"
  shows "\<exists>n. s' = (case r of Inl e \<Rightarrow> s\<lparr>db_ops := n\<rparr>
     | Inr _ \<Rightarrow> s\<lparr>db_ops := n, db_activities :=
         fold (upsert_row activity_key activity_conflict)
           (batch_rows accountID items (db_activities s)) (db_activities s)\<rparr>)"
proof (cases "items = []")
  case True
  with assms show ?thesis
    by (auto simp: activity_upsert_batch_def ret_def batch_rows_def dedup_batch_def Let_def
        map_filter_simps intro!: exI [of _ "db_ops s"])
next
  case False
  let ?lk = "fingerprint_lookup accountID (filter (\<lambda>f. f \<noteq> []) (map act_source_fingerprint items))"
  have lookup: "\<exists>n e. ?lk s = (Inl e, s\<lparr>db_ops := n\<rparr>) \<or>
      ?lk s = (Inr (batch_known accountID items (db_activities s)), s\<lparr>db_ops := n\<rparr>)"
    by (cases "db_fault s (db_ops s)")
      (auto simp: eff_defs exec_sql_def Let_def batch_known_def fingerprint_lookup_def
        intro: exI [of _ "db_ops s"] exI [of _ "Suc (db_ops s)"])
  have unfold: "activity_upsert_batch accountID items s = bind_eff ?lk (\<lambda>known.
      wrap_err ''activity upsert'' (in_tx (for_each upsert_activities_stmt
        (chunks_of activityUpsertChunkSize (dedup_batch accountID (reconcile_items items known)))))) s"
    using False by (simp add: activity_upsert_batch_def)
  from lookup obtain n e where
    "?lk s = (Inl e, s\<lparr>db_ops := n\<rparr>) \<or>
     ?lk s = (Inr (batch_known accountID items (db_activities s)), s\<lparr>db_ops := n\<rparr>)" by blast
  then show ?thesis
  proof
    assume "?lk s = (Inl e, s\<lparr>db_ops := n\<rparr>)"
    with unfold assms show ?thesis by (auto simp: bind_eff_def)
  next
    assume ok: "?lk s = (Inr (batch_known accountID items (db_activities s)), s\<lparr>db_ops := n\<rparr>)"
    let ?cs = "chunks_of activityUpsertChunkSize (batch_rows accountID items (db_activities s))"
    obtain r2 s2 where tx: "in_tx (for_each upsert_activities_stmt ?cs) (s\<lparr>db_ops := n\<rparr>) = (r2, s2)"
      by (cases "in_tx (for_each upsert_activities_stmt ?cs) (s\<lparr>db_ops := n\<rparr>)")
    have cc: "concat ?cs = batch_rows accountID items (db_activities s)"
      by (rule concat_chunks_of) (simp add: activityUpsertChunkSize_def)
    have "\<exists>n'. s2 = (case r2 of Inl e \<Rightarrow> s\<lparr>db_ops := n'\<rparr>
     | Inr _ \<Rightarrow> s\<lparr>db_ops := n', db_activities :=
         fold (upsert_row activity_key activity_conflict)
           (batch_rows accountID items (db_activities s)) (db_activities s)\<rparr>)"
      using upsert_tx_result [OF tx] by (cases r2) (simp_all add: cc)
    with unfold assms ok tx show ?thesis
      by (auto simp: bind_eff_def wrap_err_def batch_rows_def split: sum.splits)
  qed
qed

section \<open>Fingerprints\<close>

text \<open>The map after the batch; the loop only ever adds entries to it.\<close>

fun known_after :: "activity list \<Rightarrow> (string \<rightharpoonup> string) \<Rightarrow> (string \<rightharpoonup> string)" where
  "known_after [] known = known"
| "known_after (it # its) known = known_after its (snd (applyFingerprintIdentity it known))"

definition review_of :: "(string \<rightharpoonup> string) \<Rightarrow> activity \<Rightarrow> activity" where
  "review_of known it =
    (if act_source_fingerprint it \<noteq> [] \<and> known (act_source_fingerprint it) \<noteq> Some (act_source_record_id it)
     then it\<lparr>act_needs_review := True\<rparr> else it)"

lemma known_after_mono: "known f = Some i \<Longrightarrow> known_after its known f = Some i"
proof (induction its arbitrary: known)
  case (Cons it its)
  have "snd (applyFingerprintIdentity it known) f = Some i"
    using Cons.prems by (auto simp: applyFingerprintIdentity_def split: option.splits)
  then show ?case by (simp add: Cons.IH)
qed simp

lemma apply_then_known:
  assumes "act_source_fingerprint it \<noteq> []"
  shows "\<exists>i. snd (applyFingerprintIdentity it known) (act_source_fingerprint it) = Some i \<and>
    fst (applyFingerprintIdentity it known) =
      (if i \<noteq> act_source_record_id it then it\<lparr>act_needs_review := True\<rparr> else it)"
  using assms by (auto simp: applyFingerprintIdentity_def split: option.splits)

text \<open>Each item is flagged exactly when it is not the canonical one for its fingerprint.\<close>

lemma reconcile_items_eq:
  "reconcile_items items known = map (review_of (known_after items known)) items"
proof (induction items arbitrary: known)
  case (Cons it its)
  let ?p = "applyFingerprintIdentity it known"
  have "fst ?p = review_of (known_after its (snd ?p)) it"
  proof (cases "act_source_fingerprint it = []")
    case True
    then show ?thesis by (simp add: applyFingerprintIdentity_def review_of_def)
  next
    case False
    from apply_then_known [OF this, of known] obtain i where
      i: "snd ?p (act_source_fingerprint it) = Some i" and
      f: "fst ?p = (if i \<noteq> act_source_record_id it then it\<lparr>act_needs_review := True\<rparr> else it)"
      by blast
    have "known_after its (snd ?p) (act_source_fingerprint it) = Some i"
      using i by (rule known_after_mono)
    with f False show ?thesis by (simp add: review_of_def)
  qed
  then show ?case by (cases "applyFingerprintIdentity it known") (simp add: Cons.IH)
qed simp

lemma review_of_keys [simp]:
  "act_source_record_id (review_of known it) = act_source_record_id it"
  "act_id (review_of known it) = act_id it"
  "act_source_fingerprint (review_of known it) = act_source_fingerprint it"
  by (simp_all add: review_of_def)

lemma reconcile_items_ids:
  "act_source_record_id ` set (reconcile_items items known) = act_source_record_id ` set items"
  by (auto simp: reconcile_items_eq image_image)

lemma reconcile_no_fingerprints:
  "\<forall>it\<in>set items. act_source_fingerprint it = [] \<Longrightarrow> reconcile_items items known = items"
  by (auto simp: reconcile_items_eq review_of_def intro: map_idI)

text \<open>The stored canonical identity is the greatest source record id with the fingerprint.\<close>

lemma fold_identities:
  "fold (\<lambda>po m. m(apo_source_fingerprint po \<mapsto> apo_source_record_id po)) rows m f =
     (let fs = filter (\<lambda>r. apo_source_fingerprint r = f) rows
      in if fs = [] then m f else Some (apo_source_record_id (last fs)))"
  by (induction rows arbitrary: m) (auto simp: Let_def)

lemma option_if_Some: "(if b then None else Some x) = Some y \<Longrightarrow> \<not> b \<and> y = x"
  by (simp split: if_splits)

lemma sorted_key_last:
  "sorted (map k (xs @ [x])) \<Longrightarrow> y \<in> set (xs @ [x]) \<Longrightarrow> k y \<le> k x"
  by (auto simp: sorted_append)

lemma fingerprint_identities_max:
  assumes "fingerprint_identities acc fps rows f = Some i"
  shows "\<exists>r\<in>set rows. apo_account_id r = acc \<and> apo_source_fingerprint r = f \<and>
      apo_source_record_id r = i"
    and "\<forall>r\<in>set rows. apo_account_id r = acc \<and> apo_source_fingerprint r = f \<longrightarrow>
      apo_source_record_id r \<le> i"
proof -
  let ?sel = "filter (\<lambda>r. apo_account_id r = acc \<and> apo_source_fingerprint r \<in> set fps) rows"
  define fs where "fs = filter (\<lambda>r. apo_source_fingerprint r = f) (sort_key apo_source_record_id ?sel)"
  have ne: "fs \<noteq> []" and i: "i = apo_source_record_id (last fs)"
    using option_if_Some [OF assms [unfolded fingerprint_identities_def fold_identities Let_def]]
    unfolding fs_def by blast+
  have set_fs: "r \<in> set fs \<longleftrightarrow> r \<in> set rows \<and> apo_account_id r = acc \<and> f \<in> set fps \<and>
      apo_source_fingerprint r = f" for r
    by (auto simp: fs_def)
  have "sorted (map apo_source_record_id fs)"
    by (simp add: fs_def sorted_filter)
  moreover obtain ys y where fs: "fs = ys @ [y]" using ne by (cases fs rule: rev_cases) blast+
  ultimately have srt: "sorted (map apo_source_record_id (ys @ [y]))" by simp
  have y: "y \<in> set rows" "apo_account_id y = acc" "apo_source_fingerprint y = f" "f \<in> set fps"
    using set_fs [of y] fs by simp_all
  then show "\<exists>r\<in>set rows. apo_account_id r = acc \<and> apo_source_fingerprint r = f \<and>
      apo_source_record_id r = i" using i fs by auto
  show "\<forall>r\<in>set rows. apo_account_id r = acc \<and> apo_source_fingerprint r = f \<longrightarrow>
      apo_source_record_id r \<le> i"
  proof (intro ballI impI)
    fix r assume "r \<in> set rows" "apo_account_id r = acc \<and> apo_source_fingerprint r = f"
    with y(4) have "r \<in> set fs" by (simp add: set_fs)
    then show "apo_source_record_id r \<le> i"
      using sorted_key_last [OF srt] i fs by simp
  qed
qed

section \<open>Properties\<close>

lemma batch_rows_key:
  "r \<in> set (batch_rows accountID items rows) \<Longrightarrow>
   apo_account_id r = accountID \<and> apo_source_record_id r \<in> act_source_record_id ` set items"
proof -
  assume r: "r \<in> set (batch_rows accountID items rows)"
  let ?its = "reconcile_items items (batch_known accountID items rows)"
  have "apo_source_record_id r \<in> set (map apo_source_record_id (dedup_batch accountID ?its))"
    using r by (auto simp: batch_rows_def)
  then have "apo_source_record_id r \<in> act_source_record_id ` set items"
    by (simp add: dedup_batch_keys set_order_of reconcile_items_ids)
  moreover have "apo_account_id r = accountID"
    using r by (simp add: batch_rows_def dedup_batch_account)
  ultimately show ?thesis by simp
qed

lemma batch_rows_distinct: "distinct (map activity_key (batch_rows accountID items rows))"
  by (simp add: batch_rows_def dedup_batch_distinct)

lemma batch_rows_covers:
  assumes "it \<in> set items"
  shows "\<exists>r\<in>set (batch_rows accountID items rows). activity_key r = (accountID, act_source_record_id it)"
proof -
  have "act_source_record_id it \<in>
      act_source_record_id ` set (reconcile_items items (batch_known accountID items rows))"
    using assms by (simp add: reconcile_items_ids)
  then obtain it' where "it' \<in> set (reconcile_items items (batch_known accountID items rows))"
    "act_source_record_id it' = act_source_record_id it" by (metis imageE)
  with dedup_batch_covers [of it' _ accountID] show ?thesis by (simp add: batch_rows_def)
qed

lemma batch_rows_source:
  assumes "r \<in> set (batch_rows accountID items rows)"
  shows "\<exists>it\<in>set items. r = activityFromDomain accountID
      (review_of (known_after items (batch_known accountID items rows)) it)"
proof -
  let ?its = "reconcile_items items (batch_known accountID items rows)"
  obtain a i where "last_by_id ?its Map.empty i = Some a" "r = activityFromDomain accountID a"
    using assms by (auto simp: batch_rows_def dedup_batch_def Let_def List.map_filter_def)
  then have "a \<in> set ?its" using last_by_id_cases [of ?its Map.empty i a] by auto
  with \<open>r = _\<close> show ?thesis by (auto simp: reconcile_items_eq)
qed

lemma upsert_batch_keeps:
  fixes v :: "'x db_scheme \<Rightarrow> 'v"
  assumes "\<And>s n. v (s\<lparr>db_ops := n\<rparr>) = v s" and "\<And>s rows. v (s\<lparr>db_activities := rows\<rparr>) = v s"
  shows "keeps v (activity_upsert_batch accountID items)"
proof (rule keepsI)
  fix s :: "'x db_scheme"
  obtain r s' where m: "activity_upsert_batch accountID items s = (r, s')"
    by (cases "activity_upsert_batch accountID items s")
  from upsert_batch_result [OF m] show "v (snd (activity_upsert_batch accountID items s)) = v s"
    by (cases r) (auto simp: m assms)
qed

text \<open>
  C4. A batch is all or nothing, and nothing of it is lost: if \<open>UpsertBatch\<close> fails, at any
  statement, the activities table is unchanged; if it succeeds, every item of the batch has
  a row under its account and source record id, every row of another account or another
  source record id is exactly what it was, and the unique key of the table still holds.
\<close>

theorem upsert_batch_atomic:
  assumes run: "activity_upsert_batch accountID items s = (r, s')"
    and uk: "unique_keys activity_key (db_activities s)"
  shows "(case r of
      Inl e \<Rightarrow> db_activities s' = db_activities s
    | Inr _ \<Rightarrow>
        (\<forall>it\<in>set items. find_row activity_key (accountID, act_source_record_id it) (db_activities s') \<noteq> None) \<and>
        (\<forall>k. k \<notin> (\<lambda>it. (accountID, act_source_record_id it)) ` set items \<longrightarrow>
           find_row activity_key k (db_activities s') = find_row activity_key k (db_activities s))) \<and>
    unique_keys activity_key (db_activities s')"
proof (cases r)
  case (Inl e)
  with upsert_batch_result [OF run] uk show ?thesis by auto
next
  case (Inr u)
  let ?new = "batch_rows accountID items (db_activities s)"
  have after: "db_activities s' = fold (upsert_row activity_key activity_conflict) ?new (db_activities s)"
    using upsert_batch_result [OF run] Inr by auto
  have "find_row activity_key (accountID, act_source_record_id it) (db_activities s') \<noteq> None"
    if "it \<in> set items" for it
    using batch_rows_covers [OF that, of accountID "db_activities s"]
    by (metis UnI1 act_table.keys_upserts after find_row_None_iff imageI)
  moreover have "find_row activity_key k (db_activities s') = find_row activity_key k (db_activities s)"
    if "k \<notin> (\<lambda>it. (accountID, act_source_record_id it)) ` set items" for k
    unfolding after
    by (rule act_table.find_upserts_other)
      (use that batch_rows_key in \<open>fastforce simp: activity_key_def\<close>)
  ultimately show ?thesis using Inr uk
    by (simp add: after act_table.unique_upserts)
qed

text \<open>
  Success: without database faults a batch is accepted as soon as an activity id always
  belongs to the same (account, source record id), in the batch and in the table.
\<close>

definition ids_agree :: "string \<Rightarrow> activity list \<Rightarrow> activity_po list \<Rightarrow> bool" where
  "ids_agree accountID items rows \<longleftrightarrow>
     (\<forall>a\<in>set items. (\<forall>b\<in>set items. act_id a = act_id b \<longrightarrow>
          act_source_record_id a = act_source_record_id b) \<and>
        (\<forall>r\<in>set rows. apo_id r = act_id a \<longrightarrow> activity_key r = (accountID, act_source_record_id a)))"

lemma ids_agreeD1:
  "ids_agree acc items rows \<Longrightarrow> a \<in> set items \<Longrightarrow> b \<in> set items \<Longrightarrow> act_id a = act_id b \<Longrightarrow>
   act_source_record_id a = act_source_record_id b"
  unfolding ids_agree_def by blast

lemma ids_agreeD2:
  "ids_agree acc items rows \<Longrightarrow> a \<in> set items \<Longrightarrow> r \<in> set rows \<Longrightarrow> apo_id r = act_id a \<Longrightarrow>
   activity_key r = (acc, act_source_record_id a)"
  unfolding ids_agree_def by blast

lemma insert_activities_ok:
  assumes "\<forall>x\<in>set rs. \<forall>y\<in>set rs \<union> set rows. apo_id x = apo_id y \<longrightarrow> activity_key x = activity_key y"
  shows "\<exists>rows'. insert_activities rs rows = Inr rows'"
  using assms
proof (induction rs arbitrary: rows)
  case (Cons r rs)
  have guard: "\<not> (find_row activity_key (activity_key r) rows = None \<and>
      find_row apo_id (apo_id r) rows \<noteq> None)"
  proof
    assume g: "find_row activity_key (activity_key r) rows = None \<and>
      find_row apo_id (apo_id r) rows \<noteq> None"
    then obtain y where "y \<in> set rows" "apo_id y = apo_id r"
      by (auto dest: find_row_SomeD)
    with Cons.prems have "activity_key r = activity_key y" by simp
    with g \<open>y \<in> set rows\<close> show False by (simp add: find_row_None_iff)
  qed
  have upd: "y \<in> set (upsert_row activity_key activity_conflict r rows) \<Longrightarrow>
      y \<in> set rows \<or> y = r \<or> (\<exists>x\<in>set rows. y = activity_conflict x r \<and> activity_key x = activity_key r)" for y
    by (induction rows) (auto split: if_splits)
  have "\<exists>rows'. insert_activities rs (upsert_row activity_key activity_conflict r rows) = Inr rows'"
  proof (rule Cons.IH, intro ballI impI)
    fix x y assume x: "x \<in> set rs" and eq: "apo_id x = apo_id y"
      and "y \<in> set rs \<union> set (upsert_row activity_key activity_conflict r rows)"
    then consider "y \<in> set rs \<union> set rows" | "y = r"
      | z where "z \<in> set rows" "y = activity_conflict z r" "activity_key z = activity_key r"
      using upd by blast
    then show "activity_key x = activity_key y"
    proof cases
      case 3
      then have "apo_id x = apo_id z" "activity_key y = activity_key z"
        using eq by (simp_all add: activity_conflict_def activity_key_def)
      moreover from this have "activity_key x = activity_key z"
        using Cons.prems x 3(1) by (meson UnI2 list.set_intros(2))
      ultimately show ?thesis by simp
    qed (use Cons.prems x eq in auto)
  qed
  with guard show ?case by auto
qed simp

lemma upsert_stmts_ok:
  assumes "no_faults s" and "\<forall>c\<in>set cs. distinct (map activity_key c)"
    and "\<forall>x\<in>set (concat cs). \<forall>y\<in>set (concat cs) \<union> set (db_activities s).
           apo_id x = apo_id y \<longrightarrow> activity_key x = activity_key y"
  shows "\<exists>s'. for_each upsert_activities_stmt cs s = (Inr (), s') \<and> no_faults s'"
  using assms
proof (induction cs arbitrary: s)
  case Nil
  then show ?case by (simp add: ret_def)
next
  case (Cons c cs)
  have "\<exists>rows. insert_activities c (db_activities s) = Inr rows"
    by (rule insert_activities_ok) (use Cons.prems(3) in auto)
  then obtain rows where rows: "insert_activities c (db_activities s) = Inr rows" by blast
  let ?s1 = "s\<lparr>db_ops := Suc (db_ops s), db_activities := rows\<rparr>"
  have step: "upsert_activities_stmt c s = (Inr (), ?s1)"
    using Cons.prems(1,2) rows by (simp add: upsert_activities_stmt_def)
  have sub: "y \<in> set rows \<Longrightarrow> (\<exists>z\<in>set c \<union> set (db_activities s).
      apo_id z = apo_id y \<and> activity_key z = activity_key y)" for y
  proof -
    have "y \<in> set (fold (upsert_row activity_key activity_conflict) us rs) \<Longrightarrow>
      \<exists>z\<in>set us \<union> set rs. apo_id z = apo_id y \<and> activity_key z = activity_key y" for us rs
    proof (induction us arbitrary: rs)
      case (Cons u us)
      have "x \<in> set (upsert_row activity_key activity_conflict u rs) \<Longrightarrow>
          \<exists>z\<in>set (u # rs). apo_id z = apo_id x \<and> activity_key z = activity_key x" for x
        by (induction rs) (auto simp: activity_conflict_def activity_key_def split: if_splits)
      with Cons show ?case by fastforce
    qed auto
    with insert_activities_Inr [OF rows] show "y \<in> set rows \<Longrightarrow> ?thesis" by simp
  qed
  have "\<exists>s'. for_each upsert_activities_stmt cs ?s1 = (Inr (), s') \<and> no_faults s'"
  proof (rule Cons.IH)
    show "\<forall>x\<in>set (concat cs). \<forall>y\<in>set (concat cs) \<union> set (db_activities ?s1).
           apo_id x = apo_id y \<longrightarrow> activity_key x = activity_key y"
    proof (intro ballI impI)
      fix x y assume xy: "x \<in> set (concat cs)" "y \<in> set (concat cs) \<union> set (db_activities ?s1)"
        "apo_id x = apo_id y"
      have "\<exists>z\<in>set (concat (c # cs)) \<union> set (db_activities s).
          apo_id z = apo_id y \<and> activity_key z = activity_key y"
      proof (cases "y \<in> set rows")
        case True
        from sub [OF this] show ?thesis by auto
      next
        case False
        with xy(2) show ?thesis by (intro bexI [of _ y]) simp_all
      qed
      then obtain z where "z \<in> set (concat (c # cs)) \<union> set (db_activities s)"
          "apo_id z = apo_id y" "activity_key z = activity_key y" by blast
      with xy Cons.prems(3) show "activity_key x = activity_key y" by auto
    qed
  qed (use Cons.prems in simp_all)
  with step show ?case by (simp add: seq_eff_apply)
qed

lemma in_tx_ok:
  assumes "no_faults s"
    and "\<exists>s'. m (s\<lparr>db_ops := Suc (db_ops s)\<rparr>) = (Inr (), s') \<and> no_faults s'"
  shows "\<exists>s'. in_tx m s = (Inr (), s')"
proof -
  from assms(2) obtain s' where "m (s\<lparr>db_ops := Suc (db_ops s)\<rparr>) = (Inr (), s')" "no_faults s'"
    by blast
  with assms(1) show ?thesis by (simp add: in_tx_def seq_eff_apply ret_def)
qed

lemma fingerprint_lookup_ok:
  assumes "no_faults s"
  shows "\<exists>n. fingerprint_lookup accountID fps s =
    (Inr (if fps = [] then Map.empty else fingerprint_identities accountID fps (db_activities s)),
     s\<lparr>db_ops := n\<rparr>)"
proof (cases "fps = []")
  case True
  then show ?thesis by (auto simp: fingerprint_lookup_def ret_def intro: exI [of _ "db_ops s"])
next
  case False
  with assms show ?thesis
    by (auto simp: fingerprint_lookup_def wrap_err_def reading_def)
qed

text \<open>
  The upsert statement is never rejected for its own shape: in a database that does not
  fail, a batch of any size, with any repetitions of source record ids and fingerprints,
  succeeds provided activity ids are not reused for another record. In particular no chunk
  proposes the same (account, source record id) twice, the case PostgreSQL refuses.
\<close>

theorem upsert_batch_succeeds:
  assumes ok: "no_faults s" and ids: "ids_agree accountID items (db_activities s)"
  shows "fst (activity_upsert_batch accountID items s) = Inr ()"
proof (cases "items = []")
  case True
  then show ?thesis by (simp add: activity_upsert_batch_def ret_def)
next
  case False
  let ?fps = "filter (\<lambda>f. f \<noteq> []) (map act_source_fingerprint items)"
  let ?new = "batch_rows accountID items (db_activities s)"
  let ?cs = "chunks_of activityUpsertChunkSize ?new"
  obtain n where lk: "fingerprint_lookup accountID ?fps s =
      (Inr (batch_known accountID items (db_activities s)), s\<lparr>db_ops := n\<rparr>)"
    using fingerprint_lookup_ok [OF ok, of accountID ?fps] by (auto simp: batch_known_def Let_def)
  have pos: "0 < activityUpsertChunkSize" by (simp add: activityUpsertChunkSize_def)
  have item: "\<exists>a\<in>set items. apo_id x = act_id a \<and>
      activity_key x = (accountID, act_source_record_id a)" if "x \<in> set ?new" for x
    using batch_rows_source [OF that] by (auto simp: activity_key_def)
  have "\<exists>s'. for_each upsert_activities_stmt ?cs (s\<lparr>db_ops := Suc n\<rparr>) = (Inr (), s') \<and> no_faults s'"
  proof (rule upsert_stmts_ok)
    show "\<forall>c\<in>set ?cs. distinct (map activity_key c)"
      using chunk_distinct [OF pos batch_rows_distinct] by blast
    show "\<forall>x\<in>set (concat ?cs). \<forall>y\<in>set (concat ?cs) \<union> set (db_activities (s\<lparr>db_ops := Suc n\<rparr>)).
           apo_id x = apo_id y \<longrightarrow> activity_key x = activity_key y"
      unfolding concat_chunks_of [OF pos]
    proof (intro ballI impI)
      fix x y assume x: "x \<in> set ?new" and eq: "apo_id x = apo_id y"
        and y: "y \<in> set ?new \<union> set (db_activities (s\<lparr>db_ops := Suc n\<rparr>))"
      obtain a where a: "a \<in> set items" "apo_id x = act_id a"
          "activity_key x = (accountID, act_source_record_id a)"
        using item [OF x] by blast
      from y show "activity_key x = activity_key y"
      proof
        assume "y \<in> set ?new"
        from item [OF this] obtain b where "b \<in> set items" "apo_id y = act_id b"
          "activity_key y = (accountID, act_source_record_id b)" by blast
        with a eq ids_agreeD1 [OF ids, of a b] show ?thesis by simp
      next
        assume "y \<in> set (db_activities (s\<lparr>db_ops := Suc n\<rparr>))"
        with a eq ids_agreeD2 [OF ids, of a y] show ?thesis by simp
      qed
    qed
  qed (use ok in simp)
  then have "\<exists>s'. in_tx (for_each upsert_activities_stmt ?cs) (s\<lparr>db_ops := n\<rparr>) = (Inr (), s')"
    by (intro in_tx_ok) (use ok in simp_all)
  then show ?thesis using False lk
    by (auto simp: activity_upsert_batch_def bind_eff_apply wrap_err_def batch_rows_def)
qed

text \<open>
  Of two items of a batch with the same fingerprint and different source record ids, at
  most one is stored without the review flag: collisions are kept and flagged, never
  silently dropped or merged.
\<close>

theorem fingerprint_collision_flagged:
  assumes run: "activity_upsert_batch accountID items s = (Inr (), s')"
    and a: "find_row activity_key (accountID, i) (db_activities s') = Some ra"
      "i \<in> act_source_record_id ` set items"
    and b: "find_row activity_key (accountID, j) (db_activities s') = Some rb"
      "j \<in> act_source_record_id ` set items"
    and collide: "i \<noteq> j" "apo_source_fingerprint ra = apo_source_fingerprint rb"
      "apo_source_fingerprint ra \<noteq> []"
  shows "apo_needs_review ra \<or> apo_needs_review rb"
proof -
  let ?known = "known_after items (batch_known accountID items (db_activities s))"
  have stored: "apo_needs_review r \<or> ?known (apo_source_fingerprint r) = Some k"
    if r: "find_row activity_key (accountID, k) (db_activities s') = Some r"
      and k: "k \<in> act_source_record_id ` set items" and fp: "apo_source_fingerprint r \<noteq> []"
    for k r
  proof -
    let ?new = "batch_rows accountID items (db_activities s)"
    have after: "db_activities s' = fold (upsert_row activity_key activity_conflict) ?new (db_activities s)"
      using upsert_batch_result [OF run] by auto
    from k batch_rows_covers [of _ items accountID "db_activities s"]
    obtain x where x: "x \<in> set ?new" "activity_key x = (accountID, k)" by fastforce
    from act_table.find_upserts_same [OF batch_rows_distinct x(1), of "db_activities s"] r x(2)
    have "apo_source_fingerprint r = apo_source_fingerprint x" "apo_needs_review r = apo_needs_review x"
      by (auto simp: after activity_conflict_def split: option.splits)
    moreover from batch_rows_source [OF x(1)] obtain it where
      "x = activityFromDomain accountID (review_of ?known it)" by blast
    ultimately show ?thesis using fp x(2)
      by (auto simp: review_of_def activity_key_def split: if_splits)
  qed
  from stored [OF a] stored [OF b] collide show ?thesis by auto
qed

section \<open>Re-running a batch\<close>

text \<open>The rows a batch writes are its deduplicated items with the review flag decided.\<close>

lemma last_by_id_map:
  "(\<And>it. act_source_record_id (g it) = act_source_record_id it) \<Longrightarrow>
   last_by_id (map g items) (\<lambda>i. map_option g (m i)) i = map_option g (last_by_id items m i)"
proof (induction items arbitrary: m)
  case (Cons it items)
  have "(\<lambda>i. map_option g (m i))(act_source_record_id it \<mapsto> g it) =
      (\<lambda>i. map_option g ((m(act_source_record_id it \<mapsto> it)) i))" by auto
  with Cons.IH [OF Cons.prems, of "m(act_source_record_id it \<mapsto> it)"] Cons.prems [of it]
  show ?case by (simp del: fun_upd_apply)
qed simp

lemma order_of_map:
  "(\<And>it. act_source_record_id (g it) = act_source_record_id it) \<Longrightarrow>
   order_of (map g items) seen = order_of items seen"
  by (induction items arbitrary: seen) auto

definition batch_base :: "activity list \<Rightarrow> activity list" where
  "batch_base items = List.map_filter (last_by_id items Map.empty) (order_of items [])"

lemma map_filter_map_option:
  "List.map_filter (\<lambda>i. map_option g (m i)) is = map g (List.map_filter m is)"
  by (induction "is") (auto simp: map_filter_simps split: option.splits)

lemma batch_rows_eq:
  "batch_rows acc items rows =
     map (\<lambda>it. activityFromDomain acc (review_of (known_after items (batch_known acc items rows)) it))
       (batch_base items)"
proof -
  let ?g = "review_of (known_after items (batch_known acc items rows))"
  have "last_by_id (map ?g items) Map.empty = (\<lambda>i. map_option ?g (last_by_id items Map.empty i))"
    using last_by_id_map [of ?g items Map.empty] by (intro ext) simp
  then show ?thesis
    by (simp add: batch_rows_def dedup_batch_def Let_def reconcile_items_eq order_of_map
        batch_base_def map_filter_map_option comp_def)
qed

text \<open>A batch without fingerprints is idempotent: a retry after success changes nothing.\<close>

lemma batch_rows_no_fingerprints:
  assumes "\<forall>it\<in>set items. act_source_fingerprint it = []"
  shows "batch_rows acc items rows = map (activityFromDomain acc) (batch_base items)"
proof -
  have "set (batch_base items) \<subseteq> set items"
    using last_by_id_cases [of items Map.empty]
    by (fastforce simp: batch_base_def List.map_filter_def)
  with assms show ?thesis by (auto simp: batch_rows_eq review_of_def)
qed

text \<open>What the fingerprint lookup depends on: the (fingerprint, id) pairs of the account.\<close>

definition identity_pairs :: "string \<Rightarrow> activity_po list \<Rightarrow> (string \<times> string) set" where
  "identity_pairs acc rows =
     {(apo_source_fingerprint r, apo_source_record_id r) | r. r \<in> set rows \<and> apo_account_id r = acc}"

lemma fingerprint_identities_None:
  "fingerprint_identities acc fps rows f = None \<longleftrightarrow>
     f \<notin> set fps \<or> f \<notin> fst ` identity_pairs acc rows"
proof -
  have "fingerprint_identities acc fps rows f = None \<longleftrightarrow>
      filter (\<lambda>r. apo_source_fingerprint r = f) (sort_key apo_source_record_id
        (filter (\<lambda>r. apo_account_id r = acc \<and> apo_source_fingerprint r \<in> set fps) rows)) = []"
    by (simp only: fingerprint_identities_def fold_identities Let_def split: if_split) blast
  then show ?thesis by (auto simp: filter_empty_conv identity_pairs_def image_iff)
qed

lemma fingerprint_identities_Some:
  assumes "fingerprint_identities acc fps rows f = Some i"
  shows "(f, i) \<in> identity_pairs acc rows" and "(f, j) \<in> identity_pairs acc rows \<Longrightarrow> j \<le> i"
  using fingerprint_identities_max [OF assms] by (auto simp: identity_pairs_def)

lemma fingerprint_identities_cong:
  assumes "identity_pairs acc rows = identity_pairs acc rows'"
  shows "fingerprint_identities acc fps rows = fingerprint_identities acc fps rows'"
proof (rule ext)
  fix f
  have none: "fingerprint_identities acc fps rows f = None \<longleftrightarrow> fingerprint_identities acc fps rows' f = None"
    unfolding fingerprint_identities_None assms ..
  show "fingerprint_identities acc fps rows f = fingerprint_identities acc fps rows' f"
  proof (cases "fingerprint_identities acc fps rows f")
    case None
    with none show ?thesis by simp
  next
    case (Some i)
    with none obtain j where j: "fingerprint_identities acc fps rows' f = Some j" by auto
    have "i \<le> j" "j \<le> i"
      using fingerprint_identities_Some [OF Some] fingerprint_identities_Some [OF j] assms by auto
    then have "i = j" by (rule antisym)
    with Some j show ?thesis by simp
  qed
qed

lemma map_upsert_same_view:
  assumes "find_row activity_key (activity_key r) rows = Some x" and "g (activity_conflict x r) = g x"
  shows "map g (upsert_row activity_key activity_conflict r rows) = map g rows"
  using assms by (induction rows) (auto split: if_splits)

definition identity_view :: "activity_po \<Rightarrow> (string \<times> string) \<times> string" where
  "identity_view r = (activity_key r, apo_source_fingerprint r)"

lemma find_row_view:
  "map_option identity_view (find_row activity_key k rows) = find_row fst k (map identity_view rows)"
  by (induction rows) (auto simp: identity_view_def)

lemma map_upserts_same_view:
  assumes "\<And>r. r \<in> set rs \<Longrightarrow> \<exists>x. find_row activity_key (activity_key r) rows = Some x \<and>
      apo_source_fingerprint x = apo_source_fingerprint r"
  shows "map identity_view (fold (upsert_row activity_key activity_conflict) rs rows) =
    map identity_view rows"
  using assms
proof (induction rs arbitrary: rows)
  case (Cons r rs)
  let ?rows = "upsert_row activity_key activity_conflict r rows"
  obtain x where x: "find_row activity_key (activity_key r) rows = Some x"
      "apo_source_fingerprint x = apo_source_fingerprint r" using Cons.prems by auto
  then have same: "map identity_view ?rows = map identity_view rows"
    by (intro map_upsert_same_view [OF x(1)])
      (auto simp: identity_view_def activity_conflict_def activity_key_def)
  have "map identity_view (fold (upsert_row activity_key activity_conflict) rs ?rows) =
      map identity_view ?rows"
  proof (rule Cons.IH)
    fix r' assume "r' \<in> set rs"
    then obtain x' where "find_row activity_key (activity_key r') rows = Some x'"
        "apo_source_fingerprint x' = apo_source_fingerprint r'"
      using Cons.prems [of r'] by auto
    moreover have "map_option identity_view (find_row activity_key (activity_key r') ?rows) =
        map_option identity_view (find_row activity_key (activity_key r') rows)"
      by (simp only: find_row_view same)
    ultimately show "\<exists>x. find_row activity_key (activity_key r') ?rows = Some x \<and>
        apo_source_fingerprint x = apo_source_fingerprint r'"
      by (auto simp: identity_view_def)
  qed
  with same show ?case by simp
qed simp

lemma identity_pairs_eq:
  "identity_pairs acc rows = {(f, i). ((acc, i), f) \<in> set (map identity_view rows)}"
  by (auto simp: identity_pairs_def identity_view_def activity_key_def image_iff)

lemma identity_pairs_view:
  assumes "map identity_view rows = map identity_view rows'"
  shows "identity_pairs acc rows = identity_pairs acc rows'"
  unfolding identity_pairs_eq assms ..

text \<open>
  Re-sync settles: after a batch has been written twice, writing it a third time changes
  nothing, fingerprint collisions included. (The second write may still move a review flag,
  see \<open>review_flag_moves\<close>.)
\<close>

theorem upsert_batch_settles:
  assumes r1: "activity_upsert_batch accountID items s0 = (Inr (), s1)"
    and r2: "activity_upsert_batch accountID items s1 = (Inr (), s2)"
    and r3: "activity_upsert_batch accountID items s2 = (Inr (), s3)"
  shows "db_activities s3 = db_activities s2"
proof -
  let ?N = "\<lambda>s. batch_rows accountID items (db_activities s)"
  let ?up = "fold (upsert_row activity_key activity_conflict)"
  have a1: "db_activities s1 = ?up (?N s0) (db_activities s0)"
    and a2: "db_activities s2 = ?up (?N s1) (db_activities s1)"
    and a3: "db_activities s3 = ?up (?N s2) (db_activities s2)"
    using upsert_batch_result [OF r1] upsert_batch_result [OF r2] upsert_batch_result [OF r3] by auto
  have "map identity_view (db_activities s2) = map identity_view (db_activities s1)"
    unfolding a2
  proof (rule map_upserts_same_view)
    fix r assume "r \<in> set (?N s1)"
    then obtain it where it: "it \<in> set (batch_base items)"
      "activity_key r = (accountID, act_source_record_id it)"
      "apo_source_fingerprint r = act_source_fingerprint it"
      by (auto simp: batch_rows_eq activity_key_def)
    let ?r0 = "activityFromDomain accountID
        (review_of (known_after items (batch_known accountID items (db_activities s0))) it)"
    have "?r0 \<in> set (?N s0)" using it(1) by (simp add: batch_rows_eq)
    from act_table.find_upserts_same [OF batch_rows_distinct this, of "db_activities s0"]
    show "\<exists>x. find_row activity_key (activity_key r) (db_activities s1) = Some x \<and>
        apo_source_fingerprint x = apo_source_fingerprint r"
      using it by (auto simp: a1 activity_key_def activity_conflict_def split: option.splits)
  qed
  then have "identity_pairs accountID (db_activities s2) = identity_pairs accountID (db_activities s1)"
    by (rule identity_pairs_view)
  then have "batch_known accountID items (db_activities s2) = batch_known accountID items (db_activities s1)"
    by (auto simp: batch_known_def Let_def intro: fingerprint_identities_cong)
  then have "?N s2 = ?N s1" by (simp add: batch_rows_def)
  then show ?thesis
    by (simp add: a2 a3 act_table.upserts_again batch_rows_distinct)
qed

text \<open>
  A batch without fingerprints (every importer but the paged one) is idempotent: the
  retry of a successful write leaves the table exactly as it was.
\<close>

theorem upsert_batch_retry:
  assumes r1: "activity_upsert_batch accountID items s0 = (Inr (), s1)"
    and r2: "activity_upsert_batch accountID items s1 = (Inr (), s2)"
    and plain: "\<forall>it\<in>set items. act_source_fingerprint it = []"
  shows "db_activities s2 = db_activities s1"
  using upsert_batch_result [OF r1] upsert_batch_result [OF r2]
    act_table.upserts_again [OF batch_rows_distinct [of accountID items "db_activities s0"]]
  by (auto simp: batch_rows_no_fingerprints [OF plain])

section \<open>Concrete runs\<close>

definition sample_activity :: "string \<Rightarrow> string \<Rightarrow> activity" where
  "sample_activity i f = zero_activity\<lparr>act_id := i, act_source_record_id := i,
     act_source_fingerprint := f, act_type := ActivityBuy\<rparr>"

definition review_flags :: "'x db_scheme \<Rightarrow> (string \<times> bool) list" where
  "review_flags s = map (\<lambda>r. (apo_source_record_id r, apo_needs_review r)) (db_activities s)"

definition after_batch :: "string \<Rightarrow> activity list \<Rightarrow> 'x db_scheme \<Rightarrow> 'x db_scheme" where
  "after_batch accountID items s = snd (activity_upsert_batch accountID items s)"

lemma after_batch_run:
  "fst (activity_upsert_batch acc items s) = Inr () \<Longrightarrow>
   activity_upsert_batch acc items s = (Inr (), after_batch acc items s)"
  by (simp add: after_batch_def prod_eq_iff)

text \<open>
  The flag of a fingerprint collision is not where the first sync put it. Two records A
  and B with one fingerprint arrive in two batches: B, the newcomer, is flagged. The next
  sync resolves the stored fingerprint to the greatest id, so it flags A and clears B.
\<close>

theorem review_flag_moves:
  "review_flags (after_batch ''acc'' [sample_activity ''B'' ''fp'']
     (after_batch ''acc'' [sample_activity ''A'' ''fp''] empty_db)) = [(''A'', False), (''B'', True)] \<and>
   review_flags (after_batch ''acc'' [sample_activity ''A'' ''fp'', sample_activity ''B'' ''fp'']
     (after_batch ''acc'' [sample_activity ''B'' ''fp'']
       (after_batch ''acc'' [sample_activity ''A'' ''fp''] empty_db))) = [(''A'', True), (''B'', False)]"
  by code_simp

theorem upsert_batch_atomic_witness:
  "unique_keys activity_key (db_activities empty_db) \<and>
   find_row activity_key (''acc'', ''A'')
     (db_activities (after_batch ''acc'' [sample_activity ''A'' ''fp''] empty_db)) \<noteq> None"
proof -
  let ?m = "activity_upsert_batch ''acc'' [sample_activity ''A'' ''fp'']"
  have uk: "unique_keys activity_key (db_activities empty_db)" by (simp add: empty_db_def unique_keys_def)
  have ok: "fst (?m empty_db) = Inr ()" by code_simp
  have "?m empty_db = (fst (?m empty_db), snd (?m empty_db))" by simp
  from upsert_batch_atomic [OF this uk] ok uk show ?thesis
    by (simp add: after_batch_def sample_activity_def)
qed

theorem upsert_batch_succeeds_witness:
  "fst (activity_upsert_batch ''acc'' [sample_activity ''A'' ''fp'', sample_activity ''A'' ''fp'',
     sample_activity ''B'' ''fp''] empty_db) = Inr ()"
  by (rule upsert_batch_succeeds)
    (auto simp: no_faults_def empty_db_def ids_agree_def sample_activity_def)

theorem fingerprint_collision_flagged_witness:
  "\<exists>ra rb. find_row activity_key (''acc'', ''A'') (db_activities (after_batch ''acc''
       [sample_activity ''A'' ''fp'', sample_activity ''B'' ''fp''] empty_db)) = Some ra \<and>
     find_row activity_key (''acc'', ''B'') (db_activities (after_batch ''acc''
       [sample_activity ''A'' ''fp'', sample_activity ''B'' ''fp''] empty_db)) = Some rb \<and>
     (apo_needs_review ra \<or> apo_needs_review rb)"
proof -
  let ?its = "[sample_activity ''A'' ''fp'', sample_activity ''B'' ''fp'']"
  let ?m = "activity_upsert_batch ''acc'' ?its empty_db"
  let ?s' = "after_batch ''acc'' ?its empty_db"
  let ?ra = "activityFromDomain ''acc'' (sample_activity ''A'' ''fp'')"
  let ?rb = "activityFromDomain ''acc'' ((sample_activity ''B'' ''fp'')\<lparr>act_needs_review := True\<rparr>)"
  have ok: "fst ?m = Inr ()" by code_simp
  have run: "?m = (Inr (), ?s')" using ok by (rule after_batch_run)
  have fa: "find_row activity_key (''acc'', ''A'') (db_activities ?s') = Some ?ra"
    and fb: "find_row activity_key (''acc'', ''B'') (db_activities ?s') = Some ?rb"
    by code_simp+
  have "apo_needs_review ?ra \<or> apo_needs_review ?rb"
    by (rule fingerprint_collision_flagged [OF run fa _ fb]) (simp_all add: sample_activity_def)
  with fa fb show ?thesis by blast
qed

theorem upsert_batch_settles_witness:
  "let b = [sample_activity ''A'' ''fp'', sample_activity ''B'' ''fp''];
       s2 = after_batch ''acc'' b (after_batch ''acc'' b empty_db)
   in db_activities (after_batch ''acc'' b s2) = db_activities s2"
proof -
  let ?b = "[sample_activity ''A'' ''fp'', sample_activity ''B'' ''fp'']"
  let ?r = "\<lambda>s. activity_upsert_batch ''acc'' ?b s"
  let ?s1 = "after_batch ''acc'' ?b empty_db"
  let ?s2 = "after_batch ''acc'' ?b ?s1"
  have "fst (?r empty_db) = Inr ()" "fst (?r ?s1) = Inr ()" "fst (?r ?s2) = Inr ()"
    by code_simp+
  from this [THEN after_batch_run] show ?thesis
    using upsert_batch_settles [of "''acc''" ?b empty_db ?s1 ?s2 "after_batch ''acc'' ?b ?s2"]
    by (simp add: Let_def)
qed

theorem upsert_batch_retry_witness:
  "let b = [sample_activity ''A'' [], sample_activity ''B'' []];
       s1 = after_batch ''acc'' b empty_db
   in db_activities (after_batch ''acc'' b s1) = db_activities s1"
proof -
  let ?b = "[sample_activity ''A'' [], sample_activity ''B'' []]"
  let ?s1 = "after_batch ''acc'' ?b empty_db"
  have "fst (activity_upsert_batch ''acc'' ?b empty_db) = Inr ()"
      "fst (activity_upsert_batch ''acc'' ?b ?s1) = Inr ()"
    by code_simp+
  from this [THEN after_batch_run] show ?thesis
    using upsert_batch_retry [of "''acc''" ?b empty_db ?s1 "after_batch ''acc'' ?b ?s1"]
    by (simp add: Let_def sample_activity_def)
qed

end
