(* ===== verification/Store_Repos.thy ===== *)
theory Store_Repos
  imports Persistence_Repos
begin

text \<open>
  The repositories over the remaining tables: holdings snapshots (\<open>activities.go\<close>), tokens,
  sync cursors (\<open>cursor_model.go\<close>) and the price history (\<open>pricehistory_model.go\<close>). Each
  table interprets the \<open>keyed_table\<close> contract with its own conflict clause.
\<close>

section \<open>Holdings\<close>

definition holdings_conflict :: "holdings_po \<Rightarrow> holdings_po \<Rightarrow> holdings_po" where
  "holdings_conflict old new = new\<lparr>hpo_account_id := hpo_account_id old\<rparr>"

definition holding_get_latest :: "string \<Rightarrow> ('x db_scheme, holdings) eff" where
  "holding_get_latest accountID =
     bind_eff (wrap_err ''holdings get'' (exec_sql (reading (\<lambda>s.
         find_row hpo_account_id accountID (db_holdings s)))))
       (\<lambda>r. case r of None \<Rightarrow> raise ErrNotFound | Some po \<Rightarrow> ret (holdings_to_domain po))"

definition holding_replace :: "holdings \<Rightarrow> ('x db_scheme, unit) eff" where
  "holding_replace h = bind_eff time_now (\<lambda>now.
     case holdingsFromDomain now h of
       Inl e \<Rightarrow> raise e
     | Inr po \<Rightarrow> wrap_err ''holdings upsert'' (exec_sql (writing (\<lambda>s.
         s\<lparr>db_holdings := upsert_row hpo_account_id holdings_conflict po (db_holdings s)\<rparr>))))"

interpretation hold_table: settled_table hpo_account_id holdings_conflict
  by unfold_locales (simp_all add: holdings_conflict_def)

definition holdings_row :: "string \<Rightarrow> 'x db_scheme \<Rightarrow> holdings_po option" where
  "holdings_row i s = find_row hpo_account_id i (db_holdings s)"

lemma holdings_row_updates [simp]:
  "holdings_row i (s\<lparr>db_ops := n\<rparr>) = holdings_row i s"
  "holdings_row i (s\<lparr>db_ticks := n\<rparr>) = holdings_row i s"
  "holdings_row i (s\<lparr>db_connections := a\<rparr>) = holdings_row i s"
  "holdings_row i (s\<lparr>db_accounts := b\<rparr>) = holdings_row i s"
  "holdings_row i (s\<lparr>db_activities := c\<rparr>) = holdings_row i s"
  by (simp_all add: holdings_row_def)

lemma holding_replace_other:
  fixes v :: "'x db_scheme \<Rightarrow> 'v"
  assumes "\<And>s n. v (s\<lparr>db_ops := n\<rparr>) = v s" "\<And>s n. v (s\<lparr>db_ticks := n\<rparr>) = v s"
    and "\<And>s po. hpo_account_id po = hol_account_id h \<Longrightarrow>
      v (s\<lparr>db_holdings := upsert_row hpo_account_id holdings_conflict po (db_holdings s)\<rparr>) = v s"
  shows "keeps v (holding_replace h)"
proof -
  have "keeps v (case holdingsFromDomain now h of Inl e \<Rightarrow> raise e
     | Inr po \<Rightarrow> wrap_err ''holdings upsert'' (exec_sql (writing (\<lambda>s.
         s\<lparr>db_holdings := upsert_row hpo_account_id holdings_conflict po (db_holdings s)\<rparr>))))" for now
  proof (cases "holdingsFromDomain now h")
    case (Inr po)
    from holdings_from_domain_account [OF this] have "keeps v (writing (\<lambda>s.
         s\<lparr>db_holdings := upsert_row hpo_account_id holdings_conflict po (db_holdings s)\<rparr>))"
      by (auto simp: keeps_def writing_def assms(3))
    then show ?thesis by (simp add: Inr keeps_wrap keeps_exec_sql assms(1))
  qed (simp add: keeps_raise)
  then show ?thesis
    unfolding holding_replace_def by (intro keeps_bind keeps_time_now assms(2))
qed

section \<open>Tokens\<close>

definition token_conflict :: "token_metadata \<Rightarrow> token_metadata \<Rightarrow> token_metadata" where
  "token_conflict old new = old"

definition token_insert :: "token_metadata \<Rightarrow> ('x db_scheme, unit) eff" where
  "token_insert t = wrap_err ''token insert'' (exec_sql (writing (\<lambda>s.
     s\<lparr>db_tokens := upsert_row tok_token_id token_conflict t (db_tokens s)\<rparr>)))"

interpretation tok_table: settled_table tok_token_id token_conflict
  by unfold_locales (simp_all add: token_conflict_def)

text \<open>Audit rows are immutable: whatever is inserted, a stored row stays as it is.\<close>

lemma token_insert_immutable:
  "preserves (\<lambda>s :: 'x db_scheme. find_row tok_token_id i (db_tokens s) = Some t) (token_insert t')"
proof -
  have "preserves (\<lambda>s :: 'x db_scheme. find_row tok_token_id i (db_tokens s) = Some t)
     (writing (\<lambda>s. s\<lparr>db_tokens := upsert_row tok_token_id token_conflict t' (db_tokens s)\<rparr>))"
  proof (rule preservesI)
    fix s :: "'x db_scheme"
    assume "find_row tok_token_id i (db_tokens s) = Some t"
    then show "find_row tok_token_id i (db_tokens (snd (writing (\<lambda>s.
        s\<lparr>db_tokens := upsert_row tok_token_id token_conflict t' (db_tokens s)\<rparr>) s))) = Some t"
      using tok_table.find_upsert_same [of t' "db_tokens s"]
        tok_table.find_upsert_other [of i t' "db_tokens s"]
      by (cases "i = tok_token_id t'") (auto simp: writing_def token_conflict_def)
  qed
  then show ?thesis
    unfolding token_insert_def by (intro preserves_wrap preserves_exec_sql) simp_all
qed

section \<open>Sync cursors\<close>

definition cursor_conflict :: "sync_cursor \<Rightarrow> sync_cursor \<Rightarrow> sync_cursor" where
  "cursor_conflict old new = old\<lparr>scu_position := scu_position new,
     scu_complete := scu_complete new, scu_updated_at := scu_updated_at new\<rparr>"

definition cursor_get :: "string \<Rightarrow> ('x db_scheme, sync_cursor) eff" where
  "cursor_get scope =
     bind_eff (wrap_err ''cursor get'' (exec_sql (reading (\<lambda>s. find_row scu_scope scope (db_cursors s)))))
       (\<lambda>r. case r of None \<Rightarrow> raise ErrNotFound | Some c \<Rightarrow> ret c)"

definition cursor_set :: "sync_cursor \<Rightarrow> ('x db_scheme, unit) eff" where
  "cursor_set c = bind_eff time_now (\<lambda>now.
     let c' = (if time_is_zero (scu_updated_at c) then c\<lparr>scu_updated_at := now\<rparr> else c)
     in wrap_err ''cursor set'' (exec_sql (writing (\<lambda>s.
          s\<lparr>db_cursors := upsert_row scu_scope cursor_conflict c' (db_cursors s)\<rparr>))))"

definition cursor_delete :: "string \<Rightarrow> ('x db_scheme, unit) eff" where
  "cursor_delete scope = wrap_err ''cursor delete'' (exec_sql (writing (\<lambda>s.
     s\<lparr>db_cursors := filter (\<lambda>c. scu_scope c \<noteq> scope) (db_cursors s)\<rparr>)))"

interpretation cur_table: settled_table scu_scope cursor_conflict
  by unfold_locales (simp_all add: cursor_conflict_def)

section \<open>Price history\<close>

definition normalizePrice :: "string \<Rightarrow> string \<Rightarrow> string \<times> string" where
  "normalizePrice asset currency =
    (let a = to_upper (trim_space asset); c = to_upper (trim_space currency)
     in (a, if c = [] then ''USD'' else c))"

definition price_key :: "historical_price \<Rightarrow> string \<times> time \<times> string \<times> string" where
  "price_key p = (hpr_asset p, hpr_timestamp p, hpr_currency p, hpr_source p)"

definition price_conflict :: "historical_price \<Rightarrow> historical_price \<Rightarrow> historical_price" where
  "price_conflict old new = old\<lparr>hpr_price := hpr_price new, hpr_source := hpr_source new,
     hpr_updated_at := hpr_updated_at new\<rparr>"

definition price_get :: "string \<Rightarrow> string \<Rightarrow> time \<Rightarrow> ('x db_scheme, historical_price) eff" where
  "price_get asset currency t =
    (case normalizePrice asset currency of (a, c) \<Rightarrow>
     bind_eff (wrap_err ''price history get'' (exec_sql (reading (\<lambda>s.
         sort_key (\<lambda>p. - hpr_timestamp p) (filter (\<lambda>p. hpr_asset p = a \<and> hpr_currency p = c \<and>
           hpr_timestamp p \<le> t) (db_prices s))))))
       (\<lambda>ps. case ps of [] \<Rightarrow> raise ErrNotFound | p # _ \<Rightarrow> ret p))"

definition price_list ::
  "string \<Rightarrow> string \<Rightarrow> time \<Rightarrow> time \<Rightarrow> ('x db_scheme, historical_price list) eff" where
  "price_list asset currency from_t to_t =
    (case normalizePrice asset currency of (a, c) \<Rightarrow>
     wrap_err ''price history list'' (exec_sql (reading (\<lambda>s.
       sort_key hpr_timestamp (filter (\<lambda>p. hpr_asset p = a \<and> hpr_currency p = c \<and>
         from_t \<le> hpr_timestamp p \<and> hpr_timestamp p \<le> to_t) (db_prices s))))))"

definition price_row :: "time \<Rightarrow> historical_price \<Rightarrow> historical_price" where
  "price_row now p =
    (case normalizePrice (hpr_asset p) (hpr_currency p) of (a, c) \<Rightarrow>
       \<lparr>hpr_asset = a, hpr_timestamp = hpr_timestamp p, hpr_currency = c, hpr_price = hpr_price p,
        hpr_source = trim_space (hpr_source p),
        hpr_updated_at = (if time_is_zero (hpr_updated_at p) then now else hpr_updated_at p)\<rparr>)"

definition price_upsert :: "historical_price list \<Rightarrow> ('x db_scheme, unit) eff" where
  "price_upsert prices =
    (if prices = [] then ret ()
     else bind_eff time_now (\<lambda>now.
       wrap_err ''price history upsert'' (exec_sql (\<lambda>s.
         let rows = map (price_row now) prices in
         if \<not> distinct (map price_key rows)
         then (Inl (ErrDB ''ON CONFLICT DO UPDATE command cannot affect row a second time''), s)
         else (Inr (), s\<lparr>db_prices := fold (upsert_row price_key price_conflict) rows (db_prices s)\<rparr>)))))"

interpretation price_table: settled_table price_key price_conflict
  by unfold_locales (simp_all add: price_key_def price_conflict_def)

definition steamPriceLegacySources :: "string list" where
  "steamPriceLegacySources = [''steam_history'', ''steam_market'']"

definition migrateSteamPriceCurrency :: "('x db_scheme, unit) eff" where
  "migrateSteamPriceCurrency = wrap_err ''steam price currency purge'' (exec_sql (writing (\<lambda>s.
     s\<lparr>db_prices := filter (\<lambda>p. \<not> (has_prefix (hpr_asset p) ''STEAM:'' \<and>
         hpr_source p \<in> set steamPriceLegacySources)) (db_prices s)\<rparr>)))"

lemma normalizePrice_idem: "normalizePrice (fst (normalizePrice a c)) (snd (normalizePrice a c)) = normalizePrice a c"
proof -
  have "to_upper (trim_space ''USD'') = ''USD''" by code_simp
  then show ?thesis by (simp add: normalizePrice_def Let_def trim_space_to_upper)
qed

lemma sort_key_hd:
  "sort_key k xs = p # ps \<Longrightarrow> p \<in> set xs \<and> (\<forall>q\<in>set xs. k p \<le> k q)"
proof -
  assume eq: "sort_key k xs = p # ps"
  have "sorted (map k (p # ps))" using sorted_sort_key [of k xs] by (simp add: eq)
  moreover have "set xs = set (p # ps)" using set_sort [of k xs] by (simp add: eq)
  ultimately show ?thesis by auto
qed

text \<open>The quote a lookup returns is stored, of the asset and currency asked for, and the newest not after the instant.\<close>

lemma price_get_latest:
  assumes "price_get asset currency t s = (Inr p, s')"
  shows "p \<in> set (db_prices s) \<and> (hpr_asset p, hpr_currency p) = normalizePrice asset currency \<and>
     hpr_timestamp p \<le> t \<and>
     (\<forall>q\<in>set (db_prices s). (hpr_asset q, hpr_currency q) = normalizePrice asset currency \<and>
        hpr_timestamp q \<le> t \<longrightarrow> hpr_timestamp q \<le> hpr_timestamp p)"
proof -
  obtain a c where n: "normalizePrice asset currency = (a, c)" by fastforce
  let ?xs = "filter (\<lambda>p. hpr_asset p = a \<and> hpr_currency p = c \<and> hpr_timestamp p \<le> t) (db_prices s)"
  obtain ps where "sort_key (\<lambda>p. - hpr_timestamp p) ?xs = p # ps"
    using assms
    by (auto simp: price_get_def n eff_defs exec_sql_def Let_def
        split: option.splits list.splits sum.splits prod.splits)
  from sort_key_hd [OF this] show ?thesis by (auto simp: n)
qed

end
