(* ===== verification/Sync_Engine.thy ===== *)
theory Sync_Engine
  imports Activity_Repo Store_Repos
begin

text \<open>
  The sync engine, \<open>internal/application/sync/service.go\<close>: one snapshot persisted
  (\<open>persistSnapshot\<close>), one activity page persisted (\<open>persistActivityPage\<close>), one client
  synced (\<open>syncOne\<close>, \<open>runClient\<close>) and one full run (\<open>RunOnce\<close>). Its state is the
  database extended with the service's own fields. The lemmas show what survives every failure
  schedule: the user's sync switch, the last complete holdings snapshot, the rows of disabled
  accounts, and the order between data, completion flags and acknowledgements.
\<close>

section \<open>State and clients\<close>

record world = db +
  w_running :: "string list"
  w_run_locked :: bool
  w_last_run :: time
  w_committed :: "string list"

text \<open>
  \<open>StreamActivities\<close> is code of the client that calls the engine's sink between its own
  requests: a tree whose nodes are the pages it emits, branching on the sink's error.
\<close>

datatype activity_stream =
    StreamEnd "go_error option"
  | StreamPage activity_page "go_error option \<Rightarrow> activity_stream"

text \<open>
  A \<open>BrokerClient\<close>: what it fetches in this run, and the optional interfaces it implements
  (\<open>PagedActivityClient\<close>, \<open>SnapshotCommitter\<close>, \<open>ScheduledBrokerClient\<close>).
\<close>

record broker_client =
  cli_id :: string
  cli_fetch :: "broker_snapshot \<times> go_error option"
  cli_stream :: "(activity_sync_state list \<Rightarrow> activity_stream) option"
  cli_committer :: bool
  cli_sync_interval :: "duration option"

definition hasSnapshotData :: "broker_snapshot \<Rightarrow> bool" where
  "hasSnapshotData snap \<longleftrightarrow> con_id (snap_connection snap) \<noteq> [] \<or> snap_connections snap \<noteq> [] \<or>
     snap_accounts snap \<noteq> [] \<or> snap_holdings snap \<noteq> [] \<or> snap_activities snap \<noteq> []"

section \<open>Persisting a snapshot\<close>

definition partial_accounts :: "broker_snapshot \<Rightarrow> string list" where
  "partial_accounts snap = map hol_account_id (filter hol_partial (snap_holdings snap))"

definition snapshot_connections :: "broker_snapshot \<Rightarrow> connection list" where
  "snapshot_connections snap =
    (if snap_connections snap = [] \<and> con_id (snap_connection snap) \<noteq> []
     then [snap_connection snap] else snap_connections snap)"

text \<open>The gate: the local variables are \<open>enabled\<close> and the keys of \<open>disabled\<close>.\<close>

definition gate_account ::
  "string list \<Rightarrow> account \<Rightarrow> account list \<times> string list \<Rightarrow> ('x db_scheme, account list \<times> string list) eff" where
  "gate_account partials acc = (\<lambda>(enabled, disabled).
     bind_eff (attempt (account_get (acc_id acc))) (\<lambda>r. ret (case r of
         Inl _ \<Rightarrow> (enabled @ [acc], disabled)
       | Inr saved \<Rightarrow>
           if \<not> acc_sync_enabled saved then (enabled, acc_id acc # disabled)
           else if acc_id acc \<in> set partials
           then (enabled @ [acc\<lparr>acc_balance_total := acc_balance_total saved,
                   acc_balance_currency := acc_balance_currency saved\<rparr>], disabled)
           else (enabled @ [acc], disabled))))"

definition save_account :: "account \<Rightarrow> ('x db_scheme, unit) eff" where
  "save_account acc = wrap_err ''upsert account'' (account_upsert
     (acc\<lparr>acc_last_tx_sync := None, acc_initial_tx_sync_done := False,
          acc_last_holdings_sync := None, acc_initial_holdings_done := False\<rparr>))"

definition save_holdings :: "string list \<Rightarrow> holdings \<Rightarrow> ('x db_scheme, unit) eff" where
  "save_holdings disabled h =
    (if hol_account_id h \<in> set disabled then ret ()
     else if hol_partial h then ret ()
     else bind_eff (if time_is_zero (hol_captured_at h)
            then bind_eff time_now (\<lambda>now. ret (h\<lparr>hol_captured_at := now\<rparr>)) else ret h) (\<lambda>h'.
       seq_eff (wrap_err ''replace holdings'' (holding_replace h'))
         (wrap_err ''update holdings sync status''
            (account_update_sync_status (hol_account_id h') None (Some (hol_captured_at h'))))))"

definition save_activities :: "string list \<Rightarrow> string \<times> activity list \<Rightarrow> ('x db_scheme, unit) eff" where
  "save_activities disabled = (\<lambda>(accID, items).
     if accID \<in> set disabled then ret ()
     else if items = [] then ret ()
     else wrap_err ''upsert activities'' (activity_upsert_batch accID items))"

definition retract_activities ::
  "string list \<Rightarrow> string list \<Rightarrow> string \<times> string list \<Rightarrow> ('x db_scheme, unit) eff" where
  "retract_activities disabled partials = (\<lambda>(accID, sourceIDs).
     if accID \<in> set disabled \<or> sourceIDs = [] \<or> accID \<in> set partials then ret ()
     else wrap_err ''delete retracted activities'' (activity_delete accID sourceIDs))"

definition publish_tx_sync :: "account \<Rightarrow> ('x db_scheme, unit) eff" where
  "publish_tx_sync acc = (case acc_last_tx_sync acc of
     None \<Rightarrow> ret ()
   | Some t \<Rightarrow> wrap_err ''update transaction sync status''
       (account_update_sync_status (acc_id acc) (Some t) None))"

definition snapshot_committed :: "broker_client \<Rightarrow> (world, unit) eff" where
  "snapshot_committed c = (if cli_committer c
     then writing (\<lambda>w. w\<lparr>w_committed := w_committed w @ [cli_id c]\<rparr>) else ret ())"

definition save_snapshot_data ::
  "broker_snapshot \<Rightarrow> account list \<times> string list \<Rightarrow> ('x db_scheme, unit) eff" where
  "save_snapshot_data snap = (\<lambda>(enabled, disabled).
     seq_eff (for_each save_account enabled)
    (seq_eff (for_each (save_holdings disabled) (snap_holdings snap))
    (seq_eff (for_each (save_activities disabled) (snap_activities snap))
    (seq_eff (for_each (retract_activities disabled (partial_accounts snap))
                (snap_retracted_activities snap))
             (for_each publish_tx_sync enabled)))))"

definition save_connections :: "broker_snapshot \<Rightarrow> ('x db_scheme, unit) eff" where
  "save_connections snap = for_each (\<lambda>conn. wrap_err ''upsert connection'' (connection_upsert conn))
     (snapshot_connections snap)"

definition gate_accounts :: "broker_snapshot \<Rightarrow> ('x db_scheme, account list \<times> string list) eff" where
  "gate_accounts snap = fold_eff (gate_account (partial_accounts snap)) (snap_accounts snap) ([], [])"

definition persist_snapshot :: "broker_client \<Rightarrow> broker_snapshot \<Rightarrow> (world, unit) eff" where
  "persist_snapshot c snap =
     seq_eff (save_connections snap)
       (bind_eff (gate_accounts snap) (\<lambda>gates.
          seq_eff (save_snapshot_data snap gates) (snapshot_committed c)))"

section \<open>Persisting a page\<close>

definition persist_activity_page :: "activity_page \<Rightarrow> ('x db_scheme, unit) eff" where
  "persist_activity_page page =
     seq_eff
       (if pag_items page = [] then ret ()
        else wrap_err ''upsert activity page'' (activity_upsert_batch (pag_account_id page) (pag_items page)))
       (bind_eff (if pag_complete page then bind_eff time_now (\<lambda>now. ret (Some now)) else ret None)
         (\<lambda>completedAt. wrap_err ''update activity sync checkpoint''
            (account_update_progress (pag_account_id page)
               \<lparr>prg_next_offset = pag_next_offset page,
                prg_first_transaction_date = pag_first_transaction_date page,
                prg_completed_at = completedAt\<rparr>)))"

section \<open>One client\<close>

definition load_state ::
  "account \<Rightarrow> activity_sync_state list \<Rightarrow> ('x db_scheme, activity_sync_state list) eff" where
  "load_state acc states =
     bind_eff (wrap_err (''load activity sync state for '' @ acc_id acc) (account_get (acc_id acc)))
       (\<lambda>stored. ret (if acc_sync_enabled stored
          then states @ [\<lparr>ass_account_id = acc_id stored,
              ass_initial_sync_completed = acc_initial_tx_sync_done stored,
              ass_last_successful_sync = acc_last_tx_sync stored,
              ass_next_offset = acc_activity_sync_offset stored\<rparr>]
          else states))"

definition err_of :: "'a res \<Rightarrow> go_error option" where
  "err_of r = (case r of Inl e \<Rightarrow> Some e | Inr _ \<Rightarrow> None)"

primrec run_stream :: "activity_stream \<Rightarrow> 'x db_scheme \<Rightarrow> go_error option \<times> 'x db_scheme" where
  "run_stream (StreamEnd e) = (\<lambda>w. (e, w))"
| "run_stream (StreamPage p next) = (\<lambda>w.
     case persist_activity_page p w of (r, w') \<Rightarrow> run_stream (next (err_of r)) w')"

definition stream_activities ::
  "(activity_sync_state list \<Rightarrow> activity_stream) \<Rightarrow> go_error option \<Rightarrow> account list \<Rightarrow>
   'x db_scheme \<Rightarrow> go_error option \<times> 'x db_scheme" where
  "stream_activities stream fetchErr accounts = (\<lambda>w.
     case fold_eff load_state accounts [] w of
       (Inl e, w') \<Rightarrow> (errors_join [fetchErr, Some e], w')
     | (Inr states, w') \<Rightarrow>
         (case run_stream (stream states) w' of (streamErr, w'') \<Rightarrow>
            (errors_join [fetchErr, streamErr], w'')))"

definition sync_one :: "broker_client \<Rightarrow> world \<Rightarrow> go_error option \<times> world" where
  "sync_one c = (\<lambda>w. case cli_fetch c of (snap, fetchErr) \<Rightarrow>
     if fetchErr \<noteq> None \<and> \<not> hasSnapshotData snap then (map_option (Wrapf ''fetch'') fetchErr, w)
     else case persist_snapshot c snap w of
         (Inl pe, w') \<Rightarrow> (errors_join [fetchErr, Some pe], w')
       | (Inr _, w') \<Rightarrow> (case cli_stream c of
             None \<Rightarrow> (fetchErr, w')
           | Some stream \<Rightarrow> stream_activities stream fetchErr (snap_accounts snap) w'))"

definition begin_client :: "string \<Rightarrow> world \<Rightarrow> bool \<times> world" where
  "begin_client i w = (if i \<in> set (w_running w) then (False, w)
     else (True, w\<lparr>w_running := i # w_running w\<rparr>))"

definition end_client :: "string \<Rightarrow> world \<Rightarrow> world" where
  "end_client i w = w\<lparr>w_running := filter (\<lambda>j. j \<noteq> i) (w_running w)\<rparr>"

definition set_last_run :: "world \<Rightarrow> world" where
  "set_last_run w = w\<lparr>w_last_run := db_clock w (db_ticks w), db_ticks := Suc (db_ticks w)\<rparr>"

text \<open>\<open>cancelled\<close> is whether \<open>ctx.Err()\<close> is set once \<open>syncOne\<close> has returned.\<close>

definition run_client :: "bool \<Rightarrow> broker_client \<Rightarrow> world \<Rightarrow> go_error option \<times> world" where
  "run_client cancelled c w = (case begin_client (cli_id c) w of
     (False, w1) \<Rightarrow> (None, w1)
   | (True, w1) \<Rightarrow> (case sync_one c w1 of (err, w2) \<Rightarrow>
       (case err of
          Some e \<Rightarrow> if \<not> cancelled then (Some e, end_client (cli_id c) w2)
                    else (None, end_client (cli_id c) w2)
        | None \<Rightarrow> (None, end_client (cli_id c) (if \<not> cancelled then set_last_run w2 else w2)))))"

text \<open>
  A full run: the goroutines of \<open>RunOnce\<close> taken one after the other, in the order of the
  list, which stands for the order in which they finish.
\<close>

fun run_clients :: "bool \<Rightarrow> broker_client list \<Rightarrow> world \<Rightarrow> (string \<times> go_error option) list \<times> world" where
  "run_clients cancelled [] w = ([], w)"
| "run_clients cancelled (c # cs) w = (case run_client cancelled c w of (e, w1) \<Rightarrow>
     (case run_clients cancelled cs w1 of (rs, w2) \<Rightarrow> ((cli_id c, e) # rs, w2)))"

definition run_errors :: "(string \<times> go_error option) list \<Rightarrow> go_error list" where
  "run_errors rs = List.map_filter (\<lambda>(i, e). map_option (Wrapf i) e) rs"

definition run_once :: "bool \<Rightarrow> broker_client list \<Rightarrow> world \<Rightarrow> go_error option \<times> world" where
  "run_once cancelled clients w =
    (if w_run_locked w then (None, w)
     else case run_clients cancelled clients (w\<lparr>w_run_locked := True\<rparr>) of (results, w1) \<Rightarrow>
       let errs = run_errors results
       in if clients \<noteq> [] \<and> length errs = length clients
          then (Some (Wrapf ''sync: all brokers failed'' (Joined errs)), w1\<lparr>w_run_locked := False\<rparr>)
          else (None, (set_last_run w1)\<lparr>w_run_locked := False\<rparr>))"

definition new_service_interval :: "duration option \<Rightarrow> duration" where
  "new_service_interval cfg = (case cfg of Some d \<Rightarrow> if d > 0 then d else 4 * dur_hour | None \<Rightarrow> 4 * dur_hour)"

definition loop_interval :: "duration \<Rightarrow> broker_client \<Rightarrow> duration" where
  "loop_interval service_interval c =
    (let interval = (case cli_sync_interval c of
           Some d \<Rightarrow> if d > 0 then d else service_interval | None \<Rightarrow> service_interval)
     in if interval \<le> 0 then 4 * dur_hour else interval)"

end
