(* ===== verification/Sync_Safety.thy ===== *)
theory Sync_Safety
  imports Sync_Engine
begin

text \<open>
  What a sync cannot break. The locale \<open>sync_invariant\<close> lists what a predicate on the
  state must survive, one repository operation at a time, and concludes that it survives
  \<open>syncOne\<close>, \<open>runClient\<close> and \<open>RunOnce\<close> for every client, every snapshot and every
  schedule of failures. It is interpreted on the user's sync switch and on the link between
  completion flags and stored holdings. The section on disabled accounts follows one account
  through a run; the last one gives the meaning of an acknowledgement.
\<close>


section \<open>Invariants of a sync\<close>

locale data_invariant =
  fixes P :: "world \<Rightarrow> bool"
  assumes op_counter: "P (w\<lparr>db_ops := n\<rparr>) = P w"
    and clock: "P (w\<lparr>db_ticks := n\<rparr>) = P w"
    and connection: "preserves P (connection_upsert conn)"
    and account: "acc_last_tx_sync a = None \<Longrightarrow> acc_last_holdings_sync a = None \<Longrightarrow>
      \<not> acc_initial_tx_sync_done a \<Longrightarrow> \<not> acc_initial_holdings_done a \<Longrightarrow>
      preserves P (account_upsert a)"
    and holdings: "preserves P (seq_eff (wrap_err c1 (holding_replace h))
      (wrap_err c2 (account_update_sync_status (hol_account_id h) None (Some t))))"
    and tx_status: "preserves P (account_update_sync_status i (Some t) None)"
    and upsert: "preserves P (activity_upsert_batch i items)"
    and delete: "preserves P (activity_delete i ids)"
    and progress: "preserves P (account_update_progress i p)"
begin

lemma time_now: "preserves P time_now"
  by (rule preserves_time_now) (rule clock)

lemma account_get: "preserves P (account_get i)"
  unfolding account_get_def by (intro pres_intros preserves_exec_sql op_counter)

lemma gate: "preserves P (gate_accounts snap)"
  unfolding gate_accounts_def gate_account_def
  by (intro pres_intros account_get)

lemma save_data: "preserves P (save_snapshot_data snap gates)"
proof -
  have "preserves P (save_account a)" for a
    unfolding save_account_def by (intro pres_intros account) simp_all
  moreover have "preserves P (save_holdings d h)" for d h
    unfolding save_holdings_def by (intro pres_intros time_now holdings)
  moreover have "preserves P (save_activities d x)" for d x
    unfolding save_activities_def by (intro pres_intros upsert)
  moreover have "preserves P (retract_activities d p x)" for d p x
    unfolding retract_activities_def by (intro pres_intros delete)
  moreover have "preserves P (publish_tx_sync a)" for a
    unfolding publish_tx_sync_def by (intro pres_intros tx_status)
  ultimately show ?thesis
    unfolding save_snapshot_data_def by (intro pres_intros)
qed

lemma connections: "preserves P (save_connections snap)"
  unfolding save_connections_def by (intro pres_intros connection)

lemma page: "preserves P (persist_activity_page p)"
  unfolding persist_activity_page_def by (intro pres_intros upsert progress time_now)

lemma stream: "P w \<Longrightarrow> P (snd (run_stream st w))"
proof (induction st arbitrary: w)
  case (StreamPage p "next")
  have "P (snd (persist_activity_page p w))" by (rule preservesD [OF page StreamPage.prems])
  then show ?case by (cases "persist_activity_page p w") (simp add: StreamPage.IH)
qed simp

lemma streams: "P w \<Longrightarrow> P (snd (stream_activities st e accs w))"
proof -
  assume "P w"
  moreover have "preserves P (fold_eff load_state accs [])"
    unfolding load_state_def by (intro pres_intros account_get)
  ultimately have "P (snd (fold_eff load_state accs [] w))" by (rule preservesD [rotated])
  then show ?thesis
    using stream
    by (cases "fold_eff load_state accs [] w")
      (auto simp: stream_activities_def split: sum.splits prod.splits, metis snd_conv)
qed

end

text \<open>A predicate that does not read the acknowledgements survives the sync of a client.\<close>

locale sync_invariant = data_invariant +
  assumes committed: "P (w\<lparr>w_committed := ids\<rparr>) = P w"
begin

lemma persist: "preserves P (persist_snapshot c snap)"
proof -
  have "preserves P (snapshot_committed c)"
    unfolding snapshot_committed_def by (auto simp: preserves_def eff_defs committed)
  then show ?thesis
    unfolding persist_snapshot_def
    by (intro pres_intros connections gate save_data)
qed

lemma sync_one: "P w \<Longrightarrow> P (snd (sync_one c w))"
proof -
  assume "P w"
  moreover obtain snap e where f: "cli_fetch c = (snap, e)" by fastforce
  moreover obtain r w' where p: "persist_snapshot c snap w = (r, w')" by fastforce
  ultimately have "P w'" using preserves_eq [OF persist p] by auto
  with \<open>P w\<close> show ?thesis
    by (auto simp: sync_one_def f p streams split: sum.splits option.splits)
qed

end

text \<open>A predicate that does not read the service's own fields survives whole runs too.\<close>

locale run_invariant = sync_invariant +
  assumes service: "P (w\<lparr>w_running := ids\<rparr>) = P w"
    "P (w\<lparr>w_run_locked := b\<rparr>) = P w" "P (w\<lparr>w_last_run := t\<rparr>) = P w"
begin

lemma run_client: "P w \<Longrightarrow> P (snd (run_client cancelled c w))"
  using sync_one [of "w\<lparr>w_running := cli_id c # w_running w\<rparr>" c]
  by (auto simp: run_client_def begin_client_def end_client_def set_last_run_def service clock
      split: prod.splits option.splits)

lemma run_clients: "P w \<Longrightarrow> P (snd (run_clients cancelled cs w))"
proof (induction cs arbitrary: w)
  case (Cons c cs)
  from run_client [OF Cons.prems, of cancelled c] Cons.IH show ?case
    by (auto split: prod.splits) (metis snd_conv)
qed simp

lemma run_once: "P w \<Longrightarrow> P (snd (run_once cancelled cs w))"
  using run_clients [of "w\<lparr>w_run_locked := True\<rparr>" cancelled cs]
  by (auto simp: run_once_def Let_def set_last_run_def service clock split: prod.splits)

end

section \<open>The user's sync switch\<close>

definition switch_of :: "string \<Rightarrow> 'x db_scheme \<Rightarrow> bool option" where
  "switch_of i s = map_option acp_sync_enabled (account_row i s)"

lemma switch_of_updates [simp]:
  "switch_of i (s\<lparr>db_ops := n\<rparr>) = switch_of i s" "switch_of i (s\<lparr>db_ticks := n\<rparr>) = switch_of i s"
  "switch_of i (s\<lparr>db_connections := a\<rparr>) = switch_of i s"
  "switch_of i (s\<lparr>db_activities := b\<rparr>) = switch_of i s"
  "switch_of i (s\<lparr>db_holdings := c\<rparr>) = switch_of i s"
  by (simp_all add: switch_of_def)

lemma account_row_service [simp]:
  "account_row i (w\<lparr>w_committed := ids\<rparr>) = account_row i w"
  "account_row i (w\<lparr>w_running := ids\<rparr>) = account_row i w"
  "account_row i (w\<lparr>w_run_locked := b\<rparr>) = account_row i w"
  "account_row i (w\<lparr>w_last_run := t\<rparr>) = account_row i w"
  by (simp_all add: account_row_def)

lemma holdings_row_service [simp]:
  "holdings_row i (w\<lparr>w_committed := ids\<rparr>) = holdings_row i w"
  "holdings_row i (w\<lparr>w_running := ids\<rparr>) = holdings_row i w"
  "holdings_row i (w\<lparr>w_run_locked := b\<rparr>) = holdings_row i w"
  "holdings_row i (w\<lparr>w_last_run := t\<rparr>) = holdings_row i w"
  by (simp_all add: holdings_row_def)

lemma switch_of_service [simp]:
  "switch_of i (w\<lparr>w_committed := ids\<rparr>) = switch_of i w"
  "switch_of i (w\<lparr>w_running := ids\<rparr>) = switch_of i w"
  "switch_of i (w\<lparr>w_run_locked := b\<rparr>) = switch_of i w"
  "switch_of i (w\<lparr>w_last_run := t\<rparr>) = switch_of i w"
  by (simp_all add: switch_of_def)

lemma account_row_upsert:
  "account_row i (s\<lparr>db_accounts := upsert_row acp_id account_conflict po (db_accounts s)\<rparr>) =
    (if i = acp_id po then Some (case account_row i s of None \<Rightarrow> po | Some r \<Rightarrow> account_conflict r po)
     else account_row i s)"
  by (simp add: account_row_def acc_table.find_upsert_same acc_table.find_upsert_other)

lemma account_from_domain_id [simp]:
  "acp_id (account_insert_row (accountFromDomain now a)) = acc_id a"
  by (simp add: account_insert_row_def accountFromDomain_def)

lemma preserves_writing: "(\<And>s. P s \<Longrightarrow> P (f s)) \<Longrightarrow> preserves P (writing f)"
  by (simp add: preserves_def writing_def)

lemma keeps_writing: "(\<And>s. v (f s) = v s) \<Longrightarrow> keeps v (writing f)"
  by (simp add: keeps_def writing_def)

lemma keeps_connection_upsert:
  assumes "\<And>s n. v (s\<lparr>db_ops := n\<rparr>) = v s" "\<And>s n. v (s\<lparr>db_ticks := n\<rparr>) = v s"
    "\<And>s x. v (s\<lparr>db_connections := x\<rparr>) = v s"
  shows "keeps v (connection_upsert c)"
  unfolding connection_upsert_def
  by (intro keep_intros keeps_time_now keeps_exec_sql keeps_writing assms)

lemma keeps_activity_delete:
  assumes "\<And>s n. v (s\<lparr>db_ops := n\<rparr>) = v s" "\<And>s x. v (s\<lparr>db_activities := x\<rparr>) = v s"
  shows "keeps v (activity_delete i ids)"
  unfolding activity_delete_def by (intro keep_intros keeps_exec_sql keeps_writing assms)

lemma keeps_update_sync_status:
  assumes "\<And>s n. v (s\<lparr>db_ops := n\<rparr>) = v s"
    and "\<And>s f. (\<And>r. acp_id (f r) = acp_id r \<and> acp_sync_enabled (f r) = acp_sync_enabled r) \<Longrightarrow>
      v (s\<lparr>db_accounts := update_rows (\<lambda>r. acp_id r = i) f (db_accounts s)\<rparr>) = v s"
  shows "keeps v (account_update_sync_status i tx hs)"
  unfolding account_update_sync_status_def
  by (intro keep_intros keeps_exec_sql keeps_writing assms) (auto simp: Let_def split: option.splits)

lemma account_upsert_keeps:
  assumes "\<And>s n. v (s\<lparr>db_ops := n\<rparr>) = v s" "\<And>s n. v (s\<lparr>db_ticks := n\<rparr>) = v s"
    "\<And>s x. v (s\<lparr>db_accounts := x\<rparr>) = v s"
  shows "keeps v (account_upsert a)"
  unfolding account_upsert_def
  by (intro keep_intros keeps_time_now keeps_exec_sql keeps_writing keeps_update_sync_status assms)

lemma keeps_update_progress:
  assumes "\<And>s n. v (s\<lparr>db_ops := n\<rparr>) = v s"
    and "\<And>s f. (\<And>r. acp_id (f r) = acp_id r \<and> acp_sync_enabled (f r) = acp_sync_enabled r) \<Longrightarrow>
      v (s\<lparr>db_accounts := update_rows (\<lambda>r. acp_id r = i) f (db_accounts s)\<rparr>) = v s"
  shows "keeps v (account_update_progress i p)"
proof -
  have "keeps v (\<lambda>s. (Inr (find_row acp_id i (db_accounts s) = None),
          s\<lparr>db_accounts := update_rows (\<lambda>r. acp_id r = i) (apply_progress p) (db_accounts s)\<rparr>))"
    by (simp add: keeps_def assms(2))
  then show ?thesis
    unfolding account_update_progress_def by (intro keep_intros keeps_exec_sql assms(1))
qed

lemma switch_of_update_rows [simp]:
  assumes "\<And>r. acp_id (f r) = acp_id r \<and> acp_sync_enabled (f r) = acp_sync_enabled r"
  shows "switch_of i (s\<lparr>db_accounts := update_rows (\<lambda>r. acp_id r = j) f (db_accounts s)\<rparr>) = switch_of i s"
  using assms by (auto simp: switch_of_def account_row_update_rows option.map_comp comp_def
      intro!: option.map_cong)

lemma switch_of_upsert:
  "switch_of i s = Some b \<Longrightarrow>
   switch_of i (s\<lparr>db_accounts := upsert_row acp_id account_conflict po (db_accounts s)\<rparr>) = Some b"
  by (auto simp: switch_of_def account_row_upsert account_conflict_def)

lemma account_upsert_switch:
  "preserves (\<lambda>s. switch_of i s = Some b) (account_upsert a)"
  unfolding account_upsert_def
  by (intro pres_intros preserves_time_now preserves_exec_sql preserves_writing preserves_of_keeps
      keeps_update_sync_status)
    (simp_all add: switch_of_upsert)

interpretation switch: run_invariant "\<lambda>w. switch_of i w = Some b" for i b
proof (unfold_locales, goal_cases)
  case (4 a)
  show ?case by (rule account_upsert_switch)
next
  case (5 c1 h c2 t)
  show ?case
    by (intro pres_intros preserves_of_keeps holding_replace_other keeps_update_sync_status) simp_all
qed (auto intro!: preserves_of_keeps keep_intros keeps_connection_upsert holding_replace_other
    keeps_update_sync_status keeps_update_progress upsert_batch_keeps keeps_activity_delete
  simp: switch_of_upsert)


section \<open>Completion flags and holdings\<close>

definition holdings_backed :: "string \<Rightarrow> 'x db_scheme \<Rightarrow> bool" where
  "holdings_backed i s \<longleftrightarrow> (case account_row i s of None \<Rightarrow> True
     | Some r \<Rightarrow> acp_initial_holdings_done r \<longrightarrow> holdings_row i s \<noteq> None)"

lemma holdings_backed_updates [simp]:
  "holdings_backed i (s\<lparr>db_ops := n\<rparr>) = holdings_backed i s"
  "holdings_backed i (s\<lparr>db_ticks := n\<rparr>) = holdings_backed i s"
  "holdings_backed i (s\<lparr>db_connections := a\<rparr>) = holdings_backed i s"
  "holdings_backed i (s\<lparr>db_activities := b\<rparr>) = holdings_backed i s"
  by (simp_all add: holdings_backed_def cong: option.case_cong)

lemma holdings_backed_service [simp]:
  "holdings_backed i (w\<lparr>w_committed := ids\<rparr>) = holdings_backed i w"
  "holdings_backed i (w\<lparr>w_running := ids\<rparr>) = holdings_backed i w"
  "holdings_backed i (w\<lparr>w_run_locked := b\<rparr>) = holdings_backed i w"
  "holdings_backed i (w\<lparr>w_last_run := t\<rparr>) = holdings_backed i w"
  by (simp_all add: holdings_backed_def cong: option.case_cong)

lemma holdings_row_accounts [simp]: "holdings_row i (s\<lparr>db_accounts := x\<rparr>) = holdings_row i s"
  by (simp add: holdings_row_def)

lemma holdings_row_upsert:
  "holdings_row i (s\<lparr>db_holdings := upsert_row hpo_account_id holdings_conflict po (db_holdings s)\<rparr>) =
    (if i = hpo_account_id po then Some po else holdings_row i s)"
  by (auto simp: holdings_row_def hold_table.find_upsert_same hold_table.find_upsert_other
      holdings_conflict_def dest: find_row_SomeD split: option.splits)

lemma holding_replace_result:
  assumes "holding_replace h s = (Inr (), s')"
  shows "\<exists>now po. holdingsFromDomain now h = Inr po \<and> holdings_row (hol_account_id h) s' = Some po"
proof -
  obtain now po where po: "holdingsFromDomain now h = Inr po" "s' = (s\<lparr>db_ticks := Suc (db_ticks s),
      db_ops := Suc (db_ops s)\<rparr>)\<lparr>db_holdings := upsert_row hpo_account_id holdings_conflict po
        (db_holdings s)\<rparr>"
    using assms
    by (auto simp: holding_replace_def time_now_def bind_eff_apply wrap_err_def exec_sql_def Let_def
        writing_def raise_def split: sum.splits option.splits)
  then show ?thesis
    using holdings_row_upsert [where i = "hol_account_id h" and po = po and s = "s\<lparr>db_ticks := Suc (db_ticks s),
      db_ops := Suc (db_ops s)\<rparr>"] holdings_from_domain_account [OF po(1)] by auto
qed

lemma update_sync_status_rows:
  "account_update_sync_status i tx hs s = (r, s') \<Longrightarrow>
   holdings_row j s' = holdings_row j s"
  by (erule keeps_eq [rotated], intro keeps_update_sync_status) simp_all

lemma holding_replace_present:
  "preserves (\<lambda>s. holdings_row i s \<noteq> None) (holding_replace h)"
proof (rule preservesI)
  fix s :: "'x db_scheme"
  assume p: "holdings_row i s \<noteq> None"
  obtain r s' where r: "holding_replace h s = (r, s')" by fastforce
  have "keeps (\<lambda>s. holdings_row i s = None) (holding_replace h)" if "i \<noteq> hol_account_id h"
    by (rule holding_replace_other) (use that in \<open>simp_all add: holdings_row_upsert\<close>)
  from keeps_eq [OF this r] p show "holdings_row i (snd (holding_replace h s)) \<noteq> None"
  proof (cases "i = hol_account_id h")
    case True
    have "r = Inr () \<or> holdings_row i s' = holdings_row i s"
      using r unfolding holding_replace_def time_now_def bind_eff_apply wrap_err_def exec_sql_def
      by (auto simp: Let_def writing_def raise_def split: sum.splits option.splits prod.splits)
    with holding_replace_result r p True show ?thesis by fastforce
  qed (simp add: r)
qed

lemma update_sync_status_account:
  assumes "account_update_sync_status j tx hs s = (r, s')"
  shows "i \<noteq> j \<Longrightarrow> account_row i s' = account_row i s"
proof -
  assume "i \<noteq> j"
  then show ?thesis
    by (intro keeps_eq [OF keeps_update_sync_status assms]) (simp_all add: account_row_update_rows)
qed

lemma save_holdings_pair_backed:
  "preserves (holdings_backed i) (seq_eff (wrap_err c1 (holding_replace h))
      (wrap_err c2 (account_update_sync_status (hol_account_id h) None (Some t))))"
proof (rule preservesI)
  fix s :: "'x db_scheme"
  assume b: "holdings_backed i s"
  obtain r s1 where r: "holding_replace h s = (r, s1)" by fastforce
  obtain r2 s2 where u: "account_update_sync_status (hol_account_id h) None (Some t) s1 = (r2, s2)" by fastforce
  have row: "account_row i s1 = account_row i s"
    by (rule keeps_eq [OF holding_replace_other r]) simp_all
  have present: "holdings_row i s \<noteq> None \<Longrightarrow> holdings_row i s1 \<noteq> None"
    using preserves_eq [OF holding_replace_present r] by simp
  have b1: "holdings_backed i s1"
    using b present by (auto simp: holdings_backed_def row split: option.splits)
  have "holdings_backed i s2" if "r = Inr ()"
  proof (cases "i = hol_account_id h")
    case True
    then show ?thesis
      using holding_replace_result [OF r [unfolded that]] update_sync_status_rows [OF u]
      by (auto simp: holdings_backed_def split: option.splits)
  next
    case False
    then show ?thesis
      using b1 update_sync_status_account [OF u] update_sync_status_rows [OF u]
      by (simp add: holdings_backed_def cong: option.case_cong)
  qed
  then show "holdings_backed i (snd (seq_eff (wrap_err c1 (holding_replace h))
      (wrap_err c2 (account_update_sync_status (hol_account_id h) None (Some t))) s))"
    using r u b1 by (auto simp: seq_eff_apply wrap_err_def split: sum.splits)
qed

lemma account_upsert_backed:
  assumes "acc_last_tx_sync a = None" "acc_last_holdings_sync a = None" "\<not> acc_initial_holdings_done a"
  shows "preserves (holdings_backed i) (account_upsert a)"
proof -
  have "holdings_backed i (s\<lparr>db_accounts := upsert_row acp_id account_conflict
      (account_insert_row (accountFromDomain now a)) (db_accounts s)\<rparr>)"
    if "holdings_backed i s" for now and s :: "'x db_scheme"
    using that assms(3)
    by (auto simp: holdings_backed_def account_row_upsert account_conflict_def account_insert_row_def
        accountFromDomain_def split: option.splits)
  then show ?thesis
    unfolding account_upsert_def account_update_sync_status_def assms(1,2) if_P [OF conjI [OF refl refl]]
    by (intro pres_intros preserves_time_now preserves_exec_sql preserves_writing) simp_all
qed

lemma backed_row_update:
  assumes "\<And>r. acp_id (f r) = acp_id r \<and> acp_initial_holdings_done (f r) = acp_initial_holdings_done r"
  shows "holdings_backed i (s\<lparr>db_accounts := update_rows (\<lambda>r. acp_id r = j) f (db_accounts s)\<rparr>) =
    holdings_backed i s"
  using assms by (auto simp: holdings_backed_def account_row_update_rows split: option.splits)

interpretation backed: run_invariant "holdings_backed i" for i
proof (unfold_locales, goal_cases)
  case (3 conn)
  show ?case by (intro preserves_of_keeps [of _ _ "\<lambda>b. b"] keeps_connection_upsert) simp_all
next
  case (4 a)
  then show ?case by (intro account_upsert_backed)
next
  case (5 c1 h c2 t)
  show ?case by (rule save_holdings_pair_backed)
next
  case (6 j t)
  show ?case unfolding account_update_sync_status_def
    by (intro pres_intros preserves_exec_sql preserves_writing) (simp_all add: backed_row_update Let_def)
next
  case (7 j items)
  show ?case by (intro preserves_of_keeps [of _ _ "\<lambda>b. b"] upsert_batch_keeps) simp_all
next
  case (8 j ids)
  show ?case by (intro preserves_of_keeps [of _ _ "\<lambda>b. b"] keeps_activity_delete) simp_all
next
  case (9 j p)
  have "preserves (holdings_backed i) (\<lambda>s. (Inr (find_row acp_id j (db_accounts s) = None),
          s\<lparr>db_accounts := update_rows (\<lambda>r. acp_id r = j) (apply_progress p) (db_accounts s)\<rparr>))"
    by (simp add: preserves_def backed_row_update apply_progress_def Let_def split: option.splits)
  then show ?case unfolding account_update_progress_def
    by (intro pres_intros preserves_exec_sql) simp_all
qed simp_all

section \<open>Disabled accounts\<close>

definition account_data ::
  "string \<Rightarrow> 'x db_scheme \<Rightarrow> account_po option \<times> holdings_po option \<times> activity_po list" where
  "account_data i s = (account_row i s, holdings_row i s,
     filter (\<lambda>r. apo_account_id r = i) (db_activities s))"

lemma account_data_updates [simp]:
  "account_data i (s\<lparr>db_ops := n\<rparr>) = account_data i s"
  "account_data i (s\<lparr>db_ticks := n\<rparr>) = account_data i s"
  "account_data i (s\<lparr>db_connections := a\<rparr>) = account_data i s"
  by (simp_all add: account_data_def)

lemma account_data_service [simp]:
  "account_data i (w\<lparr>w_committed := ids\<rparr>) = account_data i w"
  "account_data i (w\<lparr>w_running := ids\<rparr>) = account_data i w"
  by (simp_all add: account_data_def)

lemma update_status_data: "i \<noteq> j \<Longrightarrow> keeps (account_data i) (account_update_sync_status j tx hs)"
  by (intro keeps_update_sync_status) (simp_all add: account_data_def account_row_update_rows)

lemma progress_data: "i \<noteq> j \<Longrightarrow> keeps (account_data i) (account_update_progress j p)"
  by (intro keeps_update_progress) (simp_all add: account_data_def account_row_update_rows)

lemma account_upsert_data: "i \<noteq> acc_id a \<Longrightarrow> keeps (account_data i) (account_upsert a)"
  unfolding account_upsert_def
  by (intro keep_intros keeps_time_now keeps_exec_sql keeps_writing update_status_data)
    (simp_all add: account_data_def account_row_upsert)

lemma holding_replace_data: "i \<noteq> hol_account_id h \<Longrightarrow> keeps (account_data i) (holding_replace h)"
  by (intro holding_replace_other) (simp_all add: account_data_def holdings_row_upsert)

lemma upsert_batch_data: "i \<noteq> j \<Longrightarrow> keeps (account_data i) (activity_upsert_batch j items)"
proof (rule keepsI)
  fix s :: "'x db_scheme"
  assume ij: "i \<noteq> j"
  obtain r s' where m: "activity_upsert_batch j items s = (r, s')" by fastforce
  have "filter (\<lambda>r. apo_account_id r = i) (fold (upsert_row activity_key activity_conflict)
      (batch_rows j items (db_activities s)) (db_activities s)) =
    filter (\<lambda>r. apo_account_id r = i) (db_activities s)"
    by (rule act_table.filter_upserts_other)
      (use ij dedup_batch_account in \<open>force simp: batch_rows_def activity_key_def\<close>)
  with upsert_batch_result [OF m]
  show "account_data i (snd (activity_upsert_batch j items s)) = account_data i s"
    by (cases r) (auto simp: m account_data_def)
qed

lemma activity_delete_data: "i \<noteq> j \<Longrightarrow> keeps (account_data i) (activity_delete j ids)"
proof -
  assume "i \<noteq> j"
  then have "filter (\<lambda>r. apo_account_id r = i) (filter (\<lambda>r. \<not> (apo_account_id r = j \<and> Q r)) rows) =
      filter (\<lambda>r. apo_account_id r = i) rows" for rows and Q :: "activity_po \<Rightarrow> bool"
    by (induction rows) auto
  then show ?thesis
    unfolding activity_delete_def
    by (intro keep_intros keeps_exec_sql keeps_writing) (simp_all add: account_data_def)
qed

lemma save_holdings_keeps:
  fixes v :: "'x db_scheme \<Rightarrow> 'v"
  assumes ticks: "\<And>s n. v (s\<lparr>db_ticks := n\<rparr>) = v s"
    and pair: "\<And>t c1 c2. keeps v (seq_eff (wrap_err c1 (holding_replace (h\<lparr>hol_captured_at := t\<rparr>)))
      (wrap_err c2 (account_update_sync_status (hol_account_id h) None (Some t))))"
  shows "keeps v (save_holdings d h)"
proof -
  have "keeps v (seq_eff (wrap_err c1 (holding_replace h))
      (wrap_err c2 (account_update_sync_status (hol_account_id h) None (Some (hol_captured_at h)))))" for c1 c2
    using pair [of c1 "hol_captured_at h" c2] by simp
  with pair ticks show ?thesis
    by (simp add: save_holdings_def keeps_def bind_eff_def ret_def time_now_def)
qed

lemma save_account_data: "i \<noteq> acc_id a \<Longrightarrow> keeps (account_data i) (save_account a)"
  unfolding save_account_def by (intro keep_intros account_upsert_data) simp

lemma save_holdings_data:
  assumes "i \<in> set disabled \<or> i \<noteq> hol_account_id h"
  shows "keeps (account_data i) (save_holdings disabled h)"
proof (cases "hol_account_id h \<in> set disabled")
  case False
  with assms have other: "i \<noteq> hol_account_id h" by auto
  then show ?thesis
    by (intro save_holdings_keeps keep_intros holding_replace_data update_status_data) simp_all
qed (simp add: save_holdings_def keeps_ret)

lemma save_activities_data:
  "i \<in> set disabled \<Longrightarrow> keeps (account_data i) (save_activities disabled x)"
  by (cases x) (auto simp: save_activities_def intro!: keep_intros upsert_batch_data)

lemma retract_activities_data:
  "i \<in> set disabled \<Longrightarrow> keeps (account_data i) (retract_activities disabled ps x)"
  by (cases x) (auto simp: retract_activities_def intro!: keep_intros activity_delete_data)

lemma publish_tx_sync_data: "i \<noteq> acc_id a \<Longrightarrow> keeps (account_data i) (publish_tx_sync a)"
  unfolding publish_tx_sync_def by (intro keep_intros update_status_data)

lemma save_snapshot_data_frame:
  assumes "i \<in> set disabled" and "i \<notin> acc_id ` set enabled"
  shows "keeps (account_data i) (save_snapshot_data snap (enabled, disabled))"
proof -
  have "a \<in> set enabled \<Longrightarrow> i \<noteq> acc_id a" for a using assms(2) by auto
  then show ?thesis
    unfolding save_snapshot_data_def prod.case
    by (intro keep_intros save_account_data save_holdings_data save_activities_data
        retract_activities_data publish_tx_sync_data disjI1 assms(1))
qed

text \<open>The statements \<open>[a, a + n)\<close> of the run do not fail.\<close>

definition no_faults_in :: "nat \<Rightarrow> nat \<Rightarrow> 'x db_scheme \<Rightarrow> bool" where
  "no_faults_in a n s \<longleftrightarrow> list_all (\<lambda>k. db_fault s k = None) [a..<a + n]"

lemma gate_step:
  assumes "db_fault s (db_ops s) = None"
  shows "gate_account ps acc (en, dis) s =
    (Inr (case account_row (acc_id acc) s of
        None \<Rightarrow> (en @ [acc], dis)
      | Some po \<Rightarrow>
          if \<not> acp_sync_enabled po then (en, acc_id acc # dis)
          else if acc_id acc \<in> set ps
          then (en @ [acc\<lparr>acc_balance_total := acp_balance_total po,
                  acc_balance_currency := acp_balance_currency po\<rparr>], dis)
          else (en @ [acc], dis)), s\<lparr>db_ops := Suc (db_ops s)\<rparr>)"
  using assms
  by (auto simp: gate_account_def account_get_def exec_sql_def Let_def eff_defs account_row_def
      account_to_domain_def split: option.splits)

lemma gate_disabled:
  assumes "no_faults_in (db_ops s) (length accs) s"
    and "account_row i s = Some po" "\<not> acp_sync_enabled po"
    and "i \<notin> acc_id ` set en"
  shows "\<exists>en' dis' s'. fold_eff (gate_account ps) accs (en, dis) s = (Inr (en', dis'), s') \<and>
    i \<notin> acc_id ` set en' \<and> (i \<in> set dis \<or> i \<in> acc_id ` set accs \<longrightarrow> i \<in> set dis') \<and>
    account_data i s' = account_data i s"
  using assms
proof (induction accs arbitrary: en dis s)
  case Nil
  then show ?case by (simp add: ret_def)
next
  case (Cons a accs)
  let ?s = "s\<lparr>db_ops := Suc (db_ops s)\<rparr>"
  have f: "db_fault s (db_ops s) = None" and rest: "no_faults_in (db_ops ?s) (length accs) ?s"
    using Cons.prems(1) by (auto simp: no_faults_in_def list_all_iff)
  obtain gr where g: "gate_account ps a (en, dis) s = (Inr gr, ?s)"
    and e: "i \<notin> acc_id ` set (fst gr)" and d: "i \<in> set dis \<or> i = acc_id a \<longrightarrow> i \<in> set (snd gr)"
    by (rule that, rule gate_step [OF f])
      (use Cons.prems(2-4) in \<open>auto split: option.splits\<close>)
  from Cons.IH [OF rest _ Cons.prems(3) e, of "snd gr"] Cons.prems(2) d show ?case
    by (auto simp: bind_eff_apply g)
qed

lemma save_connections_data: "keeps (account_data i) (save_connections snap)"
  unfolding save_connections_def by (intro keep_intros keeps_connection_upsert) simp_all

lemma connection_upsert_ops:
  "connection_upsert c s = (Inr (), s') \<Longrightarrow> db_ops s' = Suc (db_ops s) \<and> db_fault s' = db_fault s"
  by (auto simp: connection_upsert_def exec_sql_def eff_defs time_now_def Let_def
      split: option.splits)

lemma save_connections_ops:
  assumes "save_connections snap s = (Inr (), s')"
  shows "db_ops s' = db_ops s + length (snapshot_connections snap) \<and> db_fault s' = db_fault s"
proof -
  have "for_each (\<lambda>conn. wrap_err c (connection_upsert conn)) cs s = (Inr (), s') \<Longrightarrow>
      db_ops s' = db_ops s + length cs \<and> db_fault s' = db_fault s" for cs c
  proof (induction cs arbitrary: s)
    case (Cons x cs)
    then show ?case by (fastforce elim!: seq_eff_InrE dest!: wrap_err_InrD connection_upsert_ops)
  qed (simp add: ret_def)
  with assms show ?thesis by (simp add: save_connections_def)
qed

primrec stream_avoids :: "string \<Rightarrow> activity_stream \<Rightarrow> bool" where
  "stream_avoids i (StreamEnd e) \<longleftrightarrow> True"
| "stream_avoids i (StreamPage p next) \<longleftrightarrow>
     pag_account_id p \<noteq> i \<and> (\<forall>e. stream_avoids i (next e))"

lemma run_stream_avoids: "stream_avoids i st \<Longrightarrow> account_data i (snd (run_stream st w)) = account_data i w"
proof (induction st arbitrary: w)
  case (StreamPage p "next")
  have "keeps (account_data i) (persist_activity_page p)"
    unfolding persist_activity_page_def
    by (intro keep_intros upsert_batch_data progress_data keeps_time_now) (use StreamPage.prems in auto)
  then have "account_data i (snd (persist_activity_page p w)) = account_data i w" by (rule keepsD)
  with StreamPage show ?case by (cases "persist_activity_page p w") simp
qed simp


lemma load_states_frame: "keeps (account_data i) (fold_eff load_state accs states)"
  unfolding load_state_def by (intro keep_intros account_get_keeps) simp_all

lemma load_state_disabled:
  assumes "load_state a states s = (Inr states', s')"
    and "account_row i s = Some po" "\<not> acp_sync_enabled po" "i \<notin> ass_account_id ` set states"
  shows "i \<notin> ass_account_id ` set states'"
proof -
  obtain stored s1 where g: "account_get (acc_id a) s = (Inr stored, s1)"
    and st: "states' = (if acc_sync_enabled stored
          then states @ [\<lparr>ass_account_id = acc_id stored,
              ass_initial_sync_completed = acc_initial_tx_sync_done stored,
              ass_last_successful_sync = acc_last_tx_sync stored,
              ass_next_offset = acc_activity_sync_offset stored\<rparr>]
          else states)"
    using assms(1) unfolding load_state_def
    by (auto elim!: bind_eff_InrE dest!: wrap_err_InrD simp: ret_def)
  obtain r where r: "account_row (acc_id a) s = Some r" "stored = account_to_domain r"
    using account_get_result [OF g] by auto
  then have "acp_id r = acc_id a" by (auto simp: account_row_def dest: find_row_SomeD)
  with r assms(2-4) show ?thesis by (auto simp: st account_to_domain_def)
qed

lemma load_states_disabled:
  assumes "fold_eff load_state accs states s = (Inr states', s')"
    and "account_row i s = Some po" "\<not> acp_sync_enabled po" "i \<notin> ass_account_id ` set states"
  shows "i \<notin> ass_account_id ` set states'"
  using assms
proof (induction accs arbitrary: states s)
  case Nil
  then show ?case by (simp add: ret_def)
next
  case (Cons a accs)
  from Cons.prems(1) obtain st1 s1 where
    l: "load_state a states s = (Inr st1, s1)" "fold_eff load_state accs st1 s1 = (Inr states', s')"
    by (auto elim: bind_eff_InrE)
  have "account_data i s1 = account_data i s"
    using load_states_frame [of i "[a]" states, THEN keepsD, of s] by (simp add: bind_eff_apply ret_def l(1))
  then have "account_row i s1 = Some po" using Cons.prems(2) by (simp add: account_data_def)
  with Cons.IH [OF l(2)] Cons.prems load_state_disabled [OF l(1)] show ?case by blast
qed

lemma persist_disabled:
  assumes row: "account_row i w = Some r" "\<not> acp_sync_enabled r"
    and listed: "i \<in> acc_id ` set (snap_accounts snap)"
    and reads: "no_faults_in (db_ops w + length (snapshot_connections snap)) (length (snap_accounts snap)) w"
  shows "account_data i (snd (persist_snapshot c snap w)) = account_data i w"
proof -
  obtain r1 w1 where c: "save_connections snap w = (r1, w1)" by fastforce
  have d1: "account_data i w1 = account_data i w" by (rule keeps_eq [OF save_connections_data c])
  show ?thesis
  proof (cases r1)
    case (Inl e)
    with c d1 show ?thesis by (simp add: persist_snapshot_def seq_eff_apply)
  next
    case (Inr u)
    with c have c': "save_connections snap w = (Inr (), w1)" by simp
    have "no_faults_in (db_ops w1) (length (snap_accounts snap)) w1"
      using save_connections_ops [OF c'] reads by (simp add: no_faults_in_def)
    moreover have "account_row i w1 = Some r" using d1 row by (simp add: account_data_def)
    ultimately obtain en dis w2 where g: "gate_accounts snap w1 = (Inr (en, dis), w2)"
      "i \<notin> acc_id ` set en" "i \<in> set dis" "account_data i w2 = account_data i w1"
      using gate_disabled [where en = "[]" and dis = "[]" and ps = "partial_accounts snap"] row(2) listed
      unfolding gate_accounts_def by (metis empty_iff image_empty list.set(1))
    have "keeps (account_data i) (seq_eff (save_snapshot_data snap (en, dis)) (snapshot_committed c))"
      by (intro keep_intros save_snapshot_data_frame g(2,3))
        (auto simp: snapshot_committed_def keeps_def eff_defs)
    from keepsD [OF this, of w2] d1 g show ?thesis
      by (simp add: persist_snapshot_def seq_eff_apply [of "save_connections snap"] c' bind_eff_apply)
  qed
qed


section \<open>Partial snapshots\<close>

definition valuation :: "string \<Rightarrow> 'x db_scheme \<Rightarrow> (f64 \<times> string) option" where
  "valuation i s = map_option (\<lambda>r. (acp_balance_total r, acp_balance_currency r)) (account_row i s)"

text \<open>The stored valuation of an account: its balance and its holdings row.\<close>

definition valued :: "string \<Rightarrow> (f64 \<times> string) \<times> holdings_po option \<Rightarrow> 'x db_scheme \<Rightarrow> bool" where
  "valued i v s \<longleftrightarrow> valuation i s = Some (fst v) \<and> holdings_row i s = snd v"

lemma valued_updates [simp]:
  "valued i v (s\<lparr>db_ops := n\<rparr>) = valued i v s" "valued i v (s\<lparr>db_ticks := n\<rparr>) = valued i v s"
  "valued i v (s\<lparr>db_connections := a\<rparr>) = valued i v s"
  "valued i v (s\<lparr>db_activities := b\<rparr>) = valued i v s"
  by (simp_all add: valued_def valuation_def)

lemma valued_committed [simp]: "valued i v (w\<lparr>w_committed := ids\<rparr>) = valued i v w"
  by (simp add: valued_def valuation_def)

lemma valued_of_data: "account_data i s' = account_data i s \<Longrightarrow> valued i v s' = valued i v s"
  by (simp add: valued_def valuation_def account_data_def)

lemma keeps_data_valued: "keeps (account_data i) m \<Longrightarrow> preserves (valued i v) m"
  by (rule preservesI) (metis keepsD valued_of_data)

lemma valued_row_update:
  assumes "\<And>r. acp_id (f r) = acp_id r \<and> acp_balance_total (f r) = acp_balance_total r \<and>
    acp_balance_currency (f r) = acp_balance_currency r"
  shows "valued i v (s\<lparr>db_accounts := update_rows (\<lambda>r. acp_id r = j) f (db_accounts s)\<rparr>) = valued i v s"
  using assms by (auto simp: valued_def valuation_def account_row_update_rows option.map_comp comp_def)

lemma update_status_valued: "preserves (valued i v) (account_update_sync_status j tx hs)"
  unfolding account_update_sync_status_def
  by (intro pres_intros preserves_exec_sql preserves_writing)
    (auto simp: valued_row_update Let_def split: option.splits)

lemma progress_valued: "preserves (valued i v) (account_update_progress j p)"
proof -
  have "preserves (valued i v) (\<lambda>s. (Inr (find_row acp_id j (db_accounts s) = None),
          s\<lparr>db_accounts := update_rows (\<lambda>r. acp_id r = j) (apply_progress p) (db_accounts s)\<rparr>))"
    by (simp add: preserves_def valued_row_update apply_progress_def Let_def split: option.splits)
  then show ?thesis unfolding account_update_progress_def
    by (intro pres_intros preserves_exec_sql) simp_all
qed

lemma upsert_batch_valued: "preserves (valued i v) (activity_upsert_batch j items)"
  by (intro preserves_of_keeps [of _ _ "\<lambda>b. b"] upsert_batch_keeps) simp_all

lemma delete_valued: "preserves (valued i v) (activity_delete j ids)"
  by (intro preserves_of_keeps [of _ _ "\<lambda>b. b"] keeps_activity_delete) simp_all

lemma account_upsert_valued:
  assumes "acc_id a = i \<Longrightarrow> (acc_balance_total a, acc_balance_currency a) = fst v"
  shows "preserves (valued i v) (account_upsert a)"
  unfolding account_upsert_def
  by (intro pres_intros preserves_time_now preserves_exec_sql preserves_writing update_status_valued)
    (use assms in \<open>auto simp: valued_def valuation_def account_row_upsert account_conflict_def
      accountFromDomain_def account_insert_row_def\<close>)

lemma save_holdings_valued:
  assumes "i \<in> set disabled \<or> hol_partial h \<or> hol_account_id h \<noteq> i"
  shows "preserves (valued i v) (save_holdings disabled h)"
proof (cases "hol_account_id h \<notin> set disabled \<and> hol_partial h")
  case False
  with assms have "i \<in> set disabled \<or> i \<noteq> hol_account_id h" by auto
  then show ?thesis by (intro keeps_data_valued save_holdings_data)
qed (simp add: save_holdings_def preserves_ret)

lemma gate_valued:
  assumes "no_faults_in (db_ops s) (length accs) s"
    and "valuation i s = Some v" "i \<in> set ps"
    and "\<And>a. a \<in> set en \<Longrightarrow> acc_id a = i \<Longrightarrow> (acc_balance_total a, acc_balance_currency a) = v"
  shows "\<exists>en' dis' s'. fold_eff (gate_account ps) accs (en, dis) s = (Inr (en', dis'), s') \<and>
    (\<forall>a\<in>set en'. acc_id a = i \<longrightarrow> (acc_balance_total a, acc_balance_currency a) = v) \<and>
    account_data i s' = account_data i s"
  using assms
proof (induction accs arbitrary: en dis s)
  case Nil
  then show ?case by (auto simp: ret_def)
next
  case (Cons a accs)
  let ?s = "s\<lparr>db_ops := Suc (db_ops s)\<rparr>"
  have f: "db_fault s (db_ops s) = None" and rest: "no_faults_in (db_ops ?s) (length accs) ?s"
    using Cons.prems(1) by (auto simp: no_faults_in_def list_all_iff)
  obtain gr where g: "gate_account ps a (en, dis) s = (Inr gr, ?s)"
    and e: "\<And>a. a \<in> set (fst gr) \<Longrightarrow> acc_id a = i \<Longrightarrow> (acc_balance_total a, acc_balance_currency a) = v"
    by (rule that, rule gate_step [OF f])
      (use Cons.prems(2-4) in \<open>auto simp: valuation_def split: option.splits if_splits\<close>)
  have "valuation i ?s = Some v" using Cons.prems(2) by (simp add: valuation_def)
  from Cons.IH [where en = "fst gr" and dis = "snd gr", OF rest this Cons.prems(3) e] show ?case
    by (auto simp: bind_eff_apply g)
qed

lemma save_data_valued:
  assumes "\<forall>a\<in>set enabled. acc_id a = i \<longrightarrow> (acc_balance_total a, acc_balance_currency a) = fst v"
    and "\<forall>h\<in>set (snap_holdings snap). hol_account_id h = i \<longrightarrow> hol_partial h"
  shows "preserves (valued i v) (save_snapshot_data snap (enabled, disabled))"
proof -
  have "preserves (valued i v) (save_account a)" if "a \<in> set enabled" for a
    unfolding save_account_def by (intro pres_intros account_upsert_valued) (use assms(1) that in auto)
  moreover have "preserves (valued i v) (save_activities disabled x)" for x
    unfolding save_activities_def by (intro pres_intros upsert_batch_valued)
  moreover have "preserves (valued i v) (retract_activities disabled ps x)" for ps x
    unfolding retract_activities_def by (intro pres_intros delete_valued)
  moreover have "preserves (valued i v) (publish_tx_sync a)" for a
    unfolding publish_tx_sync_def by (intro pres_intros update_status_valued)
  moreover have "preserves (valued i v) (save_holdings disabled h)" if "h \<in> set (snap_holdings snap)" for h
    by (rule save_holdings_valued) (use assms(2) that in auto)
  ultimately show ?thesis
    unfolding save_snapshot_data_def prod.case by (intro pres_intros)
qed

lemma stream_valued: "valued i v w \<Longrightarrow> valued i v (snd (run_stream st w))"
proof (induction st arbitrary: w)
  case (StreamPage p "next")
  have "preserves (valued i v) (persist_activity_page p)"
    unfolding persist_activity_page_def
    by (intro pres_intros upsert_batch_valued progress_valued preserves_time_now) simp
  from preservesD [OF this StreamPage.prems] show ?case
    by (cases "persist_activity_page p w") (simp add: StreamPage.IH)
qed simp

lemma persist_valued:
  assumes "valued i v w" "i \<in> set (partial_accounts snap)"
    and "\<forall>h\<in>set (snap_holdings snap). hol_account_id h = i \<longrightarrow> hol_partial h"
    and reads: "no_faults_in (db_ops w + length (snapshot_connections snap)) (length (snap_accounts snap)) w"
  shows "valued i v (snd (persist_snapshot c snap w))"
proof -
  obtain r1 w1 where c: "save_connections snap w = (r1, w1)" by fastforce
  have d1: "account_data i w1 = account_data i w" by (rule keeps_eq [OF save_connections_data c])
  then have v1: "valued i v w1" using assms(1) valued_of_data by blast
  show ?thesis
  proof (cases r1)
    case (Inl e)
    with c v1 show ?thesis by (simp add: persist_snapshot_def seq_eff_apply)
  next
    case (Inr u)
    with c have c': "save_connections snap w = (Inr (), w1)" by simp
    have "no_faults_in (db_ops w1) (length (snap_accounts snap)) w1"
      using save_connections_ops [OF c'] reads by (simp add: no_faults_in_def)
    moreover have "valuation i w1 = Some (fst v)" using v1 by (simp add: valued_def)
    ultimately obtain en dis w2 where g: "gate_accounts snap w1 = (Inr (en, dis), w2)"
      "\<forall>a\<in>set en. acc_id a = i \<longrightarrow> (acc_balance_total a, acc_balance_currency a) = fst v"
      "account_data i w2 = account_data i w1"
      using gate_valued [where en = "[]" and dis = "[]", OF _ _ assms(2), of w1 "snap_accounts snap" "fst v"]
      unfolding gate_accounts_def by force
    have v2: "valued i v w2" using v1 valued_of_data [OF g(3)] by simp
    have "preserves (valued i v) (seq_eff (save_snapshot_data snap (en, dis)) (snapshot_committed c))"
      by (intro pres_intros save_data_valued g(2) assms(3))
        (auto simp: snapshot_committed_def preserves_def eff_defs)
    from preservesD [OF this v2] show ?thesis
      by (simp add: persist_snapshot_def seq_eff_apply [of "save_connections snap"] c' bind_eff_apply g(1))
  qed
qed

lemma partial_sync_keeps_valuation:
  assumes stored: "account_row i w \<noteq> None"
    and partial: "i \<in> set (partial_accounts (fst (cli_fetch c)))"
      "\<forall>h\<in>set (snap_holdings (fst (cli_fetch c))). hol_account_id h = i \<longrightarrow> hol_partial h"
    and reads: "no_faults_in (db_ops w + length (snapshot_connections (fst (cli_fetch c))))
      (length (snap_accounts (fst (cli_fetch c)))) w"
  shows "valuation i (snd (sync_one c w)) = valuation i w \<and>
    holdings_row i (snd (sync_one c w)) = holdings_row i w"
proof -
  obtain b where b: "valuation i w = Some b" using stored by (auto simp: valuation_def)
  let ?v = "(b, holdings_row i w)"
  obtain snap e where f: "cli_fetch c = (snap, e)" by fastforce
  obtain p w1 where p: "persist_snapshot c snap w = (p, w1)" by fastforce
  have v: "valued i ?v w" by (simp add: valued_def b)
  have v1: "valued i ?v w1"
    using persist_valued [OF v, of snap c] partial reads f p by simp
  have "valued i ?v (snd (stream_activities st e (snap_accounts snap) w1))" for st
  proof -
    obtain q w2 where q: "fold_eff load_state (snap_accounts snap) [] w1 = (q, w2)" by fastforce
    have "account_data i w2 = account_data i w1" by (rule keeps_eq [OF load_states_frame q])
    then have "valued i ?v w2" using v1 valued_of_data by blast
    from stream_valued [OF this] this show ?thesis
      by (auto simp: stream_activities_def q split: sum.splits prod.splits) (metis snd_conv)
  qed
  with v v1 f p have "valued i ?v (snd (sync_one c w))"
    by (auto simp: sync_one_def split: sum.splits option.splits)
  then show ?thesis by (simp add: valued_def b)
qed


section \<open>Acknowledgements\<close>

definition activity_stored :: "string \<Rightarrow> string \<Rightarrow> 'x db_scheme \<Rightarrow> bool" where
  "activity_stored acc i s \<longleftrightarrow> find_row activity_key (acc, i) (db_activities s) \<noteq> None"

lemma activity_stored_updates [simp]:
  "activity_stored a i (s\<lparr>db_ops := n\<rparr>) = activity_stored a i s"
  "activity_stored a i (s\<lparr>db_ticks := n\<rparr>) = activity_stored a i s"
  "activity_stored a i (s\<lparr>db_accounts := x\<rparr>) = activity_stored a i s"
  "activity_stored a i (s\<lparr>db_holdings := y\<rparr>) = activity_stored a i s"
  "activity_stored a i (w\<lparr>w_committed := ids\<rparr>) = activity_stored a i w"
  by (simp_all add: activity_stored_def)

lemma upsert_batch_stores:
  assumes "activity_upsert_batch acc items s = (Inr (), s')" and "it \<in> set items"
  shows "activity_stored acc (act_source_record_id it) s'"
proof -
  let ?rows = "batch_rows acc items (db_activities s)"
  have "(acc, act_source_record_id it) \<in> activity_key ` set ?rows"
    using batch_rows_covers [OF assms(2)] by (force simp: image_iff)
  then show ?thesis
    using upsert_batch_result [OF assms(1)]
    by (auto simp: activity_stored_def find_row_None_iff act_table.keys_upserts)
qed

lemma upsert_batch_keeps_stored: "preserves (activity_stored a i) (activity_upsert_batch acc items)"
proof (rule preservesI)
  fix s :: "'x db_scheme"
  assume a: "activity_stored a i s"
  obtain r s' where m: "activity_upsert_batch acc items s = (r, s')" by fastforce
  from upsert_batch_result [OF m] a show "activity_stored a i (snd (activity_upsert_batch acc items s))"
    by (cases r) (auto simp: m activity_stored_def find_row_None_iff act_table.keys_upserts)
qed


lemma delete_keeps_stored:
  "acc \<noteq> a \<or> i \<notin> set ids \<Longrightarrow> preserves (activity_stored a i) (activity_delete acc ids)"
  unfolding activity_delete_def
  by (intro pres_intros preserves_exec_sql preserves_writing)
    (auto simp: activity_stored_def find_row_None_iff activity_key_def image_iff)

lemma publish_keeps_stored: "preserves (activity_stored a i) (publish_tx_sync acc)"
  unfolding publish_tx_sync_def
  by (intro pres_intros preserves_of_keeps [of _ _ "\<lambda>b. b"] keeps_update_sync_status) simp_all

definition account_stored :: "string \<Rightarrow> 'x db_scheme \<Rightarrow> bool" where
  "account_stored i s \<longleftrightarrow> switch_of i s \<noteq> None"

lemma account_stored_updates [simp]:
  "account_stored i (s\<lparr>db_ops := n\<rparr>) = account_stored i s"
  "account_stored i (s\<lparr>db_ticks := n\<rparr>) = account_stored i s"
  "account_stored i (s\<lparr>db_activities := b\<rparr>) = account_stored i s"
  "account_stored i (s\<lparr>db_holdings := c\<rparr>) = account_stored i s"
  by (simp_all add: account_stored_def)

lemma status_keeps_account: "keeps (account_stored i) (account_update_sync_status j tx hs)"
  by (intro keeps_update_sync_status) (simp_all add: account_stored_def)

lemma account_stored_upsert:
  "account_stored i (s\<lparr>db_accounts := upsert_row acp_id account_conflict po (db_accounts s)\<rparr>) \<longleftrightarrow>
   i = acp_id po \<or> account_stored i s"
  by (auto simp: account_stored_def switch_of_def account_row_upsert)

lemma account_upsert_stores:
  assumes "account_upsert a s = (Inr (), s')"
  shows "account_stored (acc_id a) s'"
proof -
  obtain now s1 where m: "seq_eff
       (wrap_err ''account upsert'' (exec_sql (writing (\<lambda>s.
          s\<lparr>db_accounts := upsert_row acp_id account_conflict
              (account_insert_row (accountFromDomain now a)) (db_accounts s)\<rparr>))))
       (wrap_err ''account upsert sync status''
          (account_update_sync_status (acc_id a) (acc_last_tx_sync a) (acc_last_holdings_sync a))) s1
      = (Inr (), s')"
    using assms unfolding account_upsert_def by (elim bind_eff_InrE)
  then obtain s2 where w: "exec_sql (writing (\<lambda>s.
          s\<lparr>db_accounts := upsert_row acp_id account_conflict
              (account_insert_row (accountFromDomain now a)) (db_accounts s)\<rparr>)) s1 = (Inr (), s2)"
    and u: "account_update_sync_status (acc_id a) (acc_last_tx_sync a) (acc_last_holdings_sync a) s2 = (Inr (), s')"
    by (elim seq_eff_InrE) (auto dest!: wrap_err_InrD)
  from w have "account_stored (acc_id a) s2"
    using account_stored_upsert [where s = "s1\<lparr>db_ops := Suc (db_ops s1)\<rparr>" and i = "acc_id a"
        and po = "account_insert_row (accountFromDomain now a)"]
    by (auto simp: exec_sql_def Let_def writing_def split: option.splits)
  with keeps_eq [OF status_keeps_account u] show ?thesis by simp
qed

lemma account_upsert_keeps_stored: "preserves (account_stored i) (account_upsert a)"
  unfolding account_upsert_def
  by (intro pres_intros preserves_time_now preserves_exec_sql preserves_writing
      preserves_of_keeps [of _ _ "\<lambda>b. b"] status_keeps_account)
    (simp_all add: account_stored_upsert)

lemma save_holdings_stores:
  assumes "save_holdings disabled h s = (Inr (), s')" "hol_account_id h \<notin> set disabled" "\<not> hol_partial h"
  shows "holdings_row (hol_account_id h) s' \<noteq> None"
proof -
  let ?pair = "\<lambda>h'. seq_eff (wrap_err ''replace holdings'' (holding_replace h'))
         (wrap_err ''update holdings sync status''
            (account_update_sync_status (hol_account_id h') None (Some (hol_captured_at h'))))"
  have "?pair (h\<lparr>hol_captured_at := db_clock s (db_ticks s)\<rparr>) (s\<lparr>db_ticks := Suc (db_ticks s)\<rparr>) = (Inr (), s') \<or>
      ?pair h s = (Inr (), s')"
    using assms
    by (auto simp: save_holdings_def bind_eff_apply time_now_def ret_def split: if_splits)
  then obtain h' s1 where acc: "hol_account_id h' = hol_account_id h" and "?pair h' s1 = (Inr (), s')"
  proof (elim disjE)
    assume "?pair (h\<lparr>hol_captured_at := db_clock s (db_ticks s)\<rparr>) (s\<lparr>db_ticks := Suc (db_ticks s)\<rparr>) = (Inr (), s')"
    then show thesis by (rule that [rotated]) simp
  next
    assume "?pair h s = (Inr (), s')"
    then show thesis by (rule that [rotated]) simp
  qed
  then obtain s2 where r: "holding_replace h' s1 = (Inr (), s2)"
    and u: "account_update_sync_status (hol_account_id h') None (Some (hol_captured_at h')) s2 = (Inr (), s')"
    by (elim seq_eff_InrE) (auto dest!: wrap_err_InrD)
  from holding_replace_result [OF r] update_sync_status_rows [OF u] acc show ?thesis by auto
qed

lemma save_holdings_present: "preserves (\<lambda>s. holdings_row i s \<noteq> None) (save_holdings disabled h)"
proof -
  have "preserves (\<lambda>s. holdings_row i s \<noteq> None) (account_update_sync_status j tx hs)" for j tx hs
    by (rule preservesI) (metis prod.collapse update_sync_status_rows)
  then show ?thesis
    unfolding save_holdings_def
    by (intro pres_intros holding_replace_present preserves_time_now) simp_all
qed

text \<open>The gate as a function of the stored switches.\<close>

definition switched_off :: "broker_snapshot \<Rightarrow> 'x db_scheme \<Rightarrow> string \<Rightarrow> bool" where
  "switched_off snap s i \<longleftrightarrow> i \<in> acc_id ` set (snap_accounts snap) \<and> switch_of i s = Some False"

lemma gate_off:
  assumes "fold_eff (gate_account ps) accs (en, dis) s = (Inr (en', dis'), s')"
  shows "(\<forall>i\<in>set dis'. i \<in> set dis \<or> (i \<in> acc_id ` set accs \<and> switch_of i s = Some False)) \<and>
    (\<forall>a\<in>set accs. switch_of (acc_id a) s \<noteq> Some False \<longrightarrow> acc_id a \<in> acc_id ` set en') \<and>
    acc_id ` set en \<subseteq> acc_id ` set en'"
  using assms
proof (induction accs arbitrary: en dis s)
  case Nil
  then show ?case by (simp add: ret_def)
next
  case (Cons a accs)
  let ?s = "s\<lparr>db_ops := Suc (db_ops s)\<rparr>"
  obtain gr where g: "gate_account ps a (en, dis) s = (Inr gr, ?s)"
    and d: "set (snd gr) \<subseteq> set dis \<union> (if switch_of (acc_id a) s = Some False then {acc_id a} else {})"
    and e: "acc_id ` set en \<subseteq> acc_id ` set (fst gr)"
      "switch_of (acc_id a) s \<noteq> Some False \<Longrightarrow> acc_id a \<in> acc_id ` set (fst gr)"
  proof (cases "db_fault s (db_ops s)")
    case None
    show ?thesis
      by (rule that, rule gate_step [OF None])
        (auto simp: switch_of_def split: option.splits)
  next
    case (Some m)
    show ?thesis
      by (rule that [of "(en @ [a], dis)"])
        (auto simp: gate_account_def account_get_def exec_sql_def Let_def eff_defs Some)
  qed
  have sw: "switch_of i ?s = switch_of i s" for i by simp
  from Cons.prems have "fold_eff (gate_account ps) accs (fst gr, snd gr) ?s = (Inr (en', dis'), s')"
    by (simp add: bind_eff_apply g)
  from Cons.IH [OF this, unfolded sw] have ih:
    "\<forall>i\<in>set dis'. i \<in> set (snd gr) \<or> (i \<in> acc_id ` set accs \<and> switch_of i s = Some False)"
    "\<forall>a\<in>set accs. switch_of (acc_id a) s \<noteq> Some False \<longrightarrow> acc_id a \<in> acc_id ` set en'"
    "acc_id ` set (fst gr) \<subseteq> acc_id ` set en'"
    by blast+
  show ?case
  proof (intro conjI)
    show "\<forall>i\<in>set dis'. i \<in> set dis \<or> (i \<in> acc_id ` set (a # accs) \<and> switch_of i s = Some False)"
      using ih(1) d by (auto split: if_splits)
    show "\<forall>x\<in>set (a # accs). switch_of (acc_id x) s \<noteq> Some False \<longrightarrow> acc_id x \<in> acc_id ` set en'"
      using ih(2,3) e(2) by (metis set_ConsD subsetD)
    show "acc_id ` set en \<subseteq> acc_id ` set en'" using e(1) ih(3) by (rule subset_trans)
  qed
qed


definition retracted :: "broker_snapshot \<Rightarrow> string \<Rightarrow> string \<Rightarrow> bool" where
  "retracted snap acc i \<longleftrightarrow> acc \<notin> set (partial_accounts snap) \<and>
     list_ex (\<lambda>(a, ids). a = acc \<and> i \<in> set ids) (snap_retracted_activities snap)"

definition snapshot_saved :: "broker_snapshot \<Rightarrow> (string \<Rightarrow> bool) \<Rightarrow> 'x db_scheme \<Rightarrow> bool" where
  "snapshot_saved snap off s \<longleftrightarrow>
     list_all (\<lambda>a. off (acc_id a) \<or> account_stored (acc_id a) s) (snap_accounts snap) \<and>
     list_all (\<lambda>h. off (hol_account_id h) \<or> hol_partial h \<or> holdings_row (hol_account_id h) s \<noteq> None)
       (snap_holdings snap) \<and>
     list_all (\<lambda>(acc, items). off acc \<or> list_all (\<lambda>it. retracted snap acc (act_source_record_id it) \<or>
         activity_stored acc (act_source_record_id it) s) items) (snap_activities snap)"

text \<open>What an early phase stores, the later phases keep.\<close>

lemma status_keeps_view:
  "preserves (account_stored i) (account_update_sync_status j tx hs)"
  "preserves (\<lambda>s. holdings_row i s \<noteq> None) (account_update_sync_status j tx hs)"
  by (rule preserves_of_keeps [of _ _ "\<lambda>b. b"], rule status_keeps_account)
    (rule preservesI, metis prod.collapse update_sync_status_rows)

lemma upsert_batch_keeps_view:
  "preserves (account_stored i) (activity_upsert_batch acc items)"
  "preserves (\<lambda>s. holdings_row i s \<noteq> None) (activity_upsert_batch acc items)"
  by (rule preserves_of_keeps [OF upsert_batch_keeps], simp_all)+

lemma delete_keeps_view:
  "preserves (account_stored i) (activity_delete acc ids)"
  "preserves (\<lambda>s. holdings_row i s \<noteq> None) (activity_delete acc ids)"
  by (rule preserves_of_keeps [OF keeps_activity_delete], simp_all)+

lemma replace_keeps_account: "preserves (account_stored i) (holding_replace h)"
  by (rule preserves_of_keeps [OF holding_replace_other], simp_all)

lemmas view_intros = status_keeps_view upsert_batch_keeps_view delete_keeps_view replace_keeps_account

lemma phases_keep_account:
  "preserves (account_stored i) (save_account a)"
  "preserves (account_stored i) (save_holdings disabled h)"
  "preserves (account_stored i) (save_activities disabled x)"
  "preserves (account_stored i) (retract_activities disabled ps y)"
  "preserves (account_stored i) (publish_tx_sync a)"
  unfolding save_account_def save_holdings_def save_activities_def retract_activities_def publish_tx_sync_def
  by (intro pres_intros account_upsert_keeps_stored view_intros preserves_time_now; simp)+

lemma phases_keep_holdings:
  "preserves (\<lambda>s. holdings_row i s \<noteq> None) (save_activities disabled x)"
  "preserves (\<lambda>s. holdings_row i s \<noteq> None) (retract_activities disabled ps y)"
  "preserves (\<lambda>s. holdings_row i s \<noteq> None) (publish_tx_sync a)"
  unfolding save_activities_def retract_activities_def publish_tx_sync_def
  by (intro pres_intros view_intros)+

lemma save_activities_keep_stored: "preserves (activity_stored a i) (save_activities disabled x)"
  unfolding save_activities_def by (intro pres_intros upsert_batch_keeps_stored)

lemma retract_keeps_stored:
  assumes "y \<in> set (snap_retracted_activities snap)" and "\<not> retracted snap a i"
  shows "preserves (activity_stored a i) (retract_activities disabled (partial_accounts snap) y)"
proof (cases y)
  case (Pair acc ids)
  with assms have "acc \<in> set (partial_accounts snap) \<or> acc \<noteq> a \<or> i \<notin> set ids"
    by (auto simp: retracted_def list_ex_iff)
  then show ?thesis
    by (auto simp: retract_activities_def Pair intro!: pres_intros delete_keeps_stored)
qed

lemma snapshot_saved_committed [simp]:
  "snapshot_saved snap off (w\<lparr>w_committed := ids\<rparr>) = snapshot_saved snap off w"
  by (simp add: snapshot_saved_def list_all_iff case_prod_unfold account_stored_def)

lemma save_data_saves:
  assumes run: "save_snapshot_data snap (enabled, disabled) s = (Inr (), s')"
    and dis: "\<And>i. i \<in> set disabled \<Longrightarrow> off i"
    and en: "\<And>a. a \<in> set (snap_accounts snap) \<Longrightarrow> \<not> off (acc_id a) \<Longrightarrow> acc_id a \<in> acc_id ` set enabled"
  shows "snapshot_saved snap off s'"
proof -
  let ?h = "for_each (save_holdings disabled) (snap_holdings snap)"
  let ?a = "for_each (save_activities disabled) (snap_activities snap)"
  let ?r = "for_each (retract_activities disabled (partial_accounts snap)) (snap_retracted_activities snap)"
  let ?p = "for_each publish_tx_sync enabled"
  obtain s1 s2 s3 s4 where r1: "for_each save_account enabled s = (Inr (), s1)"
    and r2: "?h s1 = (Inr (), s2)" and r3: "?a s2 = (Inr (), s3)"
    and r4: "?r s3 = (Inr (), s4)" and r5: "?p s4 = (Inr (), s')"
    using run unfolding save_snapshot_data_def prod.case by (elim seq_eff_InrE) blast
  have acc: "account_stored (acc_id a) s'" if "a \<in> set enabled" for a
  proof -
    have "account_stored (acc_id a) s1"
      by (rule for_each_establishes [OF r1 that _ phases_keep_account(1)])
        (auto simp: save_account_def dest!: wrap_err_InrD account_upsert_stores)
    from preserves_eq [OF preserves_for_each [OF phases_keep_account(2)] r2 this]
    have "account_stored (acc_id a) s2" .
    from preserves_eq [OF preserves_for_each [OF phases_keep_account(3)] r3 this]
    have "account_stored (acc_id a) s3" .
    from preserves_eq [OF preserves_for_each [OF phases_keep_account(4)] r4 this]
    have "account_stored (acc_id a) s4" .
    from preserves_eq [OF preserves_for_each [OF phases_keep_account(5)] r5 this] show ?thesis .
  qed
  have hold: "holdings_row (hol_account_id h) s' \<noteq> None"
    if h: "h \<in> set (snap_holdings snap)" "hol_account_id h \<notin> set disabled" "\<not> hol_partial h" for h
  proof -
    have "holdings_row (hol_account_id h) s2 \<noteq> None"
      by (rule for_each_establishes [OF r2 h(1) _ save_holdings_present]) (rule save_holdings_stores [OF _ h(2,3)])
    from preserves_eq [OF preserves_for_each [OF phases_keep_holdings(1)] r3 this]
    have "holdings_row (hol_account_id h) s3 \<noteq> None" .
    from preserves_eq [OF preserves_for_each [OF phases_keep_holdings(2)] r4 this]
    have "holdings_row (hol_account_id h) s4 \<noteq> None" .
    from preserves_eq [OF preserves_for_each [OF phases_keep_holdings(3)] r5 this] show ?thesis .
  qed
  have act: "activity_stored a (act_source_record_id it) s'"
    if x: "(a, items) \<in> set (snap_activities snap)" "a \<notin> set disabled" "it \<in> set items"
      and ret: "\<not> retracted snap a (act_source_record_id it)" for a items it
  proof -
    have "activity_stored a (act_source_record_id it) s3"
      by (rule for_each_establishes [OF r3 x(1) _ save_activities_keep_stored])
        (use x(2,3) in \<open>auto simp: save_activities_def ret_def dest!: wrap_err_InrD
          elim: upsert_batch_stores split: if_splits\<close>)
    from preserves_eq [OF preserves_for_each [OF retract_keeps_stored [OF _ ret]] r4 this]
    have "activity_stored a (act_source_record_id it) s4" .
    from preserves_eq [OF preserves_for_each [OF publish_keeps_stored] r5 this] show ?thesis .
  qed
  have "account_stored (acc_id a) s'" if "a \<in> set (snap_accounts snap)" "\<not> off (acc_id a)" for a
  proof -
    from en [OF that] obtain b where "b \<in> set enabled" "acc_id b = acc_id a" by (metis imageE)
    with acc [of b] show ?thesis by simp
  qed
  with hold act dis show ?thesis
    unfolding snapshot_saved_def list_all_iff by fastforce
qed

lemma persist_snapshot_success:
  assumes "persist_snapshot c snap w = (Inr (), w')"
  obtains w1 en dis w2 w3 where "save_connections snap w = (Inr (), w1)"
    "gate_accounts snap w1 = (Inr (en, dis), w2)"
    "save_snapshot_data snap (en, dis) w2 = (Inr (), w3)"
    "snapshot_committed c w3 = (Inr (), w')"
  using assms unfolding persist_snapshot_def
  by (elim seq_eff_InrE bind_eff_InrE) (metis prod.collapse)


interpretation committed: data_invariant "\<lambda>w. w_committed w = ids" for ids
  by unfold_locales
    (auto intro!: preserves_of_keeps keep_intros keeps_connection_upsert account_upsert_keeps
      holding_replace_other keeps_update_sync_status keeps_update_progress upsert_batch_keeps
      keeps_activity_delete)

text \<open>
  C2. An acknowledgement is durable. When \<open>persistSnapshot\<close> succeeds it acknowledges the
  client exactly once, and by then every account that is not switched off has its row, every
  complete holdings entry its holdings row, and every activity its row, except the ones the
  same snapshot retracts. When it fails, at any statement, the client is not acknowledged, so
  it will replay the same data.
\<close>

theorem acknowledgement_is_durable:
  assumes "persist_snapshot c snap w = (r, w')"
  shows "case r of
      Inl e \<Rightarrow> w_committed w' = w_committed w
    | Inr _ \<Rightarrow> w_committed w' = w_committed w @ (if cli_committer c then [cli_id c] else []) \<and>
        snapshot_saved snap (switched_off snap w) w'"
proof (cases r)
  case (Inl e)
  obtain r1 w1 where c: "save_connections snap w = (r1, w1)" by fastforce
  then have c1: "w_committed w1 = w_committed w"
    using preserves_eq [OF committed.connections c] by blast
  have g: "w_committed w2 = w_committed w1" if "gate_accounts snap w1 = (q, w2)" for q and w2 :: world
    using preserves_eq [OF committed.gate that] by blast
  have d: "w_committed w3 = w_committed w2" if "save_snapshot_data snap gates w2 = (q, w3)"
    for gates q and w2 w3 :: world
    using preserves_eq [OF committed.save_data that] by blast
  have k: "snapshot_committed c w3 \<noteq> (Inl e', w4)" for e' w3 w4
    by (simp add: snapshot_committed_def writing_def ret_def)
  from assms Inl c c1 g d k show ?thesis
    by (fastforce simp: persist_snapshot_def seq_eff_apply bind_eff_apply split: prod.splits sum.splits)
next
  case (Inr u)
  with assms have "persist_snapshot c snap w = (Inr (), w')" by simp
  then obtain w1 en dis w2 w3 where c: "save_connections snap w = (Inr (), w1)"
    and g: "gate_accounts snap w1 = (Inr (en, dis), w2)"
    and d: "save_snapshot_data snap (en, dis) w2 = (Inr (), w3)"
    and k: "snapshot_committed c w3 = (Inr (), w')"
    by (rule persist_snapshot_success)
  have com: "w_committed w3 = w_committed w"
    using preserves_eq [OF committed.connections c] preserves_eq [OF committed.gate g]
      preserves_eq [OF committed.save_data d] by simp
  have sw: "switch_of i w1 = switch_of i w" for i
    using keeps_eq [OF save_connections_data c, of i] by (simp add: switch_of_def account_data_def)
  have "snapshot_saved snap (switched_off snap w) w3"
    by (rule save_data_saves [OF d])
      (use gate_off [OF g [unfolded gate_accounts_def]] in \<open>auto simp: switched_off_def sw\<close>)
  with com k Inr show ?thesis
    by (auto simp: snapshot_committed_def writing_def ret_def split: if_splits)
qed


section \<open>Pages and checkpoints\<close>

lemma upsert_batch_account_row: "keeps (account_row i) (activity_upsert_batch acc items)"
  by (rule upsert_batch_keeps) simp_all

definition page_progress :: "activity_page \<Rightarrow> time option \<Rightarrow> activity_sync_progress" where
  "page_progress page completedAt = \<lparr>prg_next_offset = pag_next_offset page,
     prg_first_transaction_date = pag_first_transaction_date page, prg_completed_at = completedAt\<rparr>"

lemma update_progress_result:
  assumes "account_update_progress i p s = (r, s')" and "account_row i s = Some row"
  shows "(case r of Inl _ \<Rightarrow> account_row i s' = Some row | Inr _ \<Rightarrow> account_row i s' = Some (apply_progress p row)) \<and>
    db_activities s' = db_activities s"
proof -
  have "find_row acp_id i (db_accounts s) = Some row" using assms(2) by (simp add: account_row_def)
  with assms show ?thesis
    by (auto simp: account_update_progress_def bind_eff_apply wrap_err_def exec_sql_def Let_def
        account_row_update_rows ret_def raise_def account_row_def find_row_update_key split: option.splits sum.splits)
qed

lemma page_persisted:
  assumes run: "persist_activity_page page s = (r, s')"
    and row: "account_row (pag_account_id page) s = Some row"
  shows "case r of
      Inl _ \<Rightarrow> account_row (pag_account_id page) s' = Some row
    | Inr _ \<Rightarrow>
        (\<forall>it\<in>set (pag_items page). activity_stored (pag_account_id page) (act_source_record_id it) s') \<and>
        (\<exists>row'. account_row (pag_account_id page) s' = Some row' \<and>
           acp_activity_sync_offset row' = (if pag_complete page then 0 else pag_next_offset page) \<and>
           (acp_initial_tx_sync_done row' \<longleftrightarrow> pag_complete page \<or> acp_initial_tx_sync_done row) \<and>
           (\<forall>d. acp_first_tx_date row = Some d \<longrightarrow> (\<exists>d'\<le>d. acp_first_tx_date row' = Some d')))"
proof -
  let ?acc = "pag_account_id page"
  let ?save = "if pag_items page = [] then ret ()
        else wrap_err ''upsert activity page'' (activity_upsert_batch ?acc (pag_items page))"
  obtain r1 s1 where s1: "?save s = (r1, s1)" by fastforce
  have "keeps (account_row ?acc) ?save" by (intro keep_intros upsert_batch_account_row)
  from keeps_eq [OF this s1] row have row1: "account_row ?acc s1 = Some row" by simp
  show ?thesis
  proof (cases r1)
    case (Inl e)
    with s1 run row1 show ?thesis by (auto simp: persist_activity_page_def seq_eff_apply)
  next
    case (Inr u)
    have items: "activity_stored ?acc (act_source_record_id it) s1" if "it \<in> set (pag_items page)" for it
      using s1 that Inr by (auto dest!: wrap_err_InrD elim: upsert_batch_stores split: if_splits)
    let ?done = "if pag_complete page then Some (db_clock s1 (db_ticks s1)) else None"
    let ?s2 = "if pag_complete page then s1\<lparr>db_ticks := Suc (db_ticks s1)\<rparr> else s1"
    have row2: "account_row ?acc ?s2 = Some row" using row1 by simp
    obtain q s3 where u: "account_update_progress ?acc (page_progress page ?done) ?s2 = (q, s3)"
      by fastforce
    have out: "s' = s3" "r = (case q of Inl e \<Rightarrow> Inl (Wrapf ''update activity sync checkpoint'' e) | Inr x \<Rightarrow> Inr x)"
      using run s1 Inr u
      by (auto simp: persist_activity_page_def seq_eff_apply bind_eff_apply time_now_def ret_def
          wrap_err_def page_progress_def split: sum.splits if_splits)
    have "db_activities s3 = db_activities s1" using update_progress_result [OF u row2] by (simp split: if_splits)
    then have stored: "\<forall>it\<in>set (pag_items page). activity_stored ?acc (act_source_record_id it) s3"
      using items by (simp add: activity_stored_def)
    show ?thesis
      using update_progress_result [OF u row2] out stored
      by (cases q; cases "pag_complete page")
        (auto simp: apply_progress_def page_progress_def Let_def split: option.splits)
  qed
qed

text \<open>
  C6. A paged import never checkpoints ahead of its data: if persisting a page fails, the
  account's row, hence its offset, its flags and its first date, is what it was; if it
  succeeds, the items of the page are stored, the offset is the page's, or 0 with the
  completion flag set when the page is the last, and the first transaction date never moves
  later.
\<close>

theorem page_checkpoint_follows_data:
  assumes run: "persist_activity_page page s = (r, s')"
    and row: "account_row (pag_account_id page) s = Some row"
  shows "case r of
      Inl _ \<Rightarrow> account_row (pag_account_id page) s' = Some row
    | Inr _ \<Rightarrow>
        (\<forall>it\<in>set (pag_items page). activity_stored (pag_account_id page) (act_source_record_id it) s') \<and>
        (\<exists>row'. account_row (pag_account_id page) s' = Some row' \<and>
           acp_activity_sync_offset row' = (if pag_complete page then 0 else pag_next_offset page) \<and>
           (acp_initial_tx_sync_done row' \<longleftrightarrow> pag_complete page \<or> acp_initial_tx_sync_done row) \<and>
           (\<forall>d. acp_first_tx_date row = Some d \<longrightarrow> (\<exists>d'\<le>d. acp_first_tx_date row' = Some d')))"
  using assms by (rule page_persisted)

end
