(* ===== verification/Sync_Runs.thy ===== *)
theory Sync_Runs
  imports Sync_Safety
begin

text \<open>
  Whole runs. \<open>RunOnce\<close> and what it reports; the goroutines of the scheduler and of manual
  refreshes as a step relation over the service state, interleaved with the user flipping the
  sync switch of an account; and concrete syncs that show the theorems of \<open>Sync_Safety\<close> at
  work.
\<close>

section \<open>The service's own fields\<close>

interpretation service_fields: sync_invariant
  "\<lambda>w. w_running w = ids \<and> w_run_locked w = b \<and> w_last_run w = t" for ids b t
  by unfold_locales
    (auto intro!: preserves_conj preserves_of_keeps keep_intros keeps_connection_upsert account_upsert_keeps
      holding_replace_other keeps_update_sync_status keeps_update_progress upsert_batch_keeps
      keeps_activity_delete)

lemma sync_one_service:
  assumes "sync_one c w = (e, w')"
  shows "w_running w' = w_running w" "w_run_locked w' = w_run_locked w" "w_last_run w' = w_last_run w"
  using service_fields.sync_one [of w "w_running w" "w_run_locked w" "w_last_run w" c] assms by auto

lemma run_client_service:
  assumes "run_client cancelled c w = (e, w')"
  shows "w_run_locked w' = w_run_locked w" "e \<noteq> None \<Longrightarrow> w_last_run w' = w_last_run w"
    "w_running w' = filter (\<lambda>j. j \<noteq> cli_id c) (w_running w) \<or> w_running w' = w_running w"
    "set (w_running w') = set (w_running w)"
proof -
  let ?w1 = "w\<lparr>w_running := cli_id c # w_running w\<rparr>"
  obtain e2 w2 where s: "sync_one c ?w1 = (e2, w2)" by fastforce
  note sv = sync_one_service [OF s]
  show "w_run_locked w' = w_run_locked w" "e \<noteq> None \<Longrightarrow> w_last_run w' = w_last_run w"
    "w_running w' = filter (\<lambda>j. j \<noteq> cli_id c) (w_running w) \<or> w_running w' = w_running w"
    "set (w_running w') = set (w_running w)"
    using assms sv
    by (auto simp: run_client_def begin_client_def end_client_def set_last_run_def s
        split: if_splits option.splits)
qed

lemma run_clients_service:
  assumes "run_clients cancelled cs w = (rs, w')"
  shows "map fst rs = map cli_id cs \<and> w_run_locked w' = w_run_locked w \<and>
    set (w_running w') = set (w_running w) \<and>
    ((\<forall>x\<in>set rs. snd x \<noteq> None) \<longrightarrow> w_last_run w' = w_last_run w)"
  using assms
proof (induction cs arbitrary: w rs w')
  case (Cons c cs)
  obtain e w1 where c: "run_client cancelled c w = (e, w1)" by fastforce
  obtain rs1 w2 where cs: "run_clients cancelled cs w1 = (rs1, w2)" by fastforce
  from Cons.prems have "rs = (cli_id c, e) # rs1" "w' = w2" by (auto simp: c cs)
  with Cons.IH [OF cs] run_client_service [OF c] show ?case by auto
qed simp

lemma run_errors_length:
  "length (run_errors rs) \<le> length rs"
  "length (run_errors rs) = length rs \<longleftrightarrow> (\<forall>x\<in>set rs. snd x \<noteq> None)"
proof -
  show le: "length (run_errors rs) \<le> length rs" for rs
    by (induction rs) (auto simp: run_errors_def map_filter_simps split: option.splits)
  show "length (run_errors rs) = length rs \<longleftrightarrow> (\<forall>x\<in>set rs. snd x \<noteq> None)"
  proof (induction rs)
    case (Cons x rs)
    then show ?case
      using le [of rs] by (cases x; cases "snd x") (auto simp: run_errors_def map_filter_simps)
  qed (simp add: run_errors_def map_filter_simps)
qed

text \<open>
  \<open>RunOnce\<close> is an error exactly when there are clients and every one of them failed;
  then \<open>LastRun\<close> does not advance, so a failed attempt is not mistaken for a
  synchronization. In either case the run gate is released and the set of running clients is
  what it was.
\<close>

theorem run_once_reports:
  assumes run: "run_once cancelled clients w = (r, w')" and free: "\<not> w_run_locked w"
  shows "(r \<noteq> None \<longleftrightarrow> clients \<noteq> [] \<and>
      (\<forall>x\<in>set (fst (run_clients cancelled clients (w\<lparr>w_run_locked := True\<rparr>))). snd x \<noteq> None)) \<and>
    (r \<noteq> None \<longrightarrow> w_last_run w' = w_last_run w) \<and>
    \<not> w_run_locked w' \<and> set (w_running w') = set (w_running w)"
proof -
  obtain rs w1 where m: "run_clients cancelled clients (w\<lparr>w_run_locked := True\<rparr>) = (rs, w1)" by fastforce
  have len: "length rs = length clients"
    using run_clients_service [OF m] by (metis length_map)
  show ?thesis
    using run free run_clients_service [OF m] run_errors_length(2) [of rs] len
    by (auto simp: run_once_def m Let_def set_last_run_def split: if_splits)
qed

section \<open>Interleaved runs\<close>

text \<open>
  A state of the running service: the world, and the goroutines that are between
  \<open>beginClient\<close> and \<open>endClient\<close>.
\<close>

type_synonym engine = "world \<times> string list"

datatype engine_event =
    Started string
  | Skipped string
  | Synced string "go_error option"
  | Finished string
  | Toggled string bool "unit res"

inductive engine_step :: "broker_client list \<Rightarrow> engine \<Rightarrow> engine_event \<Rightarrow> engine \<Rightarrow> bool"
  for clients :: "broker_client list" where
  start: "c \<in> set clients \<Longrightarrow> begin_client (cli_id c) w = (True, w') \<Longrightarrow>
    engine_step clients (w, act) (Started (cli_id c)) (w', cli_id c # act)"
| skip: "c \<in> set clients \<Longrightarrow> begin_client (cli_id c) w = (False, w') \<Longrightarrow>
    engine_step clients (w, act) (Skipped (cli_id c)) (w', act)"
| sync: "c \<in> set clients \<Longrightarrow> cli_id c \<in> set act \<Longrightarrow> sync_one c w = (e, w') \<Longrightarrow>
    engine_step clients (w, act) (Synced (cli_id c) e) (w', act)"
| finish: "engine_step clients (w, before @ i # after) (Finished i) (end_client i w, before @ after)"
| toggle: "account_set_sync_enabled i b w = (r, w') \<Longrightarrow>
    engine_step clients (w, act) (Toggled i b r) (w', act)"

inductive_cases engine_stepE: "engine_step clients (w, act) ev (w', act')"
inductive_simps engine_started_iff: "engine_step clients (w, act) (Started i) (w', act')"
inductive_simps engine_skipped_iff: "engine_step clients (w, act) (Skipped i) (w', act')"

inductive engine_run :: "broker_client list \<Rightarrow> engine \<Rightarrow> engine_event list \<Rightarrow> engine \<Rightarrow> bool"
  for clients :: "broker_client list" where
  run_nil: "engine_run clients g [] g"
| run_snoc: "engine_run clients g evs g' \<Longrightarrow> engine_step clients g' ev g'' \<Longrightarrow>
    engine_run clients g (evs @ [ev]) g''"

definition exclusive :: "engine \<Rightarrow> bool" where
  "exclusive g \<longleftrightarrow> distinct (snd g) \<and> set (snd g) = set (w_running (fst g))"

lemma set_sync_enabled_running: "keeps w_running (account_set_sync_enabled i b)"
  unfolding account_set_sync_enabled_def
  by (intro keep_intros keeps_exec_sql) (simp_all add: keeps_def)

lemma engine_step_exclusive:
  assumes "engine_step clients g ev g'" and "exclusive g"
  shows "exclusive g'"
  using assms
proof (induction rule: engine_step.induct)
  case (sync c act w e w')
  then show ?case using sync_one_service [OF sync(3)] by (simp add: exclusive_def)
next
  case (toggle i b w r w' act)
  then show ?case using keeps_eq [OF set_sync_enabled_running toggle(1)] by (simp add: exclusive_def)
next
  case (finish w before i after)
  then have "set (w_running w) = set (before @ i # after)" "distinct (before @ i # after)"
    by (simp_all add: exclusive_def)
  then show ?case by (auto simp: exclusive_def end_client_def)
next
  case (start c w w' act)
  then have "cli_id c \<notin> set (w_running w)" "w' = w\<lparr>w_running := cli_id c # w_running w\<rparr>"
    by (simp_all add: begin_client_def split: if_splits)
  with start(3) show ?case by (simp add: exclusive_def)
next
  case (skip c w w' act)
  then show ?case by (simp add: begin_client_def split: if_splits)
qed

text \<open>
  C7. One run per client at a time: in every interleaving of scheduled and manual runs, from
  a service that has just started, no two goroutines are inside the same client, the
  \<open>running\<close> map holds exactly the clients in flight, and a run is skipped only because
  that client is in flight, so a finished client can always be started again.
\<close>

theorem one_run_per_client:
  assumes run: "engine_run clients (w0, []) evs (w, act)" and init: "w_running w0 = []"
  shows "distinct act \<and> set act = set (w_running w) \<and>
    (\<forall>c g'. engine_step clients (w, act) (Skipped (cli_id c)) g' \<longrightarrow> cli_id c \<in> set act)"
proof -
  have "exclusive g" if "engine_run clients g0 evs g" "exclusive g0" for g0 g
    using that by induction (auto intro: engine_step_exclusive)
  from this [OF run] init have ex: "exclusive (w, act)" by (simp add: exclusive_def)
  have "cli_id c \<in> set (w_running w)" if "engine_step clients (w, act) (Skipped (cli_id c)) g'" for c g'
    using that by (cases g') (auto simp: engine_skipped_iff begin_client_def split: if_splits)
  with ex show ?thesis by (auto simp: exclusive_def)
qed

text \<open>The user's last successful choice in a history.\<close>

fun last_choice :: "string \<Rightarrow> bool \<Rightarrow> engine_event list \<Rightarrow> bool" where
  "last_choice i b [] = b"
| "last_choice i b (Toggled j b' (Inr _) # evs) = last_choice i (if i = j then b' else b) evs"
| "last_choice i b (_ # evs) = last_choice i b evs"

lemma last_choice_append: "last_choice i b (evs @ [ev]) = last_choice i (last_choice i b evs) [ev]"
  by (induction i b evs rule: last_choice.induct) auto

lemma set_sync_enabled_switch:
  assumes "account_set_sync_enabled j b' w = (r, w')" and "switch_of i w = Some b"
  shows "switch_of i w' = Some (last_choice i b [Toggled j b' r])"
proof -
  obtain row where row: "account_row i w = Some row" "acp_sync_enabled row = b"
    using assms(2) by (auto simp: switch_of_def)
  let ?s = "w\<lparr>db_ops := Suc (db_ops w)\<rparr>"
  have upd: "account_row i (?s\<lparr>db_accounts := update_rows (\<lambda>r. acp_id r = j) (\<lambda>r. r\<lparr>acp_sync_enabled := b'\<rparr>)
      (db_accounts ?s)\<rparr>) = Some (if i = j then row\<lparr>acp_sync_enabled := b'\<rparr> else row)"
    using row by (subst account_row_update_rows) auto
  show ?thesis
  proof (cases "db_fault w (db_ops w)")
    case (Some m)
    then have "\<exists>e. r = Inl e" "w' = ?s"
      using assms(1)
      by (auto simp: account_set_sync_enabled_def bind_eff_apply wrap_err_def exec_sql_def Let_def)
    with assms(2) show ?thesis by auto
  next
    case None
    let ?w = "?s\<lparr>db_accounts := update_rows (\<lambda>r. acp_id r = j) (\<lambda>r. r\<lparr>acp_sync_enabled := b'\<rparr>)
      (db_accounts ?s)\<rparr>"
    have w': "w' = ?w" and r: "r = Inr () \<or> (find_row acp_id j (db_accounts w) = None \<and> (\<exists>e. r = Inl e))"
      using assms(1) None
      by (auto simp: account_set_sync_enabled_def bind_eff_apply wrap_err_def exec_sql_def Let_def
          ret_def raise_def split: if_splits)
    have "i \<noteq> j" if "find_row acp_id j (db_accounts w) = None"
      using that row by (auto simp: account_row_def)
    with r upd row show ?thesis
      unfolding w' switch_of_def by auto
  qed
qed


text \<open>
  A completion flag is published only after its data: if every account that claims its
  initial holdings sync is done has a holdings row, the same holds after a full run of any
  clients, with any failures in between.
\<close>

theorem completion_flag_backed:
  assumes "holdings_backed i w"
  shows "holdings_backed i (snd (run_once cancelled clients w))"
  by (rule backed.run_once [OF assms])

section \<open>Concrete runs\<close>

definition empty_world :: world where
  "empty_world = db.extend empty_db \<lparr>w_running = [], w_run_locked = False, w_last_run = 0, w_committed = []\<rparr>"

definition sample_account :: account where
  "sample_account = zero_account\<lparr>acc_id := ''a1'', acc_balance_total := f64_of_int 10,
     acc_balance_currency := ''USD''\<rparr>"

definition sample_holdings :: "bool \<Rightarrow> holdings" where
  "sample_holdings partial = zero_holdings\<lparr>hol_account_id := ''a1'', hol_captured_at := 5,
     hol_partial := partial\<rparr>"

definition sample_snapshot :: "bool \<Rightarrow> broker_snapshot" where
  "sample_snapshot partial = zero_snapshot\<lparr>
     snap_connection := zero_connection\<lparr>con_id := ''c''\<rparr>,
     snap_accounts := [sample_account],
     snap_holdings := [sample_holdings partial],
     snap_activities := [(''a1'', [sample_activity ''A'' [], sample_activity ''B'' []])],
     snap_retracted_activities := [(''a1'', [''B''])]\<rparr>"

definition sample_page :: "string \<Rightarrow> activity_page" where
  "sample_page i = \<lparr>pag_account_id = i, pag_items = [sample_activity ''P'' []], pag_next_offset = 1,
     pag_complete = True, pag_first_transaction_date = Some 3\<rparr>"

text \<open>A paged client that streams one page per account it was handed.\<close>

definition sample_stream :: "activity_sync_state list \<Rightarrow> activity_stream" where
  "sample_stream states =
     foldr (\<lambda>st rest. StreamPage (sample_page (ass_account_id st)) (\<lambda>_. rest)) states (StreamEnd None)"

definition sample_client :: "bool \<Rightarrow> broker_client" where
  "sample_client partial = \<lparr>cli_id = ''broker'', cli_fetch = (sample_snapshot partial, None),
     cli_stream = Some sample_stream, cli_committer = True, cli_sync_interval = None\<rparr>"

definition failing_client :: broker_client where
  "failing_client = \<lparr>cli_id = ''down'', cli_fetch = (zero_snapshot, Some (ErrUpstream ''timeout'')),
     cli_stream = None, cli_committer = False, cli_sync_interval = None\<rparr>"

definition synced_world :: world where
  "synced_world = snd (sync_one (sample_client False) empty_world)"

definition disabled_world :: world where
  "disabled_world = snd (account_set_sync_enabled ''a1'' False synced_world)"


lemma sample_stream_avoids:
  "i \<notin> ass_account_id ` set states \<Longrightarrow> stream_avoids i (sample_stream states)"
  by (induction states) (auto simp: sample_stream_def sample_page_def)



theorem acknowledgement_is_durable_witness:
  "w_committed synced_world = [''broker''] \<and>
   snapshot_saved (sample_snapshot False) (switched_off (sample_snapshot False) empty_world)
     (snd (persist_snapshot (sample_client False) (sample_snapshot False) empty_world))"
proof -
  let ?m = "persist_snapshot (sample_client False) (sample_snapshot False) empty_world"
  have "fst ?m = Inr ()" by code_simp
  then have "?m = (Inr (), snd ?m)" by (simp add: prod_eq_iff)
  from acknowledgement_is_durable [OF this]
  have "snapshot_saved (sample_snapshot False) (switched_off (sample_snapshot False) empty_world) (snd ?m)"
    by simp
  moreover have "w_committed synced_world = [''broker'']" by code_simp
  ultimately show ?thesis by simp
qed

theorem page_checkpoint_follows_data_witness:
  "\<exists>row. account_row ''a1'' (snd (persist_activity_page (sample_page ''a1'') synced_world)) = Some row \<and>
     acp_activity_sync_offset row = 0"
proof -
  let ?m = "persist_activity_page (sample_page ''a1'') synced_world"
  have "fst ?m = Inr ()" by code_simp
  then have m: "?m = (Inr (), snd ?m)" by (simp add: prod_eq_iff)
  have "map_option acp_id (account_row ''a1'' synced_world) = Some ''a1''" by code_simp
  then obtain row where "account_row (pag_account_id (sample_page ''a1'')) synced_world = Some row"
    by (auto simp: sample_page_def)
  from page_checkpoint_follows_data [OF m this] show ?thesis
    by (auto simp: sample_page_def)
qed

theorem run_once_reports_witness:
  "fst (run_once False [failing_client] synced_world) \<noteq> None \<and>
   w_last_run (snd (run_once False [failing_client] synced_world)) = w_last_run synced_world"
proof -
  let ?m = "run_once False [failing_client] synced_world"
  have free: "\<not> w_run_locked synced_world" by code_simp
  have all: "\<forall>x\<in>set (fst (run_clients False [failing_client] (synced_world\<lparr>w_run_locked := True\<rparr>))). snd x \<noteq> None"
    by code_simp
  have "?m = (fst ?m, snd ?m)" by simp
  from run_once_reports [OF this free] all show ?thesis by simp
qed

lemma sample_engine_run:
  "engine_run [sample_client False] (empty_world, [])
     [Started ''broker'', Skipped ''broker'',
      Synced ''broker'' (fst (sync_one (sample_client False) (empty_world\<lparr>w_running := [''broker'']\<rparr>)))]
     (snd (sync_one (sample_client False) (empty_world\<lparr>w_running := [''broker'']\<rparr>)), [''broker''])"
proof -
  let ?w1 = "empty_world\<lparr>w_running := [''broker'']\<rparr>"
  let ?cs = "[sample_client False]"
  have i: "cli_id (sample_client False) = ''broker''" by (simp add: sample_client_def)
  have "begin_client ''broker'' empty_world = (True, ?w1)"
    by (simp add: begin_client_def empty_world_def db.defs)
  then have 1: "engine_step ?cs (empty_world, []) (Started ''broker'') (?w1, [''broker''])"
    using engine_step.start [of "sample_client False" ?cs] by (simp add: i)
  have "begin_client ''broker'' ?w1 = (False, ?w1)" by (simp add: begin_client_def)
  then have 2: "engine_step ?cs (?w1, [''broker'']) (Skipped ''broker'') (?w1, [''broker''])"
    using engine_step.skip [of "sample_client False" ?cs] by (simp add: i)
  have 3: "engine_step ?cs (?w1, [''broker'']) (Synced ''broker'' (fst (sync_one (sample_client False) ?w1)))
      (snd (sync_one (sample_client False) ?w1), [''broker''])"
    using engine_step.sync [of "sample_client False" ?cs "[''broker'']" ?w1] by (simp add: i)
  show ?thesis
    using engine_run.run_snoc [OF engine_run.run_snoc [OF engine_run.run_snoc [OF engine_run.run_nil 1] 2] 3]
    by simp
qed

theorem one_run_per_client_witness:
  "set (w_running (snd (sync_one (sample_client False) (empty_world\<lparr>w_running := [''broker'']\<rparr>)))) = {''broker''}"
proof -
  have "w_running empty_world = []" by (simp add: empty_world_def db.defs)
  from one_run_per_client [OF sample_engine_run this, THEN conjunct2, THEN conjunct1, symmetric]
  show ?thesis by (simp only: list.set)
qed


theorem completion_flag_backed_witness:
  "holdings_backed ''a1'' (snd (run_once False [sample_client False, failing_client] synced_world))"
proof -
  have "holdings_backed ''a1'' synced_world" by code_simp
  then show ?thesis by (rule completion_flag_backed)
qed

end
