(* ===== verification/Go_Time.thy ===== *)
theory Go_Time
  imports Wf_Prelude Go_Strings
begin

text \<open>
  The part of Go's \<open>time\<close> package that the server uses: the proleptic Gregorian calendar
  over the instants of \<open>Wf_Prelude\<close> (nanoseconds since 1 January of year 1, UTC), the layouts
  \<open>2006-01-02\<close> and \<open>02.01.2006\<close> and Unix time. Parsing a printed date gives the date
  back, and printing a parsed one gives the text back.
\<close>

section \<open>Unix time\<close>

definition unix_epoch :: time where "unix_epoch = 62135596800 * dur_second"

definition to_unix :: "time \<Rightarrow> int" where "to_unix t = (t - unix_epoch) div dur_second"

definition to_unix_nano :: "time \<Rightarrow> int" where "to_unix_nano t = t - unix_epoch"

definition to_unix_milli :: "time \<Rightarrow> int" where "to_unix_milli t = (t - unix_epoch) div 1000000"

definition of_unix :: "int \<Rightarrow> time" where "of_unix n = n * dur_second + unix_epoch"

definition of_unix_milli :: "int \<Rightarrow> time" where "of_unix_milli n = n * 1000000 + unix_epoch"

lemma to_unix_of_unix [simp]: "to_unix (of_unix n) = n"
  by (simp add: to_unix_def of_unix_def)

lemma to_unix_milli_of_unix_milli [simp]: "to_unix_milli (of_unix_milli n) = n"
  by (simp add: to_unix_milli_def of_unix_milli_def)

lemma of_unix_to_unix_le: "of_unix (to_unix t) \<le> t \<and> t < of_unix (to_unix t) + dur_second"
proof -
  let ?d = "t - unix_epoch"
  have "?d = ?d div dur_second * dur_second + ?d mod dur_second" by simp
  moreover have "0 \<le> ?d mod dur_second" "?d mod dur_second < dur_second" by simp_all
  ultimately show ?thesis unfolding to_unix_def of_unix_def by linarith
qed

section \<open>The calendar\<close>

abbreviation dur_day :: duration where "dur_day \<equiv> 24 * dur_hour"

definition is_leap :: "int \<Rightarrow> bool" where
  "is_leap y \<longleftrightarrow> y mod 4 = 0 \<and> (y mod 100 \<noteq> 0 \<or> y mod 400 = 0)"

text \<open>Days from 1 January of year 1 to 1 January of year \<open>y\<close>.\<close>

definition year_start :: "int \<Rightarrow> int" where
  "year_start y = 365 * (y - 1) + (y - 1) div 4 - (y - 1) div 100 + (y - 1) div 400"

definition days_in :: "bool \<Rightarrow> int \<Rightarrow> int" where
  "days_in leap m = (if m = 2 then (if leap then 29 else 28)
     else if m = 4 \<or> m = 6 \<or> m = 9 \<or> m = 11 then 30 else 31)"

text \<open>Days of the year before the first of month \<open>m\<close>.\<close>

definition month_start :: "bool \<Rightarrow> int \<Rightarrow> int" where
  "month_start leap m = (let l = (if leap then 1 else 0) in
     if m \<le> 1 then 0 else if m = 2 then 31 else if m = 3 then 59 + l else if m = 4 then 90 + l
     else if m = 5 then 120 + l else if m = 6 then 151 + l else if m = 7 then 181 + l
     else if m = 8 then 212 + l else if m = 9 then 243 + l else if m = 10 then 273 + l
     else if m = 11 then 304 + l else if m = 12 then 334 + l else 365 + l)"

definition month_of :: "bool \<Rightarrow> int \<Rightarrow> int" where
  "month_of leap doy =
    (if doy < month_start leap 2 then 1 else if doy < month_start leap 3 then 2
     else if doy < month_start leap 4 then 3 else if doy < month_start leap 5 then 4
     else if doy < month_start leap 6 then 5 else if doy < month_start leap 7 then 6
     else if doy < month_start leap 8 then 7 else if doy < month_start leap 9 then 8
     else if doy < month_start leap 10 then 9 else if doy < month_start leap 11 then 10
     else if doy < month_start leap 12 then 11 else 12)"

text \<open>The year of a day number: an estimate from the mean year, corrected by at most one.\<close>

definition year_of :: "int \<Rightarrow> int" where
  "year_of n = (let y = n * 400 div 146097 + 1 in
     if year_start (y + 1) \<le> n then y + 1 else if n < year_start y then y - 1 else y)"

definition days_of_civil :: "int \<Rightarrow> int \<Rightarrow> int \<Rightarrow> int" where
  "days_of_civil y m d = year_start y + month_start (is_leap y) m + d - 1"

definition civil_of_days :: "int \<Rightarrow> int \<times> int \<times> int" where
  "civil_of_days n = (let y = year_of n; doy = n - year_start y; m = month_of (is_leap y) doy
     in (y, m, doy - month_start (is_leap y) m + 1))"

definition valid_date :: "int \<Rightarrow> int \<Rightarrow> int \<Rightarrow> bool" where
  "valid_date y m d \<longleftrightarrow> 1 \<le> m \<and> m \<le> 12 \<and> 1 \<le> d \<and> d \<le> days_in (is_leap y) m"

lemma div_pred:
  fixes y k :: int
  assumes "0 < k"
  shows "y div k = (y - 1) div k + (if y mod k = 0 then 1 else 0)"
proof -
  have y: "y = y div k * k + y mod k" by simp
  have r: "0 \<le> y mod k" "y mod k < k" using assms by simp_all
  show ?thesis
  proof (cases "y mod k = 0")
    case True
    then have "y - 1 = k * (y div k - 1) + (k - 1)" using y by (simp add: algebra_simps)
    from int_div_pos_eq [OF this] assms True show ?thesis by simp
  next
    case False
    then have "y - 1 = k * (y div k) + (y mod k - 1)" using y by (simp add: algebra_simps)
    from int_div_pos_eq [OF this] False r show ?thesis by simp
  qed
qed

lemma year_start_Suc: "year_start (y + 1) = year_start y + (if is_leap y then 366 else 365)"
proof -
  define a b c where "a = (y - 1) div 4" and "b = (y - 1) div 100" and "c = (y - 1) div 400"
  have m: "y mod 400 = 0 \<Longrightarrow> y mod 100 = 0" "y mod 100 = 0 \<Longrightarrow> y mod 4 = 0"
    using dvd_trans [of 100 400 y] dvd_trans [of 4 100 y] by (simp_all add: dvd_eq_mod_eq_0 [symmetric])
  have d: "y div 4 = a + (if y mod 4 = 0 then 1 else 0)"
    "y div 100 = b + (if y mod 100 = 0 then 1 else 0)"
    "y div 400 = c + (if y mod 400 = 0 then 1 else 0)"
    unfolding a_def b_def c_def by (rule div_pred, simp)+
  have "year_start (y + 1) = 365 * y + (a + (if y mod 4 = 0 then 1 else 0)) -
      (b + (if y mod 100 = 0 then 1 else 0)) + (c + (if y mod 400 = 0 then 1 else 0))"
    by (simp only: year_start_def add_diff_cancel_right' d)
  also have "\<dots> = 365 * (y - 1) + a - b + c + (if is_leap y then 366 else 365)"
    unfolding is_leap_def
    by (cases "y mod 4 = 0"; cases "y mod 100 = 0"; cases "y mod 400 = 0") (simp_all add: m)
  also have "365 * (y - 1) + a - b + c = year_start y"
    by (simp only: year_start_def a_def b_def c_def)
  finally show ?thesis .
qed

lemma year_start_mono: "x \<le> y \<Longrightarrow> year_start x + 365 * (y - x) \<le> year_start y"
proof (induction "nat (y - x)" arbitrary: y)
  case (Suc n)
  from Suc(2) have "n = nat (y - 1 - x)" "x \<le> y - 1" by linarith+
  from Suc(1) [OF this] have "year_start x + 365 * (y - 1 - x) \<le> year_start (y - 1)" .
  moreover have "year_start (y - 1) + 365 \<le> year_start y"
    using year_start_Suc [of "y - 1"] by (simp split: if_splits)
  ultimately show ?case by (simp add: algebra_simps)
qed simp

lemma year_unique:
  assumes "year_start x \<le> n" "n < year_start (x + 1)" "year_start y \<le> n" "n < year_start (y + 1)"
  shows "x = y"
proof (rule ccontr)
  assume "x \<noteq> y"
  then consider "x + 1 \<le> y" | "y + 1 \<le> x" by linarith
  then show False
    using year_start_mono [of "x + 1" y] year_start_mono [of "y + 1" x] assms by cases auto
qed

text \<open>The mean year has 146097/400 days; a year starts within two days of its mean start.\<close>

lemma div_bounds:
  fixes n k :: int
  assumes "0 < k"
  shows "k * (n div k) \<le> n" "n < k * (n div k) + k"
proof -
  have eq: "k * (n div k) + n mod k = n" by simp
  have "0 \<le> n mod k" "n mod k < k" using assms by simp_all
  with eq show "k * (n div k) \<le> n" "n < k * (n div k) + k" by linarith+
qed

lemma year_start_mean:
  "400 * year_start y \<le> 146097 * (y - 1) + 400" "146097 * (y - 1) - 800 \<le> 400 * year_start y"
proof -
  let ?k = "y - 1"
  have a: "4 * (?k div 4) \<le> ?k" "?k - 3 \<le> 4 * (?k div 4)" using div_bounds [of 4 ?k] by simp_all
  have b: "100 * (?k div 100) \<le> ?k" "?k - 99 \<le> 100 * (?k div 100)" using div_bounds [of 100 ?k] by simp_all
  have c: "400 * (?k div 400) \<le> ?k" "?k - 399 \<le> 400 * (?k div 400)" using div_bounds [of 400 ?k] by simp_all
  have up: "400 * (365 * k + p - q + r) \<le> 146097 * k + 400"
    if "4 * p \<le> k" "k - 99 \<le> 100 * q" "400 * r \<le> k" for k p q r :: int using that by (simp add: algebra_simps)
  have lo: "146097 * k - 800 \<le> 400 * (365 * k + p - q + r)"
    if "k - 3 \<le> 4 * p" "100 * q \<le> k" "k - 399 \<le> 400 * r" for k p q r :: int using that by (simp add: algebra_simps)
  show "400 * year_start y \<le> 146097 * (y - 1) + 400"
    unfolding year_start_def by (rule up [OF a(1) b(2) c(1)])
  show "146097 * (y - 1) - 800 \<le> 400 * year_start y"
    unfolding year_start_def by (rule lo [OF a(2) b(1) c(2)])
qed

lemma year_of_bounds: "year_start (year_of n) \<le> n" "n < year_start (year_of n + 1)"
proof -
  let ?y = "n * 400 div 146097 + 1"
  have e: "146097 * (?y - 1) \<le> n * 400" "n * 400 < 146097 * (?y - 1) + 146097"
    using div_bounds [of 146097 "n * 400"] by simp_all
  have lo: "year_start (?y - 1) \<le> n" using year_start_mean(1) [of "?y - 1"] e by (simp add: algebra_simps)
  have hi: "n < year_start (?y + 2)" using year_start_mean(2) [of "?y + 2"] e by (simp add: algebra_simps)
  show "year_start (year_of n) \<le> n" "n < year_start (year_of n + 1)"
    using lo hi by (auto simp: year_of_def Let_def add.assoc)
qed

lemma month_cases:
  fixes m :: int
  assumes "1 \<le> m" "m \<le> 12"
  obtains "m = 1" | "m = 2" | "m = 3" | "m = 4" | "m = 5" | "m = 6" | "m = 7" | "m = 8" | "m = 9"
    | "m = 10" | "m = 11" | "m = 12"
proof -
  have "m = 1 \<or> m = 2 \<or> m = 3 \<or> m = 4 \<or> m = 5 \<or> m = 6 \<or> m = 7 \<or> m = 8 \<or> m = 9 \<or> m = 10 \<or>
      m = 11 \<or> m = 12" using assms by presburger
  with that show ?thesis by blast
qed

lemma month_start_days: "1 \<le> m \<Longrightarrow> m \<le> 12 \<Longrightarrow> month_start leap (m + 1) = month_start leap m + days_in leap m"
  by (elim month_cases) (simp_all add: month_start_def days_in_def)

lemma month_of_month_start:
  assumes "1 \<le> m" "m \<le> 12" "month_start leap m \<le> doy" "doy < month_start leap (m + 1)"
  shows "month_of leap doy = m"
proof -
  have starts: "month_start leap 2 = 31" "month_start leap 3 = 59 + l" "month_start leap 4 = 90 + l"
      "month_start leap 5 = 120 + l" "month_start leap 6 = 151 + l" "month_start leap 7 = 181 + l"
      "month_start leap 8 = 212 + l" "month_start leap 9 = 243 + l" "month_start leap 10 = 273 + l"
      "month_start leap 11 = 304 + l" "month_start leap 12 = 334 + l" "month_start leap 13 = 365 + l"
    if "l = (if leap then 1 else 0)" for l using that by (simp_all add: month_start_def)
  obtain l :: int where l: "l = (if leap then 1 else 0)" by blast
  then have "0 \<le> l" "l \<le> 1" by simp_all
  with assms(3,4) show ?thesis
    by (rule_tac month_cases [OF assms(1,2)]) (simp_all add: month_of_def starts [OF l])
qed

lemma step_between:
  fixes f :: "int \<Rightarrow> int"
  assumes "f 1 \<le> x" "x < f (1 + int n)"
  shows "\<exists>m. 1 \<le> m \<and> m \<le> int n \<and> f m \<le> x \<and> x < f (m + 1)"
  using assms(2)
proof (induction n)
  case 0
  with assms(1) show ?case by simp
next
  case (Suc n)
  show ?case
  proof (cases "x < f (1 + int n)")
    case True
    from Suc.IH [OF this] show ?thesis by force
  next
    case False
    with Suc.prems show ?thesis by (intro exI [of _ "1 + int n"]) (simp add: add.commute)
  qed
qed

lemma month_of_bounds:
  assumes "0 \<le> doy" "doy < month_start leap 13"
  shows "1 \<le> month_of leap doy" "month_of leap doy \<le> 12"
    "month_start leap (month_of leap doy) \<le> doy" "doy < month_start leap (month_of leap doy + 1)"
proof -
  have "month_start leap 1 \<le> doy" using assms(1) by (simp add: month_start_def)
  with step_between [of "month_start leap" doy 12] assms(2)
  obtain m where m: "1 \<le> m" "m \<le> 12" "month_start leap m \<le> doy" "doy < month_start leap (m + 1)" by auto
  with month_of_month_start [OF m] show "1 \<le> month_of leap doy" "month_of leap doy \<le> 12"
    "month_start leap (month_of leap doy) \<le> doy" "doy < month_start leap (month_of leap doy + 1)"
    by simp_all
qed

lemma valid_day_of_year:
  assumes "valid_date y m d"
  shows "month_start (is_leap y) m + d - 1 < month_start (is_leap y) (m + 1)"
    "0 \<le> month_start (is_leap y) m" "month_start (is_leap y) (m + 1) \<le> month_start (is_leap y) 13"
  using assms month_start_days [of m "is_leap y"] unfolding valid_date_def
  by (linarith, auto simp: month_start_def Let_def)

lemma month_start_13: "month_start leap 13 = (if leap then 366 else 365)"
  by (simp add: month_start_def)

text \<open>Dates and day numbers are in bijection.\<close>

lemma civil_of_days_of_civil:
  assumes v: "valid_date y m d"
  shows "civil_of_days (days_of_civil y m d) = (y, m, d)"
proof -
  let ?n = "days_of_civil y m d"
  note b = valid_day_of_year [OF v]
  have d: "1 \<le> d" "1 \<le> m" "m \<le> 12" using v by (simp_all add: valid_date_def)
  have "year_start y \<le> ?n" using b(2) d by (simp add: days_of_civil_def)
  moreover have "?n < year_start (y + 1)"
    using b(1,3) by (simp add: days_of_civil_def year_start_Suc month_start_13)
  ultimately have y: "year_of ?n = y" using year_of_bounds year_unique by blast
  have doy: "?n - year_start y = month_start (is_leap y) m + d - 1" by (simp add: days_of_civil_def)
  have "month_of (is_leap y) (month_start (is_leap y) m + d - 1) = m"
    by (rule month_of_month_start [OF d(2,3)]) (use b(1) d(1) in simp_all)
  then show ?thesis by (simp add: civil_of_days_def y doy Let_def)
qed

lemma days_of_civil_of_days:
  assumes "civil_of_days n = (y, m, d)"
  shows "days_of_civil y m d = n" "valid_date y m d"
proof -
  have y: "y = year_of n" and m: "m = month_of (is_leap y) (n - year_start y)"
    and d: "d = n - year_start y - month_start (is_leap y) m + 1"
    using assms by (auto simp: civil_of_days_def Let_def)
  show "days_of_civil y m d = n" by (simp add: days_of_civil_def d)
  have "0 \<le> n - year_start y" "n - year_start y < month_start (is_leap y) 13"
    using year_of_bounds [of n] by (simp_all add: y year_start_Suc month_start_13)
  from month_of_bounds [OF this] month_start_days [of m "is_leap y"] show "valid_date y m d"
    by (simp add: valid_date_def d m)
qed


definition date_of :: "int \<Rightarrow> int \<Rightarrow> int \<Rightarrow> time" where
  "date_of y m d = days_of_civil y m d * dur_day"

definition day_of :: "time \<Rightarrow> int" where "day_of t = t div dur_day"

text \<open>\<open>AddDate(0, 0, n)\<close> in UTC.\<close>

definition add_days :: "int \<Rightarrow> time \<Rightarrow> time" where "add_days n t = t + n * dur_day"

section \<open>Layouts\<close>

text \<open>\<open>appendInt\<close> with a width: zero-padded on the left.\<close>

definition pad_int :: "nat \<Rightarrow> int \<Rightarrow> string" where
  "pad_int w i = (let ds = itoa (abs i) in
     (if i < 0 then ''-'' else []) @ replicate (w - length ds) CHR ''0'' @ ds)"

definition format_date :: "time \<Rightarrow> string" where
  "format_date t = (case civil_of_days (day_of t) of (y, m, d) \<Rightarrow>
     pad_int 4 y @ ''-'' @ pad_int 2 m @ ''-'' @ pad_int 2 d)"

text \<open>A fixed number of digits at the start of the text.\<close>

definition take_digits :: "nat \<Rightarrow> string \<Rightarrow> (int \<times> string) option" where
  "take_digits w s = (if length s < w \<or> \<not> list_all is_digit (take w s) then None
     else Some (int (digits_val (take w s)), drop w s))"

definition take_lit :: "string \<Rightarrow> string \<Rightarrow> string option" where
  "take_lit p s = (if has_prefix s p then Some (drop (length p) s) else None)"

definition make_date :: "int \<Rightarrow> int \<Rightarrow> int \<Rightarrow> string \<Rightarrow> time option" where
  "make_date y m d rest = (if rest = [] \<and> valid_date y m d then Some (date_of y m d) else None)"

text \<open>\<open>time.Parse("2006-01-02", s)\<close>.\<close>

definition parse_iso_date :: "string \<Rightarrow> time option" where
  "parse_iso_date s =
     Option.bind (take_digits 4 s) (\<lambda>(y, s1). Option.bind (take_lit ''-'' s1) (\<lambda>s2.
     Option.bind (take_digits 2 s2) (\<lambda>(m, s3). Option.bind (take_lit ''-'' s3) (\<lambda>s4.
     Option.bind (take_digits 2 s4) (\<lambda>(d, s5). make_date y m d s5)))))"

text \<open>\<open>time.Parse("02.01.2006", s)\<close>.\<close>

definition parse_dotted_date :: "string \<Rightarrow> time option" where
  "parse_dotted_date s =
     Option.bind (take_digits 2 s) (\<lambda>(d, s1). Option.bind (take_lit ''.'' s1) (\<lambda>s2.
     Option.bind (take_digits 2 s2) (\<lambda>(m, s3). Option.bind (take_lit ''.'' s3) (\<lambda>s4.
     Option.bind (take_digits 4 s4) (\<lambda>(y, s5). make_date y m d s5)))))"

lemma day_of_date_of [simp]: "day_of (date_of y m d) = days_of_civil y m d"
  by (simp add: day_of_def date_of_def)

lemma digits_val_replicate0: "digits_val (replicate n CHR ''0'' @ ds) = digits_val ds"
proof (induction n)
  case (Suc n)
  have "digits_val (CHR ''0'' # s) = digits_val s" for s
    by (simp add: digits_val_def digit_val_def char_code_def)
  with Suc show ?case by simp
qed simp

lemma length_nat_digits: "n < 10 ^ w \<Longrightarrow> 0 < w \<Longrightarrow> length (nat_digits n) \<le> w"
proof (induction n arbitrary: w rule: nat_digits.induct)
  case (1 n)
  show ?case
  proof (cases "n < 10")
    case True
    with 1 show ?thesis by (subst nat_digits.simps) simp
  next
    case False
    with 1(2) obtain v where w: "w = Suc v" "0 < v" by (cases w; cases "w - 1") auto
    with 1(2) have "n div 10 < 10 ^ v" by (simp add: less_mult_imp_div_less mult.commute)
    with 1(1) [OF False, of v] w False show ?thesis by (subst nat_digits.simps) simp
  qed
qed

lemma take_digits_pad:
  assumes "0 \<le> i" "i < 10 ^ w" "0 < w"
  shows "take_digits w (pad_int w i @ s) = Some (i, s)"
proof -
  let ?ds = "nat_digits (nat i)"
  have len: "length ?ds \<le> w" by (rule length_nat_digits) (use assms in \<open>simp_all add: nat_less_iff\<close>)
  have p: "pad_int w i = replicate (w - length ?ds) CHR ''0'' @ ?ds"
    using assms(1) by (simp add: pad_int_def itoa_def Let_def)
  have l: "length (pad_int w i) = w" using len by (simp add: p)
  have "is_digit CHR ''0''" by (simp add: is_digit_def char_code_def)
  then have "list_all is_digit (pad_int w i)"
    using nat_digits_all_digits [of "nat i"] by (auto simp: p list_all_iff)
  moreover have "int (digits_val (pad_int w i)) = i"
    using assms(1) by (simp add: p digits_val_replicate0)
  ultimately show ?thesis using l by (simp add: take_digits_def)
qed

lemma take_lit_append [simp]: "take_lit p (p @ s) = Some s"
  by (simp add: take_lit_def)

lemma parse_format_date:
  assumes v: "valid_date y m d" and y: "0 \<le> y" "y \<le> 9999"
  shows "parse_iso_date (format_date (date_of y m d)) = Some (date_of y m d)"
proof -
  have md: "0 \<le> m" "m < 10 ^ 2" "0 \<le> d" "d < 10 ^ 2"
    using v by (auto simp: valid_date_def days_in_def split: if_splits)
  have d': "take_digits 2 (pad_int 2 d) = Some (d, [])"
    using take_digits_pad [of d 2 "[]"] md by simp
  have lit: "take_lit ''-'' (CHR ''-'' # s) = Some s" for s using take_lit_append [of "''-''" s] by simp
  show ?thesis
    using take_digits_pad [of y 4] take_digits_pad [of m 2] md y v
    by (simp add: format_date_def civil_of_days_of_civil parse_iso_date_def lit d' make_date_def)
qed

lemma parse_iso_date_midnight: "parse_iso_date s = Some t \<Longrightarrow> t mod dur_day = 0"
  by (auto simp: parse_iso_date_def make_date_def date_of_def split: Option.bind_splits if_splits)

section \<open>Date and time of day\<close>

definition time_year :: "time \<Rightarrow> int" where
  "time_year t = fst (civil_of_days (day_of t))"

definition second_of_day :: "time \<Rightarrow> int" where
  "second_of_day t = t mod dur_day div dur_second"

text \<open>\<open>t.UTC().Format(time.RFC3339)\<close>.\<close>

definition format_rfc3339 :: "time \<Rightarrow> string" where
  "format_rfc3339 t = (let s = second_of_day t in
     format_date t @ ''T'' @ pad_int 2 (s div 3600) @ '':'' @ pad_int 2 (s div 60 mod 60) @ '':'' @
     pad_int 2 (s mod 60) @ ''Z'')"

text \<open>
  \<open>time.Parse(time.RFC3339, s)\<close>: the hour may have one digit, a fraction of a second is
  accepted although the layout has none (and cut to nanoseconds), the zone is \<open>Z\<close> or an
  offset of at most 24 hours and 60 minutes.
\<close>

definition take_hour :: "string \<Rightarrow> (int \<times> string) option" where
  "take_hour s = (case take_digits 2 s of Some r \<Rightarrow> Some r | None \<Rightarrow> take_digits 1 s)"

definition take_fraction :: "string \<Rightarrow> int \<times> string" where
  "take_fraction s = (case s of
      p # d # r \<Rightarrow>
        if (p = CHR ''.'' \<or> p = CHR '','') \<and> is_digit d
        then let ds = takeWhile is_digit (d # r); used = take 9 ds
             in (int (digits_val used) * 10 ^ (9 - length used), dropWhile is_digit (d # r))
        else (0, s)
    | _ \<Rightarrow> (0, s))"

definition take_zone :: "string \<Rightarrow> int option" where
  "take_zone s = (if s = ''Z'' then Some 0 else case s of
      sg # r \<Rightarrow>
        if sg = CHR ''+'' \<or> sg = CHR ''-'' then
          Option.bind (take_digits 2 r) (\<lambda>(h, r1). Option.bind (take_lit '':'' r1) (\<lambda>r2.
          Option.bind (take_digits 2 r2) (\<lambda>(m, r3).
            if r3 = [] \<and> h \<le> 24 \<and> m \<le> 60
            then Some ((if sg = CHR ''-'' then - 1 else 1) * (h * 3600 + m * 60)) else None)))
        else None
    | [] \<Rightarrow> None)"

definition parse_rfc3339 :: "string \<Rightarrow> time option" where
  "parse_rfc3339 s =
     Option.bind (take_digits 4 s) (\<lambda>(y, s1). Option.bind (take_lit ''-'' s1) (\<lambda>s2.
     Option.bind (take_digits 2 s2) (\<lambda>(mo, s3). Option.bind (take_lit ''-'' s3) (\<lambda>s4.
     Option.bind (take_digits 2 s4) (\<lambda>(d, s5). Option.bind (take_lit ''T'' s5) (\<lambda>s6.
     Option.bind (take_hour s6) (\<lambda>(h, s7). Option.bind (take_lit '':'' s7) (\<lambda>s8.
     Option.bind (take_digits 2 s8) (\<lambda>(mi, s9). Option.bind (take_lit '':'' s9) (\<lambda>s10.
     Option.bind (take_digits 2 s10) (\<lambda>(sc, s11).
     case take_fraction s11 of (ns, s12) \<Rightarrow>
     Option.bind (take_zone s12) (\<lambda>off.
       if valid_date y mo d \<and> h < 24 \<and> mi < 60 \<and> sc < 60
       then Some (date_of y mo d + (h * 3600 + mi * 60 + sc - off) * dur_second + ns)
       else None))))))))))))"

lemma format_date_of:
  "valid_date y m d \<Longrightarrow> format_date (date_of y m d) = pad_int 4 y @ ''-'' @ pad_int 2 m @ ''-'' @ pad_int 2 d"
  by (simp add: format_date_def civil_of_days_of_civil)

lemma take_lit_Cons [simp]: "take_lit [c] (c # s) = Some s"
  using take_lit_append [of "[c]" s] by simp

lemma parse_rfc3339_format_date:
  assumes v: "valid_date y m d" and y: "0 \<le> y" "y \<le> 9999"
  shows "parse_rfc3339 (format_rfc3339 (date_of y m d)) = Some (date_of y m d)"
proof -
  have md: "0 \<le> m" "m < 10 ^ 2" "0 \<le> d" "d < 10 ^ 2"
    using v by (auto simp: valid_date_def days_in_def split: if_splits)
  have s: "second_of_day (date_of y m d) = 0" by (simp add: second_of_day_def date_of_def)
  have zero: "take_digits 2 (pad_int 2 0 @ r) = Some (0, r)" for r using take_digits_pad [of 0 2] by simp
  have frac: "take_fraction ''Z'' = (0, ''Z'')" by (simp add: take_fraction_def)
  show ?thesis
    using take_digits_pad [of y 4] take_digits_pad [of m 2] take_digits_pad [of d 2] md y v
    by (simp add: parse_rfc3339_def format_rfc3339_def s format_date_of take_hour_def zero frac take_zone_def)
qed

text \<open>The format keeps the instant to the second.\<close>

lemma parse_rfc3339_format:
  assumes "0 \<le> time_year t" "time_year t \<le> 9999"
  shows "parse_rfc3339 (format_rfc3339 t) = Some (t - t mod dur_second)"
proof -
  obtain y m d where c: "civil_of_days (day_of t) = (y, m, d)" by (metis surj_pair)
  note inv = days_of_civil_of_days(1) [OF c] and v = days_of_civil_of_days(2) [OF c]
  have y: "0 \<le> y" "y \<le> 9999" using assms by (simp_all add: time_year_def c)
  define sd where "sd = second_of_day t"
  have sd: "0 \<le> sd" "sd < 86400"
    using pos_mod_bound [of dur_day t] by (simp_all add: sd_def second_of_day_def)
  define h mi sc where "h = sd div 3600" and "mi = sd div 60 mod 60" and "sc = sd mod 60"
  have r: "0 \<le> h" "h < 24" "0 \<le> mi" "mi < 60" "0 \<le> sc" "sc < 60"
    using sd by (simp_all add: h_def mi_def sc_def)
  have "h = sd div 60 div 60" by (simp add: h_def zdiv_zmult2_eq [symmetric])
  then have split: "h * 3600 + mi * 60 + sc = sd"
    using div_mult_mod_eq [of sd 60] div_mult_mod_eq [of "sd div 60" 60] unfolding mi_def sc_def by linarith
  have md: "0 \<le> m" "m < 10 ^ 2" "0 \<le> d" "d < 10 ^ 2"
    using v by (auto simp: valid_date_def days_in_def split: if_splits)
  have fmt: "format_rfc3339 t = pad_int 4 y @ ''-'' @ pad_int 2 m @ ''-'' @ pad_int 2 d @ ''T'' @
      pad_int 2 h @ '':'' @ pad_int 2 mi @ '':'' @ pad_int 2 sc @ ''Z''"
    by (simp add: format_rfc3339_def format_date_def c h_def mi_def sc_def sd_def Let_def)
  have frac: "take_fraction ''Z'' = (0, ''Z'')" by (simp add: take_fraction_def)
  have "parse_rfc3339 (format_rfc3339 t) = Some (date_of y m d + sd * dur_second)"
    unfolding fmt using take_digits_pad [of y 4] take_digits_pad [of m 2] take_digits_pad [of d 2]
      take_digits_pad [of h 2] take_digits_pad [of mi 2] take_digits_pad [of sc 2] md y v r split
    by (simp add: parse_rfc3339_def take_hour_def frac take_zone_def)
  moreover have "date_of y m d + sd * dur_second = t - t mod dur_second"
  proof -
    have "t mod dur_day = sd * dur_second + t mod dur_day mod dur_second"
      unfolding sd_def second_of_day_def by simp
    moreover have "t mod dur_day mod dur_second = t mod dur_second"
      by (simp add: mod_mod_cancel)
    moreover have "day_of t * dur_day + t mod dur_day = t" by (simp add: day_of_def)
    ultimately show ?thesis unfolding date_of_def inv by linarith
  qed
  ultimately show ?thesis by simp
qed

section \<open>Differences\<close>

text \<open>\<open>Time.Sub\<close> saturates at the ends of the 64-bit range.\<close>

definition time_sub :: "time \<Rightarrow> time \<Rightarrow> duration" where
  "time_sub t u = (if t - u > 2 ^ 63 - 1 then 2 ^ 63 - 1 else if t - u < - (2 ^ 63) then - (2 ^ 63) else t - u)"

end
