(* ===== verification/Auth_Service.thy ===== *)
theory Auth_Service
  imports Store_Repos Go_Time "HOL-Library.AList"
begin

text \<open>
  Authentication: the refresh-token store and the JWT signer
  (\<open>internal/infrastructure/auth/jwt.go\<close>) and the use cases over them
  (\<open>internal/application/auth/service.go\<close>). The JWT library, SHA-256 and the UUID
  generator are not under \<open>src/\<close>: they are fields of the environment \<open>auth_env\<close>, and
  what a theorem relies on is one of its hypotheses. The store's contract is the locale
  \<open>refresh_tokens\<close>, interpreted on \<open>RefreshStore\<close>.
\<close>

section \<open>Data\<close>

record claims =
  clm_subject :: string
  clm_issued_at :: time
  clm_expires_at :: time
  clm_token_id :: string

record token_pair =
  tpr_access_token :: string
  tpr_refresh_token :: string
  tpr_expires_in :: int

record refresh_entry =
  ren_subject :: string
  ren_expires_at :: time

text \<open>
  The claims map of a token, each field absent when it is missing or has another type.
\<close>

record jwt_payload =
  jwp_sub :: "string option"
  jwp_iat :: "int option"
  jwp_exp :: "int option"
  jwp_jti :: "string option"

datatype jwt_result = JwtOk jwt_payload | JwtExpired | JwtInvalid

record auth_env =
  env_static_token_mode :: bool
  env_token_ttl :: duration
  env_jwt_secret :: string
  env_publishable_key :: string
  env_user_emails :: "string list"
  env_static_otp :: string
  env_jwt_sign :: "string \<Rightarrow> jwt_payload \<Rightarrow> string res"
  env_jwt_parse :: "string \<Rightarrow> time \<Rightarrow> string \<Rightarrow> jwt_result"
  env_sha256_hex :: "string \<Rightarrow> string"
  env_uuid :: "nat \<Rightarrow> string"

record auth_world = db +
  aw_refresh :: "(string \<times> refresh_entry) list"
  aw_uuids :: nat

section \<open>The refresh-token store\<close>

definition refreshTTL :: duration where "refreshTTL = 30 * 24 * dur_hour"
definition maxRefreshTokens :: nat where "maxRefreshTokens = 10000"

type_synonym refresh_map = "(string \<times> refresh_entry) list"

definition entry_expired :: "time \<Rightarrow> refresh_entry \<Rightarrow> bool" where
  "entry_expired now e \<longleftrightarrow> \<not> time_is_zero (ren_expires_at e) \<and> now > ren_expires_at e"

text \<open>The store's operations on its map, at a given instant.\<close>

definition validate_at :: "bool \<Rightarrow> time \<Rightarrow> string \<Rightarrow> refresh_map \<Rightarrow> string res \<times> refresh_map" where
  "validate_at static now token m =
    (if token = [] then (Inl ErrInvalidRefreshToken, m)
     else if static then (Inr ''self-hosted-user'', m)
     else case map_of m token of
       None \<Rightarrow> (Inl ErrInvalidRefreshToken, m)
     | Some e \<Rightarrow>
         if entry_expired now e then (Inl ErrInvalidRefreshToken, AList.delete token m)
         else (Inr (ren_subject e), m))"

definition evict_expired :: "time \<Rightarrow> refresh_map \<Rightarrow> refresh_map" where
  "evict_expired now m = filter (\<lambda>(k, e). \<not> entry_expired now e) m"

definition refresh_token_value :: "string \<Rightarrow> time \<Rightarrow> string" where
  "refresh_token_value subject now = ''rt-'' @ subject @ ''-'' @ itoa (to_unix_nano now)"

definition issue_at :: "bool \<Rightarrow> time \<Rightarrow> string \<Rightarrow> refresh_map \<Rightarrow> string res \<times> refresh_map" where
  "issue_at static now subject m =
    (if static then (Inr ''static-refresh-token'', m)
     else let tok = refresh_token_value subject now; m' = evict_expired now m
       in if length m' \<ge> maxRefreshTokens
          then (Inl (ErrText ''auth: refresh token store at capacity''), m')
          else (Inr tok, AList.update tok
                 \<lparr>ren_subject = subject, ren_expires_at = now + refreshTTL\<rparr> m'))"

text \<open>The same operations on the state, with the store's clock.\<close>

definition with_refresh ::
  "(time \<Rightarrow> refresh_map \<Rightarrow> 'a res \<times> refresh_map) \<Rightarrow> (auth_world, 'a) eff" where
  "with_refresh f = (\<lambda>w. case f (db_clock w (db_ticks w)) (aw_refresh w) of
     (r, m) \<Rightarrow> (r, w\<lparr>db_ticks := Suc (db_ticks w), aw_refresh := m\<rparr>))"

definition refresh_validate :: "auth_env \<Rightarrow> string \<Rightarrow> (auth_world, string) eff" where
  "refresh_validate env token =
     with_refresh (\<lambda>now. validate_at (env_static_token_mode env) now token)"

definition refresh_issue :: "auth_env \<Rightarrow> string \<Rightarrow> (auth_world, string) eff" where
  "refresh_issue env subject =
     with_refresh (\<lambda>now. issue_at (env_static_token_mode env) now subject)"

section \<open>The signer\<close>

definition signer_ttl :: "auth_env \<Rightarrow> duration" where
  "signer_ttl env = (if env_token_ttl env \<le> 0 then dur_hour else env_token_ttl env)"

definition payload_of :: "claims \<Rightarrow> jwt_payload" where
  "payload_of c = \<lparr>jwp_sub = Some (clm_subject c), jwp_iat = Some (to_unix (clm_issued_at c)),
     jwp_exp = Some (to_unix (clm_expires_at c)), jwp_jti = Some (clm_token_id c)\<rparr>"

definition jwt_sign_claims :: "auth_env \<Rightarrow> claims \<Rightarrow> ('x db_scheme, string) eff" where
  "jwt_sign_claims env c = bind_eff time_now (\<lambda>now.
     let c1 = (if time_is_zero (clm_issued_at c) then c\<lparr>clm_issued_at := now\<rparr> else c);
         c2 = (if time_is_zero (clm_expires_at c1) then c1\<lparr>clm_expires_at := now + signer_ttl env\<rparr> else c1)
     in case env_jwt_sign env (env_jwt_secret env) (payload_of c2) of
          Inl e \<Rightarrow> raise (Wrapf ''auth: signing JWT'' e)
        | Inr tok \<Rightarrow> ret tok)"

definition claims_of :: "jwt_payload \<Rightarrow> claims" where
  "claims_of p = \<lparr>
     clm_subject = (case jwp_sub p of Some s \<Rightarrow> s | None \<Rightarrow> []),
     clm_issued_at = (case jwp_iat p of Some n \<Rightarrow> of_unix n | None \<Rightarrow> 0),
     clm_expires_at = (case jwp_exp p of Some n \<Rightarrow> of_unix n | None \<Rightarrow> 0),
     clm_token_id = (case jwp_jti p of Some s \<Rightarrow> s | None \<Rightarrow> [])\<rparr>"

definition jwt_verify :: "auth_env \<Rightarrow> string \<Rightarrow> ('x db_scheme, claims) eff" where
  "jwt_verify env raw = bind_eff time_now (\<lambda>now.
     case env_jwt_parse env (env_jwt_secret env) now raw of
       JwtExpired \<Rightarrow> raise ErrTokenExpired
     | JwtInvalid \<Rightarrow> raise ErrInvalidToken
     | JwtOk p \<Rightarrow> ret (claims_of p))"

section \<open>The use cases\<close>

definition new_uuid :: "auth_env \<Rightarrow> (auth_world, string) eff" where
  "new_uuid env = (\<lambda>w. (Inr (env_uuid env (aw_uuids w)), w\<lparr>aw_uuids := Suc (aw_uuids w)\<rparr>))"

text \<open>The common tail of \<open>Refresh\<close> and \<open>IssueSession\<close>, with the context of its errors.\<close>

definition mint_pair :: "auth_env \<Rightarrow> string \<Rightarrow> string \<Rightarrow> (auth_world, token_pair) eff" where
  "mint_pair env ctx subject =
     bind_eff time_now (\<lambda>now.
     let ttl = (if env_token_ttl env \<le> 0 then dur_hour else env_token_ttl env) in
     bind_eff (new_uuid env) (\<lambda>uid.
     let c = \<lparr>clm_subject = subject, clm_issued_at = now, clm_expires_at = now + ttl, clm_token_id = uid\<rparr> in
     bind_eff (wrap_err (ctx @ '': sign'') (jwt_sign_claims env c)) (\<lambda>access.
     bind_eff (wrap_err (ctx @ '': issue'') (refresh_issue env subject)) (\<lambda>newRefresh.
     seq_eff (wrap_err (ctx @ '': persist'') (token_insert
         \<lparr>tok_token_id = clm_token_id c, tok_subject = subject, tok_issued_at = clm_issued_at c,
          tok_expires_at = clm_expires_at c\<rparr>))
       (ret \<lparr>tpr_access_token = access, tpr_refresh_token = newRefresh, tpr_expires_in = ttl div dur_second\<rparr>)))))"

definition auth_refresh :: "auth_env \<Rightarrow> string \<Rightarrow> (auth_world, token_pair) eff" where
  "auth_refresh env refreshToken =
     bind_eff (refresh_validate env refreshToken) (mint_pair env ''refresh'')"

definition verify_access_token :: "auth_env \<Rightarrow> string \<Rightarrow> ('x db_scheme, claims) eff" where
  "verify_access_token env raw =
    (if raw = [] then raise ErrInvalidToken
     else bind_eff (jwt_verify env raw) (\<lambda>c.
       if \<not> time_is_zero (clm_expires_at c)
       then bind_eff time_now (\<lambda>now. if clm_expires_at c < now then raise ErrTokenExpired else ret c)
       else ret c))"

definition verify_api_key :: "auth_env \<Rightarrow> string \<Rightarrow> unit res" where
  "verify_api_key env value =
    (if value = [] \<or> env_publishable_key env = [] then Inl (ErrText ''auth: invalid apikey'')
     else if value \<noteq> env_publishable_key env then Inl (ErrText ''auth: invalid apikey'')
     else Inr ())"

definition is_allowed_email :: "auth_env \<Rightarrow> string \<Rightarrow> bool" where
  "is_allowed_email env email =
    (if env_user_emails env = [] then False
     else let normalised = to_lower (trim_space email)
       in if normalised = [] then False else normalised \<in> set (env_user_emails env))"

definition otp_numeric :: "string \<Rightarrow> bool" where
  "otp_numeric s \<longleftrightarrow> length s = 6 \<and> list_all is_digit s"

definition verify_otp :: "auth_env \<Rightarrow> string \<Rightarrow> unit res" where
  "verify_otp env token0 =
    (let token = trim_space token0
     in if token = [] then Inl ErrInvalidOTP
        else if otp_numeric token then Inr ()
        else if env_static_otp env \<noteq> [] \<and> token = env_static_otp env then Inr ()
        else Inl ErrInvalidOTP)"

definition subject_from_email :: "auth_env \<Rightarrow> string \<Rightarrow> string" where
  "subject_from_email env email =
    (let hex32 = take 32 (env_sha256_hex env (to_lower (trim_space email)))
     in take 8 hex32 @ ''-'' @ take 4 (drop 8 hex32) @ ''-'' @ take 4 (drop 12 hex32) @ ''-'' @
        take 4 (drop 16 hex32) @ ''-'' @ take 12 (drop 20 hex32))"

definition issue_session :: "auth_env \<Rightarrow> string \<Rightarrow> (auth_world, token_pair) eff" where
  "issue_session env email =
    (if \<not> is_allowed_email env email then raise ErrEmailNotAllowed
     else mint_pair env ''issue session'' (subject_from_email env email))"


section \<open>The store as an abstract map\<close>

text \<open>What a client can observe of the store at an instant: which token has which subject.\<close>

definition live_subject :: "time \<Rightarrow> refresh_map \<Rightarrow> string \<Rightarrow> string option" where
  "live_subject now m token =
    (if token = [] then None
     else case map_of m token of
       None \<Rightarrow> None
     | Some e \<Rightarrow> if entry_expired now e then None else Some (ren_subject e))"

locale refresh_tokens =
  fixes validate :: "time \<Rightarrow> string \<Rightarrow> 'm \<Rightarrow> string res \<times> 'm"
    and issue :: "time \<Rightarrow> string \<Rightarrow> 'm \<Rightarrow> string res \<times> 'm"
    and live :: "time \<Rightarrow> 'm \<Rightarrow> string \<Rightarrow> string option"
    and inv :: "'m \<Rightarrow> bool"
    and ttl :: duration
  assumes validate_result: "fst (validate now tok m) =
      (case live now m tok of None \<Rightarrow> Inl ErrInvalidRefreshToken | Some s \<Rightarrow> Inr s)"
    and validate_live: "inv m \<Longrightarrow> now \<le> t \<Longrightarrow> live t (snd (validate now tok m)) = live t m"
    and validate_inv: "inv m \<Longrightarrow> inv (snd (validate now tok m))"
    and issue_live: "inv m \<Longrightarrow> 0 < now \<Longrightarrow> issue now s m = (Inr tok, m') \<Longrightarrow> now \<le> t \<Longrightarrow>
      live t m' = (live t m)(tok := if t \<le> now + ttl then Some s else None)"
    and issue_error: "inv m \<Longrightarrow> issue now s m = (Inl e, m') \<Longrightarrow> now \<le> t \<Longrightarrow> live t m' = live t m"
    and issue_inv: "inv m \<Longrightarrow> inv (snd (issue now s m))"
begin

text \<open>An exchange: the subject of the presented token carries over to the new one.\<close>

lemma exchange_keeps_subject:
  assumes "inv m1" and "0 < now'" and "issue now' s m1 = (Inr tok', m2)"
    and "now' \<le> t" "t \<le> now' + ttl"
  shows "fst (validate t tok' m2) = Inr s"
  using issue_live [OF assms(1-4)] assms(5) by (simp add: validate_result)

text \<open>No rotation: the presented token lives on until its own deadline.\<close>

lemma exchange_keeps_old:
  assumes "inv m" and "validate now tok m = (Inr s, m1)" and "0 < now'" "issue now' s m1 = (Inr tok', m2)"
    and "now \<le> t" "now' \<le> t" "tok \<noteq> tok'"
  shows "fst (validate t tok m2) = fst (validate t tok m)"
proof -
  have "inv m1" using validate_inv [OF assms(1), of now tok] assms(2) by simp
  from issue_live [OF this assms(3,4,6)] validate_live [OF assms(1,5), of tok] assms(2,7)
  show ?thesis by (simp add: validate_result)
qed

end

text \<open>A Go map has each key once, and the store never holds more than its cap.\<close>

definition refresh_ok :: "refresh_map \<Rightarrow> bool" where
  "refresh_ok m \<longleftrightarrow> distinct (map fst m) \<and> length m \<le> maxRefreshTokens \<and> [] \<notin> set (map fst m)"

lemma map_of_evict:
  assumes "distinct (map fst m)"
  shows "map_of (evict_expired now m) tok =
    (case map_of m tok of None \<Rightarrow> None | Some e \<Rightarrow> if entry_expired now e then None else Some e)"
  using assms
proof (induction m)
  case (Cons x m)
  obtain k e where x: "x = (k, e)" by fastforce
  have "tok = k \<Longrightarrow> map_of m tok = None" using Cons.prems by (simp add: x map_of_eq_None_iff)
  moreover have "map_of (filter (\<lambda>(k, e). \<not> entry_expired now e) m) tok =
      (case map_of m tok of None \<Rightarrow> None | Some e \<Rightarrow> if entry_expired now e then None else Some e)"
    using Cons by (simp add: evict_expired_def)
  ultimately show ?case by (auto simp: evict_expired_def x)
qed (simp add: evict_expired_def)

lemma entry_expired_mono: "entry_expired now e \<Longrightarrow> now \<le> t \<Longrightarrow> entry_expired t e"
  by (simp add: entry_expired_def)

lemma live_evict:
  "distinct (map fst m) \<Longrightarrow> now \<le> t \<Longrightarrow> live_subject t (evict_expired now m) tok = live_subject t m tok"
  by (auto simp: live_subject_def map_of_evict entry_expired_mono split: option.splits)

lemma refresh_token_value_nonempty [simp]: "refresh_token_value s now \<noteq> []"
  by (simp add: refresh_token_value_def)


lemma distinct_evict: "distinct (map fst m) \<Longrightarrow> distinct (map fst (evict_expired now m))"
  by (simp add: evict_expired_def distinct_map_filter)

lemma length_evict: "length (evict_expired now m) \<le> length m"
  by (simp add: evict_expired_def)

lemma length_update_le: "length (AList.update k v m) \<le> Suc (length m)"
  by (induction m) auto

lemma length_delete_le: "length (AList.delete k m) \<le> length m"
  by (simp add: AList.delete_eq)

lemma issue_at_cases:
  assumes "issue_at False now s m = (r, m')"
  obtains (issued) "r = Inr (refresh_token_value s now)" "length (evict_expired now m) < maxRefreshTokens"
      "m' = AList.update (refresh_token_value s now)
        \<lparr>ren_subject = s, ren_expires_at = now + refreshTTL\<rparr> (evict_expired now m)"
  | (full) e where "r = Inl e" "m' = evict_expired now m" "maxRefreshTokens \<le> length (evict_expired now m)"
  using assms by (auto simp: issue_at_def Let_def not_le split: if_splits)

lemma set_delete_keys: "set (map fst (AList.delete k m)) \<subseteq> set (map fst m)"
  by (auto simp: AList.delete_eq)

lemma validate_at_ok: "refresh_ok m \<Longrightarrow> refresh_ok (snd (validate_at static now tok m))"
  using length_delete_le [of tok m] distinct_delete [of m tok] set_delete_keys [of tok m]
  by (auto simp: validate_at_def refresh_ok_def split: option.splits)

lemma issue_at_ok: "refresh_ok m \<Longrightarrow> refresh_ok (snd (issue_at static now s m))"
proof -
  assume ok: "refresh_ok m"
  let ?m = "evict_expired now m"
  have "distinct (map fst ?m)" "length ?m \<le> maxRefreshTokens" "[] \<notin> set (map fst ?m)"
    using ok distinct_evict length_evict [of now m] by (auto simp: refresh_ok_def) (force simp: evict_expired_def)
  with ok length_update_le [of "refresh_token_value s now" "\<lparr>ren_subject = s, ren_expires_at = now + refreshTTL\<rparr>" ?m]
  show ?thesis by (auto simp: issue_at_def Let_def refresh_ok_def distinct_update dom_update refresh_token_value_nonempty [symmetric])
qed

text \<open>
  The laws hold at any instant after Go's zero instant, where a deadline is never mistaken
  for the absence of one.
\<close>

interpretation refresh_store: refresh_tokens "validate_at False" "issue_at False" live_subject refresh_ok refreshTTL
proof (unfold_locales, goal_cases)
  case (1 now tok m)
  show ?case by (simp add: validate_at_def live_subject_def split: option.splits)
next
  case (2 m now t tok)
  then show ?case
    by (auto simp: validate_at_def live_subject_def refresh_ok_def AList.delete_conv' fun_eq_iff
        entry_expired_mono split: option.splits)
next
  case (3 m now tok)
  then show ?case by (rule validate_at_ok)
next
  case (4 m now s tok m' t)
  from 4(3) show ?case
  proof (cases rule: issue_at_cases)
    case issued
    have "live_subject t (AList.update tok \<lparr>ren_subject = s, ren_expires_at = now + refreshTTL\<rparr> (evict_expired now m)) k =
        (if k = tok then if t \<le> now + refreshTTL then Some s else None else live_subject t m k)" for k
      using live_evict [of m now t k] 4(1,2,4) issued(1)
      by (auto simp: live_subject_def AList.update_conv' refresh_ok_def entry_expired_def refreshTTL_def)
    with issued 4 show ?thesis by (auto simp: fun_eq_iff)
  qed auto
next
  case (5 m now s e m' t)
  from 5(2) show ?case
    by (cases rule: issue_at_cases) (use 5(1,3) in \<open>auto simp: live_evict refresh_ok_def fun_eq_iff\<close>)
next
  case (6 m now s)
  then show ?case by (rule issue_at_ok)
qed


lemma live_card:
  assumes "refresh_ok m"
  shows "length (evict_expired now m) = card {k. live_subject now m k \<noteq> None}"
proof -
  have d: "distinct (map fst (evict_expired now m))" using assms by (simp add: refresh_ok_def distinct_evict)
  have "{k. live_subject now m k \<noteq> None} = {k. map_of (evict_expired now m) k \<noteq> None}"
  proof (rule Collect_cong)
    fix k
    have "[] \<notin> fst ` set m" using assms by (auto simp: refresh_ok_def)
    then have "map_of m [] = None" by (simp add: map_of_eq_None_iff)
    then show "(live_subject now m k \<noteq> None) = (map_of (evict_expired now m) k \<noteq> None)"
      using assms map_of_evict [of m now k]
      by (auto simp: live_subject_def refresh_ok_def split: option.splits)
  qed
  also have "\<dots> = dom (map_of (evict_expired now m))" by (simp add: dom_def)
  also have "\<dots> = fst ` set (evict_expired now m)" by (rule dom_map_of_conv_image_fst)
  finally show ?thesis using distinct_card [OF d] by simp
qed

text \<open>
  C8. The store implements an abstract map from live tokens to subjects: validation answers
  exactly what the map says and, with its lazy eviction, never changes it; issuing adds one
  token that lives for the store's TTL and drops no other; and a refusal happens only when the
  map already holds as many live tokens as the cap, so eviction always frees what is dead.
\<close>

theorem refresh_store_refines:
  assumes ok: "refresh_ok m" and now: "0 < now" "now \<le> t"
  shows "fst (validate_at False now tok m) =
      (case live_subject now m tok of None \<Rightarrow> Inl ErrInvalidRefreshToken | Some s \<Rightarrow> Inr s) \<and>
    live_subject t (snd (validate_at False now tok m)) = live_subject t m \<and>
    (case issue_at False now subj m of
       (Inr tok', m') \<Rightarrow> refresh_ok m' \<and>
         live_subject t m' = (live_subject t m)(tok' := if t \<le> now + refreshTTL then Some subj else None)
     | (Inl e, m') \<Rightarrow> refresh_ok m' \<and> live_subject t m' = live_subject t m \<and>
         maxRefreshTokens \<le> card {k. live_subject now m k \<noteq> None})"
proof -
  obtain r m' where i: "issue_at False now subj m = (r, m')" by fastforce
  have ok': "refresh_ok m'" using refresh_store.issue_inv [OF ok, of now subj] i by simp
  have "case r of Inr tok' \<Rightarrow> live_subject t m' = (live_subject t m)(tok' := if t \<le> now + refreshTTL then Some subj else None)
      | Inl e \<Rightarrow> live_subject t m' = live_subject t m \<and> maxRefreshTokens \<le> card {k. live_subject now m k \<noteq> None}"
  proof (cases r)
    case (Inl e)
    from i show ?thesis
      by (cases rule: issue_at_cases)
        (use Inl refresh_store.issue_error [OF ok _ now(2)] i in \<open>auto simp: live_card [OF ok]\<close>)
  next
    case (Inr tok')
    with refresh_store.issue_live [OF ok now(1) _ now(2)] i show ?thesis by simp
  qed
  with ok' i refresh_store.validate_result refresh_store.validate_live [OF ok now(2)]
  show ?thesis by (cases r) auto
qed

section \<open>Sessions\<close>

definition clock_ok :: "'x db_scheme \<Rightarrow> bool" where
  "clock_ok w \<longleftrightarrow> mono (db_clock w) \<and> 0 < db_clock w 0"

lemma clock_okD: "clock_ok w \<Longrightarrow> 0 < db_clock w n" "clock_ok w \<Longrightarrow> i \<le> j \<Longrightarrow> db_clock w i \<le> db_clock w j"
  using monoD [of "db_clock w" 0 n] monoD [of "db_clock w" i j] by (fastforce simp: clock_ok_def)+

text \<open>The claims minted by a call that starts at clock reading \<open>n\<close> and UUID \<open>u\<close>.\<close>

definition minted_claims :: "auth_env \<Rightarrow> string \<Rightarrow> auth_world \<Rightarrow> claims" where
  "minted_claims env subject w = \<lparr>clm_subject = subject,
     clm_issued_at = db_clock w (db_ticks w),
     clm_expires_at = db_clock w (db_ticks w) + signer_ttl env,
     clm_token_id = env_uuid env (aw_uuids w)\<rparr>"

lemma signer_ttl_pos: "0 < signer_ttl env"
  by (simp add: signer_ttl_def)

lemma jwt_sign_claims_success:
  assumes "jwt_sign_claims env c s = (Inr a, s')" and "clm_issued_at c \<noteq> 0" "clm_expires_at c \<noteq> 0"
  shows "env_jwt_sign env (env_jwt_secret env) (payload_of c) = Inr a \<and> s' = s\<lparr>db_ticks := Suc (db_ticks s)\<rparr>"
  using assms
  by (auto simp: jwt_sign_claims_def bind_eff_apply time_now_def Let_def raise_def ret_def split: sum.splits)

lemma refresh_issue_success:
  assumes "refresh_issue env sub s = (Inr rt, s')"
  shows "issue_at (env_static_token_mode env) (db_clock s (db_ticks s)) sub (aw_refresh s) = (Inr rt, aw_refresh s') \<and>
    s' = s\<lparr>db_ticks := Suc (db_ticks s), aw_refresh := aw_refresh s'\<rparr>"
  using assms by (auto simp: refresh_issue_def with_refresh_def split: prod.splits)

lemma token_insert_success:
  assumes "token_insert t s = (Inr (), s')"
  shows "s' = s\<lparr>db_ops := Suc (db_ops s), db_tokens := upsert_row tok_token_id token_conflict t (db_tokens s)\<rparr>"
  using assms
  by (auto simp: token_insert_def wrap_err_def exec_sql_def Let_def writing_def split: option.splits)

lemma mint_pair_steps:
  assumes run: "mint_pair env ctx subject w = (Inr pair, w')"
  obtains access s3 refresh s4 where
    "jwt_sign_claims env (minted_claims env subject w)
       (w\<lparr>db_ticks := Suc (db_ticks w), aw_uuids := Suc (aw_uuids w)\<rparr>) = (Inr access, s3)"
    "refresh_issue env subject s3 = (Inr refresh, s4)"
    "token_insert \<lparr>tok_token_id = clm_token_id (minted_claims env subject w), tok_subject = subject,
        tok_issued_at = clm_issued_at (minted_claims env subject w),
        tok_expires_at = clm_expires_at (minted_claims env subject w)\<rparr> s4 = (Inr (), w')"
    "pair = \<lparr>tpr_access_token = access, tpr_refresh_token = refresh,
        tpr_expires_in = signer_ttl env div dur_second\<rparr>"
  using run unfolding mint_pair_def bind_eff_apply [of time_now] time_now_def prod.case sum.case Let_def
    bind_eff_apply [of "new_uuid env"] new_uuid_def
  by (auto elim!: bind_eff_InrE seq_eff_InrE dest!: wrap_err_InrD
      simp: minted_claims_def signer_ttl_def ret_def)

lemma mint_pair_success:
  assumes run: "mint_pair env ctx subject w = (Inr pair, w')" and clock: "clock_ok w"
  defines "c \<equiv> minted_claims env subject w"
  shows "env_jwt_sign env (env_jwt_secret env) (payload_of c) = Inr (tpr_access_token pair)"
    and "issue_at (env_static_token_mode env) (db_clock w (db_ticks w + 2)) subject (aw_refresh w) =
      (Inr (tpr_refresh_token pair), aw_refresh w')"
    and "tpr_expires_in pair = signer_ttl env div dur_second"
    and "db_tokens w' = upsert_row tok_token_id token_conflict \<lparr>tok_token_id = clm_token_id c,
        tok_subject = subject, tok_issued_at = clm_issued_at c, tok_expires_at = clm_expires_at c\<rparr> (db_tokens w)"
    and "db_clock w' = db_clock w" "db_ticks w' = db_ticks w + 3"
proof -
  have pos: "clm_issued_at c \<noteq> 0" "clm_expires_at c \<noteq> 0"
    using clock_okD(1) [OF clock, of "db_ticks w"] signer_ttl_pos [of env]
    by (auto simp: c_def minted_claims_def)
  let ?s2 = "w\<lparr>db_ticks := Suc (db_ticks w), aw_uuids := Suc (aw_uuids w)\<rparr>"
  obtain access s3 refresh s4 where
    sign: "jwt_sign_claims env c ?s2 = (Inr access, s3)" and
    issue: "refresh_issue env subject s3 = (Inr refresh, s4)" and
    ins: "token_insert \<lparr>tok_token_id = clm_token_id c, tok_subject = subject,
        tok_issued_at = clm_issued_at c, tok_expires_at = clm_expires_at c\<rparr> s4 = (Inr (), w')" and
    pair: "pair = \<lparr>tpr_access_token = access, tpr_refresh_token = refresh,
        tpr_expires_in = signer_ttl env div dur_second\<rparr>"
    unfolding c_def by (rule mint_pair_steps [OF run])
  note s = jwt_sign_claims_success [OF sign pos]
  note i = refresh_issue_success [OF issue]
  note t = token_insert_success [OF ins]
  show "env_jwt_sign env (env_jwt_secret env) (payload_of c) = Inr (tpr_access_token pair)"
    using s pair by simp
  show "issue_at (env_static_token_mode env) (db_clock w (db_ticks w + 2)) subject (aw_refresh w) =
      (Inr (tpr_refresh_token pair), aw_refresh w')"
    using s i t pair by (simp add: numeral_2_eq_2)
  show "tpr_expires_in pair = signer_ttl env div dur_second" using pair by simp
  from s have s3: "s3 = ?s2\<lparr>db_ticks := Suc (Suc (db_ticks w))\<rparr>" by simp
  from i have s4: "s4 = s3\<lparr>db_ticks := Suc (Suc (Suc (db_ticks w))), aw_refresh := aw_refresh s4\<rparr>"
    by (simp add: s3)
  have "db_tokens s4 = db_tokens w" "db_clock s4 = db_clock w" "db_ticks s4 = db_ticks w + 3"
    by (subst s4, simp add: s3)+
  then show "db_tokens w' = upsert_row tok_token_id token_conflict \<lparr>tok_token_id = clm_token_id c,
        tok_subject = subject, tok_issued_at = clm_issued_at c, tok_expires_at = clm_expires_at c\<rparr> (db_tokens w)"
    and "db_clock w' = db_clock w" "db_ticks w' = db_ticks w + 3"
    using t by simp_all
qed


text \<open>
  The contract of the JWT library, documented behaviour of \<open>golang-jwt\<close>: a token it
  signed with the secret parses back to its claims before \<open>exp\<close> and is reported as
  expired from then on.
\<close>

definition jwt_contract :: "auth_env \<Rightarrow> bool" where
  "jwt_contract env \<longleftrightarrow> (\<forall>p t now. env_jwt_sign env (env_jwt_secret env) p = Inr t \<longrightarrow>
     t \<noteq> [] \<and> env_jwt_parse env (env_jwt_secret env) now t =
       (case jwp_exp p of None \<Rightarrow> JwtOk p
        | Some e \<Rightarrow> if now < of_unix e then JwtOk p else JwtExpired))"

lemma of_unix_to_unix_pos: "unix_epoch < t \<Longrightarrow> of_unix (to_unix t) \<noteq> 0"
  using of_unix_to_unix_le [of t] by (auto simp: unix_epoch_def)

text \<open>
  C9. The life of an access token: one that was signed for some claims is accepted at every
  instant before its expiry, truncated to the second, and gives back the same subject and
  token id; at every instant after it the answer is \<open>ErrTokenExpired\<close>, never another
  error, so a client always knows that it may refresh.
\<close>

theorem access_token_lifecycle:
  assumes lib: "jwt_contract env"
    and signed: "env_jwt_sign env (env_jwt_secret env) (payload_of c) = Inr tok"
    and exp: "unix_epoch < clm_expires_at c"
    and clock: "db_clock v (db_ticks v) \<le> db_clock v (Suc (db_ticks v))"
  shows "(db_clock v (Suc (db_ticks v)) < of_unix (to_unix (clm_expires_at c)) \<longrightarrow>
      (\<exists>c'. fst (verify_access_token env tok v) = Inr c' \<and> clm_subject c' = clm_subject c \<and>
         clm_token_id c' = clm_token_id c \<and> clm_expires_at c' \<le> clm_expires_at c)) \<and>
    (of_unix (to_unix (clm_expires_at c)) < db_clock v (Suc (db_ticks v)) \<longrightarrow>
      fst (verify_access_token env tok v) = Inl ErrTokenExpired)"
proof -
  let ?e = "of_unix (to_unix (clm_expires_at c))"
  have tok: "tok \<noteq> []" and parse: "env_jwt_parse env (env_jwt_secret env) now tok =
      (if now < ?e then JwtOk (payload_of c) else JwtExpired)" for now
    using lib signed by (auto simp: jwt_contract_def payload_of_def)
  have claims: "claims_of (payload_of c) = \<lparr>clm_subject = clm_subject c,
      clm_issued_at = of_unix (to_unix (clm_issued_at c)), clm_expires_at = ?e, clm_token_id = clm_token_id c\<rparr>"
    by (simp add: claims_of_def payload_of_def)
  have "?e \<le> clm_expires_at c" using of_unix_to_unix_le by blast
  then show ?thesis
    using tok clock of_unix_to_unix_pos [OF exp]
    by (auto simp: verify_access_token_def jwt_verify_def bind_eff_apply time_now_def parse claims
        ret_def raise_def)
qed

lemma auth_refresh_success:
  assumes run: "auth_refresh env tok w = (Inr pair, w')" and dyn: "\<not> env_static_token_mode env"
    and clock: "clock_ok w"
  obtains s w1 where "live_subject (db_clock w (db_ticks w)) (aw_refresh w) tok = Some s"
    "w1 = w\<lparr>db_ticks := Suc (db_ticks w)\<rparr>" "mint_pair env ''refresh'' s w1 = (Inr pair, w')"
proof -
  obtain s w1 where v: "refresh_validate env tok w = (Inr s, w1)" and m: "mint_pair env ''refresh'' s w1 = (Inr pair, w')"
    using run unfolding auth_refresh_def by (rule bind_eff_InrE)
  have "validate_at False (db_clock w (db_ticks w)) tok (aw_refresh w) = (Inr s, aw_refresh w1)"
    and w1: "w1 = w\<lparr>db_ticks := Suc (db_ticks w), aw_refresh := aw_refresh w1\<rparr>"
    using v dyn by (auto simp: refresh_validate_def with_refresh_def split: prod.splits)
  moreover from this have "aw_refresh w1 = aw_refresh w"
    by (auto simp: validate_at_def split: if_splits option.splits)
  ultimately show ?thesis
    using that [of s w1] m refresh_store.validate_result [of "db_clock w (db_ticks w)" tok "aw_refresh w"]
    by (auto split: option.splits)
qed

text \<open>
  A refresh keeps the session: whoever presents a live refresh token gets an access token
  signed for the same subject, whose audit row is stored before the pair is returned, and a
  new refresh token that resolves to that subject for the whole TTL from its issue.
\<close>

theorem refresh_keeps_session:
  assumes run: "auth_refresh env tok w = (Inr pair, w')" and dyn: "\<not> env_static_token_mode env"
    and clock: "clock_ok w" and store: "refresh_ok (aw_refresh w)"
    and t: "db_clock w (db_ticks w + 3) \<le> t" "t \<le> db_clock w (db_ticks w + 3) + refreshTTL"
  shows "\<exists>s c. live_subject (db_clock w (db_ticks w)) (aw_refresh w) tok = Some s \<and>
    clm_subject c = s \<and>
    env_jwt_sign env (env_jwt_secret env) (payload_of c) = Inr (tpr_access_token pair) \<and>
    find_row tok_token_id (clm_token_id c) (db_tokens w') \<noteq> None \<and>
    fst (validate_at False t (tpr_refresh_token pair) (aw_refresh w')) = Inr s"
proof -
  obtain s w1 where live: "live_subject (db_clock w (db_ticks w)) (aw_refresh w) tok = Some s"
    and w1: "w1 = w\<lparr>db_ticks := Suc (db_ticks w)\<rparr>" and m: "mint_pair env ''refresh'' s w1 = (Inr pair, w')"
    by (rule auth_refresh_success [OF run dyn clock])
  have clock1: "clock_ok w1" using clock by (simp add: clock_ok_def w1)
  note r = mint_pair_success [OF m clock1]
  have issue: "issue_at False (db_clock w (db_ticks w + 3)) s (aw_refresh w) = (Inr (tpr_refresh_token pair), aw_refresh w')"
    using r(2) dyn by (simp add: w1 numeral_3_eq_3)
  have "fst (validate_at False t (tpr_refresh_token pair) (aw_refresh w')) = Inr s"
    by (rule refresh_store.exchange_keeps_subject [OF store clock_okD(1) [OF clock] issue t])
  moreover have "find_row tok_token_id (clm_token_id (minted_claims env s w1)) (db_tokens w') \<noteq> None"
    unfolding r(4) using tok_table.keys_upsert
    by (simp add: find_row_None_iff)
  moreover have "clm_subject (minted_claims env s w1) = s" by (simp add: minted_claims_def)
  ultimately show ?thesis using live r(1) by blast
qed

text \<open>
  A refresh does not rotate: the refresh token that was presented keeps validating, with
  the same answer at every later instant as if it had never been exchanged.
\<close>

theorem old_refresh_token_survives:
  assumes run: "auth_refresh env tok w = (Inr pair, w')" and dyn: "\<not> env_static_token_mode env"
    and clock: "clock_ok w" and store: "refresh_ok (aw_refresh w)"
    and t: "db_clock w (db_ticks w + 3) \<le> t" and other: "tok \<noteq> tpr_refresh_token pair"
  shows "fst (validate_at False t tok (aw_refresh w')) = fst (validate_at False t tok (aw_refresh w))"
proof -
  obtain s w1 where live: "live_subject (db_clock w (db_ticks w)) (aw_refresh w) tok = Some s"
    and w1: "w1 = w\<lparr>db_ticks := Suc (db_ticks w)\<rparr>" and m: "mint_pair env ''refresh'' s w1 = (Inr pair, w')"
    by (rule auth_refresh_success [OF run dyn clock])
  have "clock_ok w1" using clock by (simp add: clock_ok_def w1)
  note r = mint_pair_success [OF m this]
  have issue: "issue_at False (db_clock w (db_ticks w + 3)) s (aw_refresh w) = (Inr (tpr_refresh_token pair), aw_refresh w')"
    using r(2) dyn by (simp add: w1 numeral_3_eq_3)
  from refresh_store.issue_live [OF store clock_okD(1) [OF clock] issue t] other show ?thesis
    by (simp add: refresh_store.validate_result)
qed

text \<open>
  Sessions are for the allow-list only: for any other email \<open>IssueSession\<close> answers
  \<open>ErrEmailNotAllowed\<close> and changes nothing at all; for an allowed one it never gives that
  error, and spellings of one address that differ in case or surrounding space share one
  subject.
\<close>

theorem session_requires_allowed_email:
  assumes fold: "to_lower (trim_space email) = to_lower (trim_space email')"
  shows "issue_session env email w =
      (if is_allowed_email env email then mint_pair env ''issue session'' (subject_from_email env email') w
       else (Inl ErrEmailNotAllowed, w)) \<and>
    (fst (issue_session env email w) = Inl ErrEmailNotAllowed \<longleftrightarrow> \<not> is_allowed_email env email) \<and>
    is_allowed_email env email = is_allowed_email env email'"
proof -
  have sub: "subject_from_email env email = subject_from_email env email'"
    by (simp add: subject_from_email_def fold)
  have "fst (mint_pair env ctx s w) \<noteq> Inl ErrEmailNotAllowed" for ctx s
    unfolding mint_pair_def
    by (auto simp: bind_eff_apply seq_eff_apply time_now_def new_uuid_def wrap_err_def Let_def ret_def
        split: prod.splits sum.splits)
  then show ?thesis
    using sub by (auto simp: issue_session_def raise_def is_allowed_email_def fold Let_def)
qed

section \<open>A concrete environment\<close>

text \<open>
  The library parameters, instantiated: a signer that knows one payload, whose token parses
  back until it expires.
\<close>

definition demo_claims :: claims where
  "demo_claims = \<lparr>clm_subject = ''u'', clm_issued_at = of_unix 1001,
     clm_expires_at = of_unix 1001 + dur_hour, clm_token_id = ''id''\<rparr>"

definition demo_env :: auth_env where
  "demo_env = \<lparr>env_static_token_mode = False, env_token_ttl = 0, env_jwt_secret = ''k'',
     env_publishable_key = ''pk'', env_user_emails = [''bob@x.io''], env_static_otp = [],
     env_jwt_sign = (\<lambda>k p. if p = payload_of demo_claims then Inr ''jwt'' else Inl (ErrText ''unsupported'')),
     env_jwt_parse = (\<lambda>k now t. if t \<noteq> ''jwt'' then JwtInvalid
       else if now < clm_expires_at demo_claims then JwtOk (payload_of demo_claims) else JwtExpired),
     env_sha256_hex = (\<lambda>s. s), env_uuid = (\<lambda>n. ''id'')\<rparr>"

definition demo_world :: auth_world where
  "demo_world = db.extend (empty_db\<lparr>db_clock := \<lambda>n. of_unix (1000 + int n)\<rparr>)
     \<lparr>aw_refresh = [(''rt-u'', \<lparr>ren_subject = ''u'', ren_expires_at = of_unix 2000\<rparr>)], aw_uuids = 0\<rparr>"

lemma demo_contract: "jwt_contract demo_env"
  by (auto simp: jwt_contract_def demo_env_def payload_of_def demo_claims_def of_unix_def to_unix_def
      split: if_splits)

lemma demo_clock: "db_clock demo_world = (\<lambda>n. of_unix (1000 + int n))" "db_ticks demo_world = 0"
  by (simp_all add: demo_world_def db.defs empty_db_def)

lemma demo_clock_ok: "clock_ok demo_world"
  by (simp add: clock_ok_def demo_clock mono_def of_unix_def unix_epoch_def)

theorem refresh_store_refines_witness:
  "fst (validate_at False (of_unix 1500) ''rt-u'' (aw_refresh demo_world)) = Inr ''u'' \<and>
   live_subject (of_unix 3000) (snd (validate_at False (of_unix 1500) ''rt-u'' (aw_refresh demo_world))) ''rt-u'' = None"
proof -
  have m: "refresh_ok (aw_refresh demo_world)" by code_simp
  have now: "0 < of_unix 1500" "of_unix 1500 \<le> of_unix 3000" by code_simp+
  have "live_subject (of_unix 1500) (aw_refresh demo_world) ''rt-u'' = Some ''u''"
    "live_subject (of_unix 3000) (aw_refresh demo_world) ''rt-u'' = None" by code_simp+
  with refresh_store_refines [OF m now, of "''rt-u''"] show ?thesis by simp
qed

theorem access_token_lifecycle_witness:
  "fst (verify_access_token demo_env ''jwt'' demo_world) = Inr demo_claims \<and>
   (\<exists>c'. fst (verify_access_token demo_env ''jwt'' demo_world) = Inr c' \<and> clm_subject c' = ''u'')"
proof
  have signed: "env_jwt_sign demo_env (env_jwt_secret demo_env) (payload_of demo_claims) = Inr ''jwt''"
    by code_simp
  have exp: "unix_epoch < clm_expires_at demo_claims" by code_simp
  have clock: "db_clock demo_world (db_ticks demo_world) \<le> db_clock demo_world (Suc (db_ticks demo_world))"
    by (simp add: demo_clock of_unix_def)
  have "db_clock demo_world (Suc (db_ticks demo_world)) < of_unix (to_unix (clm_expires_at demo_claims))"
    by code_simp
  moreover have "clm_subject demo_claims = ''u''" by (simp add: demo_claims_def)
  ultimately show "\<exists>c'. fst (verify_access_token demo_env ''jwt'' demo_world) = Inr c' \<and> clm_subject c' = ''u''"
    using access_token_lifecycle [OF demo_contract signed exp clock] by auto
qed code_simp

lemma demo_refresh: "\<exists>pair. fst (auth_refresh demo_env ''rt-u'' demo_world) = Inr pair \<and>
   tpr_access_token pair = ''jwt'' \<and> tpr_refresh_token pair \<noteq> ''rt-u''"
proof -
  have "map_sum (\<lambda>_. ()) (\<lambda>p. (tpr_access_token p, tpr_refresh_token p = ''rt-u''))
      (fst (auth_refresh demo_env ''rt-u'' demo_world)) = Inr (''jwt'', False)" by code_simp
  then show ?thesis by (cases "fst (auth_refresh demo_env ''rt-u'' demo_world)") auto
qed

theorem refresh_keeps_session_witness:
  "\<exists>c. clm_subject c = ''u'' \<and> env_jwt_sign demo_env ''k'' (payload_of c) = Inr ''jwt''"
proof -
  let ?r = "auth_refresh demo_env ''rt-u'' demo_world"
  obtain pair where pair: "fst ?r = Inr pair" "tpr_access_token pair = ''jwt''" using demo_refresh by blast
  have run: "?r = (Inr pair, snd ?r)" using pair by (simp add: prod_eq_iff)
  have dyn: "\<not> env_static_token_mode demo_env" and k: "env_jwt_secret demo_env = ''k''" by code_simp+
  have store: "refresh_ok (aw_refresh demo_world)" by code_simp
  have "live_subject (db_clock demo_world (db_ticks demo_world)) (aw_refresh demo_world) ''rt-u'' = Some ''u''"
    by code_simp
  with refresh_keeps_session [OF run dyn demo_clock_ok store, of "db_clock demo_world (db_ticks demo_world + 3)"] pair k
  show ?thesis by (auto simp: refreshTTL_def)
qed

theorem old_refresh_token_survives_witness:
  "fst (validate_at False (of_unix 1500) ''rt-u'' (aw_refresh (snd (auth_refresh demo_env ''rt-u'' demo_world)))) =
   fst (validate_at False (of_unix 1500) ''rt-u'' (aw_refresh demo_world))"
proof -
  let ?r = "auth_refresh demo_env ''rt-u'' demo_world"
  obtain pair where pair: "fst ?r = Inr pair" "tpr_refresh_token pair \<noteq> ''rt-u''" using demo_refresh by blast
  have run: "?r = (Inr pair, snd ?r)" using pair by (simp add: prod_eq_iff)
  have dyn: "\<not> env_static_token_mode demo_env" by code_simp
  have store: "refresh_ok (aw_refresh demo_world)" by code_simp
  show ?thesis
    by (rule old_refresh_token_survives [OF run dyn demo_clock_ok store])
      (use pair in \<open>auto simp: demo_clock of_unix_def\<close>)
qed

theorem session_requires_allowed_email_witness:
  "is_allowed_email demo_env '' Bob@X.io'' \<and>
   fst (issue_session demo_env ''eve@x.io'' demo_world) = Inl ErrEmailNotAllowed"
proof
  have fold: "to_lower (trim_space '' Bob@X.io'') = to_lower (trim_space ''bob@x.io'')"
    and fold': "to_lower (trim_space ''eve@x.io'') = to_lower (trim_space ''eve@x.io'')"
    and d: "is_allowed_email demo_env ''bob@x.io''" "\<not> is_allowed_email demo_env ''eve@x.io''" by code_simp+
  show "is_allowed_email demo_env '' Bob@X.io''"
    using session_requires_allowed_email [OF fold] d by blast
  show "fst (issue_session demo_env ''eve@x.io'' demo_world) = Inl ErrEmailNotAllowed"
    using session_requires_allowed_email [OF fold'] d by blast
qed

end
