(* ===== verification/Http_Core.thy ===== *)
theory Http_Core
  imports Auth_Service
begin

text \<open>
  The HTTP layer's own vocabulary and its middleware
  (\<open>internal/interfaces/http/middleware/middleware.go\<close>): JSON documents as
  \<open>encoding/json\<close> reads and writes them, requests and responses, \<open>WriteJSON\<close>,
  request ids and the two authentication gates. Recovery, logging and CORS only add headers or
  log lines and are left out. A handler maps a request and the state to a response and a state.
\<close>

section \<open>JSON\<close>

text \<open>
  A document before it is printed; floats and times are kept because encoding them can fail.
\<close>

datatype json = JNull | JBool bool | JInt int | JFloat f64 | JTime time | JStr string
  | JArr "json list" | JObj "(string \<times> json) list"

text \<open>\<open>json.Marshal\<close> refuses NaN and infinities and years outside \<open>[0, 9999]\<close>.\<close>

definition time_ok :: "time \<Rightarrow> bool" where
  "time_ok t \<longleftrightarrow> 0 \<le> time_year t \<and> time_year t \<le> 9999"

fun json_encodable :: "json \<Rightarrow> bool" where
  "json_encodable (JFloat x) \<longleftrightarrow> f64_finite x"
| "json_encodable (JTime t) \<longleftrightarrow> time_ok t"
| "json_encodable (JArr js) \<longleftrightarrow> (\<forall>j\<in>set js. json_encodable j)"
| "json_encodable (JObj kvs) \<longleftrightarrow> (\<forall>kv\<in>set kvs. json_encodable (snd kv))"
| "json_encodable j \<longleftrightarrow> True"

text \<open>A string field tagged \<open>omitempty\<close>, and pointers that are \<open>null\<close> when nil.\<close>

definition omit_str :: "string \<Rightarrow> string \<Rightarrow> (string \<times> json) list" where
  "omit_str k s = (if s = [] then [] else [(k, JStr s)])"

definition nullable :: "('a \<Rightarrow> json) \<Rightarrow> 'a option \<Rightarrow> json" where
  "nullable f x = (case x of None \<Rightarrow> JNull | Some y \<Rightarrow> f y)"

definition omit_nil :: "('a \<Rightarrow> json) \<Rightarrow> string \<Rightarrow> 'a option \<Rightarrow> (string \<times> json) list" where
  "omit_nil f k x = (case x of None \<Rightarrow> [] | Some y \<Rightarrow> [(k, f y)])"

text \<open>
  \<open>Decode\<close> into a struct, one field at a time: keys match without regard to case, later
  keys win, \<open>null\<close> leaves a string alone and clears a pointer, any other type is an error,
  and so is a document that is neither an object nor \<open>null\<close>. The body is \<open>None\<close> when it
  is not JSON.
\<close>

definition set_str :: "json \<Rightarrow> string \<Rightarrow> string option" where
  "set_str v acc = (case v of JStr s \<Rightarrow> Some s | JNull \<Rightarrow> Some acc | _ \<Rightarrow> None)"

definition set_bool_ptr :: "json \<Rightarrow> bool option \<Rightarrow> bool option option" where
  "set_bool_ptr v acc = (case v of JBool b \<Rightarrow> Some (Some b) | JNull \<Rightarrow> Some None | _ \<Rightarrow> None)"

fun decode_field :: "(json \<Rightarrow> 'a \<Rightarrow> 'a option) \<Rightarrow> string \<Rightarrow> (string \<times> json) list \<Rightarrow> 'a \<Rightarrow> 'a option" where
  "decode_field f k [] acc = Some acc"
| "decode_field f k ((k', v) # kvs) acc =
     (if equal_fold k k' then case f v acc of None \<Rightarrow> None | Some a \<Rightarrow> decode_field f k kvs a
      else decode_field f k kvs acc)"

definition decode_body :: "(json \<Rightarrow> 'a \<Rightarrow> 'a option) \<Rightarrow> string \<Rightarrow> 'a \<Rightarrow> json option \<Rightarrow> 'a option" where
  "decode_body f k zero body = (case body of
     Some JNull \<Rightarrow> Some zero
   | Some (JObj kvs) \<Rightarrow> decode_field f k kvs zero
   | _ \<Rightarrow> None)"

section \<open>Requests and responses\<close>

record http_request =
  rq_method :: string
  rq_path :: "string list"
  rq_query :: "string \<Rightarrow> string"
  rq_header :: "string \<Rightarrow> string"
  rq_body :: "json option"
  rq_request_id :: string
  rq_claims :: "claims option"

text \<open>\<open>rsp_background\<close> counts the sync runs a handler started and did not wait for.\<close>

record http_response =
  rsp_status :: nat
  rsp_headers :: "(string \<times> string) list"
  rsp_body :: "json option"
  rsp_background :: nat

type_synonym 's handler = "http_request \<Rightarrow> 's \<Rightarrow> http_response \<times> 's"

definition json_headers :: "(string \<times> string) list" where
  "json_headers = [(''Content-Type'', ''application/json; charset=utf-8''), (''X-Content-Type-Options'', ''nosniff'')]"

definition api_error :: "string \<Rightarrow> string \<Rightarrow> string \<Rightarrow> json" where
  "api_error err code msg = JObj [(''error'', JStr err), (''code'', JStr code), (''message'', JStr msg)]"

definition auth_error_body :: "string \<Rightarrow> string \<Rightarrow> json" where
  "auth_error_body err desc = JObj [(''error'', JStr err), (''error_description'', JStr desc)]"

definition write_json :: "nat \<Rightarrow> json \<Rightarrow> http_response" where
  "write_json status v =
    (if json_encodable v
     then \<lparr>rsp_status = status, rsp_headers = json_headers, rsp_body = Some v, rsp_background = 0\<rparr>
     else \<lparr>rsp_status = 500, rsp_headers = json_headers,
        rsp_body = Some (api_error ''internal_error'' ''INTERNAL_ERROR'' ''failed to encode response''),
        rsp_background = 0\<rparr>)"

definition write_error :: "nat \<Rightarrow> string \<Rightarrow> string \<Rightarrow> string \<Rightarrow> http_response" where
  "write_error status err code msg = write_json status (api_error err code msg)"

definition write_auth_error :: "nat \<Rightarrow> string \<Rightarrow> string \<Rightarrow> http_response" where
  "write_auth_error status err desc = write_json status (auth_error_body err desc)"

lemma write_json_status: "rsp_status (write_json st v) = (if json_encodable v then st else 500)"
  by (simp add: write_json_def)

lemma write_error_status [simp]: "rsp_status (write_error st e c m) = st"
  by (simp add: write_error_def write_json_def api_error_def)

lemma write_error_body [simp]: "rsp_body (write_error st e c m) = Some (api_error e c m)"
  by (simp add: write_error_def write_json_def api_error_def)

lemma write_auth_error_status [simp]: "rsp_status (write_auth_error st e m) = st"
  by (simp add: write_auth_error_def write_json_def auth_error_body_def)

lemma write_auth_error_body [simp]: "rsp_body (write_auth_error st e m) = Some (auth_error_body e m)"
  by (simp add: write_auth_error_def write_json_def auth_error_body_def)

section \<open>Middleware\<close>

definition request_id :: "auth_env \<Rightarrow> auth_world handler \<Rightarrow> auth_world handler" where
  "request_id env next_h rq w =
    (let supplied = rq_header rq ''X-Request-Id'';
         (rid, w1) = (if supplied = [] then (env_uuid env (aw_uuids w), w\<lparr>aw_uuids := Suc (aw_uuids w)\<rparr>)
                      else (supplied, w));
         (r, w2) = next_h (rq\<lparr>rq_request_id := rid\<rparr>) w1
     in (r\<lparr>rsp_headers := (''X-Request-Id'', rid) # rsp_headers r\<rparr>, w2))"

definition api_key_gate :: "auth_env \<Rightarrow> 's handler \<Rightarrow> 's handler" where
  "api_key_gate env next_h rq w =
    (if rq_method rq = ''OPTIONS'' then next_h rq w
     else if env_static_token_mode env then next_h rq w
     else case verify_api_key env (rq_header rq ''apikey'') of
       Inl _ \<Rightarrow> (write_auth_error 401 ''unauthorized'' ''Invalid apikey'', w)
     | Inr _ \<Rightarrow> next_h rq w)"

definition bearer_gate :: "auth_env \<Rightarrow> ('x db_scheme) handler \<Rightarrow> ('x db_scheme) handler" where
  "bearer_gate env next_h rq w =
    (if rq_method rq = ''OPTIONS'' then next_h rq w
     else if env_static_token_mode env then next_h rq w
     else let raw = rq_header rq ''Authorization'' in
       if \<not> has_prefix raw ''Bearer ''
       then (write_error 401 ''unauthorized'' ''UNAUTHORIZED'' ''Missing bearer token'', w)
       else case verify_access_token env (trim_prefix raw ''Bearer '') w of
         (Inl e, w') \<Rightarrow>
           (if errors_is e ErrTokenExpired
            then write_error 401 ''token_expired'' ''TOKEN_EXPIRED'' ''Access token has expired''
            else if errors_is e ErrInvalidToken
            then write_error 401 ''unauthorized'' ''UNAUTHORIZED'' ''Invalid token''
            else write_error 401 ''unauthorized'' ''UNAUTHORIZED'' ''Authentication failed'', w')
       | (Inr c, w') \<Rightarrow> next_h (rq\<lparr>rq_claims := Some c\<rparr>) w')"

text \<open>Verification reads the clock and nothing else.\<close>

lemma verify_access_token_state:
  "snd (verify_access_token env t w) = w\<lparr>db_ticks := db_ticks (snd (verify_access_token env t w))\<rparr>"
  by (auto simp: verify_access_token_def jwt_verify_def bind_eff_apply time_now_def raise_def ret_def
      split: jwt_result.splits)

text \<open>
  The gate lets a request through exactly when its token verifies; the handler then runs with
  the token's claims.
\<close>

lemma bearer_gate_cases:
  assumes "rq_method rq \<noteq> ''OPTIONS''" and "\<not> env_static_token_mode env"
  obtains (passed) t c w' where "rq_header rq ''Authorization'' = ''Bearer '' @ t"
      "verify_access_token env t w = (Inr c, w')" "bearer_gate env h rq w = h (rq\<lparr>rq_claims := Some c\<rparr>) w'"
      "w' = w\<lparr>db_ticks := db_ticks w'\<rparr>"
  | (refused) w' err code msg where "bearer_gate env h rq w = (write_error 401 err code msg, w')"
      "w' = w\<lparr>db_ticks := db_ticks w'\<rparr>"
proof (cases "has_prefix (rq_header rq ''Authorization'') ''Bearer ''")
  case False
  show ?thesis by (rule refused [of "''unauthorized''" "''UNAUTHORIZED''" "''Missing bearer token''" w])
    (use assms False in \<open>simp_all add: bearer_gate_def Let_def\<close>)
next
  case True
  then obtain t where raw: "rq_header rq ''Authorization'' = ''Bearer '' @ t" by (auto simp: has_prefix_iff)
  obtain r w' where v: "verify_access_token env t w = (r, w')" by fastforce
  have w': "w' = w\<lparr>db_ticks := db_ticks w'\<rparr>" using verify_access_token_state [of env t w] v by simp
  have trim: "trim_prefix (''Bearer '' @ t) ''Bearer '' = t" by (rule trim_prefix_append)
  show ?thesis
  proof (cases r)
    case (Inl e)
    then show ?thesis using refused w' assms raw v trim True
      by (cases "errors_is e ErrTokenExpired"; cases "errors_is e ErrInvalidToken")
        (simp_all add: bearer_gate_def Let_def)
  next
    case (Inr c)
    show ?thesis by (rule passed [OF raw _ _ w', of c])
      (use assms raw v trim True Inr in \<open>simp_all add: bearer_gate_def Let_def\<close>)
  qed
qed

end
