(* ===== verification/Http_Dto.thy ===== *)
theory Http_Dto
  imports Http_Core
begin

text \<open>
  The response types of \<open>internal/interfaces/http/handlers\<close>: one record per DTO struct, the
  conversion the handler applies to the domain entity, and the JSON that the struct's tags
  give (\<open>*_json\<close>; \<open>omitempty\<close> fields vanish when empty, other nil pointers are
  \<open>null\<close>).
\<close>

section \<open>Instruments\<close>

record currency_dto =
  cud_id :: string
  cud_code :: string
  cud_name :: string

definition currency_json :: "currency_dto \<Rightarrow> json" where
  "currency_json d = JObj (omit_str ''id'' (cud_id d) @ [(''code'', JStr (cud_code d))] @ omit_str ''name'' (cud_name d))"

record symbol_type_dto =
  std_id :: string
  std_code :: string
  std_description :: string
  std_is_supported :: bool

definition symbol_type_json :: "symbol_type_dto \<Rightarrow> json" where
  "symbol_type_json d = JObj (omit_str ''id'' (std_id d) @ [(''code'', JStr (std_code d))] @
     omit_str ''description'' (std_description d) @ [(''is_supported'', JBool (std_is_supported d))])"

record exchange_dto =
  exd_id :: string
  exd_code :: string
  exd_mic_code :: string
  exd_name :: string
  exd_suffix :: string

definition exchange_json :: "exchange_dto \<Rightarrow> json" where
  "exchange_json d = JObj (omit_str ''id'' (exd_id d) @ [(''code'', JStr (exd_code d))] @
     omit_str ''mic_code'' (exd_mic_code d) @ omit_str ''name'' (exd_name d) @ omit_str ''suffix'' (exd_suffix d))"

record symbol_dto =
  syd_id :: string
  syd_symbol :: string
  syd_raw_symbol :: string
  syd_description :: string
  syd_name :: string
  syd_type :: symbol_type_dto
  syd_exchange :: exchange_dto
  syd_currency :: currency_dto
  syd_figi_code :: string

definition symbol_json :: "symbol_dto \<Rightarrow> json" where
  "symbol_json d = JObj (omit_str ''id'' (syd_id d) @ [(''symbol'', JStr (syd_symbol d))] @
     omit_str ''raw_symbol'' (syd_raw_symbol d) @ omit_str ''description'' (syd_description d) @
     omit_str ''name'' (syd_name d) @ [(''type'', symbol_type_json (syd_type d)),
     (''exchange'', exchange_json (syd_exchange d)), (''currency'', currency_json (syd_currency d))] @
     omit_str ''figi_code'' (syd_figi_code d))"

record option_symbol_dto =
  osd_id :: string
  osd_ticker :: string
  osd_option_type :: string
  osd_strike_price :: f64
  osd_expiration_date :: string
  osd_is_mini_option :: bool
  osd_underlying :: symbol_dto

definition option_symbol_json :: "option_symbol_dto \<Rightarrow> json" where
  "option_symbol_json d = JObj (omit_str ''id'' (osd_id d) @ [(''ticker'', JStr (osd_ticker d)),
     (''option_type'', JStr (osd_option_type d)), (''strike_price'', JFloat (osd_strike_price d)),
     (''expiration_date'', JStr (osd_expiration_date d)), (''is_mini_option'', JBool (osd_is_mini_option d)),
     (''underlying_symbol'', symbol_json (osd_underlying d))])"

definition toCurrencyDTO :: "currency \<Rightarrow> currency_dto" where
  "toCurrencyDTO c = \<lparr>cud_id = [], cud_code = cur_code c, cud_name = cur_name c\<rparr>"

definition toSymbolDTO :: "symbol \<Rightarrow> symbol_dto" where
  "toSymbolDTO s = \<lparr>syd_id = [], syd_symbol = sym_symbol s, syd_raw_symbol = sym_raw_symbol s,
     syd_description = sym_description s, syd_name = sym_name s,
     syd_type = \<lparr>std_id = [], std_code = sty_code (sym_type s),
       std_description = sty_description (sym_type s), std_is_supported = sty_is_supported (sym_type s)\<rparr>,
     syd_exchange = \<lparr>exd_id = [], exd_code = exc_code (sym_exchange s), exd_mic_code = exc_mic_code (sym_exchange s),
       exd_name = exc_name (sym_exchange s), exd_suffix = exc_suffix (sym_exchange s)\<rparr>,
     syd_currency = toCurrencyDTO (sym_currency s), syd_figi_code = sym_figi_code s\<rparr>"

definition toOptionSymbolDTO :: "option_symbol \<Rightarrow> option_symbol_dto" where
  "toOptionSymbolDTO o' = \<lparr>osd_id = [], osd_ticker = opt_ticker o', osd_option_type = opt_option_type o',
     osd_strike_price = opt_strike_price o', osd_expiration_date = format_date (opt_expiration_date o'),
     osd_is_mini_option = opt_is_mini_option o', osd_underlying = toSymbolDTO (opt_underlying o')\<rparr>"

section \<open>Activities\<close>

record activity_dto =
  acd_id :: string
  acd_symbol :: "symbol_dto option"
  acd_currency_symbol :: "symbol_dto option"
  acd_option_symbol :: "option_symbol_dto option"
  acd_price :: f64
  acd_units :: f64
  acd_amount :: f64
  acd_currency :: currency_dto
  acd_type :: string
  acd_subtype :: "string option"
  acd_raw_type :: string
  acd_option_type :: "string option"
  acd_description :: string
  acd_trade_date :: time
  acd_settlement_date :: "time option"
  acd_fee :: f64
  acd_fee_asset :: string
  acd_fx_rate :: "f64 option"
  acd_institution :: string
  acd_external_reference_id :: string
  acd_provider_type :: string
  acd_source_system :: string
  acd_source_record_id :: string
  acd_source_group_id :: "string option"
  acd_mapping_metadata :: "json option"
  acd_needs_review :: bool

definition non_empty :: "string \<Rightarrow> string option" where
  "non_empty s = (if s = [] then None else Some s)"

definition toActivityDTO :: "activity \<Rightarrow> activity_dto" where
  "toActivityDTO a = \<lparr>acd_id = act_id a,
     acd_symbol = map_option toSymbolDTO (act_symbol a),
     acd_currency_symbol = map_option toSymbolDTO (act_currency_symbol a),
     acd_option_symbol = map_option toOptionSymbolDTO (act_option_symbol a),
     acd_price = act_price a, acd_units = act_units a, acd_amount = act_amount a,
     acd_currency = toCurrencyDTO (act_currency a), acd_type = act_type a,
     acd_subtype = non_empty (act_subtype a), acd_raw_type = act_raw_type a,
     acd_option_type = non_empty (act_option_type a), acd_description = act_description a,
     acd_trade_date = act_trade_date a, acd_settlement_date = act_settlement_date a,
     acd_fee = act_fee a, acd_fee_asset = act_fee_asset a, acd_fx_rate = act_fx_rate a,
     acd_institution = act_institution a, acd_external_reference_id = act_external_reference_id a,
     acd_provider_type = act_provider_type a, acd_source_system = act_source_system a,
     acd_source_record_id = act_source_record_id a, acd_source_group_id = non_empty (act_source_group_id a),
     acd_mapping_metadata = (if act_type a = ActivityTransferIn \<or> act_type a = ActivityTransferOut
       then Some (JObj [(''flow'', JObj [(''is_external'', JBool (act_is_external a))])]) else None),
     acd_needs_review = act_needs_review a\<rparr>"

definition activity_json :: "activity_dto \<Rightarrow> json" where
  "activity_json d = JObj ([(''id'', JStr (acd_id d)), (''symbol'', nullable symbol_json (acd_symbol d))] @
     omit_nil symbol_json ''currency_universal_symbol'' (acd_currency_symbol d) @
     [(''option_symbol'', nullable option_symbol_json (acd_option_symbol d)),
      (''price'', JFloat (acd_price d)), (''units'', JFloat (acd_units d)), (''amount'', JFloat (acd_amount d)),
      (''currency'', currency_json (acd_currency d)), (''type'', JStr (acd_type d)),
      (''subtype'', nullable JStr (acd_subtype d))] @ omit_str ''raw_type'' (acd_raw_type d) @
     [(''option_type'', nullable JStr (acd_option_type d))] @ omit_str ''description'' (acd_description d) @
     [(''trade_date'', JTime (acd_trade_date d)), (''settlement_date'', nullable JTime (acd_settlement_date d)),
      (''fee'', JFloat (acd_fee d))] @ omit_str ''fee_asset'' (acd_fee_asset d) @
     [(''fx_rate'', nullable JFloat (acd_fx_rate d))] @ omit_str ''institution'' (acd_institution d) @
     omit_str ''external_reference_id'' (acd_external_reference_id d) @
     omit_str ''provider_type'' (acd_provider_type d) @ omit_str ''source_system'' (acd_source_system d) @
     omit_str ''source_record_id'' (acd_source_record_id d) @
     [(''source_group_id'', nullable JStr (acd_source_group_id d)),
      (''mapping_metadata'', nullable (\<lambda>j. j) (acd_mapping_metadata d)),
      (''needs_review'', JBool (acd_needs_review d))])"

definition activities_json :: "activity_dto list \<Rightarrow> int \<Rightarrow> int \<Rightarrow> int \<Rightarrow> bool \<Rightarrow> json" where
  "activities_json acts offset limit tot has_more = JObj [(''activities'', JArr (map activity_json acts)),
     (''pagination'', JObj [(''offset'', JInt offset), (''limit'', JInt limit), (''total'', JInt tot),
       (''has_more'', JBool has_more)])]"

section \<open>Accounts\<close>

record account_dto =
  aco_id :: string
  aco_name :: string
  aco_account_number :: string
  aco_type :: string
  aco_raw_type :: string
  aco_currency :: string
  aco_balance :: f64
  aco_balance_currency :: string
  aco_brokerage_authorization :: string
  aco_institution_name :: string
  aco_sync_enabled :: bool
  aco_shared_with_household :: bool
  aco_is_paper :: bool
  aco_status :: string
  aco_created_date :: time
  aco_tx_done :: bool
  aco_tx_last :: "time option"
  aco_tx_first :: "string option"
  aco_holdings_done :: bool
  aco_holdings_last :: "time option"
  aco_owner_user_id :: string
  aco_owner_full_name :: string
  aco_owner_email :: string

definition toAccountDTO :: "account \<Rightarrow> account_dto" where
  "toAccountDTO a = \<lparr>aco_id = acc_id a, aco_name = acc_name a, aco_account_number = acc_account_number a,
     aco_type = acc_type a, aco_raw_type = acc_raw_type a, aco_currency = acc_currency a,
     aco_balance = acc_balance_total a,
     aco_balance_currency = (if acc_balance_currency a = [] then acc_currency a else acc_balance_currency a),
     aco_brokerage_authorization = acc_brokerage_authorization a,
     aco_institution_name = acc_institution_name a, aco_sync_enabled = acc_sync_enabled a,
     aco_shared_with_household = acc_shared_with_household a, aco_is_paper = acc_is_paper a,
     aco_status = acc_status a, aco_created_date = acc_created_date a,
     aco_tx_done = acc_initial_tx_sync_done a, aco_tx_last = acc_last_tx_sync a,
     aco_tx_first = map_option format_date (acc_first_tx_date a),
     aco_holdings_done = acc_initial_holdings_done a, aco_holdings_last = acc_last_holdings_sync a,
     aco_owner_user_id = acc_owner_user_id a, aco_owner_full_name = acc_owner_full_name a,
     aco_owner_email = acc_owner_email a\<rparr>"

definition account_json :: "account_dto \<Rightarrow> json" where
  "account_json d = JObj ([(''id'', JStr (aco_id d)), (''name'', JStr (aco_name d)),
     (''account_number'', JStr (aco_account_number d)), (''type'', JStr (aco_type d))] @
     omit_str ''raw_type'' (aco_raw_type d) @
     [(''currency'', JStr (aco_currency d)),
      (''balance'', JObj [(''total'', JObj [(''amount'', JFloat (aco_balance d)),
         (''currency'', JStr (aco_balance_currency d))])]),
      (''brokerage_authorization'', JStr (aco_brokerage_authorization d)),
      (''institution_name'', JStr (aco_institution_name d)), (''sync_enabled'', JBool (aco_sync_enabled d)),
      (''shared_with_household'', JBool (aco_shared_with_household d)), (''is_paper'', JBool (aco_is_paper d)),
      (''status'', JStr (aco_status d)), (''created_date'', JTime (aco_created_date d)),
      (''sync_status'', JObj [
         (''transactions'', JObj ([(''initial_sync_completed'', JBool (aco_tx_done d)),
            (''last_successful_sync'', nullable JTime (aco_tx_last d))] @
            omit_nil JStr ''first_transaction_date'' (aco_tx_first d))),
         (''holdings'', JObj [(''initial_sync_completed'', JBool (aco_holdings_done d)),
            (''last_successful_sync'', nullable JTime (aco_holdings_last d))])]),
      (''owner'', JObj [(''user_id'', JStr (aco_owner_user_id d)), (''full_name'', JStr (aco_owner_full_name d)),
         (''email'', JStr (aco_owner_email d)), (''is_own_account'', JBool True)]),
      (''meta'', JNull)])"

section \<open>Holdings and connections\<close>

definition balance_json :: "balance \<Rightarrow> json" where
  "balance_json b = JObj [(''currency'', currency_json (toCurrencyDTO (bal_currency b))),
     (''cash'', JFloat (bal_cash b)), (''buying_power'', JFloat (bal_buying_power b))]"

definition position_json :: "position \<Rightarrow> json" where
  "position_json p = JObj [
     (''symbol'', JObj [(''symbol'', symbol_json (toSymbolDTO (pos_symbol p))),
        (''id'', JStr (''holding-'' @ sym_symbol (pos_symbol p))),
        (''description'', JStr (sym_description (pos_symbol p)))]),
     (''units'', JFloat (pos_units p)), (''price'', JFloat (pos_price p)),
     (''open_pnl'', JFloat (pos_open_pnl p)),
     (''average_purchase_price'', JFloat (pos_average_purchase_price p)),
     (''currency'', currency_json (toCurrencyDTO (pos_currency p))),
     (''cash_equivalent'', JBool (pos_cash_equivalent p))]"

definition option_position_json :: "option_position \<Rightarrow> json" where
  "option_position_json p = JObj [
     (''option_symbol'', option_symbol_json (toOptionSymbolDTO (opp_option_symbol p))),
     (''units'', JFloat (opp_units p)), (''price'', JFloat (opp_price p)),
     (''average_purchase_price'', JFloat (opp_average_purchase_price p)),
     (''currency'', currency_json (toCurrencyDTO (opp_currency p)))]"

definition holdings_json :: "account \<Rightarrow> holdings \<Rightarrow> json" where
  "holdings_json acc h = JObj [
     (''account'', JObj [(''id'', JStr (acc_id acc)), (''name'', JStr (acc_name acc)),
        (''number'', JStr (acc_account_number acc)), (''raw_type'', JStr (acc_raw_type acc))]),
     (''balances'', JArr (map balance_json (hol_balances h))),
     (''positions'', JArr (map position_json (hol_positions h))),
     (''option_positions'', JArr (map option_position_json (hol_option_positions h)))]"

definition connection_json :: "connection \<Rightarrow> json" where
  "connection_json c = JObj [(''id'', JStr (con_id c)), (''authorization_id'', JStr (con_authorization_id c)),
     (''brokerage_name'', JStr (con_brokerage_name c)), (''brokerage_slug'', JStr (con_brokerage_slug c)),
     (''brokerage'', JObj ([(''id'', JStr (''brokerage-'' @ con_brokerage_slug c)),
        (''name'', JStr (con_brokerage_name c)), (''display_name'', JStr (con_display_name c)),
        (''slug'', JStr (con_brokerage_slug c))] @ omit_str ''aws_s3_logo_url'' (con_logo_url c) @
        omit_str ''aws_s3_square_logo_url'' (con_square_logo_url c))),
     (''disabled'', JBool (con_disabled c)), (''updated_at'', JTime (con_updated_at c)),
     (''name'', JStr (con_name c)),
     (''status'', JStr (if con_status c = ConnectionActive then ''connected'' else con_status c))]"

section \<open>What can be encoded\<close>

definition activity_wire_ok :: "activity \<Rightarrow> bool" where
  "activity_wire_ok a \<longleftrightarrow> f64_finite (act_price a) \<and> f64_finite (act_units a) \<and> f64_finite (act_amount a) \<and>
     f64_finite (act_fee a) \<and> pred_option f64_finite (act_fx_rate a) \<and>
     pred_option (\<lambda>o'. f64_finite (opt_strike_price o')) (act_option_symbol a) \<and>
     time_ok (act_trade_date a) \<and> pred_option time_ok (act_settlement_date a)"

lemma encodable_parts [simp]:
  "kv \<in> set (omit_str k s) \<Longrightarrow> json_encodable (snd kv)"
  "json_encodable (nullable f x) \<longleftrightarrow> pred_option (\<lambda>y. json_encodable (f y)) x"
  "(\<forall>kv\<in>set (omit_nil f k x). json_encodable (snd kv)) \<longleftrightarrow> pred_option (\<lambda>y. json_encodable (f y)) x"
  by (auto simp: omit_str_def split: if_splits) (cases x; simp add: nullable_def omit_nil_def)+

lemma encodable_omit_str [simp]: "\<forall>kv\<in>set (omit_str k s). json_encodable (snd kv)"
  by simp

lemma encodable_instruments [simp]:
  "json_encodable (currency_json c)" "json_encodable (symbol_json s)"
  "json_encodable (option_symbol_json d) \<longleftrightarrow> f64_finite (osd_strike_price d)"
  by (simp_all add: currency_json_def symbol_json_def symbol_type_json_def exchange_json_def
      option_symbol_json_def ball_Un)

lemma activity_json_encodable [simp]:
  "json_encodable (activity_json (toActivityDTO a)) \<longleftrightarrow> activity_wire_ok a"
  by (auto simp: activity_json_def toActivityDTO_def activity_wire_ok_def ball_Un
      toOptionSymbolDTO_def option.pred_map comp_def option.pred_True)

end
