(* ===== verification/Brokerage_Services.thy ===== *)
theory Brokerage_Services
  imports Activity_Repo Store_Repos
begin

text \<open>
  The read services of \<open>internal/application/brokerage\<close>: connections, accounts, paginated
  activities and holdings. The lemmas show how the page a client gets relates to the filtered
  table, and that following \<open>HasMore\<close> ends and returns every row once, in order.
\<close>

section \<open>Connections and accounts\<close>

definition connection_service_list :: "('x db_scheme, connection list) eff" where
  "connection_service_list = wrap_err ''connections: list'' connection_list"

definition account_service_list :: "('x db_scheme, account list) eff" where
  "account_service_list = wrap_err ''accounts: list'' account_list"

text \<open>A repository error: not found becomes the service's own error, any other is wrapped.\<close>

definition map_not_found :: "string \<Rightarrow> ('s, 'a) eff \<Rightarrow> ('s, 'a) eff" where
  "map_not_found ctx m = (\<lambda>s. case m s of
       (Inl e, s') \<Rightarrow> (Inl (if errors_is e ErrNotFound then ErrAccountNotFound else Wrapf ctx e), s')
     | (Inr x, s') \<Rightarrow> (Inr x, s'))"

definition account_service_get :: "string \<Rightarrow> ('x db_scheme, account) eff" where
  "account_service_get i = map_not_found ''accounts: get'' (account_get i)"

definition account_service_set_sync_enabled :: "string \<Rightarrow> bool \<Rightarrow> ('x db_scheme, account) eff" where
  "account_service_set_sync_enabled i enabled =
     seq_eff (map_not_found ''accounts: set sync_enabled'' (account_set_sync_enabled i enabled))
       (account_service_get i)"

section \<open>Activities\<close>

record activity_query =
  aqu_account_id :: string
  aqu_start_date :: "time option"
  aqu_end_date :: "time option"
  aqu_offset :: int
  aqu_limit :: int

record paginated_activities =
  pga_items :: "activity list"
  pga_total :: int
  pga_offset :: int
  pga_limit :: int
  pga_has_more :: bool

definition DefaultActivityLimit :: int where "DefaultActivityLimit = 1000"
definition MaxActivityLimit :: int where "MaxActivityLimit = 5000"

definition clamp_limit :: "int \<Rightarrow> int" where
  "clamp_limit l0 = (let l1 = (if l0 \<le> 0 then DefaultActivityLimit else l0)
     in if l1 > MaxActivityLimit then MaxActivityLimit else l1)"

definition clamp_offset :: "int \<Rightarrow> int" where
  "clamp_offset o0 = (if o0 < 0 then 0 else o0)"

definition activity_service_list :: "activity_query \<Rightarrow> ('x db_scheme, paginated_activities) eff" where
  "activity_service_list q =
     bind_eff (map_not_found ''activities: account lookup'' (account_get (aqu_account_id q))) (\<lambda>_.
     let limit = clamp_limit (aqu_limit q); offset = clamp_offset (aqu_offset q) in
     bind_eff (wrap_err ''activities: list'' (activity_list
         \<lparr>afi_account_id = aqu_account_id q, afi_start_date = aqu_start_date q,
          afi_end_date = aqu_end_date q, afi_offset = offset, afi_limit = limit\<rparr>)) (\<lambda>(items, total).
     ret \<lparr>pga_items = items, pga_total = total, pga_offset = offset, pga_limit = limit,
          pga_has_more = offset + int (length items) < total\<rparr>))"

section \<open>Holdings\<close>

definition holding_service_get :: "string \<Rightarrow> ('x db_scheme, account \<times> holdings) eff" where
  "holding_service_get accountID =
     bind_eff (map_not_found ''holdings: account lookup'' (account_get accountID)) (\<lambda>acc.
     bind_eff (attempt (holding_get_latest accountID)) (\<lambda>r. case r of
         Inr h \<Rightarrow> ret (acc, h)
       | Inl e \<Rightarrow>
           if errors_is e ErrNotFound
           then bind_eff time_now (\<lambda>now. ret (acc, zero_holdings\<lparr>hol_account_id := accountID, hol_captured_at := now\<rparr>))
           else raise (Wrapf ''holdings: get'' e)))"

section \<open>Pages\<close>

text \<open>The whole answer to a query, which the pages cut up.\<close>

definition all_matches :: "activity_query \<Rightarrow> 'x db_scheme \<Rightarrow> activity list" where
  "all_matches q s = map activity_to_domain (activity_order (filter (activity_matches
     \<lparr>afi_account_id = aqu_account_id q, afi_start_date = aqu_start_date q,
      afi_end_date = aqu_end_date q, afi_offset = 0, afi_limit = 0\<rparr>) (db_activities s)))"

lemma clamp_limit_pos: "0 < clamp_limit l \<and> clamp_limit l \<le> MaxActivityLimit"
  by (simp add: clamp_limit_def DefaultActivityLimit_def MaxActivityLimit_def Let_def)

lemma length_activity_order [simp]: "length (activity_order rows) = length rows"
  by (simp add: activity_order_def)

lemma activity_matches_page:
  "activity_matches (f\<lparr>afi_offset := a, afi_limit := b\<rparr>) = activity_matches f"
  by (rule ext) (simp add: activity_matches_def)

lemma activity_list_no_faults:
  assumes "no_faults s" and "0 < afi_limit f" "0 \<le> afi_offset f"
  shows "activity_list f s =
    (let rows = activity_order (filter (activity_matches f) (db_activities s))
     in (Inr (map activity_to_domain (take (nat (afi_limit f)) (drop (nat (afi_offset f)) rows)), int (length rows)),
         s\<lparr>db_ops := Suc (Suc (db_ops s))\<rparr>))"
  using assms by (simp add: activity_list_def Let_def eff_defs)

lemma activity_service_list_no_faults:
  assumes ok: "no_faults s" and acc: "account_row (aqu_account_id q) s \<noteq> None"
  defines "n \<equiv> clamp_offset (aqu_offset q)" and "l \<equiv> clamp_limit (aqu_limit q)"
  shows "fst (activity_service_list q s) = Inr \<lparr>
      pga_items = take (nat l) (drop (nat n) (all_matches q s)),
      pga_total = int (length (all_matches q s)), pga_offset = n, pga_limit = l,
      pga_has_more = n + int (length (take (nat l) (drop (nat n) (all_matches q s)))) < int (length (all_matches q s))\<rparr>"
proof -
  let ?f = "\<lparr>afi_account_id = aqu_account_id q, afi_start_date = aqu_start_date q,
          afi_end_date = aqu_end_date q, afi_offset = n, afi_limit = l\<rparr>"
  let ?g = "\<lparr>afi_account_id = aqu_account_id q, afi_start_date = aqu_start_date q,
          afi_end_date = aqu_end_date q, afi_offset = 0, afi_limit = 0\<rparr>"
  have m: "activity_matches ?f = activity_matches ?g" by (rule ext) (simp add: activity_matches_def)
  obtain po where po: "account_row (aqu_account_id q) s = Some po" using acc by auto
  let ?s = "s\<lparr>db_ops := Suc (db_ops s)\<rparr>"
  have "activity_list ?f ?s = (Inr (take (nat l) (drop (nat n) (all_matches q s)), int (length (all_matches q s))),
      ?s\<lparr>db_ops := Suc (Suc (db_ops ?s))\<rparr>)"
    using clamp_limit_pos [of "aqu_limit q"] ok
    by (subst activity_list_no_faults)
      (simp_all add: l_def n_def clamp_offset_def Let_def all_matches_def m [unfolded l_def n_def clamp_offset_def] take_map drop_map)
  then show ?thesis
    using account_get_no_faults [OF ok, of "aqu_account_id q"] po
    by (simp add: activity_service_list_def map_not_found_def bind_eff_apply Let_def wrap_err_def
        ret_def n_def [symmetric] l_def [symmetric])
qed


text \<open>A client that follows \<open>HasMore\<close>, for at most \<open>fuel\<close> requests.\<close>

fun crawl :: "nat \<Rightarrow> activity_query \<Rightarrow> 'x db_scheme \<Rightarrow> activity list option" where
  "crawl 0 q s = None"
| "crawl (Suc fuel) q s = (case fst (activity_service_list q s) of
     Inl _ \<Rightarrow> None
   | Inr p \<Rightarrow> if pga_has_more p
       then map_option ((@) (pga_items p))
              (crawl fuel (q\<lparr>aqu_offset := pga_offset p + int (length (pga_items p))\<rparr>) s)
       else Some (pga_items p))"

lemma all_matches_offset [simp]: "all_matches (q\<lparr>aqu_offset := n\<rparr>) s = all_matches q s"
  by (simp add: all_matches_def)

lemma crawl_from:
  assumes ok: "no_faults s" and acc: "account_row (aqu_account_id q) s \<noteq> None"
    and n: "0 \<le> aqu_offset q" and fuel: "length (all_matches q s) - nat (aqu_offset q) < fuel"
  shows "crawl fuel q s = Some (drop (nat (aqu_offset q)) (all_matches q s))"
  using acc n fuel
proof (induction fuel arbitrary: q)
  case (Suc fuel)
  let ?all = "all_matches q s" and ?n = "nat (aqu_offset q)" and ?l = "nat (clamp_limit (aqu_limit q))"
  have l: "0 < ?l" using clamp_limit_pos [of "aqu_limit q"] by simp
  note p = activity_service_list_no_faults [OF ok Suc.prems(1)]
  have off: "clamp_offset (aqu_offset q) = aqu_offset q" using Suc.prems(2) by (simp add: clamp_offset_def)
  show ?case
  proof (cases "?n + length (take ?l (drop ?n ?all)) < length ?all")
    case True
    let ?q = "q\<lparr>aqu_offset := aqu_offset q + int (length (take ?l (drop ?n ?all)))\<rparr>"
    have len: "length (take ?l (drop ?n ?all)) = ?l" using True by simp
    have next_off: "nat (aqu_offset ?q) = ?n + ?l" using Suc.prems(2) len by (simp add: nat_add_distrib)
    have fuel: "length (all_matches ?q s) - nat (aqu_offset ?q) < fuel"
      using Suc.prems(3) True l len unfolding next_off all_matches_offset by linarith
    have "crawl fuel ?q s = Some (drop (nat (aqu_offset ?q)) (all_matches ?q s))"
      by (rule Suc.IH [OF _ _ fuel]) (use Suc.prems in simp_all)
    then have rest: "crawl fuel ?q s = Some (drop (?n + ?l) ?all)"
      unfolding next_off all_matches_offset .
    have "take ?l (drop ?n ?all) @ drop (?n + ?l) ?all = drop ?n ?all"
      by (metis add.commute append_take_drop_id drop_drop)
    moreover have "aqu_offset q + int (length (take ?l (drop ?n ?all))) < int (length ?all)"
      using True Suc.prems(2) by linarith
    ultimately show ?thesis
      using rest unfolding crawl.simps p off by (simp add: Suc.prems(2) del: length_take length_drop)
  next
    case False
    then have short: "length (drop ?n ?all) \<le> ?l" using l by simp
    have "\<not> aqu_offset q + int (length (take ?l (drop ?n ?all))) < int (length ?all)"
      using False Suc.prems(2) by linarith
    with short show ?thesis unfolding crawl.simps p off by (simp del: length_take length_drop)
  qed
qed simp

text \<open>
  C11. Pagination ends and loses nothing: a client that starts at offset 0 and follows
  \<open>HasMore\<close> gets every matching activity exactly once, in order, after at most one request
  more than there are activities, whatever page size it asks for.
\<close>

theorem pagination_complete:
  assumes "no_faults s" and "account_row (aqu_account_id q) s \<noteq> None" and "aqu_offset q = 0"
    and "length (all_matches q s) < fuel"
  shows "crawl fuel q s = Some (all_matches q s)"
  using crawl_from [of s q fuel] assms by simp

text \<open>A table of four activities, of which one belongs to another account.\<close>

definition page_db :: db where
  "page_db = after_batch ''b'' [sample_activity ''w'' []]
     (after_batch ''a'' [sample_activity ''x'' [], sample_activity ''y'' [], sample_activity ''z'' []]
       (empty_db\<lparr>db_accounts := [accountFromDomain 0 (zero_account\<lparr>acc_id := ''a''\<rparr>)]\<rparr>))"

definition page_query :: activity_query where
  "page_query = \<lparr>aqu_account_id = ''a'', aqu_start_date = None, aqu_end_date = None,
     aqu_offset = 0, aqu_limit = 2\<rparr>"

lemma page_db_no_faults: "no_faults page_db"
proof -
  have "db_fault page_db n = None" for n by code_simp
  then show ?thesis by (simp add: no_faults_def)
qed


theorem pagination_complete_witness:
  "map_option (map act_id) (crawl 4 page_query page_db) = Some [''x'', ''y'', ''z''] \<and>
   crawl 4 page_query page_db = Some (all_matches page_query page_db)"
proof
  have "map_option acp_id (account_row (aqu_account_id page_query) page_db) = Some ''a''" by code_simp
  then have acc: "account_row (aqu_account_id page_query) page_db \<noteq> None" by auto
  have "length (all_matches page_query page_db) < 4" by code_simp
  from pagination_complete [OF page_db_no_faults acc _ this]
  show "crawl 4 page_query page_db = Some (all_matches page_query page_db)" by (simp add: page_query_def)
qed code_simp

end
