(* ===== verification/Steam_Price_Service.thy ===== *)
theory Steam_Price_Service
  imports Store_Repos Go_Time
begin

text \<open>
  The market-price service of \<open>internal/application/steamprices\<close>: the key a market name is
  stored under, the tracking gate and the choice of a quote's timestamp. The live Steam client
  is behind the interface \<open>Provider\<close>, here the record \<open>price_provider\<close>; a nil
  dependency is \<open>None\<close> or \<open>False\<close>.
\<close>

text \<open>\<open>strings.Fields\<close>.\<close>

function str_fields :: "string \<Rightarrow> string list" where
  "str_fields s = (let t = dropWhile is_space s in
     if t = [] then [] else takeWhile (\<lambda>c. \<not> is_space c) t # str_fields (dropWhile (\<lambda>c. \<not> is_space c) t))"
  by pat_completeness auto
termination
proof (relation "measure length", simp)
  fix s t assume t: "t = dropWhile is_space s" "t \<noteq> []"
  then have "\<not> is_space (hd t)" using hd_dropWhile_not [of is_space s] by simp
  with t(2) have "length (dropWhile (\<lambda>c. \<not> is_space c) t) < length t"
    by (cases t) (simp_all add: le_imp_less_Suc length_dropWhile_le)
  moreover have "length t \<le> length s" by (simp add: t length_dropWhile_le)
  ultimately show "(dropWhile (\<lambda>c. \<not> is_space c) t, s) \<in> measure length" by simp
qed

declare str_fields.simps [simp del]

record price_provider =
  pvd_currency :: int
  pvd_current :: "string \<Rightarrow> (f64 \<times> string \<times> time \<times> bool) res"

record price_quote =
  pqu_market_hash_name :: string
  pqu_price :: f64
  pqu_price_type :: string
  pqu_currency :: string
  pqu_timestamp :: time

record price_point =
  ppt_timestamp :: time
  ppt_price :: f64

definition asset_key :: "string \<Rightarrow> int \<Rightarrow> string \<times> string" where
  "asset_key name currency =
    (''steam:730:'' @ to_upper (join_with '' '' (str_fields name)), ''STEAM_'' @ itoa currency)"

definition is_not_found :: "go_error \<Rightarrow> bool" where
  "is_not_found e \<longleftrightarrow> errors_is e ErrNotFound \<or> contains_str (err_text e) ''not found''"

definition quote_currency :: "price_provider option \<Rightarrow> int" where
  "quote_currency provider = (case provider of None \<Rightarrow> 1 | Some p \<Rightarrow> pvd_currency p)"

text \<open>The stored row of a tracked item; \<open>None\<close> when nothing is stored.\<close>

definition tracked_row :: "bool \<Rightarrow> string \<Rightarrow> string \<Rightarrow> ('x db_scheme, historical_price option) eff" where
  "tracked_row history asset cur =
    (if \<not> history then ret None
     else bind_eff time_now (\<lambda>now. bind_eff (attempt (price_get asset cur now)) (\<lambda>r. case r of
         Inr p \<Rightarrow> ret (Some p)
       | Inl e \<Rightarrow> if is_not_found e then ret None else raise (Wrapf ''steamprices: history lookup'' e))))"

definition quote_time :: "time \<Rightarrow> historical_price \<Rightarrow> ('x db_scheme, time) eff" where
  "quote_time observed stored =
    (let ts = (if time_is_zero observed then hpr_timestamp stored else observed)
     in if time_is_zero ts then time_now else ret ts)"

definition get_current :: "bool \<Rightarrow> price_provider option \<Rightarrow> string \<Rightarrow> ('x db_scheme, price_quote) eff" where
  "get_current history provider name0 =
    (let name = trim_space name0 in
     if name = [] then raise (ErrText ''steamprices: missing name'')
     else case asset_key name (quote_currency provider) of (asset, cur) \<Rightarrow>
       bind_eff (tracked_row history asset cur) (\<lambda>tracked. case tracked of
         None \<Rightarrow> raise ErrNotTracked
       | Some stored \<Rightarrow> (case provider of
           None \<Rightarrow> raise ErrNotFound
         | Some p \<Rightarrow> (case pvd_current p name of
             Inl e \<Rightarrow> raise (Wrap2 ErrSteamUpstream e)
           | Inr (price, price_type, observed, ok) \<Rightarrow>
               if \<not> ok then raise ErrNotFound
               else bind_eff (quote_time observed stored) (\<lambda>ts.
                 ret \<lparr>pqu_market_hash_name = name, pqu_price = price, pqu_price_type = price_type,
                   pqu_currency = ''USD'', pqu_timestamp = ts\<rparr>)))))"

definition get_history ::
  "bool \<Rightarrow> price_provider option \<Rightarrow> string \<Rightarrow> time \<Rightarrow> time \<Rightarrow> ('x db_scheme, price_point list \<times> string) eff" where
  "get_history history provider name from_t to_t =
    (case asset_key name (quote_currency provider) of (asset, cur) \<Rightarrow>
     if \<not> history then ret ([], ''USD'')
     else bind_eff (wrap_err ''steamprices: history lookup'' (price_list asset cur from_t to_t)) (\<lambda>rows.
       ret (map (\<lambda>p. \<lparr>ppt_timestamp = hpr_timestamp p, ppt_price = hpr_price p\<rparr>) rows, ''USD'')))"

section \<open>The key of a name\<close>

lemma dropWhile_to_upper:
  "dropWhile is_space (to_upper s) = to_upper (dropWhile is_space s)"
  "dropWhile (\<lambda>c. \<not> is_space c) (to_upper s) = to_upper (dropWhile (\<lambda>c. \<not> is_space c) s)"
  "takeWhile (\<lambda>c. \<not> is_space c) (to_upper s) = to_upper (takeWhile (\<lambda>c. \<not> is_space c) s)"
  by (induction s) (simp_all add: to_upper_def)

lemma str_fields_step:
  "dropWhile is_space s = [] \<Longrightarrow> str_fields s = []"
  "dropWhile is_space s = t \<Longrightarrow> t \<noteq> [] \<Longrightarrow>
     str_fields s = takeWhile (\<lambda>c. \<not> is_space c) t # str_fields (dropWhile (\<lambda>c. \<not> is_space c) t)"
  by (subst str_fields.simps, simp)+

lemma str_fields_to_upper: "str_fields (to_upper s) = map to_upper (str_fields s)"
proof (induction s rule: str_fields.induct)
  case (1 s)
  let ?t = "dropWhile is_space s"
  show ?case
  proof (cases "?t = []")
    case True
    then have "dropWhile is_space (to_upper s) = []" by (simp add: dropWhile_to_upper to_upper_def)
    with True show ?thesis by (simp add: str_fields_step(1))
  next
    case False
    then have "to_upper ?t \<noteq> []" by (simp add: to_upper_def)
    from str_fields_step(2) [OF dropWhile_to_upper(1) this] 1 [OF refl False] str_fields_step(2) [OF refl False]
    show ?thesis by (simp add: dropWhile_to_upper)
  qed
qed

lemma str_fields_space: "is_space c \<Longrightarrow> str_fields (c # s) = str_fields s"
  by (cases "dropWhile is_space s = []") (simp_all add: str_fields_step)

lemma str_fields_snoc_space: "is_space c \<Longrightarrow> str_fields (s @ [c]) = str_fields s"
proof (induction s rule: str_fields.induct)
  case (1 s)
  let ?t = "dropWhile is_space s"
  show ?case
  proof (cases "?t = []")
    case True
    then have "\<forall>x\<in>set s. is_space x" by simp
    then have "dropWhile is_space (s @ [c]) = []" using "1.prems" by (simp add: dropWhile_append)
    with True show ?thesis by (simp add: str_fields_step(1))
  next
    case False
    let ?w = "takeWhile (\<lambda>c. \<not> is_space c) ?t" and ?r = "dropWhile (\<lambda>c. \<not> is_space c) ?t"
    have d: "dropWhile is_space (s @ [c]) = ?t @ [c]" using False by (auto simp: dropWhile_append)
    have tw: "takeWhile (\<lambda>c. \<not> is_space c) (?t @ [c]) = ?w"
      using "1.prems" by (auto simp: takeWhile_append intro!: takeWhile_eq_all_conv [THEN iffD2, symmetric])
    have dw: "str_fields (dropWhile (\<lambda>c. \<not> is_space c) (?t @ [c])) = str_fields ?r"
    proof (cases "?r = []")
      case True
      then have "dropWhile (\<lambda>c. \<not> is_space c) (?t @ [c]) = [c]"
        using "1.prems" by (simp add: dropWhile_append)
      then show ?thesis using str_fields_space [OF "1.prems", of "[]"] by (simp only: True)
    next
      case nonempty: False
      then have "dropWhile (\<lambda>c. \<not> is_space c) (?t @ [c]) = ?r @ [c]" by (auto simp: dropWhile_append)
      with 1 False show ?thesis by simp
    qed
    show ?thesis
      using str_fields_step(2) [OF d] str_fields_step(2) [OF refl False] by (simp add: tw dw)
  qed
qed

lemma str_fields_trim_right: "str_fields (trim_right s) = str_fields s"
proof (induction s rule: rev_induct)
  case (snoc c s)
  then show ?case by (cases "is_space c") (simp_all add: trim_right_def str_fields_snoc_space)
qed (simp add: trim_right_def)

lemma str_fields_dropWhile: "str_fields (dropWhile is_space s) = str_fields s"
  by (induction s) (simp_all add: str_fields_space)

lemma str_fields_trim_space: "str_fields (trim_space s) = str_fields s"
  by (simp add: trim_space_def str_fields_trim_right str_fields_dropWhile)

lemma to_upper_join: "to_upper (join_with sep ws) = join_with (to_upper sep) (map to_upper ws)"
  by (induction sep ws rule: join_with.induct) (simp_all add: to_upper_def)

lemma asset_key_of_upper: "to_upper a = to_upper b \<Longrightarrow> asset_key a c = asset_key b c"
proof -
  assume eq: "to_upper a = to_upper b"
  have "to_upper (join_with '' '' (str_fields x)) = join_with '' '' (str_fields (to_upper x))" for x
    by (simp add: to_upper_join str_fields_to_upper) (simp add: to_upper_def up_char_def char_code_def)
  with eq show ?thesis by (simp add: asset_key_def)
qed

section \<open>Quotes\<close>

text \<open>What \<open>Get\<close> finds: the newest stored row of the key that is not in the future.\<close>

definition stored_quotes :: "bool \<Rightarrow> string \<Rightarrow> int \<Rightarrow> time \<Rightarrow> 'x db_scheme \<Rightarrow> historical_price list" where
  "stored_quotes history name currency now s =
    (if \<not> history then []
     else case asset_key name currency of (asset, cur) \<Rightarrow>
       (case normalizePrice asset cur of (a, c) \<Rightarrow>
         sort_key (\<lambda>p. - hpr_timestamp p)
           (filter (\<lambda>p. hpr_asset p = a \<and> hpr_currency p = c \<and> hpr_timestamp p \<le> now) (db_prices s))))"

lemma tracked_row_no_faults:
  assumes "no_faults s"
  shows "\<exists>s'. tracked_row history (fst (asset_key name c)) (snd (asset_key name c)) s =
    (Inr (case stored_quotes history name c (db_clock s (db_ticks s)) s of [] \<Rightarrow> None | p # _ \<Rightarrow> Some p), s') \<and>
    no_faults s' \<and> db_clock s' = db_clock s"
proof (cases "stored_quotes history name c (db_clock s (db_ticks s)) s")
  case Nil
  with assms show ?thesis
    by (auto simp: tracked_row_def stored_quotes_def bind_eff_apply time_now_def attempt_def price_get_def
        is_not_found_def no_faults_def ret_def raise_def eff_defs exec_sql_def split: prod.splits)
next
  case (Cons p ps)
  with assms show ?thesis
    by (auto simp: tracked_row_def stored_quotes_def bind_eff_apply time_now_def attempt_def price_get_def
        is_not_found_def no_faults_def ret_def raise_def eff_defs exec_sql_def split: prod.splits if_splits)
qed

text \<open>
  C12. Market quotes are served for tracked items only, under any spelling: an item none of
  whose rows is stored is refused without asking the live market; a failing market is an
  upstream error, never a missing price; and a served quote carries the market's observation
  time, or the time of the stored row when the market gives none. Names that differ in case
  or white space are the same item.
\<close>

theorem steam_quote_gate:
  assumes ok: "no_faults s" and name: "trim_space name \<noteq> []"
    and same: "map to_upper (str_fields name) = map to_upper (str_fields name')"
  shows "case stored_quotes history name' (pvd_currency p) (db_clock s (db_ticks s)) s of
      [] \<Rightarrow> fst (get_current history (Some p) name s) = Inl ErrNotTracked
    | row # _ \<Rightarrow> (case pvd_current p (trim_space name) of
        Inl e \<Rightarrow> fst (get_current history (Some p) name s) = Inl (Wrap2 ErrSteamUpstream e)
      | Inr (price, price_type, observed, found) \<Rightarrow>
          (\<not> found \<longrightarrow> fst (get_current history (Some p) name s) = Inl ErrNotFound) \<and>
          (found \<longrightarrow> (\<exists>q. fst (get_current history (Some p) name s) = Inr q \<and> pqu_price q = price \<and>
             (observed \<noteq> 0 \<longrightarrow> pqu_timestamp q = observed) \<and>
             (observed = 0 \<and> hpr_timestamp row \<noteq> 0 \<longrightarrow> pqu_timestamp q = hpr_timestamp row))))"
proof -
  have key: "asset_key (trim_space name) c = asset_key name' c" for c
  proof -
    have join: "to_upper (join_with '' '' xs) = join_with (to_upper '' '') (map to_upper xs)" for xs
      by (rule to_upper_join)
    show ?thesis by (simp add: asset_key_def str_fields_trim_space join same)
  qed
  obtain s' where t: "tracked_row history (fst (asset_key name' (pvd_currency p))) (snd (asset_key name' (pvd_currency p))) s =
      (Inr (case stored_quotes history name' (pvd_currency p) (db_clock s (db_ticks s)) s of [] \<Rightarrow> None | q # _ \<Rightarrow> Some q), s')"
    using tracked_row_no_faults [OF ok] by blast
  show ?thesis
    using t name
    by (auto simp: get_current_def Let_def quote_currency_def key case_prod_beta bind_eff_apply raise_def ret_def
        quote_time_def time_now_def split: list.split sum.split)
qed

section \<open>A concrete quote\<close>

definition quote_db :: db where
  "quote_db = empty_db\<lparr>db_clock := \<lambda>n. 100 + int n, db_prices := [\<lparr>hpr_asset = ''STEAM:730:AK-47 | REDLINE'',
     hpr_timestamp = 10, hpr_currency = ''STEAM_1'', hpr_price = Fin 7, hpr_source = ''steam'',
     hpr_updated_at = 10\<rparr>]\<rparr>"

definition live_market :: "f64 \<Rightarrow> price_provider" where
  "live_market price = \<lparr>pvd_currency = 1, pvd_current = (\<lambda>_. Inr (price, ''steam_median'', 0, True))\<rparr>"

theorem steam_quote_gate_witness:
  "\<exists>q. fst (get_current True (Some (live_market (Fin 8))) '' ak-47 |  Redline'' quote_db) = Inr q \<and>
     pqu_price q = Fin 8 \<and> pqu_timestamp q = 10"
proof -
  let ?n = "'' ak-47 |  Redline''" and ?n' = "''AK-47 | Redline''" and ?p = "live_market (Fin 8)"
  have ok: "no_faults quote_db" by (simp add: no_faults_def quote_db_def empty_db_def)
  have name: "trim_space ?n \<noteq> []" by code_simp
  have same: "map to_upper (str_fields ?n) = map to_upper (str_fields ?n')" by code_simp
  have "map hpr_timestamp (stored_quotes True ?n' (pvd_currency ?p) (db_clock quote_db (db_ticks quote_db)) quote_db) = [10]"
    by code_simp
  then obtain row where row: "stored_quotes True ?n' (pvd_currency ?p) (db_clock quote_db (db_ticks quote_db)) quote_db = [row]"
    "hpr_timestamp row = 10" by (auto simp: map_eq_Cons_conv)
  have live: "pvd_current ?p n = Inr (Fin 8, ''steam_median'', 0, True)" for n by (simp add: live_market_def)
  from steam_quote_gate [OF ok name same, of True ?p] row show ?thesis by (auto simp: live)
qed

end
