(* ===== verification/Http_Handlers.thy ===== *)
theory Http_Handlers
  imports Http_Dto Brokerage_Services Steam_Price_Service
begin

text \<open>
  The endpoints of \<open>internal/interfaces/http/handlers\<close> and the routing table of
  \<open>server.go\<close>. A handler takes the value of its path parameter (empty when the route has
  none), the request and the state. The health probes, which only ask the connection pool, are
  left out.
\<close>

section \<open>Authentication\<close>

text \<open>\<open>POST /auth/v1/token\<close>\<close>

definition auth_token_handler :: "auth_env \<Rightarrow> auth_world handler" where
  "auth_token_handler env rq w =
    (let grant = rq_query rq ''grant_type'' in
     if grant \<noteq> [] \<and> grant \<noteq> ''refresh_token''
     then (write_auth_error 400 ''unsupported_grant_type'' ''Only refresh_token is supported'', w)
     else case decode_body set_str ''refresh_token'' [] (rq_body rq) of
       None \<Rightarrow> (write_auth_error 400 ''invalid_request'' ''refresh_token is required'', w)
     | Some tok \<Rightarrow>
         if tok = [] then (write_auth_error 400 ''invalid_request'' ''refresh_token is required'', w)
         else case auth_refresh env tok w of
           (Inl e, w') \<Rightarrow>
             (if errors_is e ErrInvalidRefreshToken
              then write_auth_error 401 ''invalid_grant'' ''Invalid refresh token''
              else write_auth_error 500 ''server_error'' (err_text e), w')
         | (Inr pair, w') \<Rightarrow>
             (write_json 200 (JObj [(''access_token'', JStr (tpr_access_token pair)),
                (''refresh_token'', JStr (tpr_refresh_token pair)), (''expires_in'', JInt (tpr_expires_in pair))]), w'))"

text \<open>\<open>POST /auth/v1/otp\<close>\<close>

definition otp_handler :: "auth_env \<Rightarrow> 's handler" where
  "otp_handler env rq w =
    (case decode_body set_str ''email'' [] (rq_body rq) of
       None \<Rightarrow> (write_auth_error 400 ''invalid_request'' ''email is required'', w)
     | Some email \<Rightarrow>
         if email = [] then (write_auth_error 400 ''invalid_request'' ''email is required'', w)
         else if \<not> is_allowed_email env email
         then (write_auth_error 403 ''validation_failed'' ''Email not allowed for this self-hosted instance'', w)
         else (write_json 200 (JObj [(''message_id'', JNull)]), w))"

definition supabase_user :: "string \<Rightarrow> string \<Rightarrow> string \<Rightarrow> json" where
  "supabase_user uid email now = JObj [(''id'', JStr uid), (''aud'', JStr ''authenticated''),
     (''role'', JStr ''authenticated''), (''email'', JStr email), (''email_confirmed_at'', JStr now),
     (''phone'', JStr []), (''confirmed_at'', JStr now), (''last_sign_in_at'', JStr now),
     (''app_metadata'', JObj [(''provider'', JStr ''email''), (''providers'', JArr [JStr ''email''])]),
     (''user_metadata'', JObj []), (''created_at'', JStr now), (''updated_at'', JStr now)]"

text \<open>
  \<open>POST /auth/v1/verify\<close>. The body is decoded as one struct, so a field of the wrong type
  is an error whichever field it is.
\<close>

definition decode_verify :: "json option \<Rightarrow> (string \<times> string) option" where
  "decode_verify body =
    (case (decode_body set_str ''email'' [] body, decode_body set_str ''token'' [] body,
           decode_body set_str ''type'' [] body) of
       (Some email, Some token, Some _) \<Rightarrow> Some (email, token)
     | _ \<Rightarrow> None)"

definition verify_handler :: "auth_env \<Rightarrow> auth_world handler" where
  "verify_handler env rq w =
    (case decode_verify (rq_body rq) of
       None \<Rightarrow> (write_auth_error 400 ''invalid_request'' ''email is required'', w)
     | Some (email, token) \<Rightarrow>
         if email = [] then (write_auth_error 400 ''invalid_request'' ''email is required'', w)
         else case verify_otp env token of
           Inl _ \<Rightarrow> (write_auth_error 400 ''otp_invalid'' ''Invalid or expired OTP code'', w)
         | Inr _ \<Rightarrow> (case issue_session env email w of
             (Inl e, w') \<Rightarrow>
               (if errors_is e ErrEmailNotAllowed
                then write_auth_error 403 ''validation_failed'' ''Email not allowed for this self-hosted instance''
                else write_auth_error 500 ''server_error'' (err_text e), w')
           | (Inr pair, w') \<Rightarrow>
               let now = db_clock w' (db_ticks w') in
               (write_json 200 (JObj [(''access_token'', JStr (tpr_access_token pair)), (''token_type'', JStr ''bearer''),
                  (''expires_in'', JInt (tpr_expires_in pair)),
                  (''expires_at'', JInt (to_unix (now + tpr_expires_in pair * dur_second))),
                  (''refresh_token'', JStr (tpr_refresh_token pair)),
                  (''user'', supabase_user (subject_from_email env email) email (format_rfc3339 now))]),
                w'\<lparr>db_ticks := Suc (db_ticks w')\<rparr>)))"

definition logout_handler :: "'s handler" where
  "logout_handler rq w = (\<lparr>rsp_status = 204, rsp_headers = [], rsp_body = None, rsp_background = 0\<rparr>, w)"

text \<open>\<open>GET /auth/v1/user\<close>\<close>

definition get_user_handler :: "auth_env \<Rightarrow> ('x db_scheme) handler" where
  "get_user_handler env rq w =
    (let raw = rq_header rq ''Authorization'' in
     if \<not> has_prefix raw ''Bearer '' then (write_auth_error 401 ''unauthorized'' ''Missing bearer token'', w)
     else case verify_access_token env (trim_prefix raw ''Bearer '') w of
       (Inl e, w') \<Rightarrow>
         (if errors_is e ErrTokenExpired then write_auth_error 401 ''token_expired'' ''Access token has expired''
          else write_auth_error 401 ''unauthorized'' ''Invalid token'', w')
     | (Inr c, w') \<Rightarrow>
         let email = (case env_user_emails env of [] \<Rightarrow> clm_subject c @ ''@self-hosted.local'' | e # _ \<Rightarrow> e);
             now = db_clock w' (db_ticks w')
         in (write_json 200 (supabase_user (clm_subject c) email (format_rfc3339 now)),
             w'\<lparr>db_ticks := Suc (db_ticks w')\<rparr>))"

section \<open>User and plans\<close>

definition me_handler :: "auth_env \<Rightarrow> 's handler" where
  "me_handler env rq w =
    (let subject = (case rq_claims rq of
           Some c \<Rightarrow> if clm_subject c \<noteq> [] then clm_subject c else ''self-hosted-user''
         | None \<Rightarrow> ''self-hosted-user'');
         email = (case env_user_emails env of [] \<Rightarrow> subject @ ''@self-hosted.local'' | e # _ \<Rightarrow> e)
     in (write_json 200 (JObj [(''id'', JStr subject), (''email'', JStr email), (''fullName'', JStr ''Self-Hosted User''),
        (''avatarUrl'', JNull), (''locale'', JStr ''en''), (''weekStartsOnMonday'', JBool False),
        (''timezone'', JStr ''UTC''), (''timezoneAutoSync'', JBool True), (''timeFormat'', JInt 24),
        (''dateFormat'', JStr ''YYYY-MM-DD''), (''teamId'', JStr ''team-self-hosted''), (''teamRole'', JStr ''owner''),
        (''team'', JObj [(''id'', JStr ''team-self-hosted''), (''name'', JStr ''Self-Hosted''), (''logoUrl'', JNull),
           (''plan'', JStr ''pro''), (''subscriptionStatus'', JStr ''active''),
           (''subscriptionCurrentPeriodEnd'', JStr ''2099-12-31T23:59:59Z''),
           (''subscriptionCancelAtPeriodEnd'', JBool False), (''canceledAt'', JNull), (''countryCode'', JStr []),
           (''createdAt'', JTime (date_of 2024 1 1))])]), w))"

definition plans_handler :: "'s handler" where
  "plans_handler rq w = (write_json 200 (JObj [(''plans'', JArr [JObj [
     (''id'', JStr ''pro''), (''name'', JStr ''Pro''), (''tagline'', JStr ''Full broker sync''),
     (''description'', JStr ''All features''),
     (''pricing'', JObj [(''monthly'', JFloat f64_zero), (''yearly'', JFloat f64_zero), (''yearlyPerMonth'', JFloat f64_zero)]),
     (''limits'', JObj [(''householdSize'', JInt 10), (''institutionConnections'', JStr ''unlimited''), (''devices'', JInt 10)]),
     (''features'', JArr [JStr ''broker_sync'', JStr ''device_sync'']),
     (''isAvailable'', JBool True), (''isComingSoon'', JBool False)]])]), w)"

section \<open>Health\<close>

definition live_handler :: "go_error option \<Rightarrow> 's handler" where
  "live_handler ping rq w = (case ping of
     Some e \<Rightarrow> (write_error 503 ''unhealthy'' ''DB_UNAVAILABLE'' (err_text e), w)
   | None \<Rightarrow> (write_json 200 (JObj [(''status'', JStr ''ok'')]), w))"

definition ready_handler :: "bool \<Rightarrow> 's handler" where
  "ready_handler ready rq w =
    (if \<not> ready then (write_error 503 ''not_ready'' ''NOT_READY'' ''Migrations have not completed yet'', w)
     else (write_json 200 (JObj [(''status'', JStr ''ready'')]), w))"

section \<open>Brokerage data\<close>

definition internal_error :: "go_error \<Rightarrow> http_response" where
  "internal_error e = write_error 500 ''internal_error'' ''internal_error'' (err_text e)"

text \<open>
  \<open>GET /connections\<close>: a sync run is started in the background (when there is a syncer) and
  the list is answered from the table as it is.
\<close>

definition connections_handler :: "bool \<Rightarrow> ('x db_scheme) handler" where
  "connections_handler syncer rq w =
    (case connection_service_list w of (r, w') \<Rightarrow>
      ((case r of
          Inl e \<Rightarrow> internal_error e
        | Inr cs \<Rightarrow> write_json 200 (JObj [(''connections'', JArr (map connection_json cs))]))
         \<lparr>rsp_background := (if syncer then 1 else 0)\<rparr>, w'))"

definition accounts_handler :: "('x db_scheme) handler" where
  "accounts_handler rq w =
    (case account_service_list w of
       (Inl e, w') \<Rightarrow> (internal_error e, w')
     | (Inr accs, w') \<Rightarrow>
         (write_json 200 (JObj [(''accounts'', JArr (map (\<lambda>a. account_json (toAccountDTO a)) accs))]), w'))"

definition patch_account_handler :: "string \<Rightarrow> ('x db_scheme) handler" where
  "patch_account_handler i rq w =
    (if i = [] then (write_error 400 ''bad_request'' ''bad_request'' ''missing account id'', w)
     else case decode_body set_bool_ptr ''sync_enabled'' None (rq_body rq) of
       None \<Rightarrow> (write_error 400 ''bad_request'' ''bad_request'' ''invalid JSON body'', w)
     | Some None \<Rightarrow> (write_error 400 ''bad_request'' ''bad_request'' ''no mutable fields provided'', w)
     | Some (Some enabled) \<Rightarrow>
         (case account_service_set_sync_enabled i enabled w of
            (Inl e, w') \<Rightarrow>
              (if errors_is e ErrAccountNotFound then write_error 404 ''not_found'' ''not_found'' ''account not found''
               else internal_error e, w')
          | (Inr acc, w') \<Rightarrow> (write_json 200 (account_json (toAccountDTO acc)), w')))"

definition parse_int_default :: "string \<Rightarrow> int \<Rightarrow> int option" where
  "parse_int_default raw def = (if raw = [] then Some def else parse_int raw)"

definition parse_date :: "string \<Rightarrow> time option option" where
  "parse_date raw = (if raw = [] then Some None else map_option Some (parse_iso_date raw))"

definition account_error :: "go_error \<Rightarrow> http_response" where
  "account_error e =
    (if errors_is e ErrAccountNotFound then write_error 404 ''not_found'' ''ACCOUNT_NOT_FOUND'' ''account not found''
     else internal_error e)"

text \<open>The query of an activities request, or the answer to a malformed one.\<close>

definition activity_request :: "string \<Rightarrow> (string \<Rightarrow> string) \<Rightarrow> http_response + activity_query" where
  "activity_request accountID q =
    (case parse_int_default (q ''offset'') 0 of
       None \<Rightarrow> Inl (write_error 400 ''invalid_request'' ''INVALID_OFFSET'' ''offset must be an integer'')
     | Some offset \<Rightarrow> (case parse_int_default (q ''limit'') DefaultActivityLimit of
       None \<Rightarrow> Inl (write_error 400 ''invalid_request'' ''INVALID_LIMIT'' ''limit must be an integer'')
     | Some limit \<Rightarrow> (case parse_date (q ''start_date'') of
       None \<Rightarrow> Inl (write_error 400 ''invalid_request'' ''INVALID_START_DATE'' ''start_date must be YYYY-MM-DD'')
     | Some start_d \<Rightarrow> (case parse_date (q ''end_date'') of
       None \<Rightarrow> Inl (write_error 400 ''invalid_request'' ''INVALID_END_DATE'' ''end_date must be YYYY-MM-DD'')
     | Some end_d \<Rightarrow> Inr \<lparr>aqu_account_id = accountID, aqu_start_date = start_d,
         aqu_end_date = map_option (add_days 1) end_d, aqu_offset = offset, aqu_limit = limit\<rparr>))))"

definition activities_handler :: "string \<Rightarrow> ('x db_scheme) handler" where
  "activities_handler accountID rq w =
    (case activity_request accountID (rq_query rq) of
       Inl r \<Rightarrow> (r, w)
     | Inr q \<Rightarrow> (case activity_service_list q w of
         (Inl e, w') \<Rightarrow> (account_error e, w')
       | (Inr p, w') \<Rightarrow> (write_json 200 (activities_json (map toActivityDTO (pga_items p))
           (pga_offset p) (pga_limit p) (pga_total p) (pga_has_more p)), w')))"

definition holdings_handler :: "string \<Rightarrow> ('x db_scheme) handler" where
  "holdings_handler accountID rq w =
    (case holding_service_get accountID w of
       (Inl e, w') \<Rightarrow> (account_error e, w')
     | (Inr (acc, h), w') \<Rightarrow> (write_json 200 (holdings_json acc h), w'))"

section \<open>Market prices\<close>

text \<open>
  These two handlers write the body without \<open>WriteJSON\<close>: the status is already sent when
  encoding fails, and the body stays empty.
\<close>

definition encode_ok :: "json \<Rightarrow> http_response" where
  "encode_ok v = \<lparr>rsp_status = 200, rsp_headers = [(''Content-Type'', ''application/json'')],
     rsp_body = (if json_encodable v then Some v else None), rsp_background = 0\<rparr>"

definition current_price_handler :: "bool \<Rightarrow> price_provider option \<Rightarrow> ('x db_scheme) handler" where
  "current_price_handler history provider rq w =
    (let name = rq_query rq ''name''; none = write_error 404 ''not_found'' ''PRICE_NOT_FOUND'' (''no current price for '' @ name) in
     if trim_space name = []
     then (write_error 400 ''invalid_request'' ''MISSING_NAME'' ''name query parameter is required'', w)
     else case get_current history provider name w of
       (Inl e, w') \<Rightarrow>
         (if errors_is e ErrNotTracked then write_error 404 ''not_found'' ''ITEM_NOT_TRACKED'' ''item not tracked; sync inventory first''
          else if errors_is e ErrSteamUpstream then write_error 502 ''upstream'' ''PRICE_UPSTREAM_FAILED'' ''steam market temporarily unavailable''
          else if errors_is e ErrNotFound \<or> contains_str (err_text e) ''not found'' then none
          else if contains_str (err_text e) ''history lookup'' then write_error 500 ''internal'' ''HISTORY_READ_FAILED'' ''history lookup failed''
          else none, w')
     | (Inr q, w') \<Rightarrow>
         (encode_ok (JObj [(''market_hash_name'', JStr (pqu_market_hash_name q)), (''price'', JFloat (pqu_price q)),
            (''price_type'', JStr (pqu_price_type q)), (''currency'', JStr (pqu_currency q)),
            (''timestamp'', JTime (pqu_timestamp q)), (''timestamp_unix'', JInt (to_unix (pqu_timestamp q))),
            (''date'', JStr (format_date (pqu_timestamp q)))]), w'))"

definition parse_time_bound :: "string \<Rightarrow> time option" where
  "parse_time_bound v0 =
    (let v = trim_space v0 in
     if v = [] then None
     else case parse_rfc3339 v of Some t \<Rightarrow> Some t
     | None \<Rightarrow> (case parse_int v of Some secs \<Rightarrow> Some (of_unix secs) | None \<Rightarrow> parse_iso_date v))"

definition price_history_handler :: "bool \<Rightarrow> price_provider option \<Rightarrow> ('x db_scheme) handler" where
  "price_history_handler history provider rq w =
    (let name = rq_query rq ''name'' in
     if trim_space name = []
     then (write_error 400 ''invalid_request'' ''MISSING_NAME'' ''name query parameter is required'', w)
     else
       let now = db_clock w (db_ticks w); w1 = w\<lparr>db_ticks := Suc (db_ticks w)\<rparr>;
           from_q = rq_query rq ''from''; to_q = rq_query rq ''to'';
           from_b = (if from_q = [] then Some (now - 90 * 24 * dur_hour) else parse_time_bound from_q);
           to_b = (if to_q = [] then Some now else parse_time_bound to_q)
       in case from_b of
         None \<Rightarrow> (write_error 400 ''invalid_request'' ''INVALID_FROM'' ''from must be RFC3339, unix seconds or YYYY-MM-DD'', w1)
       | Some f \<Rightarrow> (case to_b of
         None \<Rightarrow> (write_error 400 ''invalid_request'' ''INVALID_TO'' ''to must be RFC3339, unix seconds or YYYY-MM-DD'', w1)
       | Some t \<Rightarrow> (case get_history history provider name f t w1 of
           (Inl e, w') \<Rightarrow> (write_error 500 ''internal'' ''HISTORY_READ_FAILED'' ''history lookup failed'', w')
         | (Inr (points, cur), w') \<Rightarrow>
             (encode_ok (JObj [(''market_hash_name'', JStr name), (''currency'', JStr cur),
                (''points'', JArr (map (\<lambda>p. JObj [(''timestamp'', JTime (ppt_timestamp p)),
                   (''timestamp_unix'', JInt (to_unix (ppt_timestamp p))),
                   (''date'', JStr (format_date (ppt_timestamp p))), (''price'', JFloat (ppt_price p))]) points))]), w'))))"

end
