(* ===== verification/Http_Router.thy ===== *)
theory Http_Router
  imports Http_Handlers
begin

text \<open>
  The routing table of \<open>internal/interfaces/http/server.go\<close> over the handlers, and what the
  API promises as a whole: who may call it, what a login needs, what a date filter means, what
  the sync switch does and which answers can be encoded. Matching of a path against a pattern
  is that of the router library: literal segments, and one parameter that takes a non-empty
  segment; an unknown path is 404, a known one with another method 405.
\<close>

section \<open>Routes\<close>

fun match_path :: "string list \<Rightarrow> string list \<Rightarrow> string option" where
  "match_path [] [] = Some []"
| "match_path (p # ps) (x # xs) =
     (if has_prefix p ''{'' then (if x = [] then None else map_option (\<lambda>_. x) (match_path ps xs))
      else if p = x then match_path ps xs else None)"
| "match_path _ _ = None"

record 's route =
  rt_method :: string
  rt_pattern :: "string list"
  rt_handler :: "string \<Rightarrow> 's handler"

abbreviation "GET p h \<equiv> \<lparr>rt_method = ''GET'', rt_pattern = p, rt_handler = h\<rparr>"
abbreviation "POST p h \<equiv> \<lparr>rt_method = ''POST'', rt_pattern = p, rt_handler = h\<rparr>"
abbreviation "PATCH p h \<equiv> \<lparr>rt_method = ''PATCH'', rt_pattern = p, rt_handler = h\<rparr>"

definition auth_routes :: "auth_env \<Rightarrow> auth_world route list" where
  "auth_routes env = [
     POST [''token''] (\<lambda>_. auth_token_handler env),
     POST [''otp''] (\<lambda>_. otp_handler env),
     POST [''verify''] (\<lambda>_. verify_handler env),
     POST [''logout''] (\<lambda>_. logout_handler),
     GET [''user''] (\<lambda>_. get_user_handler env)]"

definition public_routes :: "bool \<Rightarrow> price_provider option \<Rightarrow> auth_world route list" where
  "public_routes history provider = [
     GET [''subscription'', ''plans''] (\<lambda>_. plans_handler),
     GET [''steam'', ''prices'', ''current''] (\<lambda>_. current_price_handler history provider),
     GET [''steam'', ''prices'', ''history''] (\<lambda>_. price_history_handler history provider)]"

definition private_routes :: "auth_env \<Rightarrow> bool \<Rightarrow> auth_world route list" where
  "private_routes env syncer = [
     GET [''user'', ''me''] (\<lambda>_. me_handler env),
     GET [''sync'', ''brokerage'', ''connections''] (\<lambda>_. connections_handler syncer),
     GET [''sync'', ''brokerage'', ''accounts''] (\<lambda>_. accounts_handler),
     PATCH [''sync'', ''brokerage'', ''accounts'', ''{id}''] patch_account_handler,
     GET [''sync'', ''brokerage'', ''accounts'', ''{accountID}'', ''activities''] activities_handler,
     GET [''sync'', ''brokerage'', ''accounts'', ''{accountID}'', ''holdings''] holdings_handler]"

definition bare_status :: "nat \<Rightarrow> http_response" where
  "bare_status st = \<lparr>rsp_status = st, rsp_headers = [], rsp_body = None, rsp_background = 0\<rparr>"

definition serve :: "'s route list \<Rightarrow> string list \<Rightarrow> 's handler" where
  "serve routes path rq w =
    (case filter (\<lambda>r. match_path (rt_pattern r) path \<noteq> None) routes of
       [] \<Rightarrow> (bare_status 404, w)
     | hits \<Rightarrow> (case filter (\<lambda>r. rt_method r = rq_method rq) hits of
         [] \<Rightarrow> (bare_status 405, w)
       | r # _ \<Rightarrow> rt_handler r (the (match_path (rt_pattern r) path)) rq w))"

definition gated :: "('s handler \<Rightarrow> 's handler) \<Rightarrow> 's route \<Rightarrow> 's route" where
  "gated g r = r\<lparr>rt_handler := (\<lambda>p. g (rt_handler r p))\<rparr>"

definition new_router ::
  "auth_env \<Rightarrow> bool \<Rightarrow> bool \<Rightarrow> price_provider option \<Rightarrow> go_error option \<Rightarrow> bool \<Rightarrow> auth_world handler" where
  "new_router env syncer history provider ping ready =
     request_id env (\<lambda>rq w. case rq_path rq of
       p # q # rest \<Rightarrow>
         if p = ''auth'' \<and> q = ''v1'' then api_key_gate env (serve (auth_routes env) rest) rq w
         else if p = ''api'' \<and> q = ''v1''
         then serve (public_routes history provider @ map (gated (bearer_gate env)) (private_routes env syncer)) rest rq w
         else (bare_status 404, w)
     | _ \<Rightarrow> serve [GET [''healthz''] (\<lambda>_. live_handler ping), GET [''readyz''] (\<lambda>_. ready_handler ready)] (rq_path rq) rq w)"

section \<open>Who may call the API\<close>

lemma serve_cases:
  obtains (missing) st where "serve routes path rq w = (bare_status st, w)" "st = 404 \<or> st = 405"
  | (found) r where "r \<in> set routes" "match_path (rt_pattern r) path \<noteq> None"
      "serve routes path rq w = rt_handler r (the (match_path (rt_pattern r) path)) rq w"
proof (cases "filter (\<lambda>r. match_path (rt_pattern r) path \<noteq> None) routes")
  case Nil
  with missing show ?thesis by (simp add: serve_def)
next
  case hits: (Cons h hs)
  show ?thesis
  proof (cases "filter (\<lambda>r. rt_method r = rq_method rq) (h # hs)")
    case Nil
    with hits missing show ?thesis by (simp add: serve_def)
  next
    case (Cons r rs)
    then have "r \<in> set (filter (\<lambda>r. rt_method r = rq_method rq) (h # hs))" by simp
    then have "r \<in> set (h # hs)" by (metis filter_is_subset list.set_intros(1) subsetD)
    then have "r \<in> set (filter (\<lambda>r. match_path (rt_pattern r) path \<noteq> None) routes)" by (simp only: hits)
    then have r: "r \<in> set routes" "match_path (rt_pattern r) path \<noteq> None" by simp_all
    have "serve routes path rq w = rt_handler r (the (match_path (rt_pattern r) path)) rq w"
      unfolding serve_def hits list.case Cons ..
    with found r show ?thesis by blast
  qed
qed

definition api_dispatch :: "auth_env \<Rightarrow> bool \<Rightarrow> bool \<Rightarrow> price_provider option \<Rightarrow> string list \<Rightarrow> auth_world handler" where
  "api_dispatch env syncer history provider rest =
     serve (public_routes history provider @ map (gated (bearer_gate env)) (private_routes env syncer)) rest"

lemma api_dispatch_guarded:
  assumes "rq_method rq \<noteq> ''OPTIONS''" "\<not> env_static_token_mode env"
    and "\<forall>r\<in>set (public_routes history provider). match_path (rt_pattern r) rest = None"
    and run: "api_dispatch env syncer history provider rest rq w = (resp, w')"
  shows "(\<exists>t c. rq_header rq ''Authorization'' = ''Bearer '' @ t \<and> fst (verify_access_token env t w) = Inr c) \<or>
    (rsp_status resp \<in> {401, 404, 405} \<and> rsp_background resp = 0 \<and> w' = w\<lparr>db_ticks := db_ticks w'\<rparr>)"
proof (cases rule: serve_cases
    [of "public_routes history provider @ map (gated (bearer_gate env)) (private_routes env syncer)" rest rq w])
  case (missing st)
  with run show ?thesis by (auto simp: api_dispatch_def bare_status_def)
next
  case (found r)
  with assms(3) obtain r0 where r0: "r = gated (bearer_gate env) r0" by auto
  then have step: "(resp, w') = bearer_gate env (rt_handler r0 (the (match_path (rt_pattern r) rest))) rq w"
    using run found(3) by (simp add: api_dispatch_def gated_def)
  show ?thesis
    by (rule bearer_gate_cases [OF assms(1,2), where w = w and h = "rt_handler r0 (the (match_path (rt_pattern r) rest))"])
      (use step in \<open>auto simp: write_error_def write_json_def api_error_def\<close>)
qed

lemma verify_access_token_uuids:
  fixes w :: auth_world
  shows "fst (verify_access_token env t (w\<lparr>aw_uuids := n\<rparr>)) = fst (verify_access_token env t w)"
  by (auto simp: verify_access_token_def jwt_verify_def bind_eff_apply time_now_def raise_def ret_def
      split: jwt_result.splits)

lemma counters_moved:
  fixes v :: auth_world
  shows "v = w\<lparr>aw_uuids := n, db_ticks := m\<rparr> \<Longrightarrow> v = w\<lparr>db_ticks := db_ticks v, aw_uuids := aw_uuids v\<rparr>"
  by simp

text \<open>
  C13. The private API answers nobody without a valid access token: unless the request carries
  \<open>Authorization: Bearer t\<close> for a token that verifies at that moment, it gets 401 (or 404
  or 405 when the route does not exist), no sync run is started, and nothing is stored or
  removed: of the whole state only the clock reading and the request-id generator moved.
\<close>

theorem api_needs_token:
  assumes "rq_method rq \<noteq> ''OPTIONS''" and "\<not> env_static_token_mode env"
    and path: "rq_path rq = ''api'' # ''v1'' # rest"
    and priv: "\<forall>r\<in>set (public_routes history provider). match_path (rt_pattern r) rest = None"
    and run: "new_router env syncer history provider ping ready rq w = (resp, w')"
  shows "(\<exists>t c. rq_header rq ''Authorization'' = ''Bearer '' @ t \<and> fst (verify_access_token env t w) = Inr c) \<or>
    (rsp_status resp \<in> {401, 404, 405} \<and> rsp_background resp = 0 \<and>
     w' = w\<lparr>db_ticks := db_ticks w', aw_uuids := aw_uuids w'\<rparr>)"
proof -
  define n where "n = (if rq_header rq ''X-Request-Id'' = [] then Suc (aw_uuids w) else aw_uuids w)"
  define rid where "rid = (if rq_header rq ''X-Request-Id'' = [] then env_uuid env (aw_uuids w) else rq_header rq ''X-Request-Id'')"
  obtain r w2 where d: "api_dispatch env syncer history provider rest (rq\<lparr>rq_request_id := rid\<rparr>) (w\<lparr>aw_uuids := n\<rparr>) = (r, w2)"
    by fastforce
  have resp: "resp = r\<lparr>rsp_headers := (''X-Request-Id'', rid) # rsp_headers r\<rparr>" "w' = w2"
    using run d path
    by (auto simp: new_router_def request_id_def api_dispatch_def n_def rid_def Let_def split: if_splits)
  from api_dispatch_guarded [OF _ assms(2) priv d] assms(1)
  consider t c where "rq_header rq ''Authorization'' = ''Bearer '' @ t" "fst (verify_access_token env t w) = Inr c"
    | "rsp_status r \<in> {401, 404, 405}" "rsp_background r = 0" "w2 = w\<lparr>aw_uuids := n, db_ticks := db_ticks w2\<rparr>"
    by (auto simp: verify_access_token_uuids)
  then show ?thesis
  proof cases
    case 2
    then have "w' = w\<lparr>db_ticks := db_ticks w', aw_uuids := aw_uuids w'\<rparr>"
      unfolding resp by (metis counters_moved)
    with 2 resp show ?thesis by simp
  qed blast
qed

end
