(* ===== verification/Http_Contracts.thy ===== *)
theory Http_Contracts
  imports Http_Router
begin

text \<open>
  What single endpoints promise: the login decision, the meaning of a date filter, the effect of
  the sync switch, which feeds can be encoded and the spellings of a time bound.
\<close>

lemma pred_option_code [code]: "pred_option P None = True" "pred_option P (Some x) = P x"
  by simp_all

section \<open>Login\<close>

text \<open>The codes a user may type: six digits, or the static code when one is configured.\<close>

definition otp_accepted :: "auth_env \<Rightarrow> string \<Rightarrow> bool" where
  "otp_accepted env code \<longleftrightarrow>
     otp_numeric (trim_space code) \<or> env_static_otp env \<noteq> [] \<and> trim_space code = env_static_otp env"

lemma verify_otp_ok: "verify_otp env code = Inr () \<longleftrightarrow> otp_accepted env code"
  by (auto simp: verify_otp_def Let_def otp_numeric_def otp_accepted_def)

lemma mint_pair_signs:
  assumes run: "mint_pair env ctx subject w = (Inr pair, w')"
  shows "\<exists>c. clm_subject c = subject \<and> env_jwt_sign env (env_jwt_secret env) (payload_of c) = Inr (tpr_access_token pair)"
proof -
  have signs: "\<exists>c'. clm_subject c' = clm_subject c \<and> env_jwt_sign env (env_jwt_secret env) (payload_of c') = Inr access"
    if "jwt_sign_claims env c v = (Inr access, v')" for c access and v v' :: auth_world
  proof -
    let ?now = "db_clock v (db_ticks v)"
    let ?c1 = "if time_is_zero (clm_issued_at c) then c\<lparr>clm_issued_at := ?now\<rparr> else c"
    let ?c2 = "if time_is_zero (clm_expires_at ?c1) then ?c1\<lparr>clm_expires_at := ?now + signer_ttl env\<rparr> else ?c1"
    have "env_jwt_sign env (env_jwt_secret env) (payload_of ?c2) = Inr access"
      using that unfolding jwt_sign_claims_def bind_eff_apply time_now_def Let_def prod.case sum.case
      by (auto simp only: raise_def ret_def split: sum.splits)
    moreover have "clm_subject ?c2 = clm_subject c" by simp
    ultimately show ?thesis by blast
  qed
  show ?thesis
    by (rule mint_pair_steps [OF run]) (use signs in \<open>force simp: minted_claims_def\<close>)
qed

text \<open>
  A login succeeds only for a six-digit code (or the configured static one) and an email
  on the allow-list: a bad code is 400 and an unlisted email 403, neither changes anything,
  and a 200 hands out a token signed for the subject derived from that email, which is also
  the user id in the answer.
\<close>

theorem login_decision:
  assumes body: "decode_verify (rq_body rq) = Some (email, code)" and "email \<noteq> []"
  shows "(\<not> otp_accepted env code \<longrightarrow> rsp_status (fst (verify_handler env rq w)) = 400 \<and> snd (verify_handler env rq w) = w) \<and>
    (otp_accepted env code \<and> \<not> is_allowed_email env email \<longrightarrow>
       rsp_status (fst (verify_handler env rq w)) = 403 \<and> snd (verify_handler env rq w) = w) \<and>
    (rsp_status (fst (verify_handler env rq w)) = 200 \<longrightarrow> otp_accepted env code \<and> is_allowed_email env email \<and>
       (\<exists>c access rest user. rsp_body (fst (verify_handler env rq w)) =
            Some (JObj ((''access_token'', JStr access) # rest @ [(''user'', JObj ((''id'', JStr (clm_subject c)) # user))])) \<and>
          clm_subject c = subject_from_email env email \<and>
          env_jwt_sign env (env_jwt_secret env) (payload_of c) = Inr access))"
proof (cases "verify_otp env code")
  case (Inl e)
  then have "\<not> otp_accepted env code" using verify_otp_ok [of env code] by simp
  moreover have "verify_handler env rq w = (write_auth_error 400 ''otp_invalid'' ''Invalid or expired OTP code'', w)"
    using body \<open>email \<noteq> []\<close> Inl by (simp add: verify_handler_def)
  ultimately show ?thesis by simp
next
  case (Inr u)
  then have good: "otp_accepted env code" using verify_otp_ok [of env code] by simp
  have h: "verify_handler env rq w = (case issue_session env email w of
       (Inl e, w') \<Rightarrow>
         (if errors_is e ErrEmailNotAllowed
          then write_auth_error 403 ''validation_failed'' ''Email not allowed for this self-hosted instance''
          else write_auth_error 500 ''server_error'' (err_text e), w')
     | (Inr pair, w') \<Rightarrow>
         let now = db_clock w' (db_ticks w') in
         (write_json 200 (JObj [(''access_token'', JStr (tpr_access_token pair)), (''token_type'', JStr ''bearer''),
            (''expires_in'', JInt (tpr_expires_in pair)),
            (''expires_at'', JInt (to_unix (now + tpr_expires_in pair * dur_second))),
            (''refresh_token'', JStr (tpr_refresh_token pair)),
            (''user'', supabase_user (subject_from_email env email) email (format_rfc3339 now))]),
          w'\<lparr>db_ticks := Suc (db_ticks w')\<rparr>))"
    using body \<open>email \<noteq> []\<close> Inr by (simp add: verify_handler_def)
  show ?thesis
  proof (cases "is_allowed_email env email")
    case False
    then show ?thesis using good unfolding h by (simp add: issue_session_def raise_def)
  next
    case True
    obtain r w' where i: "issue_session env email w = (r, w')" by fastforce
    show ?thesis
    proof (cases r)
      case (Inl e)
      then show ?thesis using True good i unfolding h by simp
    next
      case (Inr pair)
      with i True have "mint_pair env ''issue session'' (subject_from_email env email) w = (Inr pair, w')"
        by (simp add: issue_session_def)
      from mint_pair_signs [OF this] obtain c where c: "clm_subject c = subject_from_email env email"
        "env_jwt_sign env (env_jwt_secret env) (payload_of c) = Inr (tpr_access_token pair)" by blast
      have "rsp_body (fst (verify_handler env rq w)) = Some (JObj ((''access_token'', JStr (tpr_access_token pair)) #
          [(''token_type'', JStr ''bearer''), (''expires_in'', JInt (tpr_expires_in pair)),
            (''expires_at'', JInt (to_unix (db_clock w' (db_ticks w') + tpr_expires_in pair * dur_second))),
            (''refresh_token'', JStr (tpr_refresh_token pair))] @
          [(''user'', supabase_user (subject_from_email env email) email (format_rfc3339 (db_clock w' (db_ticks w'))))]))"
        unfolding h by (simp add: i Inr Let_def write_json_def supabase_user_def)
      with c True good show ?thesis unfolding supabase_user_def by (metis (no_types, lifting))
    qed
  qed
qed

section \<open>Date filters\<close>

lemma day_le_iff: "a mod dur_day = 0 \<Longrightarrow> a \<le> t \<longleftrightarrow> day_of a \<le> day_of t"
proof -
  assume a: "a mod dur_day = 0"
  have ta: "a = day_of a * dur_day" using div_mult_mod_eq [of a dur_day] unfolding day_of_def a by linarith
  have t: "day_of t * dur_day \<le> t" "t < day_of t * dur_day + dur_day"
    using div_mult_mod_eq [of t dur_day] pos_mod_bound [of dur_day t] pos_mod_sign [of dur_day t]
    unfolding day_of_def by linarith+
  show ?thesis
  proof
    assume "a \<le> t"
    then show "day_of a \<le> day_of t" unfolding day_of_def by (rule zdiv_mono1) simp
  next
    assume "day_of a \<le> day_of t"
    then have "day_of a * dur_day \<le> day_of t * dur_day" by simp
    with ta t show "a \<le> t" by linarith
  qed
qed

lemma day_of_next [simp]: "day_of (add_days 1 t) = day_of t + 1"
  by (simp add: day_of_def add_days_def)

text \<open>
  C14. Calendar dates in a request are inclusive on both ends: the rows an activities request
  asks for are exactly those of the account whose trade date, taken as a day of the calendar,
  lies between the two days, whatever the time of day of the trade.
\<close>

theorem date_filter_inclusive:
  assumes req: "activity_request acct q = Inr aq"
    and s: "q ''start_date'' \<noteq> []" "parse_iso_date (q ''start_date'') = Some a"
    and e: "q ''end_date'' \<noteq> []" "parse_iso_date (q ''end_date'') = Some b"
  shows "activity_matches \<lparr>afi_account_id = aqu_account_id aq, afi_start_date = aqu_start_date aq,
      afi_end_date = aqu_end_date aq, afi_offset = n, afi_limit = l\<rparr> row \<longleftrightarrow>
    apo_account_id row = acct \<and> day_of a \<le> day_of (apo_trade_date row) \<and> day_of (apo_trade_date row) \<le> day_of b"
proof -
  have aq: "aqu_account_id aq = acct" "aqu_start_date aq = Some a" "aqu_end_date aq = Some (add_days 1 b)"
    using req s e by (auto simp: activity_request_def parse_date_def split: option.splits)
  have "(add_days 1 b) mod dur_day = 0"
    using parse_iso_date_midnight [OF e(2)] by (simp add: add_days_def)
  then have "apo_trade_date row < add_days 1 b \<longleftrightarrow> day_of (apo_trade_date row) < day_of (add_days 1 b)"
    using day_le_iff [of "add_days 1 b" "apo_trade_date row"] by linarith
  then show ?thesis
    using day_le_iff [OF parse_iso_date_midnight [OF s(2)], of "apo_trade_date row"]
    by (auto simp: activity_matches_def aq)
qed

section \<open>The sync switch\<close>

definition account_wire_ok :: "account \<Rightarrow> bool" where
  "account_wire_ok a \<longleftrightarrow> f64_finite (acc_balance_total a) \<and> time_ok (acc_created_date a) \<and>
     pred_option time_ok (acc_last_tx_sync a) \<and> pred_option time_ok (acc_last_holdings_sync a)"

lemma account_json_encodable [simp]:
  "json_encodable (account_json (toAccountDTO a)) \<longleftrightarrow> account_wire_ok a"
  by (auto simp: account_json_def toAccountDTO_def account_wire_ok_def ball_Un option.pred_True)

lemma set_sync_enabled_no_faults:
  assumes "no_faults w"
  shows "\<exists>w'. account_set_sync_enabled i b w =
      ((if account_row i w = None then Inl ErrNotFound else Inr ()), w') \<and> no_faults w' \<and>
    (\<forall>j. account_row j w' = (if j = i then map_option (\<lambda>r. r\<lparr>acp_sync_enabled := b\<rparr>) (account_row i w) else account_row j w))"
proof -
  let ?f = "\<lambda>r. r\<lparr>acp_sync_enabled := b\<rparr>"
  have rows: "account_row j (w\<lparr>db_ops := Suc (db_ops w), db_accounts := update_rows (\<lambda>r. acp_id r = i) ?f (db_accounts w)\<rparr>) =
      (if j = i then map_option ?f (account_row i w) else account_row j w)" for j
    using find_row_update_key [of acp_id ?f j i "db_accounts w"] by (simp add: account_row_def)
  show ?thesis
    using assms rows
    by (auto simp: account_set_sync_enabled_def bind_eff_apply wrap_err_def no_faults_def account_row_def
        exec_sql_def Let_def raise_def ret_def)
qed

text \<open>
  \<open>PATCH\<close> with \<open>sync_enabled\<close> sets exactly that switch: the account's row changes in
  this column only and no other account's row at all, the answer shows the new value, and an
  unknown account is 404 with every row as it was.
\<close>

theorem patch_sets_switch:
  assumes ok: "no_faults w" and body: "decode_body set_bool_ptr ''sync_enabled'' None (rq_body rq) = Some (Some b)"
    and i: "i \<noteq> []"
  shows "case account_row i w of
      None \<Rightarrow> rsp_status (fst (patch_account_handler i rq w)) = 404 \<and>
        (\<forall>j. account_row j (snd (patch_account_handler i rq w)) = account_row j w)
    | Some r \<Rightarrow> account_row i (snd (patch_account_handler i rq w)) = Some (r\<lparr>acp_sync_enabled := b\<rparr>) \<and>
        (\<forall>j. j \<noteq> i \<longrightarrow> account_row j (snd (patch_account_handler i rq w)) = account_row j w) \<and>
        (account_wire_ok (account_to_domain r) \<longrightarrow> fst (patch_account_handler i rq w) =
           write_json 200 (account_json ((toAccountDTO (account_to_domain r))\<lparr>aco_sync_enabled := b\<rparr>)))"
proof -
  obtain w1 where set: "account_set_sync_enabled i b w =
      ((if account_row i w = None then Inl ErrNotFound else Inr ()), w1)" and ok1: "no_faults w1" and
    rows: "\<And>j. account_row j w1 = (if j = i then map_option (\<lambda>r. r\<lparr>acp_sync_enabled := b\<rparr>) (account_row i w) else account_row j w)"
    using set_sync_enabled_no_faults [OF ok, of i b] by blast
  show ?thesis
  proof (cases "account_row i w")
    case None
    with set rows i body show ?thesis
      by (simp add: patch_account_handler_def account_service_set_sync_enabled_def seq_eff_apply map_not_found_def)
  next
    case (Some r)
    let ?r = "r\<lparr>acp_sync_enabled := b\<rparr>"
    have get: "account_service_get i w1 = (Inr (account_to_domain ?r), w1\<lparr>db_ops := Suc (db_ops w1)\<rparr>)"
      using account_get_no_faults [OF ok1, of i] rows [of i] Some
      by (simp add: account_service_get_def map_not_found_def)
    have dto: "toAccountDTO (account_to_domain ?r) = (toAccountDTO (account_to_domain r))\<lparr>aco_sync_enabled := b\<rparr>"
      by (simp add: toAccountDTO_def account_to_domain_def)
    have "patch_account_handler i rq w = (write_json 200 (account_json (toAccountDTO (account_to_domain ?r))),
        w1\<lparr>db_ops := Suc (db_ops w1)\<rparr>)"
      using set Some i body get
      by (simp add: patch_account_handler_def account_service_set_sync_enabled_def seq_eff_apply map_not_found_def)
    then show ?thesis using rows Some by (simp add: dto)
  qed
qed

section \<open>Feeds\<close>

text \<open>
  An activities request answers 200 exactly when every activity on the page can be
  written as JSON: one row with a NaN or infinite number, or a year that RFC 3339 cannot
  write, turns the whole page into a 500.
\<close>

theorem activity_feed_status:
  assumes ok: "no_faults w" and req: "activity_request acct (rq_query rq) = Inr aq"
    and acc: "account_row acct w \<noteq> None"
  shows "rsp_status (fst (activities_handler acct rq w)) =
    (if \<forall>a\<in>set (take (nat (clamp_limit (aqu_limit aq))) (drop (nat (clamp_offset (aqu_offset aq))) (all_matches aq w))).
        activity_wire_ok a then 200 else 500)"
proof -
  have id: "aqu_account_id aq = acct" using req by (auto simp: activity_request_def split: option.splits)
  obtain p w' where p: "activity_service_list aq w = (Inr p, w')"
    "pga_items p = take (nat (clamp_limit (aqu_limit aq))) (drop (nat (clamp_offset (aqu_offset aq))) (all_matches aq w))"
    using activity_service_list_no_faults [OF ok, of aq] acc id
    by (cases "activity_service_list aq w") auto
  have "json_encodable (activities_json (map toActivityDTO items) a b c d) \<longleftrightarrow> (\<forall>x\<in>set items. activity_wire_ok x)"
    for items a b c d by (simp add: activities_json_def)
  then show ?thesis using p req by (simp add: activities_handler_def write_json_status)
qed

section \<open>Time bounds\<close>

lemma trim_space_id: "\<forall>c\<in>set s. \<not> is_space c \<Longrightarrow> trim_space s = s"
proof -
  assume s: "\<forall>c\<in>set s. \<not> is_space c"
  then have "dropWhile is_space s = s" "dropWhile is_space (rev s) = rev s"
    by (cases s; simp) (cases "rev s"; auto simp: dropWhile_eq_self_iff hd_rev s)
  then show ?thesis by (simp add: trim_space_def trim_right_def)
qed

lemma is_digit_not_space: "is_digit c \<Longrightarrow> \<not> is_space c"
  by (auto simp: is_digit_def is_space_def)

lemma pad_int_digits: "0 \<le> i \<Longrightarrow> c \<in> set (pad_int w i) \<Longrightarrow> is_digit c"
  using nat_digits_all_digits [of "nat i"]
  by (auto simp: pad_int_def itoa_def Let_def list_all_iff is_digit_def char_code_def)

lemma itoa_chars: "c \<in> set (itoa i) \<Longrightarrow> is_digit c \<or> c = CHR ''-''"
  using nat_digits_all_digits by (auto simp: itoa_def list_all_iff split: if_splits)

lemma not_space_lits: "\<not> is_space CHR ''-''" "\<not> is_space CHR ''T''" "\<not> is_space CHR '':''" "\<not> is_space CHR ''Z''"
  by (simp_all add: is_space_def char_code_def)

lemma month_start_range: "0 \<le> month_start leap m \<and> month_start leap m \<le> 366"
  by (simp add: month_start_def Let_def)

lemma parse_rfc3339_itoa: "parse_rfc3339 (itoa i) = None"
proof -
  have "False" if "take_digits 4 (itoa i) = Some (y, s)" "take_lit ''-'' s = Some r" for y s r
  proof -
    from that have s: "s = drop 4 (itoa i)" "s \<noteq> []" "hd s = CHR ''-''" "list_all is_digit (take 4 (itoa i))"
      "4 \<le> length (itoa i)"
      by (auto simp: take_digits_def take_lit_def has_prefix_iff split: if_splits)
    have "itoa i \<noteq> []" using s(5) by auto
    then have "\<not> i < 0" using s(4) by (cases "itoa i") (auto simp: itoa_def is_digit_def char_code_def)
    then have "\<forall>c\<in>set (itoa i). is_digit c" using nat_digits_all_digits [of "nat i"] by (simp add: itoa_def list_all_iff)
    then have "is_digit (hd s)" using s(1,2) by (metis hd_in_set in_set_dropD)
    with s(3) show False by (simp add: is_digit_def char_code_def)
  qed
  then show ?thesis by (force simp: parse_rfc3339_def simp del: take_lit_Cons split: Option.bind_split)
qed

text \<open>
  C15. The three spellings of a bound are one bound: a calendar day written as
  \<open>YYYY-MM-DD\<close>, as RFC 3339 midnight UTC and as Unix seconds gives the same instant, the
  first of that day.
\<close>

theorem time_bound_spellings:
  assumes v: "valid_date y m d" and y: "0 \<le> y" "y \<le> 9999"
  defines "t \<equiv> date_of y m d"
  shows "parse_time_bound (format_date t) = Some t \<and> parse_time_bound (format_rfc3339 t) = Some t \<and>
    parse_time_bound (itoa (to_unix t)) = Some t"
proof -
  have md: "0 \<le> m" "m < 10 ^ 2" "0 \<le> d" "d < 10 ^ 2"
    using v by (auto simp: valid_date_def days_in_def split: if_splits)
  have fd: "format_date t = pad_int 4 y @ ''-'' @ pad_int 2 m @ ''-'' @ pad_int 2 d"
    unfolding t_def by (rule format_date_of [OF v])
  have sod: "second_of_day t = 0" by (simp add: t_def second_of_day_def date_of_def)
  have digit_ok: "\<forall>c\<in>set (pad_int w i). \<not> is_space c" if "0 \<le> i" for w i
    using pad_int_digits [OF that] is_digit_not_space by blast
  have clean: "\<forall>c\<in>set (format_date t). \<not> is_space c" "\<forall>c\<in>set (format_rfc3339 t). \<not> is_space c"
    using digit_ok md y not_space_lits by (auto simp: format_rfc3339_def fd sod)
  have ne: "format_date t \<noteq> []" "format_rfc3339 t \<noteq> []" by (simp_all add: fd format_rfc3339_def Let_def)
  have no_t: "parse_rfc3339 (format_date t) = None"
    using take_digits_pad [of y 4] take_digits_pad [of m 2] take_digits_pad [of d 2 "[]"] md y
    by (simp add: parse_rfc3339_def fd take_lit_def [of "''T''"] has_prefix_def)
  have no_int: "parse_int (format_date t) = None"
  proof -
    have "CHR ''-'' \<in> set (tl (format_date t))" by (cases "pad_int 4 y") (auto simp: fd)
    moreover have "\<not> is_digit CHR ''-''" by (simp add: is_digit_def char_code_def)
    ultimately have "\<not> list_all is_digit (format_date t)" "\<not> list_all is_digit (tl (format_date t))"
      using list.set_sel(2) [OF ne(1)] unfolding list_all_iff by metis+
    then show ?thesis by (simp add: parse_int_def)
  qed
  have "parse_time_bound (format_date t) = Some t"
    using clean ne parse_format_date [OF v y]
    by (simp add: parse_time_bound_def trim_space_id Let_def no_t no_int) (simp add: t_def)
  moreover have "parse_time_bound (format_rfc3339 t) = Some t"
    using clean ne parse_rfc3339_format_date [OF v y]
    by (simp add: parse_time_bound_def trim_space_id Let_def t_def)
  moreover have "parse_time_bound (itoa (to_unix t)) = Some t"
  proof -
    let ?n = "to_unix t"
    have unix: "of_unix ?n = t"
      by (simp add: of_unix_def to_unix_def t_def date_of_def unix_epoch_def)
    have "\<forall>c\<in>set (itoa ?n). \<not> is_space c" using itoa_chars is_digit_not_space not_space_lits by blast
    moreover have "itoa ?n \<noteq> []" by (simp add: itoa_def)
    moreover have "parse_int (itoa ?n) = Some ?n"
    proof (rule parse_int_itoa)
      have "?n = days_of_civil y m d * 86400 - 62135596800"
        by (simp add: to_unix_def t_def date_of_def unix_epoch_def)
      moreover have "- 400 \<le> days_of_civil y m d" "days_of_civil y m d \<le> 4000000"
        using year_start_mean [of y] y v month_start_range [of "is_leap y" m]
        by (auto simp: days_of_civil_def valid_date_def days_in_def split: if_splits)
      ultimately show "- (2 ^ 63) \<le> ?n" "?n < 2 ^ 63" by simp_all
    qed
    ultimately show ?thesis by (simp add: parse_time_bound_def trim_space_id Let_def parse_rfc3339_itoa unix)
  qed
  ultimately show ?thesis by blast
qed

section \<open>Concrete requests\<close>

definition sample_request :: "string \<Rightarrow> string list \<Rightarrow> json option \<Rightarrow> http_request" where
  "sample_request meth path body = \<lparr>rq_method = meth, rq_path = path, rq_query = (\<lambda>k.
       if k = ''start_date'' then ''2024-02-28'' else if k = ''end_date'' then ''2024-02-29'' else []),
     rq_header = (\<lambda>_. []), rq_body = body, rq_request_id = [], rq_claims = None\<rparr>"

theorem api_needs_token_witness:
  "rsp_status (fst (new_router demo_env True True None None True
     (sample_request ''GET'' [''api'', ''v1'', ''sync'', ''brokerage'', ''connections''] None) demo_world)) \<in> {401, 404, 405}"
proof -
  let ?rq = "sample_request ''GET'' [''api'', ''v1'', ''sync'', ''brokerage'', ''connections''] None"
  let ?r = "new_router demo_env True True None None True ?rq demo_world"
  have 1: "rq_method ?rq \<noteq> ''OPTIONS''" "\<not> env_static_token_mode demo_env" by code_simp+
  have 2: "rq_path ?rq = ''api'' # ''v1'' # [''sync'', ''brokerage'', ''connections'']" by (simp add: sample_request_def)
  have 3: "\<forall>r\<in>set (public_routes True None). match_path (rt_pattern r) [''sync'', ''brokerage'', ''connections''] = None"
    by (simp add: public_routes_def has_prefix_def)
  have "?r = (fst ?r, snd ?r)" by simp
  from api_needs_token [OF 1 2 3 this] show ?thesis by (simp add: sample_request_def)
qed

theorem login_decision_witness:
  "rsp_status (fst (verify_handler demo_env (sample_request ''POST'' []
     (Some (JObj [(''email'', JStr ''bob@x.io''), (''token'', JStr ''12345'')]))) demo_world)) = 400"
proof -
  let ?rq = "sample_request ''POST'' [] (Some (JObj [(''email'', JStr ''bob@x.io''), (''token'', JStr ''12345'')]))"
  have body: "decode_verify (rq_body ?rq) = Some (''bob@x.io'', ''12345'')" by code_simp
  have "\<not> otp_accepted demo_env ''12345''" by code_simp
  with login_decision [OF body, of demo_env demo_world] show ?thesis by simp
qed

theorem date_filter_inclusive_witness:
  "activity_matches \<lparr>afi_account_id = ''a'', afi_start_date = Some (date_of 2024 2 28),
     afi_end_date = Some (date_of 2024 3 1), afi_offset = 0, afi_limit = 9\<rparr>
     ((activityFromDomain ''a'' zero_activity)\<lparr>apo_trade_date := date_of 2024 2 29 + 23 * dur_hour\<rparr>)"
proof -
  let ?q = "rq_query (sample_request [] [] None)"
  let ?aq = "\<lparr>aqu_account_id = ''a'', aqu_start_date = Some (date_of 2024 2 28),
     aqu_end_date = Some (add_days 1 (date_of 2024 2 29)), aqu_offset = 0, aqu_limit = DefaultActivityLimit\<rparr>"
  let ?row = "(activityFromDomain ''a'' zero_activity)\<lparr>apo_trade_date := date_of 2024 2 29 + 23 * dur_hour\<rparr>"
  have p: "parse_iso_date ''2024-02-28'' = Some (date_of 2024 2 28)" "parse_iso_date ''2024-02-29'' = Some (date_of 2024 2 29)"
    by code_simp+
  have q: "?q ''start_date'' = ''2024-02-28''" "?q ''end_date'' = ''2024-02-29''" "?q ''offset'' = []" "?q ''limit'' = []"
    by (simp_all add: sample_request_def)
  have req: "activity_request ''a'' ?q = Inr ?aq"
    by (simp add: activity_request_def q p parse_date_def parse_int_default_def)
  have days: "day_of (date_of 2024 2 28) \<le> day_of (apo_trade_date ?row)"
    "day_of (apo_trade_date ?row) \<le> day_of (date_of 2024 2 29)" by code_simp+
  have acct: "apo_account_id ?row = ''a''" by code_simp
  have next_day: "add_days 1 (date_of 2024 2 29) = date_of 2024 3 1" by code_simp
  from date_filter_inclusive [OF req _ _ _ _, of "date_of 2024 2 28" "date_of 2024 2 29" 0 9 ?row] days acct
  show ?thesis by (simp add: q p next_day)
qed

theorem patch_sets_switch_witness:
  "map_option acp_sync_enabled (account_row ''a'' (snd (patch_account_handler ''a''
     (sample_request ''PATCH'' [] (Some (JObj [(''sync_enabled'', JBool True)]))) page_db))) = Some True"
proof -
  let ?rq = "sample_request ''PATCH'' [] (Some (JObj [(''sync_enabled'', JBool True)]))"
  have body: "decode_body set_bool_ptr ''sync_enabled'' None (rq_body ?rq) = Some (Some True)" by code_simp
  have "map_option acp_id (account_row ''a'' page_db) = Some ''a''" by code_simp
  then obtain r where "account_row ''a'' page_db = Some r" by auto
  with patch_sets_switch [OF page_db_no_faults body, of "''a''"] show ?thesis by simp
qed

definition poisoned_db :: db where
  "poisoned_db = page_db\<lparr>db_activities := map (\<lambda>r. if apo_source_record_id r = ''y'' then r\<lparr>apo_price := NaN\<rparr> else r)
     (db_activities page_db)\<rparr>"

theorem activity_feed_status_witness:
  "rsp_status (fst (activities_handler ''a'' ((sample_request ''GET'' [] None)\<lparr>rq_query := \<lambda>_. []\<rparr>) poisoned_db)) = 500"
proof -
  let ?rq = "(sample_request ''GET'' [] None)\<lparr>rq_query := \<lambda>_. []\<rparr>"
  let ?aq = "\<lparr>aqu_account_id = ''a'', aqu_start_date = None, aqu_end_date = None, aqu_offset = 0,
    aqu_limit = DefaultActivityLimit\<rparr>"
  have ok: "no_faults poisoned_db" using page_db_no_faults by (simp add: no_faults_def poisoned_db_def)
  have req: "activity_request ''a'' (rq_query ?rq) = Inr ?aq"
    by (simp add: activity_request_def parse_date_def parse_int_default_def)
  have "map_option acp_id (account_row ''a'' poisoned_db) = Some ''a''" by code_simp
  then have acc: "account_row ''a'' poisoned_db \<noteq> None" by auto
  have "map (\<lambda>a. (act_source_record_id a, activity_wire_ok a)) (take (nat (clamp_limit (aqu_limit ?aq)))
      (drop (nat (clamp_offset (aqu_offset ?aq))) (all_matches ?aq poisoned_db))) = [(''x'', True), (''y'', False), (''z'', True)]"
    by code_simp
  then have "(''y'', False) \<in> set (map (\<lambda>a. (act_source_record_id a, activity_wire_ok a))
      (take (nat (clamp_limit (aqu_limit ?aq))) (drop (nat (clamp_offset (aqu_offset ?aq))) (all_matches ?aq poisoned_db))))"
    by simp
  with activity_feed_status [OF ok req acc] show ?thesis by auto
qed

theorem time_bound_spellings_witness:
  "parse_time_bound ''2025-05-01'' = Some (date_of 2025 5 1) \<and>
   parse_time_bound ''2025-05-01T00:00:00Z'' = Some (date_of 2025 5 1) \<and>
   parse_time_bound ''1746057600'' = Some (date_of 2025 5 1)"
proof -
  have v: "valid_date 2025 5 1" by code_simp
  have "format_date (date_of 2025 5 1) = ''2025-05-01''" "format_rfc3339 (date_of 2025 5 1) = ''2025-05-01T00:00:00Z''"
    "itoa (to_unix (date_of 2025 5 1)) = ''1746057600''" by code_simp+
  with time_bound_spellings [OF v] show ?thesis by simp
qed

end
