(* ===== verification/Go_Number.thy ===== *)
theory Go_Number
  imports Go_Strings Go_Float
begin

text \<open>
  Conversions between text and numbers (\<open>strconv\<close>) and the wrap-around of \<open>int64\<close>:
  \<open>ParseFloat\<close> with its range error, \<open>ParseBool\<close>, and the multiplication of a
  \<open>time.Duration\<close>, which wraps. A hexadecimal float is read without the underscores Go
  would allow in it.
\<close>

section \<open>int64\<close>

definition wrap64 :: "int \<Rightarrow> int" where
  "wrap64 i = (i + 2 ^ 63) mod 2 ^ 64 - 2 ^ 63"

lemma wrap64_id: "- (2 ^ 63) \<le> i \<Longrightarrow> i < 2 ^ 63 \<Longrightarrow> wrap64 i = i"
  by (simp add: wrap64_def)

lemma wrap64_range: "- (2 ^ 63) \<le> wrap64 i \<and> wrap64 i < 2 ^ 63"
  by (simp add: wrap64_def)

section \<open>Booleans\<close>

definition parse_bool :: "string \<Rightarrow> bool option" where
  "parse_bool s =
    (if s \<in> {''1'', ''t'', ''T'', ''true'', ''TRUE'', ''True''} then Some True
     else if s \<in> {''0'', ''f'', ''F'', ''false'', ''FALSE'', ''False''} then Some False
     else None)"

section \<open>Floats\<close>

definition is_hex :: "char \<Rightarrow> bool" where
  "is_hex c \<longleftrightarrow> is_digit c \<or> (97 \<le> char_code (low_char c) \<and> char_code (low_char c) \<le> 102)"

definition hex_val :: "char \<Rightarrow> int" where
  "hex_val c = (if is_digit c then int (char_code c) - 48 else int (char_code (low_char c)) - 87)"

definition digits_in :: "int \<Rightarrow> string \<Rightarrow> int" where
  "digits_in b s = foldl (\<lambda>n c. b * n + hex_val c) 0 s"

text \<open>A signed exponent that reaches the end of the text.\<close>

definition parse_exp :: "string \<Rightarrow> int option" where
  "parse_exp s =
    (let neg = has_prefix s ''-''; ds = (if has_prefix s ''-'' \<or> has_prefix s ''+'' then tl s else s)
     in if ds = [] \<or> \<not> list_all is_digit ds then None
        else Some ((if neg then - 1 else 1) * digits_in 10 ds))"

text \<open>Mantissa and exponent of an unsigned number as an exact rational.\<close>

definition parse_decimal :: "string \<Rightarrow> rat option" where
  "parse_decimal s =
    (let a = takeWhile is_digit s; s1 = dropWhile is_digit s;
         point = has_prefix s1 ''.'';
         b = (if point then takeWhile is_digit (tl s1) else []);
         s2 = (if point then dropWhile is_digit (tl s1) else s1);
         m = of_int (digits_in 10 (a @ b)) :: rat; k = - int (length b)
     in if a @ b = [] then None
        else if s2 = [] then Some (m * 10 powi k)
        else if hd s2 = CHR ''e'' \<or> hd s2 = CHR ''E''
        then map_option (\<lambda>e. m * 10 powi (k + e)) (parse_exp (tl s2))
        else None)"

definition parse_hex :: "string \<Rightarrow> rat option" where
  "parse_hex s =
    (let a = takeWhile is_hex s; s1 = dropWhile is_hex s;
         point = has_prefix s1 ''.'';
         b = (if point then takeWhile is_hex (tl s1) else []);
         s2 = (if point then dropWhile is_hex (tl s1) else s1);
         m = of_int (digits_in 16 (a @ b)) :: rat; k = - 4 * int (length b)
     in if a @ b = [] then None
        else if s2 \<noteq> [] \<and> (hd s2 = CHR ''p'' \<or> hd s2 = CHR ''P'')
        then map_option (\<lambda>e. m * 2 powi (k + e)) (parse_exp (tl s2))
        else None)"

definition parse_float :: "string \<Rightarrow> f64 option" where
  "parse_float s =
    (let neg = has_prefix s ''-''; signed = (neg \<or> has_prefix s ''+'');
         u = (if signed then tl s else s); l = to_lower u
     in if l = ''nan'' \<and> \<not> signed then Some NaN
        else if l = ''inf'' \<or> l = ''infinity'' then Some (if neg then NInf else PInf)
        else case (if has_prefix l ''0x'' then parse_hex (drop 2 u) else parse_decimal u) of
          None \<Rightarrow> None
        | Some q \<Rightarrow> (let v = fl (if neg then - q else q) in if f64_finite v then Some v else None))"

text \<open>The first result of \<open>ParseFloat\<close> when the caller drops the error: out of range is infinite.\<close>

definition float_value :: "string \<Rightarrow> f64" where
  "float_value s =
    (let neg = has_prefix s ''-''; signed = (neg \<or> has_prefix s ''+'');
         u = (if signed then tl s else s); l = to_lower u
     in if l = ''nan'' \<and> \<not> signed then NaN
        else if l = ''inf'' \<or> l = ''infinity'' then (if neg then NInf else PInf)
        else case (if has_prefix l ''0x'' then parse_hex (drop 2 u) else parse_decimal u) of
          None \<Rightarrow> Fin 0
        | Some q \<Rightarrow> fl (if neg then - q else q))"

lemma float_value_parsed: "parse_float s = Some x \<Longrightarrow> float_value s = x"
  unfolding parse_float_def float_value_def Let_def by (auto split: if_splits option.splits)

end
