(* ===== verification/Config.thy ===== *)
theory Config
  imports Go_Number Go_Time
begin

text \<open>
  The configuration loader, \<open>internal/infrastructure/config/config.go\<close>. The process
  environment is a function from names to optional values. Two library calls are parameters,
  the fields of \<open>config_lib\<close>: what \<open>url.Parse\<close> and \<open>json.Unmarshal\<close> make of a text.
  Durations are products of an \<open>int\<close> with a unit and wrap as \<open>int64\<close> does.
\<close>

section \<open>Data\<close>

record defi_wallet =
  dfw_name :: string
  dfw_address :: string
  dfw_chains :: "string list"

record url_parts =
  url_scheme :: string
  url_host :: string
  url_hostname :: string

record config_lib =
  lib_parse_url :: "string \<Rightarrow> url_parts option"
  lib_parse_wallets :: "string \<Rightarrow> defi_wallet list res"

type_synonym loader = "string \<Rightarrow> string option"

record futu_config =
  ftc_enabled :: bool
  ftc_host :: string
  ftc_port :: int
  ftc_trade_password :: string
  ftc_connection_id :: string
  ftc_rsa_key_file :: string

record ibkr_config =
  ibc_enabled :: bool
  ibc_host :: string
  ibc_port :: int
  ibc_client_id :: int
  ibc_account_id :: string

record snaptrade_config =
  stc_enabled :: bool
  stc_auth_mode :: string
  stc_package :: string
  stc_client_id :: string
  stc_consumer_key :: string
  stc_user_id :: string
  stc_user_secret :: string
  stc_base_url :: string
  stc_account_ids :: "string list"
  stc_history_start_date :: time
  stc_sync_interval :: duration
  stc_request_interval :: duration
  stc_requests_per_minute :: int
  stc_account_requests_pm :: int
  stc_safety_percent :: int
  stc_page_size :: int
  stc_max_retries :: int
  stc_retry_base_delay :: duration
  stc_retry_max_delay :: duration
  stc_incremental_overlap :: duration
  stc_request_timeout :: duration
  stc_allow_manual_refresh :: bool
  stc_allow_transaction_sync :: bool
  stc_manual_refresh_cooldown :: duration

record crypto_config =
  crc_okx_api_key :: string
  crc_okx_secret :: string
  crc_okx_passphrase :: string
  crc_binance_api_key :: string
  crc_binance_secret :: string
  crc_binance_trade_symbols :: "string list"
  crc_bitget_api_key :: string
  crc_bitget_secret :: string
  crc_bitget_passphrase :: string
  crc_hyperliquid_wallet :: string
  crc_okx_web3_api_key :: string
  crc_okx_web3_secret :: string
  crc_okx_web3_passphrase :: string
  crc_toncenter_api_key :: string
  crc_ton_wallets :: "string list"

record steam_config =
  smc_steam_id :: string
  smc_api_key :: string
  smc_session :: string
  smc_refresh_token :: string
  smc_price_ttl :: duration
  smc_currency :: int
  smc_history_budget :: int
  smc_min_item_value_usd :: f64

record config =
  cfg_database_url :: string
  cfg_jwt_secret :: string
  cfg_publishable_key :: string
  cfg_user_emails :: "string list"
  cfg_static_otp :: string
  cfg_server_port :: int
  cfg_log_level :: string
  cfg_log_format :: string
  cfg_cors_origins :: "string list"
  cfg_static_token_mode :: bool
  cfg_token_ttl :: duration
  cfg_sync_interval :: duration
  cfg_redis_addr :: string
  cfg_futu :: futu_config
  cfg_ibkr :: ibkr_config
  cfg_snaptrade :: snaptrade_config
  cfg_crypto :: crypto_config
  cfg_defi_wallets :: "defi_wallet list"
  cfg_steam :: steam_config

section \<open>Readers\<close>

definition getString :: "loader \<Rightarrow> string \<Rightarrow> string \<Rightarrow> string" where
  "getString get key def = (case get key of Some v \<Rightarrow> if v \<noteq> [] then v else def | None \<Rightarrow> def)"

fun firstNonEmpty :: "loader \<Rightarrow> string list \<Rightarrow> string" where
  "firstNonEmpty get [] = []"
| "firstNonEmpty get (k # ks) =
     (case get k of Some v \<Rightarrow> if v \<noteq> [] then v else firstNonEmpty get ks | None \<Rightarrow> firstNonEmpty get ks)"

definition getInt :: "loader \<Rightarrow> string \<Rightarrow> int \<Rightarrow> int res" where
  "getInt get key def = (case get key of
     None \<Rightarrow> Inr def
   | Some v \<Rightarrow> if v = [] then Inr def
       else case parse_int v of
         None \<Rightarrow> Inl (Wrapf (''config: '' @ key @ '' must be an integer'') (ErrText v))
       | Some i \<Rightarrow> Inr i)"

definition getFloat :: "loader \<Rightarrow> string \<Rightarrow> f64 \<Rightarrow> f64 res" where
  "getFloat get key def = (case get key of
     None \<Rightarrow> Inr def
   | Some v \<Rightarrow> if trim_space v = [] then Inr def
       else case parse_float (trim_space v) of
         None \<Rightarrow> Inl (Wrapf (''config: '' @ key @ '' must be a number'') (ErrText (trim_space v)))
       | Some x \<Rightarrow> Inr x)"

definition getBool :: "loader \<Rightarrow> string \<Rightarrow> bool res" where
  "getBool get key = (case get key of
     None \<Rightarrow> Inr False
   | Some v \<Rightarrow> if v = [] then Inr False
       else case parse_bool v of
         None \<Rightarrow> Inl (Wrapf (''config: '' @ key @ '' must be a boolean'') (ErrText v))
       | Some b \<Rightarrow> Inr b)"

definition splitAndTrim :: "string \<Rightarrow> string list" where
  "splitAndTrim v = filter (\<lambda>t. t \<noteq> []) (map trim_space (split_on CHR '','' v))"

definition isLoopbackHost :: "string \<Rightarrow> bool" where
  "isLoopbackHost host \<longleftrightarrow> equal_fold host ''localhost'' \<or> host = ''127.0.0.1'' \<or> host = ''::1''"

definition parseSnapTradeDate :: "string \<Rightarrow> time res" where
  "parseSnapTradeDate raw = (case parse_dotted_date (trim_space raw) of
     Some t \<Rightarrow> Inr t
   | None \<Rightarrow> (case parse_iso_date (trim_space raw) of
       Some t \<Rightarrow> Inr t
     | None \<Rightarrow> Inl (ErrText ''config: SNAPTRADE_HISTORY_START_DATE must use DD.MM.YYYY or YYYY-MM-DD'')))"

text \<open>\<open>time.Duration(n) * unit\<close>.\<close>

definition dur_of :: "int \<Rightarrow> duration \<Rightarrow> duration" where
  "dur_of n unit = wrap64 (n * unit)"

text \<open>\<open>if err != nil { return nil, err }\<close> over results.\<close>

definition bind_res :: "'a res \<Rightarrow> ('a \<Rightarrow> 'b res) \<Rightarrow> 'b res" where
  "bind_res r f = (case r of Inl e \<Rightarrow> Inl e | Inr x \<Rightarrow> f x)"

lemma bind_res_InrE:
  assumes "bind_res r f = Inr y"
  obtains x where "r = Inr x" "f x = Inr y"
  using assms by (cases r) (auto simp: bind_res_def)

section \<open>SnapTrade\<close>

definition resolve_auth_mode :: "snaptrade_config \<Rightarrow> snaptrade_config" where
  "resolve_auth_mode c =
    (if stc_auth_mode c = ''auto''
     then c\<lparr>stc_auth_mode := (if stc_user_id c \<noteq> [] \<and> stc_user_secret c \<noteq> [] then ''commercial'' else ''personal'')\<rparr>
     else c)"

text \<open>The checks in their order; the result is the configuration with its mode resolved.\<close>

definition validateSnapTrade :: "config_lib \<Rightarrow> snaptrade_config \<Rightarrow> snaptrade_config res" where
  "validateSnapTrade lib c0 =
    (if stc_auth_mode c0 \<notin> {''auto'', ''personal'', ''commercial''}
     then Inl (ErrText ''config: SNAPTRADE_AUTH_MODE must be auto, personal, or commercial'')
     else if stc_package c0 \<notin> {''personal'', ''free'', ''payg_realtime'', ''payg_daily'', ''custom''}
     then Inl (ErrText ''config: SNAPTRADE_PACKAGE is invalid'')
     else if (stc_user_id c0 \<noteq> []) \<noteq> (stc_user_secret c0 \<noteq> [])
     then Inl (ErrText ''config: SNAPTRADE_USER_ID and SNAPTRADE_USER_SECRET must be configured together'')
     else let c = resolve_auth_mode c0 in
       if stc_enabled c \<and> stc_client_id c = []
       then Inl (ErrText ''config: SNAPTRADE_CLIENT_ID is required when SnapTrade is enabled'')
       else if stc_enabled c \<and> stc_consumer_key c = []
       then Inl (ErrText ''config: SNAPTRADE_CONSUMER_KEY is required when SnapTrade is enabled'')
       else if stc_enabled c \<and> stc_auth_mode c = ''commercial'' \<and> (stc_user_id c = [] \<or> stc_user_secret c = [])
       then Inl (ErrText ''config: commercial SnapTrade authentication requires SNAPTRADE_USER_ID and SNAPTRADE_USER_SECRET'')
       else case lib_parse_url lib (stc_base_url c) of
         None \<Rightarrow> Inl (ErrText ''config: SNAPTRADE_BASE_URL must be an absolute URL'')
       | Some u \<Rightarrow>
           if url_host u = [] then Inl (ErrText ''config: SNAPTRADE_BASE_URL must be an absolute URL'')
           else if url_scheme u \<noteq> ''https'' \<and> (url_scheme u \<noteq> ''http'' \<or> \<not> isLoopbackHost (url_hostname u))
           then Inl (ErrText ''config: SNAPTRADE_BASE_URL must use HTTPS (HTTP is allowed only for loopback tests)'')
           else if stc_sync_interval c < dur_hour
           then Inl (ErrText ''config: SNAPTRADE_SYNC_INTERVAL_MINUTES must be at least 60'')
           else if stc_request_interval c < 0
           then Inl (ErrText ''config: SNAPTRADE_REQUEST_INTERVAL_SECONDS cannot be negative'')
           else if stc_requests_per_minute c < 0 \<or> stc_account_requests_pm c < 0
           then Inl (ErrText ''config: SnapTrade request limits cannot be negative'')
           else if stc_safety_percent c < 1 \<or> stc_safety_percent c > 95
           then Inl (ErrText ''config: SNAPTRADE_RATE_LIMIT_SAFETY_PERCENT must be between 1 and 95'')
           else if stc_page_size c < 1 \<or> stc_page_size c > 1000
           then Inl (ErrText ''config: SNAPTRADE_ACTIVITY_PAGE_SIZE must be between 1 and 1000'')
           else if stc_max_retries c < 0 \<or> stc_retry_base_delay c \<le> 0 \<or> stc_retry_max_delay c < stc_retry_base_delay c
           then Inl (ErrText ''config: SnapTrade retry settings are invalid'')
           else if stc_incremental_overlap c < 0 \<or> stc_request_timeout c \<le> 0
           then Inl (ErrText ''config: SnapTrade overlap and timeout settings are invalid'')
           else if stc_manual_refresh_cooldown c < dur_hour
           then Inl (ErrText ''config: SNAPTRADE_MANUAL_REFRESH_COOLDOWN_HOURS must be at least 1'')
           else Inr c)"

text \<open>\<open>strings.TrimRight(s, "/")\<close>\<close>

definition trim_slashes :: "string \<Rightarrow> string" where
  "trim_slashes s = rev (dropWhile (\<lambda>c. c = CHR ''/'') (rev s))"

definition loadSnapTrade :: "config_lib \<Rightarrow> loader \<Rightarrow> snaptrade_config res" where
  "loadSnapTrade lib get =
    bind_res (getBool get ''SNAPTRADE_ENABLED'') (\<lambda>enabled.
    bind_res (parseSnapTradeDate (getString get ''SNAPTRADE_HISTORY_START_DATE'' ''01.01.2022'')) (\<lambda>start_date.
    bind_res (getInt get ''SNAPTRADE_SYNC_INTERVAL_MINUTES'' 240) (\<lambda>syncMinutes.
    bind_res (getInt get ''SNAPTRADE_REQUEST_INTERVAL_SECONDS'' 60) (\<lambda>requestSeconds.
    bind_res (getInt get ''SNAPTRADE_REQUESTS_PER_MINUTE'' 0) (\<lambda>rpm.
    bind_res (getInt get ''SNAPTRADE_ACCOUNT_REQUESTS_PER_MINUTE'' 0) (\<lambda>arpm.
    bind_res (getInt get ''SNAPTRADE_RATE_LIMIT_SAFETY_PERCENT'' 80) (\<lambda>safety.
    bind_res (getInt get ''SNAPTRADE_ACTIVITY_PAGE_SIZE'' 1000) (\<lambda>page.
    bind_res (getInt get ''SNAPTRADE_MAX_RETRIES'' 5) (\<lambda>retries.
    bind_res (getInt get ''SNAPTRADE_RETRY_BASE_SECONDS'' 5) (\<lambda>retryBase.
    bind_res (getInt get ''SNAPTRADE_RETRY_MAX_SECONDS'' 300) (\<lambda>retryMax.
    bind_res (getInt get ''SNAPTRADE_INCREMENTAL_OVERLAP_DAYS'' 7) (\<lambda>overlapDays.
    bind_res (getInt get ''SNAPTRADE_REQUEST_TIMEOUT_SECONDS'' 30) (\<lambda>timeoutSeconds.
    bind_res (getInt get ''SNAPTRADE_MANUAL_REFRESH_COOLDOWN_HOURS'' 24) (\<lambda>cooldownHours.
    bind_res (getBool get ''SNAPTRADE_ALLOW_MANUAL_REFRESH'') (\<lambda>manual.
    bind_res (getBool get ''SNAPTRADE_ALLOW_TRANSACTION_SYNC'') (\<lambda>txsync.
    validateSnapTrade lib \<lparr>stc_enabled = enabled,
      stc_auth_mode = to_lower (trim_space (getString get ''SNAPTRADE_AUTH_MODE'' ''auto'')),
      stc_package = to_lower (trim_space (getString get ''SNAPTRADE_PACKAGE'' ''personal'')),
      stc_client_id = trim_space (getString get ''SNAPTRADE_CLIENT_ID'' []),
      stc_consumer_key = trim_space (getString get ''SNAPTRADE_CONSUMER_KEY'' []),
      stc_user_id = trim_space (getString get ''SNAPTRADE_USER_ID'' []),
      stc_user_secret = trim_space (getString get ''SNAPTRADE_USER_SECRET'' []),
      stc_base_url = trim_slashes (trim_space (getString get ''SNAPTRADE_BASE_URL'' ''https://api.snaptrade.com'')),
      stc_account_ids = splitAndTrim (getString get ''SNAPTRADE_ACCOUNT_IDS'' []),
      stc_history_start_date = start_date,
      stc_sync_interval = dur_of syncMinutes dur_minute,
      stc_request_interval = dur_of requestSeconds dur_second,
      stc_requests_per_minute = rpm, stc_account_requests_pm = arpm, stc_safety_percent = safety,
      stc_page_size = page, stc_max_retries = retries,
      stc_retry_base_delay = dur_of retryBase dur_second, stc_retry_max_delay = dur_of retryMax dur_second,
      stc_incremental_overlap = dur_of overlapDays dur_day,
      stc_request_timeout = dur_of timeoutSeconds dur_second,
      stc_allow_manual_refresh = manual, stc_allow_transaction_sync = txsync,
      stc_manual_refresh_cooldown = dur_of cooldownHours dur_hour\<rparr>))))))))))))))))"

section \<open>The whole configuration\<close>

definition required :: "loader \<Rightarrow> string \<Rightarrow> string option" where
  "required get key = (case get key of Some v \<Rightarrow> if v \<noteq> [] then Some v else None | None \<Rightarrow> None)"

definition allowed_emails :: "loader \<Rightarrow> string list" where
  "allowed_emails get =
    (let listed = splitAndTrim (getString get ''ALLOWED_EMAILS'' []);
         emails = (if listed = [] then
             (case get ''SELF_HOSTED_USER_EMAIL'' of
                Some v \<Rightarrow> if trim_space v \<noteq> [] then [trim_space v] else []
              | None \<Rightarrow> [])
           else listed)
     in map to_lower emails)"

definition missing_vars :: "loader \<Rightarrow> string list" where
  "missing_vars get =
     filter (\<lambda>k. required get k = None) [''DATABASE_URL'', ''JWT_SECRET'', ''CONNECT_AUTH_PUBLISHABLE_KEY''] @
     (if allowed_emails get = [] then [''ALLOWED_EMAILS''] else [])"

definition load_futu :: "loader \<Rightarrow> futu_config res" where
  "load_futu get =
    bind_res (getBool get ''FUTU_ENABLED'') (\<lambda>enabled.
    bind_res (getInt get ''FUTU_PORT'' 11111) (\<lambda>port.
    Inr \<lparr>ftc_enabled = enabled, ftc_host = getString get ''FUTU_HOST'' ''127.0.0.1'', ftc_port = port,
      ftc_trade_password = getString get ''FUTU_TRADE_PASSWORD'' [],
      ftc_connection_id = getString get ''FUTU_CONNECTION_ID'' ''wealthfolio-connect'',
      ftc_rsa_key_file = getString get ''FUTU_RSA_KEY_FILE'' []\<rparr>))"

definition load_ibkr :: "loader \<Rightarrow> ibkr_config res" where
  "load_ibkr get =
    bind_res (getBool get ''IBKR_ENABLED'') (\<lambda>enabled.
    bind_res (getInt get ''IBKR_PORT'' 4001) (\<lambda>port.
    bind_res (getInt get ''IBKR_CLIENT_ID'' 17) (\<lambda>clientID.
    Inr \<lparr>ibc_enabled = enabled, ibc_host = getString get ''IBKR_HOST'' ''127.0.0.1'', ibc_port = port,
      ibc_client_id = clientID, ibc_account_id = getString get ''IBKR_ACCOUNT_ID'' []\<rparr>)))"

definition load_crypto :: "loader \<Rightarrow> crypto_config" where
  "load_crypto get = \<lparr>crc_okx_api_key = getString get ''OKX_API_KEY'' [],
     crc_okx_secret = firstNonEmpty get [''OKX_API_SECRET'', ''OKX_SECRET''],
     crc_okx_passphrase = getString get ''OKX_PASSPHRASE'' [],
     crc_binance_api_key = getString get ''BINANCE_API_KEY'' [],
     crc_binance_secret = firstNonEmpty get [''BINANCE_API_SECRET'', ''BINANCE_SECRET''],
     crc_binance_trade_symbols = map to_upper (splitAndTrim (getString get ''BINANCE_TRADE_SYMBOLS'' [])),
     crc_bitget_api_key = getString get ''BITGET_API_KEY'' [],
     crc_bitget_secret = firstNonEmpty get [''BITGET_API_SECRET'', ''BITGET_SECRET''],
     crc_bitget_passphrase = getString get ''BITGET_PASSPHRASE'' [],
     crc_hyperliquid_wallet = getString get ''HYPERLIQUID_WALLET'' [],
     crc_okx_web3_api_key = getString get ''OKX_WEB3_API_KEY'' [],
     crc_okx_web3_secret = firstNonEmpty get [''OKX_WEB3_API_SECRET'', ''OKX_WEB3_SECRET''],
     crc_okx_web3_passphrase = getString get ''OKX_WEB3_PASSPHRASE'' [],
     crc_toncenter_api_key = getString get ''TONCENTER_API_KEY'' [],
     crc_ton_wallets = splitAndTrim (getString get ''TON_WALLETS'' [])\<rparr>"

definition load_wallets :: "config_lib \<Rightarrow> loader \<Rightarrow> defi_wallet list res" where
  "load_wallets lib get = (case get ''DEFI_WALLETS'' of
     None \<Rightarrow> Inr []
   | Some raw \<Rightarrow> if trim_space raw = [] then Inr []
       else case lib_parse_wallets lib raw of
         Inl e \<Rightarrow> Inl (Wrapf ''config: DEFI_WALLETS is not valid JSON'' e)
       | Inr ws \<Rightarrow> Inr ws)"

definition load_steam :: "loader \<Rightarrow> steam_config res" where
  "load_steam get =
    bind_res (getInt get ''STEAM_PRICE_TTL_MINUTES'' 20) (\<lambda>ttl.
    bind_res (getInt get ''STEAM_CURRENCY'' 1) (\<lambda>currency.
    bind_res (getInt get ''STEAM_HISTORY_BUDGET'' 5) (\<lambda>budget.
    bind_res (getFloat get ''STEAM_MIN_ITEM_VALUE_USD'' (Fin 10)) (\<lambda>minValue.
    Inr \<lparr>smc_steam_id = trim_space (getString get ''STEAM_ID'' []),
      smc_api_key = trim_space (getString get ''STEAM_API_KEY'' []),
      smc_session = trim_space (getString get ''STEAM_SESSION'' []),
      smc_refresh_token = trim_space (getString get ''STEAM_REFRESH_TOKEN'' []),
      smc_price_ttl = dur_of ttl dur_minute, smc_currency = currency,
      smc_history_budget = budget, smc_min_item_value_usd = minValue\<rparr>))))"

definition load_from :: "config_lib \<Rightarrow> loader \<Rightarrow> config res" where
  "load_from lib get =
    (if missing_vars get \<noteq> []
     then Inl (ErrText (''config: missing required environment variables: '' @ join_with '', '' (missing_vars get)))
     else
    bind_res (getInt get ''SERVER_PORT'' 8080) (\<lambda>port.
    bind_res (getBool get ''STATIC_TOKEN_MODE'') (\<lambda>static.
    bind_res (getInt get ''TOKEN_TTL_SECONDS'' 3600) (\<lambda>ttlSec.
    bind_res (getInt get ''SYNC_INTERVAL_MINUTES'' 60) (\<lambda>syncMin.
    bind_res (load_futu get) (\<lambda>futu.
    bind_res (load_ibkr get) (\<lambda>ibkr.
    bind_res (loadSnapTrade lib get) (\<lambda>snaptrade.
    bind_res (load_wallets lib get) (\<lambda>wallets.
    bind_res (load_steam get) (\<lambda>steam.
    Inr \<lparr>cfg_database_url = the (required get ''DATABASE_URL''), cfg_jwt_secret = the (required get ''JWT_SECRET''),
      cfg_publishable_key = the (required get ''CONNECT_AUTH_PUBLISHABLE_KEY''),
      cfg_user_emails = allowed_emails get, cfg_static_otp = trim_space (getString get ''STATIC_OTP'' []),
      cfg_server_port = port, cfg_log_level = getString get ''LOG_LEVEL'' ''info'',
      cfg_log_format = getString get ''LOG_FORMAT'' ''console'',
      cfg_cors_origins = splitAndTrim (getString get ''CORS_ORIGINS'' ''*''),
      cfg_static_token_mode = static, cfg_token_ttl = dur_of ttlSec dur_second,
      cfg_sync_interval = dur_of syncMin dur_minute,
      cfg_redis_addr = trim_space (getString get ''REDIS_ADDR'' []), cfg_futu = futu, cfg_ibkr = ibkr,
      cfg_snaptrade = snaptrade, cfg_crypto = load_crypto get, cfg_defi_wallets = wallets,
      cfg_steam = steam\<rparr>))))))))))"

end
