(* ===== verification/Config_Checks.thy ===== *)
theory Config_Checks
  imports Config Auth_Service
begin

text \<open>
  What a loaded configuration guarantees to the components that use it: who may log in, how
  long a token lives, and the bounds of the SnapTrade settings.
\<close>

section \<open>Login\<close>

lemma load_from_success:
  assumes "load_from lib get = Inr cfg"
  shows "missing_vars get = []" and "cfg_user_emails cfg = allowed_emails get"
    and "\<exists>n. getInt get ''TOKEN_TTL_SECONDS'' 3600 = Inr n \<and> cfg_token_ttl cfg = dur_of n dur_second"
    and "loadSnapTrade lib get = Inr (cfg_snaptrade cfg)"
  using assms by (auto simp: load_from_def split: if_splits elim!: bind_res_InrE)

lemma set_splitAndTrim:
  "set (splitAndTrim raw) = {t. t \<noteq> [] \<and> (\<exists>p\<in>set (split_on CHR '','' raw). t = trim_space p)}"
  by (auto simp: splitAndTrim_def)

text \<open>
  Whoever is listed in \<open>ALLOWED_EMAILS\<close> may log in and nobody else: after a
  successful load, an address is accepted exactly when, up to case and surrounding space, it
  is one of the comma-separated entries; blank entries accept nobody.
\<close>

theorem listed_emails_log_in:
  assumes load: "load_from lib get = Inr cfg" and raw: "get ''ALLOWED_EMAILS'' = Some raw"
    and listed: "splitAndTrim raw \<noteq> []" and env: "env_user_emails env = cfg_user_emails cfg"
  shows "is_allowed_email env email \<longleftrightarrow>
    (\<exists>entry\<in>set (split_on CHR '','' raw). trim_space entry \<noteq> [] \<and>
       to_lower (trim_space entry) = to_lower (trim_space email))"
proof -
  have "raw \<noteq> []" using listed by (auto simp: splitAndTrim_def)
  with raw listed have emails: "allowed_emails get = map to_lower (splitAndTrim raw)"
    by (simp add: allowed_emails_def getString_def)
  have ne: "to_lower x = [] \<longleftrightarrow> x = []" for x by (simp add: to_lower_def)
  have "is_allowed_email env email \<longleftrightarrow> to_lower (trim_space email) \<noteq> [] \<and>
      to_lower (trim_space email) \<in> to_lower ` set (splitAndTrim raw)"
    using listed load_from_success(2) [OF load] by (simp add: is_allowed_email_def env emails Let_def)
  also have "\<dots> \<longleftrightarrow> (\<exists>entry\<in>set (split_on CHR '','' raw). trim_space entry \<noteq> [] \<and>
       to_lower (trim_space entry) = to_lower (trim_space email))"
  proof -
    define ps where "ps = set (split_on CHR '','' raw)"
    have "to_lower ` set (splitAndTrim raw) = {to_lower (trim_space p) | p. p \<in> ps \<and> trim_space p \<noteq> []}"
      unfolding set_splitAndTrim ps_def [symmetric] by blast
    then have img: "to_lower (trim_space email) \<in> to_lower ` set (splitAndTrim raw) \<longleftrightarrow>
        (\<exists>p\<in>ps. trim_space p \<noteq> [] \<and> to_lower (trim_space p) = to_lower (trim_space email))"
      by (simp only: mem_Collect_eq) metis
    have "to_lower (trim_space email) \<noteq> []" if "trim_space p \<noteq> []" "to_lower (trim_space p) = to_lower (trim_space email)" for p
      using that(1) ne [of "trim_space p"] unfolding that(2) by simp
    then show ?thesis unfolding ps_def [symmetric] img by metis
  qed
  finally show ?thesis .
qed

section \<open>Token lifetime\<close>

lemma signer_ttl_of_seconds:
  assumes ttl: "env_token_ttl env = dur_of n dur_second"
  shows "0 < n \<and> n \<le> 9223372036 \<Longrightarrow> signer_ttl env = n * dur_second"
    and "- 9223372036 \<le> n \<and> n \<le> 0 \<Longrightarrow> signer_ttl env = dur_hour"
    and "9223372037 \<le> n \<and> n \<le> 18446744073 \<Longrightarrow> signer_ttl env = dur_hour"
proof -
  show "0 < n \<and> n \<le> 9223372036 \<Longrightarrow> signer_ttl env = n * dur_second"
    using wrap64_id [of "n * dur_second"] by (simp add: signer_ttl_def ttl dur_of_def)
  show "- 9223372036 \<le> n \<and> n \<le> 0 \<Longrightarrow> signer_ttl env = dur_hour"
    using wrap64_id [of "n * dur_second"] by (simp add: signer_ttl_def ttl dur_of_def)
  assume n: "9223372037 \<le> n \<and> n \<le> 18446744073"
  let ?k = "n * dur_second + 2 ^ 63"
  have "?k = 2 ^ 64 * 1 + (?k - 2 ^ 64)" "0 \<le> ?k - 2 ^ 64" "?k - 2 ^ 64 < 2 ^ 64" using n by simp_all
  from int_mod_pos_eq [OF this(1) this(2,3)] have "wrap64 (n * dur_second) = n * dur_second - 2 ^ 64"
    by (simp add: wrap64_def)
  with n show "signer_ttl env = dur_hour" by (simp add: signer_ttl_def ttl dur_of_def)
qed

text \<open>
  \<open>TOKEN_TTL_SECONDS\<close> is the lifetime of an access token for every value from 1 to
  9223372036 seconds; zero and negative values mean one hour, and so do the values from
  9223372037 to 18446744073, where the product with a second overflows \<open>int64\<close> and the
  configured lifetime is silently replaced.
\<close>

theorem token_ttl_bounds:
  assumes load: "load_from lib get = Inr cfg" and set: "get ''TOKEN_TTL_SECONDS'' = Some (itoa n)"
    and env: "env_token_ttl env = cfg_token_ttl cfg"
  shows "(0 < n \<and> n \<le> 9223372036 \<longrightarrow> signer_ttl env = n * dur_second \<and> signer_ttl env div dur_second = n) \<and>
    (- 9223372036 \<le> n \<and> n \<le> 0 \<longrightarrow> signer_ttl env = dur_hour) \<and>
    (9223372037 \<le> n \<and> n \<le> 18446744073 \<longrightarrow> signer_ttl env = dur_hour)"
proof (cases "- (2 ^ 63) \<le> n \<and> n < 2 ^ 63")
  case True
  have "itoa n \<noteq> []" by (simp add: itoa_def)
  with True set have "getInt get ''TOKEN_TTL_SECONDS'' 3600 = Inr n"
    by (simp add: getInt_def parse_int_itoa)
  with load_from_success(3) [OF load] env have "env_token_ttl env = dur_of n dur_second" by auto
  from signer_ttl_of_seconds [OF this] show ?thesis by auto
qed auto

section \<open>SnapTrade\<close>

lemma validateSnapTrade_success:
  assumes "validateSnapTrade lib c0 = Inr c"
  shows "c = resolve_auth_mode c0 \<and> stc_auth_mode c0 \<in> {''auto'', ''personal'', ''commercial''} \<and>
    (stc_user_id c0 \<noteq> [] \<longleftrightarrow> stc_user_secret c0 \<noteq> []) \<and>
    (stc_enabled c \<longrightarrow> stc_client_id c \<noteq> [] \<and> stc_consumer_key c \<noteq> [] \<and>
       (stc_auth_mode c = ''commercial'' \<longrightarrow> stc_user_id c \<noteq> [] \<and> stc_user_secret c \<noteq> [])) \<and>
    dur_hour \<le> stc_sync_interval c \<and> 0 \<le> stc_request_interval c \<and>
    0 \<le> stc_requests_per_minute c \<and> 0 \<le> stc_account_requests_pm c \<and>
    1 \<le> stc_safety_percent c \<and> stc_safety_percent c \<le> 95 \<and> 1 \<le> stc_page_size c \<and> stc_page_size c \<le> 1000 \<and>
    0 \<le> stc_max_retries c \<and> 0 < stc_retry_base_delay c \<and> stc_retry_base_delay c \<le> stc_retry_max_delay c \<and>
    0 \<le> stc_incremental_overlap c \<and> 0 < stc_request_timeout c \<and> dur_hour \<le> stc_manual_refresh_cooldown c"
  using assms unfolding validateSnapTrade_def Let_def
  by (simp split: if_splits option.splits)

text \<open>
  A configuration that loads never sends SnapTrade out of its limits: the resolved mode
  is personal or commercial (with both credentials), pages hold 1 to 1000 rows, at most 95% of
  the rate limit is used, retries start from a positive delay that is at most the largest one,
  an account is synced at most hourly, and timeouts are positive.
\<close>

theorem snaptrade_bounds:
  assumes load: "load_from lib get = Inr cfg" and c: "c = cfg_snaptrade cfg"
  shows "stc_auth_mode c \<in> {''personal'', ''commercial''} \<and>
    (stc_enabled c \<longrightarrow> stc_client_id c \<noteq> [] \<and> stc_consumer_key c \<noteq> [] \<and>
       (stc_auth_mode c = ''commercial'' \<longrightarrow> stc_user_id c \<noteq> [] \<and> stc_user_secret c \<noteq> [])) \<and>
    1 \<le> stc_page_size c \<and> stc_page_size c \<le> 1000 \<and> 1 \<le> stc_safety_percent c \<and> stc_safety_percent c \<le> 95 \<and>
    0 \<le> stc_max_retries c \<and> 0 < stc_retry_base_delay c \<and> stc_retry_base_delay c \<le> stc_retry_max_delay c \<and>
    dur_hour \<le> stc_sync_interval c \<and> 0 \<le> stc_request_interval c \<and> 0 < stc_request_timeout c \<and>
    dur_hour \<le> stc_manual_refresh_cooldown c"
proof -
  obtain c0 where v: "validateSnapTrade lib c0 = Inr c"
    using load_from_success(4) [OF load] unfolding c loadSnapTrade_def by (elim bind_res_InrE) blast
  note s = validateSnapTrade_success [OF v]
  then have "stc_auth_mode c \<in> {''personal'', ''commercial''}"
    by (auto simp: resolve_auth_mode_def)
  with s show ?thesis by (elim conjE, intro conjI) assumption+
qed

section \<open>A concrete environment\<close>

definition sample_lib :: config_lib where
  "sample_lib = \<lparr>lib_parse_url = (\<lambda>u. if has_prefix u ''https://''
       then Some \<lparr>url_scheme = ''https'', url_host = drop 8 u, url_hostname = drop 8 u\<rparr> else None),
     lib_parse_wallets = (\<lambda>_. Inr [])\<rparr>"

definition sample_loader :: loader where
  "sample_loader = map_of [(''DATABASE_URL'', ''postgres''), (''JWT_SECRET'', ''k''),
     (''CONNECT_AUTH_PUBLISHABLE_KEY'', ''pk''), (''ALLOWED_EMAILS'', '' Bob@X.io , ,eve@x.io''),
     (''TOKEN_TTL_SECONDS'', ''9223372037'')]"

lemma sample_load: "\<exists>cfg. load_from sample_lib sample_loader = Inr cfg"
proof -
  have "map_sum (\<lambda>_. ()) cfg_user_emails (load_from sample_lib sample_loader) = Inr [''bob@x.io'', ''eve@x.io'']"
    by code_simp
  then show ?thesis by (cases "load_from sample_lib sample_loader") auto
qed

theorem listed_emails_log_in_witness:
  "\<exists>cfg. load_from sample_lib sample_loader = Inr cfg \<and>
     is_allowed_email (demo_env\<lparr>env_user_emails := cfg_user_emails cfg\<rparr>) ''BOB@x.IO ''"
proof -
  obtain cfg where load: "load_from sample_lib sample_loader = Inr cfg" using sample_load by blast
  have raw: "sample_loader ''ALLOWED_EMAILS'' = Some '' Bob@X.io , ,eve@x.io''" by code_simp
  have listed: "splitAndTrim '' Bob@X.io , ,eve@x.io'' \<noteq> []" by code_simp
  have parts: "split_on CHR '','' '' Bob@X.io , ,eve@x.io'' = ['' Bob@X.io '', '' '', ''eve@x.io'']" by code_simp
  have same: "to_lower (trim_space '' Bob@X.io '') = to_lower (trim_space ''BOB@x.IO '')"
    "trim_space '' Bob@X.io '' \<noteq> []" by code_simp+
  have "is_allowed_email (demo_env\<lparr>env_user_emails := cfg_user_emails cfg\<rparr>) ''BOB@x.IO ''"
    by (rule listed_emails_log_in [OF load raw listed, THEN iffD2])
      (use same in \<open>auto simp: parts\<close>)
  with load show ?thesis by blast
qed

theorem token_ttl_bounds_witness:
  "\<exists>cfg. load_from sample_lib sample_loader = Inr cfg \<and>
     signer_ttl (demo_env\<lparr>env_token_ttl := cfg_token_ttl cfg\<rparr>) = dur_hour"
proof -
  obtain cfg where load: "load_from sample_lib sample_loader = Inr cfg" using sample_load by blast
  have set: "sample_loader ''TOKEN_TTL_SECONDS'' = Some (itoa 9223372037)" by code_simp
  from token_ttl_bounds [OF load set, of "demo_env\<lparr>env_token_ttl := cfg_token_ttl cfg\<rparr>"] load
  show ?thesis by auto
qed

theorem snaptrade_bounds_witness:
  "\<exists>cfg. load_from sample_lib sample_loader = Inr cfg \<and> stc_page_size (cfg_snaptrade cfg) \<le> 1000"
proof -
  obtain cfg where load: "load_from sample_lib sample_loader = Inr cfg" using sample_load by blast
  from snaptrade_bounds [OF load refl] load show ?thesis by blast
qed

end
