(* ===== verification/Cex_Common.thy ===== *)
theory Cex_Common
  imports Brokerage_Domain
begin

text \<open>
  The translation every exchange client shares, \<open>clients/cexcommon/cexcommon.go\<close>:
  balances and trades of an exchange become one account, its holdings and the two legs of
  each trade. The Tether sign is the byte sequence E2 82 AE of its UTF-8 form.
\<close>

section \<open>Data\<close>

record cex_balance =
  cxb_asset :: string
  cxb_quantity :: f64
  cxb_price_usd :: f64
  cxb_usd_value :: f64

record cex_trade =
  cxt_id :: string
  cxt_symbol :: string
  cxt_base_asset :: string
  cxt_quote_asset :: string
  cxt_side :: string
  cxt_price :: f64
  cxt_quantity :: f64
  cxt_fee :: f64
  cxt_fee_asset :: string
  cxt_note :: string
  cxt_timestamp :: time

record cex_snapshot =
  cxs_balances :: "cex_balance list"
  cxs_trades :: "cex_trade list"
  cxs_activities_fetched :: bool
  cxs_partial :: bool
  cxs_fee_price :: "(string \<Rightarrow> time \<Rightarrow> f64) option"

section \<open>Symbols\<close>

definition quoteUSD :: string where "quoteUSD = ''USD''"

definition usd_tugrik :: string where
  "usd_tugrik = ''USD'' @ [CHR 0xE2, CHR 0x82, CHR 0xAE]"

definition NormalizeAsset :: "string \<Rightarrow> string" where
  "NormalizeAsset s0 = (let s = to_upper (trim_space s0) in
     if s = usd_tugrik @ ''0'' \<or> s = usd_tugrik then ''USDT''
     else if s = ''AFFUSDE'' then ''AFFSENTORAENT''
     else s)"

definition IsStablecoin :: "string \<Rightarrow> bool" where
  "IsStablecoin s \<longleftrightarrow> NormalizeAsset s \<in>
     {''USDT'', ''USDC'', ''DAI'', ''BUSD'', ''TUSD'', ''FRAX'', quoteUSD, ''USDD'', ''PYUSD''}"

definition pair_quotes :: "string list" where
  "pair_quotes = [usd_tugrik @ ''0'', ''USDT'', ''USDC'', ''BUSD'', ''USDS'', quoteUSD, ''BTC'', ''ETH'', ''BNB'', ''SOL'']"

text \<open>The first known quote that is a proper suffix of a concatenated symbol.\<close>

fun split_suffix :: "string list \<Rightarrow> string \<Rightarrow> (string \<times> string) option" where
  "split_suffix [] s = None"
| "split_suffix (q # qs) s =
     (if has_suffix s q \<and> length s > length q then Some (trim_suffix s q, q) else split_suffix qs s)"

definition splitPair :: "string \<Rightarrow> string \<times> string" where
  "splitPair pair0 = (let pair = to_upper (trim_space pair0) in
     case split_on CHR ''-'' pair of
       [a, b] \<Rightarrow> if a \<noteq> [] \<and> b \<noteq> [] then (a, b)
         else (case split_suffix pair_quotes (remove_char CHR ''-'' pair) of None \<Rightarrow> ([], []) | Some r \<Rightarrow> r)
     | _ \<Rightarrow> (case split_suffix pair_quotes (remove_char CHR ''-'' pair) of None \<Rightarrow> ([], []) | Some r \<Rightarrow> r))"

definition quoteSuffixes :: "string list" where
  "quoteSuffixes = [''USDT'', ''USDC'', ''FDUSD'', ''USDS'', ''TUSD'', ''DAI'', ''FRAX'', ''BUSD'', ''USDD'',
     ''PYUSD'', quoteUSD, ''EUR'', ''GBP'', ''BTC'', ''ETH'', ''BNB'', ''SOL'']"

definition tradeBaseAsset :: "string \<Rightarrow> string" where
  "tradeBaseAsset symbol = (let sym = to_upper (trim_space symbol); a = takeWhile (\<lambda>c. c \<noteq> CHR ''-'') sym in
     if a \<noteq> [] \<and> a \<noteq> sym then a
     else case split_suffix quoteSuffixes sym of None \<Rightarrow> [] | Some (b, _) \<Rightarrow> b)"

section \<open>Fees\<close>

definition normalizeFee :: "cex_trade \<Rightarrow> (string \<Rightarrow> time \<Rightarrow> f64) option \<Rightarrow> f64 \<times> string" where
  "normalizeFee t priceFn =
    (let feeAsset = to_upper (trim_space (cxt_fee_asset t)); base = tradeBaseAsset (cxt_symbol t) in
     if f64_eq (cxt_fee t) (Fin 0) then
       (if trim_space (cxt_fee_asset t) = [] then (Fin 0, quoteUSD) else (Fin 0, feeAsset))
     else if feeAsset = [] then (cxt_fee t, quoteUSD)
     else if IsStablecoin feeAsset then (cxt_fee t, quoteUSD)
     else if base \<noteq> [] \<and> feeAsset = base then
       (if time_is_zero (cxt_timestamp t) then (Fin 0, quoteUSD) else (f64_mul (cxt_fee t) (cxt_price t), quoteUSD))
     else case priceFn of
       Some f \<Rightarrow> if f64_gt (f feeAsset (cxt_timestamp t)) (Fin 0)
         then (f64_mul (cxt_fee t) (f feeAsset (cxt_timestamp t)), quoteUSD) else (Fin 0, quoteUSD)
     | None \<Rightarrow> (Fin 0, quoteUSD))"

section \<open>Activities\<close>

definition newTradeActivity ::
  "cex_trade \<Rightarrow> string \<Rightarrow> string \<Rightarrow> string \<Rightarrow> f64 \<Rightarrow> f64 \<Rightarrow> f64 \<Rightarrow> string \<Rightarrow> string \<Rightarrow> string \<Rightarrow> activity" where
  "newTradeActivity t accountID asset activityType units amount fee feeAsset slug leg =
    (let price = (if \<not> f64_eq units (Fin 0) then f64_div amount units else Fin 0);
         q = NormalizeAsset (cxt_quote_asset t);
         foreign = (q \<noteq> [] \<and> q \<noteq> quoteUSD \<and> \<not> IsStablecoin q);
         currency = (if foreign then \<lparr>cur_code = q, cur_name = []\<rparr> else \<lparr>cur_code = quoteUSD, cur_name = []\<rparr>);
         desc0 = (if foreign then ''Quoted in '' @ q @ ''; no USD conversion applied'' else []);
         desc = (if cxt_note t = [] then desc0 else (if desc0 = [] then [] else desc0 @ ''; '') @ cxt_note t)
     in zero_activity\<lparr>act_id := cxt_id t @ ''-'' @ leg, act_account_id := accountID, act_type := activityType,
          act_trade_date := cxt_timestamp t, act_price := price, act_units := units, act_amount := amount,
          act_fee := fee, act_fee_asset := feeAsset, act_currency := currency,
          act_symbol := Some (zero_symbol\<lparr>sym_symbol := asset, sym_raw_symbol := asset,
             sym_type := \<lparr>sty_code = ''CRYPTO'', sty_description = [], sty_is_supported = True\<rparr>,
             sym_exchange := \<lparr>exc_code = to_upper slug, exc_mic_code = [], exc_name = [], exc_suffix = []\<rparr>,
             sym_currency := currency\<rparr>),
          act_description := desc, act_needs_review := (foreign \<or> cxt_note t \<noteq> []),
          act_raw_type := to_upper activityType, act_provider_type := slug, act_source_system := slug,
          act_source_record_id := cxt_id t @ ''-'' @ leg, act_source_group_id := cxt_id t\<rparr>)"

text \<open>The base and quote of a trade: its own fields, or the symbol's.\<close>

definition resolve_pair :: "cex_trade \<Rightarrow> string \<times> string" where
  "resolve_pair t = (if cxt_base_asset t = [] \<or> cxt_quote_asset t = [] then splitPair (cxt_symbol t)
     else (cxt_base_asset t, cxt_quote_asset t))"

text \<open>One turn of the trade loop: nothing for an unresolved pair, otherwise the two legs.\<close>

definition trade_legs ::
  "string \<Rightarrow> string \<Rightarrow> (string \<Rightarrow> time \<Rightarrow> f64) option \<Rightarrow> cex_trade \<Rightarrow> activity list" where
  "trade_legs slug accountID feePrice t0 =
    (case resolve_pair t0 of (base, quote) \<Rightarrow>
     if base = [] \<or> quote = [] then []
     else
       let t = t0\<lparr>cxt_base_asset := base, cxt_quote_asset := quote\<rparr>;
           value = f64_mul (cxt_price t) (cxt_quantity t);
           buy = (\<not> equal_fold (cxt_side t) ''sell'');
           quoteType = (if buy then ActivitySell else ActivityBuy);
           baseType = (if buy then ActivityBuy else ActivitySell);
           (fee, feeAsset) = normalizeFee (t\<lparr>cxt_symbol := base @ ''-'' @ quote\<rparr>) feePrice;
           quoteLeg = newTradeActivity t accountID (NormalizeAsset quote) quoteType value value (Fin 0) [] slug ''quote'';
           baseLeg = newTradeActivity t accountID (NormalizeAsset base) baseType (cxt_quantity t) value fee feeAsset slug ''base''
       in if buy then [quoteLeg, baseLeg] else [baseLeg, quoteLeg])"

section \<open>Holdings\<close>

definition crypto_symbol :: "string \<Rightarrow> string \<Rightarrow> string \<Rightarrow> symbol" where
  "crypto_symbol slug displayName asset = zero_symbol\<lparr>sym_symbol := asset, sym_raw_symbol := asset,
     sym_description := asset, sym_name := asset,
     sym_type := \<lparr>sty_code = ''CRYPTO'', sty_description = ''Cryptocurrency'', sty_is_supported = True\<rparr>,
     sym_exchange := \<lparr>exc_code = to_upper slug, exc_mic_code = [], exc_name = displayName, exc_suffix = []\<rparr>,
     sym_currency := \<lparr>cur_code = quoteUSD, cur_name = []\<rparr>\<rparr>"

definition unvaluedPosition :: "string \<Rightarrow> string \<Rightarrow> string \<Rightarrow> f64 \<Rightarrow> position" where
  "unvaluedPosition slug displayName asset qty = zero_position\<lparr>
     pos_symbol := crypto_symbol slug displayName asset, pos_units := qty,
     pos_currency := \<lparr>cur_code = quoteUSD, cur_name = []\<rparr>\<rparr>"

text \<open>One turn of the balance loop over the cash total and the positions so far.\<close>

definition fold_balance ::
  "string \<Rightarrow> string \<Rightarrow> f64 \<times> position list \<Rightarrow> cex_balance \<Rightarrow> f64 \<times> position list" where
  "fold_balance slug displayName acc b =
    (case acc of (cash, ps) \<Rightarrow>
     if f64_eq (cxb_quantity b) (Fin 0) then (cash, ps)
     else let asset = NormalizeAsset (cxb_asset b) in
       if IsStablecoin asset then (f64_add cash (cxb_usd_value b), ps)
       else if f64_eq (cxb_price_usd b) (Fin 0) \<and> f64_eq (cxb_usd_value b) (Fin 0)
       then (cash, ps @ [unvaluedPosition slug displayName asset (cxb_quantity b)])
       else if f64_lt (cxb_usd_value b) (Fin 1) then (cash, ps)
       else (cash, ps @ [zero_position\<lparr>pos_symbol := crypto_symbol slug displayName asset,
          pos_units := cxb_quantity b, pos_price := cxb_price_usd b,
          pos_currency := \<lparr>cur_code = quoteUSD, cur_name = []\<rparr>\<rparr>]))"

definition cex_translate :: "time \<Rightarrow> string \<Rightarrow> string \<Rightarrow> cex_snapshot \<Rightarrow> broker_snapshot" where
  "cex_translate now slug displayName s =
    (let accountID = slug @ ''-spot'';
         totalUSD = foldl (\<lambda>x b. f64_add x (cxb_usd_value b)) (Fin 0) (cxs_balances s);
         account = zero_account\<lparr>acc_id := accountID, acc_name := displayName @ '' Spot'',
           acc_type := AccountTypeCryptocurrency, acc_raw_type := ''CRYPTO_SPOT'', acc_currency := quoteUSD,
           acc_balance_total := totalUSD, acc_balance_currency := quoteUSD,
           acc_brokerage_authorization := slug @ ''-auth'', acc_institution_name := displayName,
           acc_sync_enabled := True, acc_status := ''open'', acc_created_date := now,
           acc_last_holdings_sync := Some now, acc_initial_tx_sync_done := cxs_activities_fetched s,
           acc_initial_holdings_done := True,
           acc_last_tx_sync := (if cxs_activities_fetched s then Some now else None)\<rparr>;
         connection = zero_connection\<lparr>con_id := slug @ ''-conn'', con_authorization_id := slug @ ''-auth'',
           con_brokerage_name := displayName, con_brokerage_slug := slug, con_display_name := displayName,
           con_name := displayName, con_status := ConnectionActive, con_updated_at := now\<rparr>;
         (cash, positions) = foldl (fold_balance slug displayName) (Fin 0, []) (cxs_balances s);
         holding = zero_holdings\<lparr>hol_account_id := accountID,
           hol_balances := [\<lparr>bal_currency = \<lparr>cur_code = quoteUSD, cur_name = []\<rparr>, bal_cash = cash, bal_buying_power = Fin 0\<rparr>],
           hol_positions := positions, hol_captured_at := now, hol_partial := cxs_partial s\<rparr>
     in zero_snapshot\<lparr>snap_connection := connection, snap_accounts := [account], snap_holdings := [holding],
          snap_activities := (if cxs_trades s = [] then []
            else [(accountID, concat (map (trade_legs slug accountID (cxs_fee_price s)) (cxs_trades s)))])\<rparr>)"

section \<open>Trades as pairs of legs\<close>

definition pair_resolved :: "cex_trade \<Rightarrow> bool" where
  "pair_resolved t \<longleftrightarrow> fst (resolve_pair t) \<noteq> [] \<and> snd (resolve_pair t) \<noteq> []"

lemma newTradeActivity_simps [simp]:
  "act_source_group_id (newTradeActivity t a asset ty units amount fee fa slug leg) = cxt_id t"
  "act_source_record_id (newTradeActivity t a asset ty units amount fee fa slug leg) = cxt_id t @ ''-'' @ leg"
  "act_id (newTradeActivity t a asset ty units amount fee fa slug leg) = cxt_id t @ ''-'' @ leg"
  "act_units (newTradeActivity t a asset ty units amount fee fa slug leg) = units"
  "act_amount (newTradeActivity t a asset ty units amount fee fa slug leg) = amount"
  "act_type (newTradeActivity t a asset ty units amount fee fa slug leg) = ty"
  "act_source_fingerprint (newTradeActivity t a asset ty units amount fee fa slug leg) = []"
  by (simp_all add: newTradeActivity_def Let_def zero_activity_def)

lemma trade_legs_cases:
  obtains (skipped) "\<not> pair_resolved t" "trade_legs slug a f t = []"
  | (legs) out_leg in_leg where "pair_resolved t" "trade_legs slug a f t = [out_leg, in_leg]"
      "act_type out_leg = ActivitySell" "act_type in_leg = ActivityBuy"
      "act_source_group_id out_leg = cxt_id t" "act_source_group_id in_leg = cxt_id t"
      "act_amount out_leg = f64_mul (cxt_price t) (cxt_quantity t)"
      "act_amount in_leg = f64_mul (cxt_price t) (cxt_quantity t)"
      "{act_source_record_id out_leg, act_source_record_id in_leg} = {cxt_id t @ ''-quote'', cxt_id t @ ''-base''}"
      "act_id out_leg = act_source_record_id out_leg" "act_id in_leg = act_source_record_id in_leg"
proof (cases "pair_resolved t")
  case False
  then have "trade_legs slug a f t = []"
    by (auto simp: trade_legs_def pair_resolved_def split: prod.splits)
  with False skipped show ?thesis by blast
next
  case True
  obtain b q where bq: "resolve_pair t = (b, q)" by fastforce
  obtain fee fa where fee: "normalizeFee (t\<lparr>cxt_base_asset := b, cxt_quote_asset := q, cxt_symbol := b @ ''-'' @ q\<rparr>) f = (fee, fa)"
    by fastforce
  show ?thesis
  proof (cases "equal_fold (cxt_side t) ''sell''")
    case sell: True
    show ?thesis by (rule legs) (use True bq fee sell in \<open>auto simp: trade_legs_def pair_resolved_def Let_def\<close>)
  next
    case False
    show ?thesis by (rule legs) (use True bq fee False in \<open>auto simp: trade_legs_def pair_resolved_def Let_def\<close>)
  qed
qed

definition cex_activities :: "string \<Rightarrow> cex_snapshot \<Rightarrow> activity list" where
  "cex_activities slug s = concat (map (trade_legs slug (slug @ ''-spot'') (cxs_fee_price s)) (cxs_trades s))"

lemma translate_activities:
  "snap_activities (cex_translate now slug displayName s) =
     (if cxs_trades s = [] then [] else [(slug @ ''-spot'', cex_activities slug s)])"
  by (simp add: cex_translate_def Let_def cex_activities_def split: prod.splits)

lemma leg_ids_differ: "a @ ''-quote'' \<noteq> b @ ''-base''"
proof
  assume "a @ ''-quote'' = b @ ''-base''"
  then have "rev (a @ ''-quote'') = rev (b @ ''-base'')" by simp
  then show False by simp
qed

lemma trade_legs_ids:
  "act_source_record_id ` set (trade_legs slug a f t) \<subseteq> {cxt_id t @ ''-quote'', cxt_id t @ ''-base''}"
  by (rule trade_legs_cases [of t slug a f]) auto

lemma distinct_leg_ids: "distinct (map act_source_record_id (trade_legs slug a f t))"
proof (rule trade_legs_cases [of t slug a f])
  fix out_leg in_leg
  assume "trade_legs slug a f t = [out_leg, in_leg]"
    "{act_source_record_id out_leg, act_source_record_id in_leg} = {cxt_id t @ ''-quote'', cxt_id t @ ''-base''}"
  then show ?thesis using leg_ids_differ [of "cxt_id t" "cxt_id t"] by (auto simp: doubleton_eq_iff)
qed simp

lemma distinct_legs:
  "distinct (map cxt_id ts) \<Longrightarrow> distinct (map act_source_record_id (concat (map (trade_legs slug a f) ts)))"
proof (induction ts)
  case (Cons t ts)
  have "x \<noteq> y" if "x \<in> act_source_record_id ` set (trade_legs slug a f t)"
    "y \<in> act_source_record_id ` set (trade_legs slug a f u)" "u \<in> set ts" for x y u
  proof -
    have "cxt_id u \<in> cxt_id ` set ts" using that(3) by (rule imageI)
    with Cons.prems have "cxt_id u \<noteq> cxt_id t" by auto
    then show ?thesis
      using trade_legs_ids [of slug a f t] trade_legs_ids [of slug a f u] that(1,2)
        leg_ids_differ [of "cxt_id t" "cxt_id u"] leg_ids_differ [of "cxt_id u" "cxt_id t"] by fastforce
  qed
  with Cons show ?case by (auto simp: distinct_leg_ids)
qed simp

lemma types_of_legs:
  "map act_type (concat (map (trade_legs slug a f) ts)) =
     concat (map (\<lambda>_. [ActivitySell, ActivityBuy]) (filter pair_resolved ts))"
proof (induction ts)
  case (Cons t ts)
  then show ?case by (cases rule: trade_legs_cases [of t slug a f]) auto
qed simp


section \<open>Balances\<close>

definition balance_kept :: "cex_balance \<Rightarrow> bool" where
  "balance_kept b \<longleftrightarrow> \<not> f64_eq (cxb_quantity b) (Fin 0) \<and> \<not> IsStablecoin (NormalizeAsset (cxb_asset b)) \<and>
     (cxb_price_usd b = Fin 0 \<and> cxb_usd_value b = Fin 0 \<or> \<not> f64_lt (cxb_usd_value b) (Fin 1))"

definition balance_is_cash :: "cex_balance \<Rightarrow> bool" where
  "balance_is_cash b \<longleftrightarrow> \<not> f64_eq (cxb_quantity b) (Fin 0) \<and> IsStablecoin (NormalizeAsset (cxb_asset b))"

definition position_view :: "position \<Rightarrow> string \<times> f64 \<times> f64 \<times> f64" where
  "position_view p = (sym_symbol (pos_symbol p), pos_units p, pos_price p, pos_average_purchase_price p)"

lemma fold_balances:
  "foldl (fold_balance slug d) (cash, ps) bs = (cash', ps') \<Longrightarrow>
   cash' = foldl (\<lambda>x b. f64_add x (cxb_usd_value b)) cash (filter balance_is_cash bs) \<and>
   map position_view ps' = map position_view ps @
     map (\<lambda>b. (NormalizeAsset (cxb_asset b), cxb_quantity b, cxb_price_usd b, Fin 0)) (filter balance_kept bs)"
proof (induction bs arbitrary: cash ps)
  case (Cons b bs)
  obtain c1 p1 where step: "fold_balance slug d (cash, ps) b = (c1, p1)" by fastforce
  have "c1 = (if balance_is_cash b then f64_add cash (cxb_usd_value b) else cash) \<and>
      map position_view p1 = map position_view ps @
        (if balance_kept b then [(NormalizeAsset (cxb_asset b), cxb_quantity b, cxb_price_usd b, Fin 0)] else [])"
    using step
    by (auto simp: fold_balance_def Let_def balance_is_cash_def balance_kept_def position_view_def
        unvaluedPosition_def crypto_symbol_def zero_position_def split: if_splits)
  with Cons.IH [of c1 p1] Cons.prems step show ?case by auto
qed simp

text \<open>
  C18. No holding disappears: a snapshot's positions are exactly the assets with a quantity
  that are neither stablecoins nor known to be worth less than a dollar, in the order of the
  feed, with their quantity, their price (zero when unknown) and no invented cost; stablecoins
  are summed into the one cash balance.
\<close>

theorem no_holding_disappears:
  "\<exists>h. snap_holdings (cex_translate now slug displayName s) = [h] \<and> hol_account_id h = slug @ ''-spot'' \<and>
     map position_view (hol_positions h) = map (\<lambda>b. (NormalizeAsset (cxb_asset b), cxb_quantity b, cxb_price_usd b, Fin 0))
       (filter balance_kept (cxs_balances s)) \<and>
     map bal_cash (hol_balances h) =
       [foldl (\<lambda>x b. f64_add x (cxb_usd_value b)) (Fin 0) (filter balance_is_cash (cxs_balances s))] \<and>
     hol_partial h = cxs_partial s"
proof -
  obtain cash ps where f: "foldl (fold_balance slug displayName) (Fin 0, []) (cxs_balances s) = (cash, ps)" by fastforce
  from fold_balances [OF f] show ?thesis by (simp add: cex_translate_def Let_def f)
qed

definition sample_trade :: "string \<Rightarrow> string \<Rightarrow> string \<Rightarrow> cex_trade" where
  "sample_trade i symbol side = \<lparr>cxt_id = i, cxt_symbol = symbol, cxt_base_asset = [], cxt_quote_asset = [],
     cxt_side = side, cxt_price = Fin 2, cxt_quantity = Fin 3, cxt_fee = Fin 1, cxt_fee_asset = ''BNB'',
     cxt_note = [], cxt_timestamp = 5\<rparr>"

definition sample_fills :: cex_snapshot where
  "sample_fills = \<lparr>cxs_balances = [], cxs_trades = [sample_trade ''t1'' ''BTCUSDT'' ''buy'',
     sample_trade ''t2'' ''XRP-DOT'' ''SELL'', sample_trade ''t3'' ''XRPDOT'' ''buy''],
     cxs_activities_fetched = True, cxs_partial = False, cxs_fee_price = None\<rparr>"


end
