(* ===== verification/Steam_Repo.thy ===== *)
theory Steam_Repo
  imports Store_Repos
begin

text \<open>
  The Steam collectible tables (\<open>persistence/steam_model.go\<close>) and their rows
  (\<open>domain/repository/repository.go\<close>): inventory snapshots, provenance events, market and
  trade rows, acquisition lots and per-asset acquisition records. The state extends the
  database of \<open>Persistence_Repos\<close> by the seven tables; a persistence object is its domain row
  extended by the columns the row lacks, so \<open>truncate\<close> and \<open>extend\<close> are the conversions.

  GORM writes the declared default of a column in the place of a zero value, so an amount or a
  quantity of zero is stored as one (\<open>default_one\<close>). Lists read without \<open>ORDER BY\<close> come in
  insertion order. The trade assets are opaque JSON texts.
\<close>

section \<open>Rows and tables\<close>

record steam_asset_row =
  sar_asset_id :: string
  sar_class_id :: string
  sar_instance_id :: string
  sar_market_hash_name :: string
  sar_amount :: int

record steam_snapshot_asset_po = steam_asset_row +
  sar_snapshot_id :: string

record steam_snapshot_po =
  ssn_id :: string
  ssn_steam_id :: string
  ssn_taken_at :: time
  ssn_complete :: bool

record steam_inventory_snapshot = steam_snapshot_po +
  ssn_assets :: "steam_asset_row list"

record steam_event_row =
  sev_external_id :: string
  sev_timestamp :: time
  sev_kind :: string
  sev_market_hash_name :: string
  sev_quantity :: int
  sev_asset_id :: string
  sev_matched :: bool

record steam_event_po = steam_event_row +
  sev_steam_id :: string

record steam_market_row =
  smk_external_id :: string
  smk_type :: string
  smk_timestamp :: time
  smk_market_hash_name :: string
  smk_class_id :: string
  smk_instance_id :: string
  smk_quantity :: int
  smk_gross :: f64
  smk_net :: "f64 option"
  smk_currency :: string

record steam_market_tx_po = steam_market_row +
  smk_steam_id :: string

record steam_trade_row =
  stv_trade_id :: string
  stv_timestamp :: time
  stv_other_steam_id :: string
  stv_status :: string
  stv_given_json :: string
  stv_received_json :: string

record steam_trade_po = steam_trade_row +
  stv_steam_id :: string

record steam_lot_row =
  slt_id :: string
  slt_market_hash_name :: string
  slt_quantity :: int
  slt_acquired_at :: time
  slt_unit_cost :: "f64 option"
  slt_cost_currency :: string
  slt_source :: string
  slt_reference :: string

record steam_lot_po = steam_lot_row +
  slt_steam_id :: string

record steam_acquisition_row =
  saq_asset_id :: string
  saq_market_hash_name :: string
  saq_acquired_at :: "time option"
  saq_type :: string
  saq_reference :: string
  saq_cost_basis :: "f64 option"
  saq_cost_currency :: string
  saq_match_method :: string
  saq_match_confidence :: string

record steam_acquisition_po = steam_acquisition_row +
  saq_steam_id :: string

record steam_asset_state = steam_asset_row +
  sst_first_seen_at :: time
  sst_last_seen_at :: time
  sst_acquired_at :: "time option"
  sst_type :: string
  sst_reference :: string
  sst_cost_basis :: "f64 option"
  sst_cost_currency :: string
  sst_match_method :: string
  sst_match_confidence :: string

record steam_db = db +
  sdb_snapshots :: "steam_snapshot_po list"
  sdb_snapshot_assets :: "steam_snapshot_asset_po list"
  sdb_events :: "steam_event_po list"
  sdb_market_txs :: "steam_market_tx_po list"
  sdb_trades :: "steam_trade_po list"
  sdb_lots :: "steam_lot_po list"
  sdb_acquisitions :: "steam_acquisition_po list"

text \<open>The unique indexes.\<close>

definition asset_line_key :: "steam_snapshot_asset_po \<Rightarrow> string \<times> string" where
  "asset_line_key r = (sar_snapshot_id r, sar_asset_id r)"
definition event_key :: "steam_event_po \<Rightarrow> string \<times> string" where
  "event_key r = (sev_steam_id r, sev_external_id r)"
definition market_key :: "steam_market_tx_po \<Rightarrow> string \<times> string" where
  "market_key r = (smk_steam_id r, smk_external_id r)"
definition trade_key :: "steam_trade_po \<Rightarrow> string \<times> string" where
  "trade_key r = (stv_steam_id r, stv_trade_id r)"
definition lot_key :: "steam_lot_po \<Rightarrow> string \<times> string" where
  "lot_key r = (slt_steam_id r, slt_id r)"
definition acquisition_key :: "steam_acquisition_po \<Rightarrow> string \<times> string" where
  "acquisition_key r = (saq_steam_id r, saq_asset_id r)"

section \<open>Statements\<close>

definition restore_steam :: "'x steam_db_scheme \<Rightarrow> 'x steam_db_scheme \<Rightarrow> 'x steam_db_scheme" where
  "restore_steam old new = new\<lparr>sdb_snapshots := sdb_snapshots old,
     sdb_snapshot_assets := sdb_snapshot_assets old, sdb_events := sdb_events old,
     sdb_market_txs := sdb_market_txs old, sdb_trades := sdb_trades old,
     sdb_lots := sdb_lots old, sdb_acquisitions := sdb_acquisitions old\<rparr>"

text \<open>A GORM transaction over the Steam tables: begin, the body, commit; rolled back on any error.\<close>

definition steam_tx :: "('x steam_db_scheme, unit) eff \<Rightarrow> ('x steam_db_scheme, unit) eff" where
  "steam_tx m = seq_eff (exec_sql (ret ())) (\<lambda>s.
     case seq_eff m (exec_sql (ret ())) s of
       (Inl e, s') \<Rightarrow> (Inl e, restore_steam s s')
     | (Inr x, s') \<Rightarrow> (Inr x, s'))"

definition default_one :: "int \<Rightarrow> int" where
  "default_one n = (if n = 0 then 1 else n)"

definition nonNilJSON :: "string \<Rightarrow> string" where
  "nonNilJSON b = (if b = [] then ''[]'' else b)"

section \<open>Snapshots\<close>

definition latest_complete :: "string \<Rightarrow> steam_snapshot_po list \<Rightarrow> steam_snapshot_po option" where
  "latest_complete steamID rows =
    (case sort_key (\<lambda>p. - ssn_taken_at p) (sort_key ssn_id
        (filter (\<lambda>p. ssn_steam_id p = steamID \<and> ssn_complete p) rows)) of
       [] \<Rightarrow> None | p # _ \<Rightarrow> Some p)"

definition latest_snapshot :: "string \<Rightarrow> ('x steam_db_scheme, steam_inventory_snapshot) eff" where
  "latest_snapshot steamID =
     bind_eff (wrap_err ''steam snapshot get'' (exec_sql (reading (\<lambda>s.
         latest_complete steamID (sdb_snapshots s)))))
       (\<lambda>r. case r of None \<Rightarrow> raise ErrNotFound
        | Some snap \<Rightarrow> bind_eff (wrap_err ''steam snapshot assets'' (exec_sql (reading (\<lambda>s.
              filter (\<lambda>a. sar_snapshot_id a = ssn_id snap) (sdb_snapshot_assets s)))))
            (\<lambda>rows. ret (steam_snapshot_po.extend snap
              (steam_inventory_snapshot.fields (map steam_asset_row.truncate rows)))))"

definition snapshot_line :: "string \<Rightarrow> steam_asset_row \<Rightarrow> steam_snapshot_asset_po" where
  "snapshot_line snapID a = steam_asset_row.extend (a\<lparr>sar_amount := default_one (sar_amount a)\<rparr>)
     (steam_snapshot_asset_po.fields snapID)"

definition save_snapshot :: "steam_inventory_snapshot \<Rightarrow> ('x steam_db_scheme, unit) eff" where
  "save_snapshot snap = steam_tx (seq_eff
     (wrap_err ''steam snapshot save'' (exec_sql (\<lambda>s.
        case insert_rows ssn_id [steam_snapshot_po.truncate snap] (sdb_snapshots s) of
          Inl e \<Rightarrow> (Inl e, s) | Inr t \<Rightarrow> (Inr (), s\<lparr>sdb_snapshots := t\<rparr>))))
     (let rows = map (snapshot_line (ssn_id snap)) (ssn_assets snap)
      in if rows = [] then ret ()
         else wrap_err ''steam snapshot assets save'' (exec_sql (\<lambda>s.
           case insert_rows asset_line_key rows (sdb_snapshot_assets s) of
             Inl e \<Rightarrow> (Inl e, s) | Inr t \<Rightarrow> (Inr (), s\<lparr>sdb_snapshot_assets := t\<rparr>)))))"

section \<open>Events, market rows, trades and lots\<close>

definition record_event :: "string \<Rightarrow> steam_event_row \<Rightarrow> ('x steam_db_scheme, unit) eff" where
  "record_event steamID ev = wrap_err ''steam events record'' (exec_sql (writing (\<lambda>s.
     s\<lparr>sdb_events := upsert_row event_key keep_old
        (steam_event_row.extend (ev\<lparr>sev_quantity := default_one (sev_quantity ev)\<rparr>)
           (steam_event_po.fields steamID)) (sdb_events s)\<rparr>)))"

definition record_events :: "string \<Rightarrow> steam_event_row list \<Rightarrow> ('x steam_db_scheme, unit) eff" where
  "record_events steamID events = for_each (record_event steamID) events"

definition unmatched_events :: "string \<Rightarrow> ('x steam_db_scheme, steam_event_row list) eff" where
  "unmatched_events steamID = wrap_err ''steam unmatched events'' (exec_sql (reading (\<lambda>s.
     map steam_event_row.truncate (sort_key sev_timestamp
       (filter (\<lambda>e. sev_steam_id e = steamID \<and> \<not> sev_matched e) (sdb_events s))))))"

definition mark_events_matched :: "string \<Rightarrow> string list \<Rightarrow> ('x steam_db_scheme, unit) eff" where
  "mark_events_matched steamID ids =
    (if ids = [] then ret ()
     else wrap_err ''steam events mark matched'' (exec_sql (writing (\<lambda>s.
       s\<lparr>sdb_events := update_rows (\<lambda>e. sev_steam_id e = steamID \<and> sev_external_id e \<in> set ids)
           (\<lambda>e. e\<lparr>sev_matched := True\<rparr>) (sdb_events s)\<rparr>))))"

definition save_market_transactions ::
  "string \<Rightarrow> steam_market_row list \<Rightarrow> ('x steam_db_scheme, unit) eff" where
  "save_market_transactions steamID txs = for_each (\<lambda>tx.
     wrap_err ''steam market txs save'' (exec_sql (writing (\<lambda>s.
       s\<lparr>sdb_market_txs := upsert_row market_key keep_old
          (steam_market_row.extend (tx\<lparr>smk_quantity := default_one (smk_quantity tx)\<rparr>)
             (steam_market_tx_po.fields steamID)) (sdb_market_txs s)\<rparr>)))) txs"

definition save_trades :: "string \<Rightarrow> steam_trade_row list \<Rightarrow> ('x steam_db_scheme, unit) eff" where
  "save_trades steamID trades = for_each (\<lambda>tr.
     wrap_err ''steam trades save'' (exec_sql (writing (\<lambda>s.
       s\<lparr>sdb_trades := upsert_row trade_key keep_old
          (steam_trade_row.extend (tr\<lparr>stv_given_json := nonNilJSON (stv_given_json tr),
               stv_received_json := nonNilJSON (stv_received_json tr)\<rparr>)
             (steam_trade_po.fields steamID)) (sdb_trades s)\<rparr>)))) trades"

definition save_lots :: "string \<Rightarrow> steam_lot_row list \<Rightarrow> ('x steam_db_scheme, unit) eff" where
  "save_lots steamID lots = steam_tx (seq_eff
     (wrap_err ''steam lots clear'' (exec_sql (writing (\<lambda>s.
        s\<lparr>sdb_lots := filter (\<lambda>l. slt_steam_id l \<noteq> steamID) (sdb_lots s)\<rparr>))))
     (for_each (\<lambda>l. wrap_err ''steam lots save'' (exec_sql (\<lambda>s.
        case insert_rows lot_key [steam_lot_row.extend l (steam_lot_po.fields steamID)] (sdb_lots s) of
          Inl e \<Rightarrow> (Inl e, s) | Inr t \<Rightarrow> (Inr (), s\<lparr>sdb_lots := t\<rparr>)))) lots))"

section \<open>Acquisition records\<close>

definition confidenceRank :: "string \<Rightarrow> nat" where
  "confidenceRank conf =
    (if conf = ''exact'' then 4 else if conf = ''high'' then 3
     else if conf = ''medium'' then 2 else if conf = ''low'' then 1 else 0)"

definition evidence_score :: "('y) steam_acquisition_row_scheme \<Rightarrow> nat" where
  "evidence_score a =
     (case saq_acquired_at a of Some t \<Rightarrow> if time_is_zero t then 0 else 1 | None \<Rightarrow> 0)
     + (if saq_cost_basis a \<noteq> None then 1 else 0) + (if saq_reference a \<noteq> [] then 1 else 0)"

definition strongerOrEqualAcquisition ::
  "steam_acquisition_po \<Rightarrow> steam_acquisition_row \<Rightarrow> bool" where
  "strongerOrEqualAcquisition existing nxt \<longleftrightarrow> evidence_score existing \<le> evidence_score nxt"

definition acquisition_conflict ::
  "steam_acquisition_po \<Rightarrow> steam_acquisition_po \<Rightarrow> steam_acquisition_po" where
  "acquisition_conflict old new =
     new\<lparr>saq_steam_id := saq_steam_id old, saq_asset_id := saq_asset_id old\<rparr>"

definition write_acquisition ::
  "string \<Rightarrow> steam_acquisition_row \<Rightarrow> ('x steam_db_scheme, unit) eff" where
  "write_acquisition steamID a = wrap_err ''steam acquisitions save'' (exec_sql (writing (\<lambda>s.
     s\<lparr>sdb_acquisitions := upsert_row acquisition_key acquisition_conflict
        (steam_acquisition_row.extend a (steam_acquisition_po.fields steamID))
        (sdb_acquisitions s)\<rparr>)))"

definition save_acquisition ::
  "string \<Rightarrow> steam_acquisition_row \<Rightarrow> ('x steam_db_scheme, unit) eff" where
  "save_acquisition steamID a =
     bind_eff (wrap_err ''steam acquisitions read'' (exec_sql (reading (\<lambda>s.
         find_row acquisition_key (steamID, saq_asset_id a) (sdb_acquisitions s)))))
       (\<lambda>r. case r of
          Some existing \<Rightarrow>
            if confidenceRank (saq_match_confidence existing) > confidenceRank (saq_match_confidence a)
            then ret ()
            else if confidenceRank (saq_match_confidence existing) =
                confidenceRank (saq_match_confidence a) \<and> \<not> strongerOrEqualAcquisition existing a
            then ret ()
            else write_acquisition steamID a
        | None \<Rightarrow> write_acquisition steamID a)"

definition save_acquisitions ::
  "string \<Rightarrow> steam_acquisition_row list \<Rightarrow> ('x steam_db_scheme, unit) eff" where
  "save_acquisitions steamID as = steam_tx (for_each (save_acquisition steamID) as)"

definition asset_state ::
  "time \<Rightarrow> steam_acquisition_po option \<Rightarrow> steam_snapshot_asset_po \<Rightarrow> steam_asset_state" where
  "asset_state taken acq row = steam_asset_row.extend (steam_asset_row.truncate row)
    (case acq of
       None \<Rightarrow> steam_asset_state.fields taken taken None [] [] None [] [] []
     | Some a \<Rightarrow> steam_asset_state.fields taken taken (saq_acquired_at a) (saq_type a)
         (saq_reference a) (saq_cost_basis a) (saq_cost_currency a) (saq_match_method a)
         (saq_match_confidence a))"

definition current_assets :: "string \<Rightarrow> ('x steam_db_scheme, steam_asset_state list) eff" where
  "current_assets steamID =
     bind_eff (wrap_err ''steam current snapshot'' (exec_sql (reading (\<lambda>s.
         latest_complete steamID (sdb_snapshots s)))))
       (\<lambda>r. case r of None \<Rightarrow> raise ErrNotFound
        | Some snap \<Rightarrow>
            bind_eff (wrap_err ''steam current assets'' (exec_sql (reading (\<lambda>s.
              filter (\<lambda>a. sar_snapshot_id a = ssn_id snap) (sdb_snapshot_assets s))))) (\<lambda>rows.
            bind_eff (wrap_err ''steam current acquisitions'' (exec_sql (reading (\<lambda>s.
              filter (\<lambda>a. saq_steam_id a = steamID) (sdb_acquisitions s))))) (\<lambda>acqs.
            let byAsset = map_of (rev (map (\<lambda>a. (saq_asset_id a, a)) acqs))
            in ret (map (\<lambda>row. asset_state (ssn_taken_at snap) (byAsset (sar_asset_id row)) row) rows))))"

definition acquisitions_for_assets ::
  "string \<Rightarrow> string list \<Rightarrow> ('x steam_db_scheme, steam_acquisition_row list) eff" where
  "acquisitions_for_assets steamID ids =
    (if ids = [] then ret []
     else wrap_err ''steam acquisitions lookup'' (exec_sql (reading (\<lambda>s.
       map steam_acquisition_row.truncate
         (filter (\<lambda>a. saq_steam_id a = steamID \<and> saq_asset_id a \<in> set ids) (sdb_acquisitions s))))))"

section \<open>The tables keep their unique keys\<close>

interpretation event_table: settled_table event_key keep_old
  by unfold_locales (simp_all add: keep_old_def)

interpretation market_table: settled_table market_key keep_old
  by unfold_locales (simp_all add: keep_old_def)

interpretation trade_table: settled_table trade_key keep_old
  by unfold_locales (simp_all add: keep_old_def)

interpretation acq_table: settled_table acquisition_key acquisition_conflict
  by unfold_locales (simp_all add: acquisition_conflict_def acquisition_key_def)

lemma exec_ret_ok:
  "db_fault s (db_ops s) = None \<Longrightarrow> exec_sql (ret x) s = (Inr x, s\<lparr>db_ops := Suc (db_ops s)\<rparr>)"
  by (simp add: exec_sql_def Let_def ret_def)

lemma steam_tx_cases:
  assumes "steam_tx m s = (r, s')"
  obtains e w where "r = Inl e" "s' = restore_steam s w"
  | e n where "r = Inl e" "s' = s\<lparr>db_ops := n\<rparr>"
  | w where "r = Inr ()" "m (s\<lparr>db_ops := Suc (db_ops s)\<rparr>) = (Inr (), w)"
      "s' = w\<lparr>db_ops := Suc (db_ops w)\<rparr>"
proof (cases "db_fault s (db_ops s)")
  case (Some msg)
  then show ?thesis
    using assms by (intro that(2)) (auto simp: steam_tx_def seq_eff_apply exec_sql_def Let_def)
next
  case None
  let ?s = "s\<lparr>db_ops := Suc (db_ops s)\<rparr>"
  obtain r1 w where m: "m ?s = (r1, w)" by fastforce
  have restore: "restore_steam ?s v = restore_steam s v" for v by (simp add: restore_steam_def)
  from None assms have eq: "(case seq_eff m (exec_sql (ret ())) ?s of
       (Inl e, s') \<Rightarrow> (Inl e, restore_steam ?s s') | (Inr x, s') \<Rightarrow> (Inr x, s')) = (r, s')"
    unfolding steam_tx_def seq_eff_apply [of "exec_sql (ret ())" _ s]
    by (simp add: exec_ret_ok)
  show ?thesis
  proof (cases r1)
    case (Inl e)
    with eq m show ?thesis by (intro that(1)) (auto simp: seq_eff_apply restore)
  next
    case (Inr x)
    show ?thesis
    proof (cases "db_fault w (db_ops w)")
      case None
      with eq m Inr show ?thesis by (intro that(3)) (auto simp: seq_eff_apply exec_ret_ok)
    next
      case (Some msg)
      with eq m Inr show ?thesis
        by (intro that(1)) (auto simp: seq_eff_apply exec_sql_def Let_def restore)
    qed
  qed
qed

lemma steam_tx_no_faults:
  assumes "no_faults s" and "m (s\<lparr>db_ops := Suc (db_ops s)\<rparr>) = (Inr (), w)" and "no_faults w"
  shows "steam_tx m s = (Inr (), w\<lparr>db_ops := Suc (db_ops w)\<rparr>)"
  using assms by (simp add: steam_tx_def seq_eff_apply ret_def)

text \<open>A read whose error is wrapped and returned, followed by the rest of the function.\<close>

lemma read_bind_InrD:
  fixes s :: "'x db_scheme"
  assumes "bind_eff (wrap_err c (exec_sql (reading g))) f s = (Inr x, s')"
  shows "f (g (s\<lparr>db_ops := Suc (db_ops s)\<rparr>)) (s\<lparr>db_ops := Suc (db_ops s)\<rparr>) = (Inr x, s')"
  using assms by (simp add: bind_eff_def wrap_err_def exec_sql_def Let_def reading_def
      split: option.splits)

section \<open>Acquisition evidence only gets stronger\<close>

definition acquisition_row :: "string \<times> string \<Rightarrow> 'x steam_db_scheme \<Rightarrow> steam_acquisition_po option" where
  "acquisition_row k s = find_row acquisition_key k (sdb_acquisitions s)"

text \<open>The strength of a record: its confidence first, then how much evidence it carries.\<close>

definition as_strong ::
  "'y steam_acquisition_row_scheme \<Rightarrow> 'z steam_acquisition_row_scheme \<Rightarrow> bool" where
  "as_strong new old \<longleftrightarrow>
     confidenceRank (saq_match_confidence old) < confidenceRank (saq_match_confidence new) \<or>
     confidenceRank (saq_match_confidence old) = confidenceRank (saq_match_confidence new) \<and>
     evidence_score old \<le> evidence_score new"

lemma as_strong_refl [simp]: "as_strong a a"
  by (simp add: as_strong_def)

lemma as_strong_trans: "as_strong c b \<Longrightarrow> as_strong b a \<Longrightarrow> as_strong c a"
  by (auto simp: as_strong_def)

lemma acquisition_row_ops [simp]: "acquisition_row k (s\<lparr>db_ops := n\<rparr>) = acquisition_row k s"
  by (simp add: acquisition_row_def)

lemma conflict_strength [simp]:
  "as_strong (acquisition_conflict old (steam_acquisition_row.extend a x)) b = as_strong a b"
  "as_strong (steam_acquisition_row.extend a x) b = as_strong a b"
  by (simp_all add: as_strong_def acquisition_conflict_def evidence_score_def
      steam_acquisition_row.defs)

lemma extend_acquisition_key [simp]:
  "acquisition_key (steam_acquisition_row.extend a (steam_acquisition_po.fields sid)) =
     (sid, saq_asset_id a)"
  by (simp add: acquisition_key_def steam_acquisition_row.defs steam_acquisition_po.defs)

lemma write_acquisition_row:
  fixes s s' :: "'x steam_db_scheme"
  assumes "write_acquisition sid a s = (Inr (), s')"
  shows "acquisition_row (sid, saq_asset_id a) s' =
      Some (case acquisition_row (sid, saq_asset_id a) s of
        None \<Rightarrow> steam_acquisition_row.extend a (steam_acquisition_po.fields sid)
      | Some old \<Rightarrow> acquisition_conflict old
          (steam_acquisition_row.extend a (steam_acquisition_po.fields sid)))"
    and "k \<noteq> (sid, saq_asset_id a) \<Longrightarrow> acquisition_row k s' = acquisition_row k s"
  using assms
    acq_table.find_upsert_same [of "steam_acquisition_row.extend a (steam_acquisition_po.fields sid)"
      "sdb_acquisitions s"]
    acq_table.find_upsert_other [of k
      "steam_acquisition_row.extend a (steam_acquisition_po.fields sid)" "sdb_acquisitions s"]
  by (auto simp: write_acquisition_def acquisition_row_def eff_defs exec_sql_def Let_def
      split: option.splits sum.splits prod.splits)

text \<open>One element of the loop: a write of equal or stronger evidence, or nothing.\<close>

lemma save_acquisition_step:
  fixes s s' :: "'x steam_db_scheme"
  assumes "save_acquisition sid a s = (Inr (), s')"
  shows "\<exists>new. acquisition_row (sid, saq_asset_id a) s' = Some new \<and> as_strong new a \<and>
      (\<forall>old. acquisition_row (sid, saq_asset_id a) s = Some old \<longrightarrow> as_strong new old)"
    and "k \<noteq> (sid, saq_asset_id a) \<Longrightarrow> acquisition_row k s' = acquisition_row k s"
proof -
  let ?k = "(sid, saq_asset_id a)"
  obtain s1 where row1: "\<And>j. acquisition_row j s1 = acquisition_row j s"
    and rest: "(case acquisition_row ?k s of
          Some existing \<Rightarrow>
            if confidenceRank (saq_match_confidence existing) > confidenceRank (saq_match_confidence a)
            then ret ()
            else if confidenceRank (saq_match_confidence existing) =
                confidenceRank (saq_match_confidence a) \<and> \<not> strongerOrEqualAcquisition existing a
            then ret ()
            else write_acquisition sid a
        | None \<Rightarrow> write_acquisition sid a) s1 = (Inr (), s')"
  proof
    show "\<And>j. acquisition_row j (s\<lparr>db_ops := Suc (db_ops s)\<rparr>) = acquisition_row j s" by simp
  qed (use read_bind_InrD [OF assms [unfolded save_acquisition_def]]
      in \<open>simp add: acquisition_row_def\<close>)
  have "(\<exists>new. acquisition_row ?k s' = Some new \<and> as_strong new a \<and>
      (\<forall>old. acquisition_row ?k s = Some old \<longrightarrow> as_strong new old)) \<and>
      (k \<noteq> ?k \<longrightarrow> acquisition_row k s' = acquisition_row k s)"
  proof (cases "acquisition_row ?k s")
    case None
    with rest have w: "write_acquisition sid a s1 = (Inr (), s')" by simp
    from write_acquisition_row(1) [OF w] write_acquisition_row(2) [OF w, of k] row1 None
    show ?thesis by simp
  next
    case (Some old)
    show ?thesis
    proof (cases "as_strong a old")
      case True
      with rest Some have w: "write_acquisition sid a s1 = (Inr (), s')"
        by (auto simp: as_strong_def strongerOrEqualAcquisition_def)
      from write_acquisition_row(1) [OF w] write_acquisition_row(2) [OF w, of k] row1 Some True
      show ?thesis by simp
    next
      case False
      with rest Some have "s' = s1" "as_strong old a"
        by (auto simp: as_strong_def strongerOrEqualAcquisition_def ret_def split: if_splits)
      with row1 Some show ?thesis by simp
    qed
  qed
  then show "\<exists>new. acquisition_row ?k s' = Some new \<and> as_strong new a \<and>
      (\<forall>old. acquisition_row ?k s = Some old \<longrightarrow> as_strong new old)"
    and "k \<noteq> ?k \<Longrightarrow> acquisition_row k s' = acquisition_row k s"
    by blast+
qed

lemma save_acquisitions_loop:
  fixes s s' :: "'x steam_db_scheme"
  assumes "for_each (save_acquisition sid) as s = (Inr (), s')"
  shows "(\<forall>k old. acquisition_row k s = Some old \<longrightarrow>
            (\<exists>new. acquisition_row k s' = Some new \<and> as_strong new old)) \<and>
         (\<forall>a\<in>set as. \<exists>new. acquisition_row (sid, saq_asset_id a) s' = Some new \<and> as_strong new a) \<and>
         (\<forall>k. k \<notin> (\<lambda>a. (sid, saq_asset_id a)) ` set as \<longrightarrow> acquisition_row k s' = acquisition_row k s)"
  using assms
proof (induction as arbitrary: s)
  case Nil
  then show ?case by (auto simp: ret_def)
next
  case (Cons a as)
  obtain s1 where st: "save_acquisition sid a s = (Inr (), s1)"
    and loop: "for_each (save_acquisition sid) as s1 = (Inr (), s')"
    using Cons.prems by (auto simp: seq_eff_apply split: prod.splits sum.splits)
  note IH = Cons.IH [OF loop]
  have up: "\<exists>new. acquisition_row k s1 = Some new \<and> as_strong new old"
    if "acquisition_row k s = Some old" for k old
    using that save_acquisition_step(1) [OF st] save_acquisition_step(2) [OF st, of k]
    by (cases "k = (sid, saq_asset_id a)") auto
  have "\<exists>new. acquisition_row k s' = Some new \<and> as_strong new old"
    if "acquisition_row k s = Some old" for k old
    using up [OF that] IH by (meson as_strong_trans)
  moreover have "\<exists>new. acquisition_row (sid, saq_asset_id a) s' = Some new \<and> as_strong new a"
    using save_acquisition_step(1) [OF st] IH by (meson as_strong_trans)
  moreover have "acquisition_row k s' = acquisition_row k s"
    if "k \<notin> (\<lambda>a. (sid, saq_asset_id a)) ` set (a # as)" for k
    using that conjunct2 [OF conjunct2 [OF IH], rule_format, of k]
      save_acquisition_step(2) [OF st, of k] by simp
  ultimately show ?case using IH by simp
qed

text \<open>
  C16. Acquisition evidence is never downgraded. Whatever \<open>SaveAcquisitions\<close> is given and
  whichever statement fails, every stored record of every account is still there afterwards
  and is at least as strong: a higher confidence, or the same confidence with at least as many
  of timestamp, cost and reference. A failed call changes no record; a successful one leaves,
  for each record given, one that is at least as strong as it; records of other assets and
  accounts are not touched.
\<close>

theorem acquisitions_only_upgrade:
  fixes s s' :: "'x steam_db_scheme"
  assumes "save_acquisitions steamID as s = (r, s')"
  shows "(\<forall>k old. acquisition_row k s = Some old \<longrightarrow>
            (\<exists>new. acquisition_row k s' = Some new \<and> as_strong new old)) \<and>
         (\<forall>e. r = Inl e \<longrightarrow> sdb_acquisitions s' = sdb_acquisitions s) \<and>
         (r = Inr () \<longrightarrow> (\<forall>a\<in>set as. \<exists>new.
            acquisition_row (steamID, saq_asset_id a) s' = Some new \<and> as_strong new a)) \<and>
         (\<forall>k. k \<notin> (\<lambda>a. (steamID, saq_asset_id a)) ` set as \<longrightarrow>
            acquisition_row k s' = acquisition_row k s)"
  using assms unfolding save_acquisitions_def
proof (cases rule: steam_tx_cases)
  case (1 e w)
  then show ?thesis by (auto simp: restore_steam_def acquisition_row_def)
next
  case (2 e w)
  then show ?thesis by (auto simp: acquisition_row_def)
next
  case (3 w)
  from save_acquisitions_loop [OF 3(2)] 3 show ?thesis by simp
qed

section \<open>History is append-only\<close>

definition event_row :: "string \<times> string \<Rightarrow> 'x steam_db_scheme \<Rightarrow> steam_event_po option" where
  "event_row k s = find_row event_key k (sdb_events s)"

definition market_tx_row :: "string \<times> string \<Rightarrow> 'x steam_db_scheme \<Rightarrow> steam_market_tx_po option" where
  "market_tx_row k s = find_row market_key k (sdb_market_txs s)"

definition trade_row :: "string \<times> string \<Rightarrow> 'x steam_db_scheme \<Rightarrow> steam_trade_po option" where
  "trade_row k s = find_row trade_key k (sdb_trades s)"

text \<open>The unique indexes hold and no asset line is without its snapshot.\<close>

definition steam_wf :: "'x steam_db_scheme \<Rightarrow> bool" where
  "steam_wf s \<longleftrightarrow>
     (unique_keys ssn_id (sdb_snapshots s) \<and> unique_keys asset_line_key (sdb_snapshot_assets s) \<and>
      (\<forall>l\<in>set (sdb_snapshot_assets s). sar_snapshot_id l \<in> ssn_id ` set (sdb_snapshots s))) \<and>
     unique_keys event_key (sdb_events s) \<and> unique_keys market_key (sdb_market_txs s) \<and>
     unique_keys trade_key (sdb_trades s) \<and> unique_keys lot_key (sdb_lots s) \<and>
     unique_keys acquisition_key (sdb_acquisitions s)"

text \<open>An event keeps its content and, once matched, stays matched.\<close>

definition event_kept :: "steam_event_po \<Rightarrow> steam_event_po \<Rightarrow> bool" where
  "event_kept e e' \<longleftrightarrow>
     e' = e\<lparr>sev_matched := sev_matched e'\<rparr> \<and> (sev_matched e \<longrightarrow> sev_matched e')"

definition grows :: "'x steam_db_scheme \<Rightarrow> 'x steam_db_scheme \<Rightarrow> bool" where
  "grows s s' \<longleftrightarrow>
     (\<forall>k e. event_row k s = Some e \<longrightarrow> (\<exists>e'. event_row k s' = Some e' \<and> event_kept e e')) \<and>
     (\<forall>k t. market_tx_row k s = Some t \<longrightarrow> market_tx_row k s' = Some t) \<and>
     (\<forall>k t. trade_row k s = Some t \<longrightarrow> trade_row k s' = Some t) \<and>
     (\<exists>new. sdb_snapshots s' = sdb_snapshots s @ new) \<and>
     (\<exists>new. sdb_snapshot_assets s' = sdb_snapshot_assets s @ new)"

datatype steam_op =
    SaveSnapshot steam_inventory_snapshot
  | RecordEvents string "steam_event_row list"
  | MarkEventsMatched string "string list"
  | SaveMarketTransactions string "steam_market_row list"
  | SaveTrades string "steam_trade_row list"
  | SaveLots string "steam_lot_row list"
  | SaveAcquisitions string "steam_acquisition_row list"

fun run_op :: "steam_op \<Rightarrow> ('x steam_db_scheme, unit) eff" where
  "run_op (SaveSnapshot snap) = save_snapshot snap"
| "run_op (RecordEvents sid evs) = record_events sid evs"
| "run_op (MarkEventsMatched sid ids) = mark_events_matched sid ids"
| "run_op (SaveMarketTransactions sid txs) = save_market_transactions sid txs"
| "run_op (SaveTrades sid trs) = save_trades sid trs"
| "run_op (SaveLots sid lots) = save_lots sid lots"
| "run_op (SaveAcquisitions sid as) = save_acquisitions sid as"

text \<open>What every outcome of a piece of code satisfies, relating the states before and after.\<close>

definition safe_step :: "('x steam_db_scheme, 'a) eff \<Rightarrow> bool" where
  "safe_step m \<longleftrightarrow> (\<forall>s. (steam_wf s \<longrightarrow> steam_wf (snd (m s))) \<and> grows s (snd (m s)))"

lemma event_kept_refl [simp]: "event_kept e e"
  by (simp add: event_kept_def)

lemma event_kept_trans: "event_kept a b \<Longrightarrow> event_kept b c \<Longrightarrow> event_kept a c"
  unfolding event_kept_def
  by (cases a, cases b, cases c) (auto simp: steam_event_row.defs)

lemma grows_refl [simp]: "grows s s"
  by (auto simp: grows_def)

lemma grows_trans: "grows a b \<Longrightarrow> grows b c \<Longrightarrow> grows a c"
  unfolding grows_def by (intro conjI allI impI) (metis event_kept_trans append.assoc)+

lemma ops_update [simp]:
  "steam_wf (s\<lparr>db_ops := n\<rparr>) = steam_wf s" "grows s (s'\<lparr>db_ops := n\<rparr>) = grows s s'"
  "grows (s\<lparr>db_ops := n\<rparr>) s' = grows s s'"
  "steam_wf (restore_steam s w) = steam_wf s" "grows s (restore_steam s w)"
  by (auto simp: steam_wf_def grows_def event_row_def market_tx_row_def trade_row_def
      restore_steam_def)

lemma safe_ret: "safe_step (ret x)"
  and safe_raise: "safe_step (raise e)"
  and safe_reading: "safe_step (reading g)"
  by (simp_all add: safe_step_def eff_defs)

lemma safe_bind: "safe_step m \<Longrightarrow> (\<And>x. safe_step (f x)) \<Longrightarrow> safe_step (bind_eff m f)"
  unfolding safe_step_def bind_eff_def
  by (simp split: prod.splits sum.splits) (metis grows_trans snd_conv)

lemma safe_seq: "safe_step m \<Longrightarrow> safe_step n \<Longrightarrow> safe_step (seq_eff m n)"
  unfolding seq_eff_def by (rule safe_bind)

lemma safe_wrap: "safe_step m \<Longrightarrow> safe_step (wrap_err c m)"
  unfolding safe_step_def wrap_err_def by (simp split: prod.splits sum.splits) (metis snd_conv)

lemma safe_exec_sql: "safe_step m \<Longrightarrow> safe_step (exec_sql m)"
  by (simp add: safe_step_def exec_sql_def Let_def split: option.splits) (metis ops_update(3))

lemma safe_for_each: "(\<And>x. safe_step (f x)) \<Longrightarrow> safe_step (for_each f xs)"
  by (induction xs) (auto intro: safe_ret safe_seq)

lemma safe_tx: "safe_step m \<Longrightarrow> safe_step (steam_tx m)"
  unfolding safe_step_def
proof (intro allI)
  fix s :: "'a steam_db_scheme"
  assume m: "\<forall>s. (steam_wf s \<longrightarrow> steam_wf (snd (m s))) \<and> grows s (snd (m s))"
  obtain r s' where eq: "steam_tx m s = (r, s')" by fastforce
  then show "(steam_wf s \<longrightarrow> steam_wf (snd (steam_tx m s))) \<and> grows s (snd (steam_tx m s))"
  proof (cases rule: steam_tx_cases)
    case (3 w)
    then show ?thesis using spec [OF m, of "s\<lparr>db_ops := Suc (db_ops s)\<rparr>"] eq by simp
  qed (simp_all add: eq)
qed

lemma safe_writing:
  "(\<And>s. steam_wf s \<Longrightarrow> steam_wf (f s)) \<Longrightarrow> (\<And>s. grows s (f s)) \<Longrightarrow> safe_step (writing f)"
  by (simp add: safe_step_def writing_def)

lemmas safe_rules = safe_ret safe_reading safe_bind safe_seq safe_wrap safe_exec_sql
  safe_for_each safe_tx

subsection \<open>Each operation\<close>

lemma safe_record_events: "safe_step (record_events sid evs)"
  unfolding record_events_def record_event_def
proof (intro safe_for_each safe_wrap safe_exec_sql safe_writing)
  fix s :: "'a steam_db_scheme" and ev :: steam_event_row
  let ?po = "steam_event_row.extend (ev\<lparr>sev_quantity := default_one (sev_quantity ev)\<rparr>)
     (steam_event_po.fields sid)"
  show "steam_wf s \<Longrightarrow> steam_wf (s\<lparr>sdb_events := upsert_row event_key keep_old ?po (sdb_events s)\<rparr>)"
    by (simp add: steam_wf_def event_table.unique_upsert)
  show "grows s (s\<lparr>sdb_events := upsert_row event_key keep_old ?po (sdb_events s)\<rparr>)"
    by (simp add: grows_def event_row_def market_tx_row_def trade_row_def find_upsert_keep_old)
qed

lemma safe_mark_events: "safe_step (mark_events_matched sid ids)"
proof -
  have "safe_step (wrap_err ''steam events mark matched'' (exec_sql (writing (\<lambda>s ::
      'a steam_db_scheme. s\<lparr>sdb_events :=
        update_rows (\<lambda>e. sev_steam_id e = sid \<and> sev_external_id e \<in> set ids)
           (\<lambda>e. e\<lparr>sev_matched := True\<rparr>) (sdb_events s)\<rparr>))))"
  proof (intro safe_wrap safe_exec_sql safe_writing)
    fix s :: "'a steam_db_scheme"
    let ?t = "update_rows (\<lambda>e. sev_steam_id e = sid \<and> sev_external_id e \<in> set ids)
           (\<lambda>e. e\<lparr>sev_matched := True\<rparr>) (sdb_events s)"
    have key: "event_key (e\<lparr>sev_matched := True\<rparr>) = event_key e" for e
      by (simp add: event_key_def)
    show "steam_wf s \<Longrightarrow> steam_wf (s\<lparr>sdb_events := ?t\<rparr>)"
      by (simp add: steam_wf_def unique_keys_update_rows key)
    show "grows s (s\<lparr>sdb_events := ?t\<rparr>)"
      by (simp add: grows_def event_row_def market_tx_row_def trade_row_def
          find_row_update_rows key event_kept_def)
  qed
  then show ?thesis by (simp add: mark_events_matched_def safe_ret)
qed

lemma safe_save_market: "safe_step (save_market_transactions sid txs)"
  unfolding save_market_transactions_def
proof (intro safe_for_each safe_wrap safe_exec_sql safe_writing)
  fix s :: "'a steam_db_scheme" and tx :: steam_market_row
  let ?po = "steam_market_row.extend (tx\<lparr>smk_quantity := default_one (smk_quantity tx)\<rparr>)
     (steam_market_tx_po.fields sid)"
  show "steam_wf s \<Longrightarrow> steam_wf (s\<lparr>sdb_market_txs := upsert_row market_key keep_old ?po (sdb_market_txs s)\<rparr>)"
    by (simp add: steam_wf_def market_table.unique_upsert)
  show "grows s (s\<lparr>sdb_market_txs := upsert_row market_key keep_old ?po (sdb_market_txs s)\<rparr>)"
    by (simp add: grows_def event_row_def market_tx_row_def trade_row_def find_upsert_keep_old)
qed

lemma safe_save_trades: "safe_step (save_trades sid trs)"
  unfolding save_trades_def
proof (intro safe_for_each safe_wrap safe_exec_sql safe_writing)
  fix s :: "'a steam_db_scheme" and tr :: steam_trade_row
  let ?po = "steam_trade_row.extend (tr\<lparr>stv_given_json := nonNilJSON (stv_given_json tr),
     stv_received_json := nonNilJSON (stv_received_json tr)\<rparr>) (steam_trade_po.fields sid)"
  show "steam_wf s \<Longrightarrow> steam_wf (s\<lparr>sdb_trades := upsert_row trade_key keep_old ?po (sdb_trades s)\<rparr>)"
    by (simp add: steam_wf_def trade_table.unique_upsert)
  show "grows s (s\<lparr>sdb_trades := upsert_row trade_key keep_old ?po (sdb_trades s)\<rparr>)"
    by (simp add: grows_def event_row_def market_tx_row_def trade_row_def find_upsert_keep_old)
qed

lemma safe_save_lots: "safe_step (save_lots sid lots)"
  unfolding save_lots_def
proof (intro safe_tx safe_seq safe_for_each safe_wrap safe_exec_sql safe_writing)
  fix s :: "'a steam_db_scheme"
  show "steam_wf s \<Longrightarrow> steam_wf (s\<lparr>sdb_lots := filter (\<lambda>l. slt_steam_id l \<noteq> sid) (sdb_lots s)\<rparr>)"
    by (simp add: steam_wf_def unique_keys_filter)
  show "grows s (s\<lparr>sdb_lots := filter (\<lambda>l. slt_steam_id l \<noteq> sid) (sdb_lots s)\<rparr>)"
    by (simp add: grows_def event_row_def market_tx_row_def trade_row_def)
next
  fix l
  show "safe_step (\<lambda>s :: 'a steam_db_scheme. case insert_rows lot_key [steam_lot_row.extend l (steam_lot_po.fields sid)] (sdb_lots s) of
          Inl e \<Rightarrow> (Inl e, s) | Inr t \<Rightarrow> (Inr (), s\<lparr>sdb_lots := t\<rparr>))"
    by (auto simp: safe_step_def steam_wf_def grows_def event_row_def market_tx_row_def
        trade_row_def dest: unique_insert_rows split: sum.splits)
qed

lemma safe_save_acquisitions: "safe_step (save_acquisitions sid as)"
proof -
  have w: "safe_step (write_acquisition sid a)" for a :: steam_acquisition_row
    unfolding write_acquisition_def
    by (intro safe_wrap safe_exec_sql safe_writing)
      (simp_all add: steam_wf_def acq_table.unique_upsert grows_def event_row_def
        market_tx_row_def trade_row_def)
  have "safe_step (save_acquisition sid a)" for a
    unfolding save_acquisition_def
    by (intro safe_rules) (simp add: w safe_ret split: option.splits)
  then show ?thesis unfolding save_acquisitions_def by (intro safe_tx safe_for_each)
qed

text \<open>\<open>SaveSnapshot\<close> adds a fresh header with its lines, or nothing.\<close>

lemma save_snapshot_cases:
  fixes s s' :: "'x steam_db_scheme"
  assumes "save_snapshot snap s = (r, s')"
  obtains (failed) e w where "r = Inl e" "s' = restore_steam s w"
  | (not_begun) e n where "r = Inl e" "s' = s\<lparr>db_ops := n\<rparr>"
  | (saved) "r = Inr ()" "ssn_id snap \<notin> ssn_id ` set (sdb_snapshots s)"
      "distinct (map sar_asset_id (ssn_assets snap))"
      "sdb_snapshots s' = sdb_snapshots s @ [steam_snapshot_po.truncate snap]"
      "sdb_snapshot_assets s' = sdb_snapshot_assets s @
          map (snapshot_line (ssn_id snap)) (ssn_assets snap)"
      "sdb_events s' = sdb_events s" "sdb_market_txs s' = sdb_market_txs s"
      "sdb_trades s' = sdb_trades s" "sdb_lots s' = sdb_lots s"
      "sdb_acquisitions s' = sdb_acquisitions s" "db_fault s' = db_fault s"
  using assms [unfolded save_snapshot_def]
proof (cases rule: steam_tx_cases)
  case (3 w)
  have key: "map asset_line_key (map (snapshot_line (ssn_id snap)) xs) =
      map (Pair (ssn_id snap)) (map sar_asset_id xs)" for xs
    by (induction xs) (simp_all add: asset_line_key_def snapshot_line_def steam_asset_row.defs
        steam_snapshot_asset_po.defs)
  have d: "distinct (map sar_asset_id (ssn_assets snap))"
    if "distinct (map asset_line_key (map (snapshot_line (ssn_id snap)) (ssn_assets snap)))"
    using that distinct_map unfolding key by blast
  from 3(2) have "sdb_snapshots w = sdb_snapshots s @ [steam_snapshot_po.truncate snap] \<and>
      sdb_snapshot_assets w = sdb_snapshot_assets s @
          map (snapshot_line (ssn_id snap)) (ssn_assets snap) \<and>
      sdb_events w = sdb_events s \<and> sdb_market_txs w = sdb_market_txs s \<and>
      sdb_trades w = sdb_trades s \<and> sdb_lots w = sdb_lots s \<and>
      sdb_acquisitions w = sdb_acquisitions s \<and> db_fault w = db_fault s \<and>
      ssn_id snap \<notin> ssn_id ` set (sdb_snapshots s) \<and>
      (ssn_assets snap = [] \<or>
        distinct (map asset_line_key (map (snapshot_line (ssn_id snap)) (ssn_assets snap))))"
    by (auto simp: seq_eff_apply wrap_err_def exec_sql_def Let_def insert_rows_Inr ret_def
        steam_snapshot_po.defs split: option.splits sum.splits prod.splits if_splits)
  with d 3(1,3) show ?thesis by (intro saved) auto
next
  case (1 e w)
  then show ?thesis by (rule failed)
next
  case (2 e n)
  then show ?thesis by (rule not_begun)
qed

lemma safe_save_snapshot: "safe_step (save_snapshot snap)"
  unfolding safe_step_def
proof (intro allI)
  fix s :: "'a steam_db_scheme"
  obtain r s' where eq: "save_snapshot snap s = (r, s')" by fastforce
  then show "(steam_wf s \<longrightarrow> steam_wf (snd (save_snapshot snap s))) \<and>
      grows s (snd (save_snapshot snap s))"
  proof (cases rule: save_snapshot_cases)
    case saved
    let ?ls = "map (snapshot_line (ssn_id snap)) (ssn_assets snap)"
    have key: "map asset_line_key ?ls = map (Pair (ssn_id snap)) (map sar_asset_id (ssn_assets snap))"
      "\<forall>l\<in>set ?ls. sar_snapshot_id l = ssn_id snap"
      by (simp_all add: asset_line_key_def snapshot_line_def steam_asset_row.defs
          steam_snapshot_asset_po.defs)
    have "unique_keys asset_line_key ?ls"
      unfolding unique_keys_def key using saved(3) by (simp add: distinct_map inj_on_def)
    moreover have "asset_line_key ` set (sdb_snapshot_assets s) \<inter> asset_line_key ` set ?ls = {}"
      if "\<forall>l\<in>set (sdb_snapshot_assets s). sar_snapshot_id l \<in> ssn_id ` set (sdb_snapshots s)"
    proof (rule ccontr)
      assume "\<not> ?thesis"
      then obtain l l' where "l \<in> set (sdb_snapshot_assets s)" "l' \<in> set ?ls"
        "asset_line_key l = asset_line_key l'" by blast
      with that key(2) saved(2) show False by (metis asset_line_key_def prod.inject)
    qed
    moreover have "unique_keys ssn_id (sdb_snapshots s @ [steam_snapshot_po.truncate snap])"
      if "unique_keys ssn_id (sdb_snapshots s)"
      using that saved(2) by (simp add: unique_keys_def steam_snapshot_po.defs)
    moreover have "\<forall>l\<in>set (sdb_snapshot_assets s @ ?ls).
        sar_snapshot_id l \<in> ssn_id ` set (sdb_snapshots s @ [steam_snapshot_po.truncate snap])"
      if "\<forall>l\<in>set (sdb_snapshot_assets s). sar_snapshot_id l \<in> ssn_id ` set (sdb_snapshots s)"
      using that key(2) by (auto simp: steam_snapshot_po.defs)
    ultimately have "steam_wf s'" if "steam_wf s"
      using that unfolding steam_wf_def saved unique_keys_append by blast
    then show ?thesis
      using eq by (simp add: saved grows_def event_row_def market_tx_row_def trade_row_def)
  qed (simp_all add: eq)
qed

lemma run_op_safe: "safe_step (run_op oper)"
  by (cases oper) (simp_all add: safe_save_snapshot safe_record_events safe_mark_events
      safe_save_market safe_save_trades safe_save_lots safe_save_acquisitions)

definition run_ops :: "steam_op list \<Rightarrow> 'x steam_db_scheme \<Rightarrow> 'x steam_db_scheme" where
  "run_ops ops s = fold (\<lambda>oper w. snd (run_op oper w)) ops s"

text \<open>
  The Steam history is append-only. Through any sequence of repository writes, in any
  order and with any statements failing, the unique indexes hold and every asset line has its
  snapshot; no snapshot, asset line, market row or trade is ever changed or lost; and an event
  keeps the content of its first recording, only its matched mark may be set, never reset, so
  a second import of the same rows is harmless.
\<close>

theorem steam_history_append_only:
  fixes s :: "'x steam_db_scheme"
  assumes "steam_wf s"
  shows "steam_wf (run_ops ops s) \<and> grows s (run_ops ops s)"
  using assms unfolding run_ops_def
proof (induction ops arbitrary: s)
  case (Cons oper ops)
  have "steam_wf (snd (run_op oper s))" "grows s (snd (run_op oper s))"
    using run_op_safe [of oper] Cons.prems by (auto simp: safe_step_def)
  with Cons.IH show ?case by (simp add: grows_trans)
qed simp

section \<open>Which snapshot is served\<close>

lemma steam_tx_keeps_schedule: "keeps db_fault m \<Longrightarrow> keeps db_fault (steam_tx m)"
  unfolding steam_tx_def
proof (intro keeps_seq keeps_exec_sql keeps_ret keepsI)
  fix s :: "'a steam_db_scheme"
  assume m: "keeps db_fault m"
  obtain r s' where eq: "seq_eff m (exec_sql (ret ())) s = (r, s')" by fastforce
  moreover have "db_fault s' = db_fault s"
    by (rule keeps_eq [OF keeps_seq [OF m keeps_exec_sql [OF _ keeps_ret]] eq]) simp
  ultimately show "db_fault (snd (case seq_eff m (exec_sql (ret ())) s of
       (Inl e, s') \<Rightarrow> (Inl e, restore_steam s s') | (Inr x, s') \<Rightarrow> (Inr x, s'))) = db_fault s"
    by (simp add: restore_steam_def split: sum.splits)
qed simp_all

lemma save_snapshot_keeps_schedule: "keeps db_fault (save_snapshot snap)"
  unfolding save_snapshot_def Let_def
  by (intro steam_tx_keeps_schedule keep_intros keeps_exec_sql)
    (simp_all add: keeps_def split: sum.splits)

definition served_snapshot :: "steam_inventory_snapshot \<Rightarrow> steam_inventory_snapshot" where
  "served_snapshot snap = snap\<lparr>ssn_assets :=
     map (\<lambda>a. a\<lparr>sar_amount := default_one (sar_amount a)\<rparr>) (ssn_assets snap)\<rparr>"

text \<open>The two reads as functions of the tables, when no statement fails.\<close>

lemma latest_snapshot_no_faults:
  assumes "no_faults s"
  shows "fst (latest_snapshot sid s) =
    (case latest_complete sid (sdb_snapshots s) of None \<Rightarrow> Inl ErrNotFound
     | Some snap \<Rightarrow> Inr (steam_snapshot_po.extend snap (steam_inventory_snapshot.fields
         (map steam_asset_row.truncate
           (filter (\<lambda>a. sar_snapshot_id a = ssn_id snap) (sdb_snapshot_assets s))))))"
  using assms by (simp add: latest_snapshot_def eff_defs split: option.splits)

lemma current_assets_no_faults:
  assumes "no_faults s"
  shows "fst (current_assets sid s) =
    (case latest_complete sid (sdb_snapshots s) of None \<Rightarrow> Inl ErrNotFound
     | Some snap \<Rightarrow> Inr (map (\<lambda>row. asset_state (ssn_taken_at snap)
           (map_of (rev (map (\<lambda>a. (saq_asset_id a, a))
              (filter (\<lambda>a. saq_steam_id a = sid) (sdb_acquisitions s)))) (sar_asset_id row)) row)
         (filter (\<lambda>a. sar_snapshot_id a = ssn_id snap) (sdb_snapshot_assets s))))"
  using assms by (simp add: current_assets_def eff_defs Let_def split: option.splits)

lemma latest_complete_SomeD:
  "latest_complete sid rows = Some p \<Longrightarrow>
     p \<in> set rows \<and> ssn_steam_id p = sid \<and> ssn_complete p"
  unfolding latest_complete_def
  by (auto split: list.splits dest!: sort_key_hd)

lemma latest_complete_newest:
  assumes "\<forall>q\<in>set rows. ssn_steam_id q = ssn_steam_id p \<and> ssn_complete q \<longrightarrow>
      ssn_taken_at q < ssn_taken_at p" and "ssn_complete p"
  shows "latest_complete (ssn_steam_id p) (rows @ [p]) = Some p"
proof -
  let ?f = "filter (\<lambda>q. ssn_steam_id q = ssn_steam_id p \<and> ssn_complete q) (rows @ [p])"
  let ?xs = "sort_key ssn_id ?f"
  have set: "set ?xs = set ?f" by simp
  obtain q qs where q: "sort_key (\<lambda>p. - ssn_taken_at p) ?xs = q # qs"
    using assms(2) by (cases "sort_key (\<lambda>p. - ssn_taken_at p) ?xs")
      (auto dest: arg_cong [where f = set])
  from sort_key_hd [OF this] have "q \<in> set ?f" "ssn_taken_at p \<le> ssn_taken_at q"
    using assms(2) unfolding set by auto
  then have "q = p" using assms by (auto split: if_splits)
  with q show ?thesis by (simp add: latest_complete_def)
qed

lemma latest_complete_partial:
  "\<not> ssn_complete p \<Longrightarrow> latest_complete sid (rows @ [p]) = latest_complete sid rows"
  by (simp add: latest_complete_def)

lemma served_lines:
  "map steam_asset_row.truncate (map (snapshot_line i) as) =
     map (\<lambda>a. a\<lparr>sar_amount := default_one (sar_amount a)\<rparr>) as"
  by (simp add: snapshot_line_def steam_asset_row.defs)

lemma line_snapshot [simp]: "sar_snapshot_id (snapshot_line i a) = i"
  by (simp add: snapshot_line_def steam_asset_row.defs steam_snapshot_asset_po.defs)

text \<open>
  Only complete snapshots are served, and the newest of them exactly. Saving a partial
  snapshot, successfully or not, changes neither \<open>LatestSnapshot\<close> nor \<open>CurrentAssets\<close>; after
  saving a complete one that is newer than the stored complete ones of its account,
  \<open>LatestSnapshot\<close> returns it with all its assets in order, an amount of zero being read back
  as one.
\<close>

theorem partial_snapshots_invisible:
  fixes s s' :: "'x steam_db_scheme"
  assumes "save_snapshot snap s = (r, s')" and "no_faults s" and "steam_wf s"
  shows "(\<not> ssn_complete snap \<longrightarrow>
            fst (latest_snapshot sid s') = fst (latest_snapshot sid s) \<and>
            fst (current_assets sid s') = fst (current_assets sid s)) \<and>
         (r = Inr () \<and> ssn_complete snap \<and>
          (\<forall>q\<in>set (sdb_snapshots s). ssn_steam_id q = ssn_steam_id snap \<and> ssn_complete q \<longrightarrow>
             ssn_taken_at q < ssn_taken_at snap) \<longrightarrow>
          fst (latest_snapshot (ssn_steam_id snap) s') = Inr (served_snapshot snap))"
  using assms(1)
proof (cases rule: save_snapshot_cases)
  case (failed e w)
  then have "no_faults s'"
    using keeps_eq [OF save_snapshot_keeps_schedule assms(1)] assms(2) by (simp add: no_faults_def)
  moreover have "sdb_snapshots s' = sdb_snapshots s"
    "sdb_snapshot_assets s' = sdb_snapshot_assets s" "sdb_acquisitions s' = sdb_acquisitions s"
    by (simp_all add: failed(2) restore_steam_def)
  ultimately show ?thesis
    using failed(1) assms(2)
    by (simp add: latest_snapshot_no_faults current_assets_no_faults cong: option.case_cong)
next
  case (not_begun e n)
  with assms(2) show ?thesis
    by (simp add: latest_snapshot_no_faults current_assets_no_faults cong: option.case_cong)
next
  case saved
  have ok: "no_faults s'" using assms(2) by (simp add: no_faults_def saved)
  let ?p = "steam_snapshot_po.truncate snap"
  have p: "ssn_complete ?p = ssn_complete snap" "ssn_steam_id ?p = ssn_steam_id snap"
    "ssn_taken_at ?p = ssn_taken_at snap" "ssn_id ?p = ssn_id snap"
    by (simp_all add: steam_snapshot_po.defs)
  have other: "filter (\<lambda>a. sar_snapshot_id a = ssn_id q) (sdb_snapshot_assets s') =
      filter (\<lambda>a. sar_snapshot_id a = ssn_id q) (sdb_snapshot_assets s)"
    if "q \<in> set (sdb_snapshots s)" for q
    using that saved(2) by (auto simp: saved(5) filter_empty_conv)
  have "fst (latest_snapshot sid s') = fst (latest_snapshot sid s) \<and>
      fst (current_assets sid s') = fst (current_assets sid s)" if "\<not> ssn_complete snap"
  proof (cases "latest_complete sid (sdb_snapshots s)")
    case None
    then show ?thesis using that p
      by (simp add: latest_snapshot_no_faults current_assets_no_faults ok assms(2) saved(4)
          latest_complete_partial)
  next
    case (Some q)
    then have "q \<in> set (sdb_snapshots s)" by (auto dest: latest_complete_SomeD)
    from other [OF this] Some that p show ?thesis
      by (simp add: latest_snapshot_no_faults current_assets_no_faults ok assms(2) saved(4,10)
          latest_complete_partial)
  qed
  moreover have "fst (latest_snapshot (ssn_steam_id snap) s') = Inr (served_snapshot snap)"
    if "ssn_complete snap" and newest: "\<forall>q\<in>set (sdb_snapshots s).
      ssn_steam_id q = ssn_steam_id snap \<and> ssn_complete q \<longrightarrow> ssn_taken_at q < ssn_taken_at snap"
  proof -
    have "latest_complete (ssn_steam_id snap) (sdb_snapshots s') = Some ?p"
      using latest_complete_newest [of "sdb_snapshots s" ?p] that p by (simp add: saved(4))
    moreover have "filter (\<lambda>a. sar_snapshot_id a = ssn_id snap) (sdb_snapshot_assets s') =
        map (snapshot_line (ssn_id snap)) (ssn_assets snap)"
    proof -
      have "filter (\<lambda>a. sar_snapshot_id a = ssn_id snap) (sdb_snapshot_assets s) = []"
        using assms(3) saved(2) unfolding steam_wf_def filter_empty_conv by metis
      then show ?thesis by (simp add: saved(5))
    qed
    ultimately show ?thesis
      by (simp add: latest_snapshot_no_faults [OF ok] p served_lines served_snapshot_def
          steam_snapshot_po.defs steam_inventory_snapshot.defs del: map_map)
  qed
  ultimately show ?thesis by simp
qed

section \<open>Concrete instances\<close>

definition empty_steam_db :: steam_db where
  "empty_steam_db = db.extend empty_db (steam_db.fields [] [] [] [] [] [] [])"

definition knife :: "string \<Rightarrow> string \<Rightarrow> f64 option \<Rightarrow> steam_acquisition_row" where
  "knife conf ref cost = \<lparr>saq_asset_id = ''a1'', saq_market_hash_name = ''Knife'',
     saq_acquired_at = Some 5, saq_type = ''trade'', saq_reference = ref, saq_cost_basis = cost,
     saq_cost_currency = ''USD'', saq_match_method = ''unresolved'', saq_match_confidence = conf\<rparr>"

definition stored_knife :: steam_db where
  "stored_knife = snd (save_acquisitions ''s'' [knife ''high'' ''m1'' None] empty_steam_db)"

theorem acquisitions_only_upgrade_witness:
  "\<exists>new. acquisition_row (''s'', ''a1'')
       (snd (save_acquisitions ''s'' [knife ''low'' ''m1'' (Some (Fin 3))] stored_knife)) = Some new \<and>
     as_strong new (knife ''high'' ''m1'' None) \<and> as_strong new (knife ''low'' ''m1'' (Some (Fin 3)))"
proof -
  let ?s = "snd (save_acquisitions ''s'' [knife ''low'' ''m1'' (Some (Fin 3))] stored_knife)"
  have ok: "fst (save_acquisitions ''s'' [knife ''low'' ''m1'' (Some (Fin 3))] stored_knife) = Inr ()"
    and old: "acquisition_row (''s'', ''a1'') stored_knife =
      Some (steam_acquisition_row.extend (knife ''high'' ''m1'' None) (steam_acquisition_po.fields ''s''))"
    by code_simp+
  note up = acquisitions_only_upgrade [where steamID = "''s''" and
      as = "[knife ''low'' ''m1'' (Some (Fin 3))]" and s = stored_knife, OF surjective_pairing]
  obtain new where new: "acquisition_row (''s'', ''a1'') ?s = Some new"
    "as_strong new (steam_acquisition_row.extend (knife ''high'' ''m1'' None) (steam_acquisition_po.fields ''s''))"
    using up old by blast
  moreover have "as_strong new (knife ''low'' ''m1'' (Some (Fin 3)))"
    using up new(1) ok by (auto simp: knife_def)
  moreover have "as_strong new (knife ''high'' ''m1'' None)"
    using new(2) by (simp add: as_strong_def evidence_score_def steam_acquisition_row.defs)
  ultimately show ?thesis by blast
qed

text \<open>
  On a tie the newer record replaces the older one as a whole: a stored cost is lost to a
  record that has a reference in its place.
\<close>

lemma tie_can_lose_cost:
  "map_option saq_cost_basis (acquisition_row (''s'', ''a1'')
     (snd (save_acquisitions ''s'' [knife ''high'' ''m1'' None]
       (snd (save_acquisitions ''s'' [knife ''high'' [] (Some (Fin 3))] empty_steam_db))))) = Some None"
  by code_simp

theorem steam_history_append_only_witness:
  "steam_wf (run_ops [RecordEvents ''s'' [\<lparr>sev_external_id = ''e'', sev_timestamp = 2,
       sev_kind = ''drop'', sev_market_hash_name = ''Case'', sev_quantity = 0, sev_asset_id = [],
       sev_matched = False\<rparr>], MarkEventsMatched ''s'' [''e'']] empty_steam_db)"
  by (rule steam_history_append_only [THEN conjunct1]) code_simp

definition first_snapshot :: steam_inventory_snapshot where
  "first_snapshot = \<lparr>ssn_id = ''n1'', ssn_steam_id = ''s'', ssn_taken_at = 9, ssn_complete = True,
     ssn_assets = [\<lparr>sar_asset_id = ''a1'', sar_class_id = ''c'', sar_instance_id = ''0'',
       sar_market_hash_name = ''Knife'', sar_amount = 0\<rparr>]\<rparr>"

theorem partial_snapshots_invisible_witness:
  "fst (latest_snapshot ''s'' (snd (save_snapshot first_snapshot empty_steam_db))) =
     Inr (served_snapshot first_snapshot)"
proof -
  have "fst (save_snapshot first_snapshot empty_steam_db) = Inr ()" by code_simp
  moreover have "no_faults empty_steam_db" "steam_wf empty_steam_db"
    by (simp_all add: no_faults_def empty_steam_db_def empty_db_def db.defs steam_db.defs
        steam_wf_def unique_keys_def)
  moreover have "ssn_complete first_snapshot" "ssn_steam_id first_snapshot = ''s''"
      "sdb_snapshots empty_steam_db = []"
    by (simp_all add: first_snapshot_def empty_steam_db_def db.defs steam_db.defs)
  ultimately show ?thesis
    using partial_snapshots_invisible [where snap = first_snapshot and
        s = empty_steam_db and sid = "''s''", OF surjective_pairing] by simp
qed

end
