(* ===== verification/Steam_Match.thy ===== *)
theory Steam_Match
  imports Steam_Repo Go_Number Go_Time "HOL-Library.Sublist"
begin

text \<open>
  Binding Steam assets to acquisition evidence (\<open>clients/steam/reconcile.go\<close>, with the types of
  \<open>inventory.go\<close>, \<open>history.go\<close> and \<open>domain/steam/entities.go\<close>): the event kinds, the four
  ways to match, the loop of \<open>resolve\<close> and the lots of indistinguishable assets. A time
  difference is Go's \<open>Time.Sub\<close>, which saturates at the bounds of \<open>int64\<close>, and
  \<open>absDuration\<close> negates with wrap-around, as the code does.

  The lemmas show what evidence stands behind each grade of confidence, that no purchase
  pays for two assets, and which events are left for later.
\<close>

section \<open>Data\<close>

record inventory_item =
  itm_asset_id :: string
  itm_class_id :: string
  itm_instance_id :: string
  itm_amount :: int
  itm_market_hash_name :: string
  itm_marketable :: bool
  itm_tradable :: bool
  itm_name :: string
  itm_type :: string
  itm_tags :: "(string \<times> string) list"
  itm_has_description :: bool

record history_event =
  hev_external_id :: string
  hev_timestamp :: time
  hev_kind :: string
  hev_market_hash_name :: string
  hev_quantity :: int
  hev_asset_id :: string
  hev_class_id :: string
  hev_instance_id :: string

record market_transaction =
  mtx_external_id :: string
  mtx_type :: string
  mtx_timestamp :: time
  mtx_market_hash_name :: string
  mtx_class_id :: string
  mtx_instance_id :: string
  mtx_quantity :: int
  mtx_gross :: f64
  mtx_net :: "f64 option"
  mtx_currency :: string

record trade_asset =
  tas_asset_id :: string
  tas_class_id :: string
  tas_instance_id :: string
  tas_quantity :: int
  tas_new_asset_id :: string
  tas_new_context :: string

record trade_record =
  trc_trade_id :: string
  trc_timestamp :: time
  trc_other_steam_id :: string
  trc_status :: string
  trc_given :: "trade_asset list"
  trc_received :: "trade_asset list"

definition AcquisitionMarketBuy :: string where "AcquisitionMarketBuy = ''steam_market''"
definition AcquisitionTrade :: string where "AcquisitionTrade = ''trade''"
definition AcquisitionCraft :: string where "AcquisitionCraft = ''craft''"
definition AcquisitionDrop :: string where "AcquisitionDrop = ''drop''"
definition AcquisitionReturned :: string where "AcquisitionReturned = ''market_returned''"
definition AcquisitionUnresolved :: string where "AcquisitionUnresolved = ''unresolved''"

definition MatchExact :: string where "MatchExact = ''exact''"
definition MatchHigh :: string where "MatchHigh = ''high''"
definition MatchMedium :: string where "MatchMedium = ''medium''"
definition MatchLow :: string where "MatchLow = ''low''"
definition MatchUnresolved :: string where "MatchUnresolved = ''unresolved''"

definition MatchSnapshotEvent :: string where "MatchSnapshotEvent = ''snapshot+inventory_history''"
definition MatchNewAssetID :: string where "MatchNewAssetID = ''trade_new_assetid''"
definition MatchHistoryMarket :: string where "MatchHistoryMarket = ''inventory_history+market_history''"
definition MatchAttributes :: string where "MatchAttributes = ''attributes+proximity''"
definition MatchMethodUnresolved :: string where "MatchMethodUnresolved = ''unresolved''"

lemmas match_consts = MatchExact_def MatchHigh_def MatchMedium_def MatchLow_def MatchUnresolved_def

record resolution =
  rsl_asset :: inventory_item
  rsl_acquired_at :: "time option"
  rsl_type :: string
  rsl_reference :: string
  rsl_cost_basis :: "f64 option"
  rsl_cost_currency :: string
  rsl_match_method :: string
  rsl_match_confidence :: string

section \<open>Event kinds and durations\<close>

definition EventMarketBuy :: string where "EventMarketBuy = ''Purchased on Community Market''"
definition EventMarketList :: string where "EventMarketList = ''Listed on Community Market''"
definition EventMarketReturn :: string where "EventMarketReturn = ''Returned by Community Market''"
definition EventTraded :: string where "EventTraded = ''Traded''"
definition EventReceived :: string where "EventReceived = ''Received''"
definition EventCrafted :: string where "EventCrafted = ''Crafted''"
definition EventEarned :: string where "EventEarned = ''Earned''"
definition EventUsed :: string where "EventUsed = ''Used''"
definition EventUnboxed :: string where "EventUnboxed = ''Unboxed''"

definition isAcquisitionKind :: "string \<Rightarrow> bool" where
  "isAcquisitionKind kind \<longleftrightarrow> kind \<in> {EventMarketBuy, EventTraded, EventReceived, EventCrafted,
     EventEarned, EventMarketReturn}"

definition acquisitionForKind :: "string \<Rightarrow> string" where
  "acquisitionForKind kind =
    (if kind = EventMarketBuy then AcquisitionMarketBuy
     else if kind = EventTraded \<or> kind = EventReceived then AcquisitionTrade
     else if kind = EventCrafted then AcquisitionCraft
     else if kind = EventEarned then AcquisitionDrop
     else if kind = EventMarketReturn then AcquisitionReturned
     else AcquisitionUnresolved)"

text \<open>The gap between two instants: \<open>absDuration\<close> of \<open>t.Sub(u)\<close>.\<close>

definition absDuration :: "duration \<Rightarrow> duration" where
  "absDuration d = (if d < 0 then wrap64 (- d) else d)"

section \<open>Matching one asset\<close>

definition matchEvent :: "history_event list \<Rightarrow> inventory_item \<Rightarrow> history_event option" where
  "matchEvent evs it = List.find (\<lambda>ev. isAcquisitionKind (hev_kind ev) \<and>
     \<not> (hev_class_id ev \<noteq> [] \<and> hev_class_id ev \<noteq> itm_class_id it) \<and>
     \<not> (hev_market_hash_name ev \<noteq> [] \<and> hev_market_hash_name ev \<noteq> itm_market_hash_name it)) evs"

definition matchNewAssetID :: "trade_record list \<Rightarrow> string \<Rightarrow> trade_record option" where
  "matchNewAssetID trades assetID = List.find (\<lambda>tr. list_ex (\<lambda>a. tas_new_asset_id a \<noteq> [] \<and>
     tas_new_asset_id a = assetID) (trc_received tr)) trades"

definition order_events :: "history_event list \<Rightarrow> history_event list" where
  "order_events evs = sort_key hev_timestamp (sort_key hev_external_id evs)"

definition order_txs :: "market_transaction list \<Rightarrow> market_transaction list" where
  "order_txs txs = sort_key mtx_timestamp (sort_key mtx_external_id txs)"

type_synonym market_pair = "duration \<times> (history_event \<times> market_transaction) option"

definition pair_tx :: "inventory_item \<Rightarrow> history_event \<Rightarrow> market_transaction \<Rightarrow> market_pair \<Rightarrow> market_pair" where
  "pair_tx it ev tx best =
    (if mtx_type tx \<noteq> ''buy'' \<or> mtx_market_hash_name tx \<noteq> itm_market_hash_name it then best
     else if mtx_quantity tx \<noteq> itm_amount it \<and> mtx_quantity tx \<noteq> 1 then best
     else let gap = absDuration (time_sub (hev_timestamp ev) (mtx_timestamp tx))
          in if gap > 24 * dur_hour \<or> gap \<ge> fst best then best else (gap, Some (ev, tx)))"

definition pair_event ::
  "string set \<Rightarrow> market_transaction list \<Rightarrow> inventory_item \<Rightarrow> history_event \<Rightarrow> market_pair \<Rightarrow> market_pair" where
  "pair_event consumed txs it ev best =
    (if hev_external_id ev \<in> consumed \<or> \<not> isAcquisitionKind (hev_kind ev) then best
     else if hev_market_hash_name ev \<noteq> [] \<and> hev_market_hash_name ev \<noteq> itm_market_hash_name it then best
     else fold (pair_tx it ev) txs best)"

text \<open>The transactions are the values of the map from external ids.\<close>

definition matchMarketPair ::
  "history_event list \<Rightarrow> market_transaction list \<Rightarrow> string set \<Rightarrow> string set \<Rightarrow> inventory_item \<Rightarrow>
   (history_event \<times> market_transaction) option" where
  "matchMarketPair events market consumedEvents consumedTx it =
    (let txs = order_txs (filter (\<lambda>tx. mtx_external_id tx \<notin> consumedTx) market)
     in snd (fold (pair_event consumedEvents txs it) (order_events events) (25 * dur_hour, None)))"

definition mediumEventWindow :: duration where "mediumEventWindow = 72 * dur_hour"

definition matchAttributes ::
  "history_event list \<Rightarrow> string set \<Rightarrow> inventory_item \<Rightarrow> time \<Rightarrow> history_event option" where
  "matchAttributes events consumed it now = List.find (\<lambda>ev.
     \<not> (hev_external_id ev \<in> consumed \<or> \<not> isAcquisitionKind (hev_kind ev)) \<and>
     \<not> (time_is_zero (hev_timestamp ev) \<or>
        absDuration (time_sub (hev_timestamp ev) now) > mediumEventWindow) \<and>
     \<not> (hev_class_id ev \<noteq> [] \<and> hev_class_id ev \<noteq> itm_class_id it) \<and>
     \<not> (hev_instance_id ev \<noteq> [] \<and> hev_instance_id ev \<noteq> itm_instance_id it) \<and>
     \<not> (hev_market_hash_name ev \<noteq> [] \<and> hev_market_hash_name ev \<noteq> itm_market_hash_name it) \<and>
     \<not> (hev_quantity ev \<noteq> 0 \<and> hev_quantity ev \<noteq> itm_amount it)) events"

definition applyEvent :: "history_event \<Rightarrow> resolution \<Rightarrow> resolution" where
  "applyEvent ev r = r\<lparr>
     rsl_acquired_at := (if time_is_zero (hev_timestamp ev) then rsl_acquired_at r else Some (hev_timestamp ev)),
     rsl_type := acquisitionForKind (hev_kind ev), rsl_reference := hev_external_id ev\<rparr>"

section \<open>The resolver\<close>

definition unresolved :: "inventory_item \<Rightarrow> resolution" where
  "unresolved it = \<lparr>rsl_asset = it, rsl_acquired_at = None, rsl_type = AcquisitionUnresolved,
     rsl_reference = [], rsl_cost_basis = None, rsl_cost_currency = [],
     rsl_match_method = MatchMethodUnresolved, rsl_match_confidence = MatchUnresolved\<rparr>"

type_synonym match_state = "resolution \<times> string set \<times> string set"

definition try_event :: "(string \<Rightarrow> bool) option \<Rightarrow> history_event list \<Rightarrow> match_state \<Rightarrow> match_state" where
  "try_event before events st = (case st of (r, consumed, consumedTx) \<Rightarrow>
    (case before of
       None \<Rightarrow> st
     | Some b \<Rightarrow> if b (itm_asset_id (rsl_asset r)) then st
         else (case matchEvent (filter (\<lambda>ev. hev_asset_id ev \<noteq> [] \<and>
                 hev_asset_id ev = itm_asset_id (rsl_asset r)) events) (rsl_asset r) of
            None \<Rightarrow> st
          | Some ev \<Rightarrow> ((applyEvent ev r)\<lparr>rsl_match_method := MatchSnapshotEvent,
              rsl_match_confidence := MatchExact\<rparr>, insert (hev_external_id ev) consumed, consumedTx))))"

definition try_trade :: "trade_record list \<Rightarrow> match_state \<Rightarrow> match_state" where
  "try_trade trades st = (case st of (r, consumed, consumedTx) \<Rightarrow>
    if rsl_match_confidence r \<noteq> MatchUnresolved then st
    else case matchNewAssetID trades (itm_asset_id (rsl_asset r)) of
        None \<Rightarrow> st
      | Some tr \<Rightarrow> (r\<lparr>rsl_acquired_at := Some (trc_timestamp tr), rsl_type := AcquisitionTrade,
          rsl_reference := trc_trade_id tr, rsl_match_method := MatchNewAssetID,
          rsl_match_confidence := MatchExact\<rparr>, consumed, consumedTx))"

definition try_market :: "history_event list \<Rightarrow> market_transaction list \<Rightarrow> match_state \<Rightarrow> match_state" where
  "try_market events market st = (case st of (r, consumed, consumedTx) \<Rightarrow>
    if rsl_match_confidence r \<noteq> MatchUnresolved then st
    else case matchMarketPair events market consumed consumedTx (rsl_asset r) of
        None \<Rightarrow> st
      | Some (ev, tx) \<Rightarrow>
          ((applyEvent ev r)\<lparr>rsl_type := AcquisitionMarketBuy, rsl_reference := mtx_external_id tx,
             rsl_cost_currency := (if mtx_currency tx \<noteq> [] then mtx_currency tx else rsl_cost_currency r),
             rsl_cost_basis := Some (if mtx_quantity tx > 1
               then f64_div (mtx_gross tx) (f64_of_int (mtx_quantity tx)) else mtx_gross tx),
             rsl_match_method := MatchHistoryMarket, rsl_match_confidence := MatchHigh\<rparr>,
           insert (hev_external_id ev) consumed, insert (mtx_external_id tx) consumedTx))"

definition try_attributes :: "history_event list \<Rightarrow> time \<Rightarrow> match_state \<Rightarrow> match_state" where
  "try_attributes events now st = (case st of (r, consumed, consumedTx) \<Rightarrow>
    if rsl_match_confidence r \<noteq> MatchUnresolved then st
    else case matchAttributes events consumed (rsl_asset r) now of
        None \<Rightarrow> st
      | Some ev \<Rightarrow> ((applyEvent ev r)\<lparr>rsl_match_method := MatchAttributes,
          rsl_match_confidence := MatchMedium\<rparr>, insert (hev_external_id ev) consumed, consumedTx))"

definition resolve_item ::
  "(string \<Rightarrow> bool) option \<Rightarrow> history_event list \<Rightarrow> market_transaction list \<Rightarrow> trade_record list \<Rightarrow> time \<Rightarrow>
   inventory_item \<Rightarrow> string set \<Rightarrow> string set \<Rightarrow> match_state" where
  "resolve_item before events market trades now it consumed consumedTx =
     try_attributes events now (try_market events market (try_trade trades
       (try_event before events (unresolved it, consumed, consumedTx))))"

fun resolve_items ::
  "(string \<Rightarrow> bool) option \<Rightarrow> history_event list \<Rightarrow> market_transaction list \<Rightarrow> trade_record list \<Rightarrow> time \<Rightarrow>
   inventory_item list \<Rightarrow> string set \<Rightarrow> string set \<Rightarrow> resolution list \<times> string set" where
  "resolve_items before events market trades now [] consumed consumedTx = ([], consumed)"
| "resolve_items before events market trades now (it # its) consumed consumedTx =
    (case resolve_item before events market trades now it consumed consumedTx of
       (r, consumed', consumedTx') \<Rightarrow>
         (case resolve_items before events market trades now its consumed' consumedTx' of
            (rs, c) \<Rightarrow> (r # rs, c)))"

definition resolve ::
  "inventory_item list \<Rightarrow> (string \<Rightarrow> bool) option \<Rightarrow> history_event list \<Rightarrow> market_transaction list \<Rightarrow>
   trade_record list \<Rightarrow> time \<Rightarrow> resolution list \<times> history_event list" where
  "resolve owned before events market trades now =
    (case resolve_items before events market trades now owned {} {} of
       (rs, consumed) \<Rightarrow> (rs, filter (\<lambda>ev. hev_external_id ev \<notin> consumed) events))"

section \<open>Lots\<close>

record acquisition_lot =
  lot_id :: string
  lot_steam_id :: string
  lot_market_hash_name :: string
  lot_quantity :: int
  lot_acquired_at :: time
  lot_unit_cost :: "f64 option"
  lot_cost_currency :: string
  lot_source :: string
  lot_reference :: string

definition lot_members :: "resolution list \<Rightarrow> string \<Rightarrow> resolution list" where
  "lot_members resolved n = filter (\<lambda>r.
     \<not> (rsl_match_confidence r = MatchExact \<or> rsl_match_confidence r = MatchHigh) \<and>
     itm_market_hash_name (rsl_asset r) \<noteq> [] \<and> itm_market_hash_name (rsl_asset r) = n) resolved"

definition buildLots :: "resolution list \<Rightarrow> acquisition_lot list" where
  "buildLots resolved =
    (let names = sort (remdups (filter (\<lambda>n. lot_members resolved n \<noteq> [])
           (map (\<lambda>r. itm_market_hash_name (rsl_asset r)) resolved)))
     in map (\<lambda>n. \<lparr>lot_id = ''lot:'' @ n, lot_steam_id = [], lot_market_hash_name = n,
            lot_quantity = sum_list (map (\<lambda>r. itm_amount (rsl_asset r)) (lot_members resolved n)),
            lot_acquired_at = 0, lot_unit_cost = None, lot_cost_currency = [],
            lot_source = AcquisitionUnresolved,
            lot_reference = itoa (int (length (lot_members resolved n))) @ '' indistinguishable assets''\<rparr>)
          (filter (\<lambda>n. \<not> length (lot_members resolved n) < 2) names))"

section \<open>What a match rests on\<close>

definition name_fits :: "history_event \<Rightarrow> inventory_item \<Rightarrow> bool" where
  "name_fits ev it \<longleftrightarrow> hev_market_hash_name ev = [] \<or> hev_market_hash_name ev = itm_market_hash_name it"

lemma find_SomeD: "List.find P xs = Some x \<Longrightarrow> x \<in> set xs \<and> P x"
  by (auto simp: find_Some_iff)

lemma matchEvent_sound:
  "matchEvent evs it = Some ev \<Longrightarrow> ev \<in> set evs \<and> isAcquisitionKind (hev_kind ev) \<and> name_fits ev it"
  unfolding matchEvent_def name_fits_def by (drule find_SomeD) blast

lemma matchNewAssetID_sound:
  "matchNewAssetID trades i = Some tr \<Longrightarrow>
     tr \<in> set trades \<and> i \<noteq> [] \<and> (\<exists>a\<in>set (trc_received tr). tas_new_asset_id a = i)"
  unfolding matchNewAssetID_def by (drule find_SomeD) (auto simp: list_ex_iff)

lemma matchAttributes_sound:
  "matchAttributes evs consumed it now = Some ev \<Longrightarrow>
     ev \<in> set evs \<and> hev_external_id ev \<notin> consumed \<and> isAcquisitionKind (hev_kind ev) \<and>
     name_fits ev it \<and> \<not> time_is_zero (hev_timestamp ev) \<and>
     absDuration (time_sub (hev_timestamp ev) now) \<le> mediumEventWindow \<and>
     (hev_quantity ev = 0 \<or> hev_quantity ev = itm_amount it)"
  unfolding matchAttributes_def name_fits_def by (drule find_SomeD) (auto simp: not_less)

text \<open>The pair found by the double loop satisfies its guards.\<close>

definition pair_fits ::
  "history_event list \<Rightarrow> market_transaction list \<Rightarrow> string set \<Rightarrow> string set \<Rightarrow> inventory_item \<Rightarrow>
   history_event \<Rightarrow> market_transaction \<Rightarrow> bool" where
  "pair_fits events market consumed consumedTx it ev tx \<longleftrightarrow>
     ev \<in> set events \<and> hev_external_id ev \<notin> consumed \<and> isAcquisitionKind (hev_kind ev) \<and> name_fits ev it \<and>
     tx \<in> set market \<and> mtx_external_id tx \<notin> consumedTx \<and> mtx_type tx = ''buy'' \<and>
     mtx_market_hash_name tx = itm_market_hash_name it \<and>
     (mtx_quantity tx = itm_amount it \<or> mtx_quantity tx = 1) \<and>
     absDuration (time_sub (hev_timestamp ev) (mtx_timestamp tx)) \<le> 24 * dur_hour"

lemma pair_tx_sound:
  assumes "snd (pair_tx it ev tx best) = Some p"
  shows "snd best = Some p \<or> (p = (ev, tx) \<and> mtx_type tx = ''buy'' \<and>
     mtx_market_hash_name tx = itm_market_hash_name it \<and>
     (mtx_quantity tx = itm_amount it \<or> mtx_quantity tx = 1) \<and>
     absDuration (time_sub (hev_timestamp ev) (mtx_timestamp tx)) \<le> 24 * dur_hour)"
  using assms by (auto simp: pair_tx_def Let_def split: if_splits)

lemma pair_txs_sound:
  assumes "snd (fold (pair_tx it ev) txs best) = Some p"
  shows "snd best = Some p \<or> (\<exists>tx\<in>set txs. p = (ev, tx) \<and> mtx_type tx = ''buy'' \<and>
     mtx_market_hash_name tx = itm_market_hash_name it \<and>
     (mtx_quantity tx = itm_amount it \<or> mtx_quantity tx = 1) \<and>
     absDuration (time_sub (hev_timestamp ev) (mtx_timestamp tx)) \<le> 24 * dur_hour)"
  using assms
proof (induction txs arbitrary: best)
  case (Cons tx txs)
  from Cons.prems have "snd (fold (pair_tx it ev) txs (pair_tx it ev tx best)) = Some p" by simp
  from Cons.IH [OF this] show ?case using pair_tx_sound [of it ev tx best p] by auto
qed simp

lemma pair_events_sound:
  assumes "snd (fold (pair_event consumed txs it) evs best) = Some (ev, tx)"
    and "snd best = Some (ev, tx) \<Longrightarrow> pair_fits events market consumed consumedTx it ev tx"
    and "set evs \<subseteq> set events" and "set txs \<subseteq> {tx \<in> set market. mtx_external_id tx \<notin> consumedTx}"
  shows "pair_fits events market consumed consumedTx it ev tx"
  using assms
proof (induction evs arbitrary: best)
  case (Cons e evs)
  show ?case
  proof (rule Cons.IH)
    show "snd (fold (pair_event consumed txs it) evs (pair_event consumed txs it e best)) = Some (ev, tx)"
      using Cons.prems(1) by simp
    assume "snd (pair_event consumed txs it e best) = Some (ev, tx)"
    then show "pair_fits events market consumed consumedTx it ev tx"
      using Cons.prems(2-4) pair_txs_sound [of it e txs best "(ev, tx)"]
      by (auto simp: pair_event_def pair_fits_def name_fits_def split: if_splits)
  qed (use Cons.prems in auto)
qed simp

lemma matchMarketPair_sound:
  assumes "matchMarketPair events market consumed consumedTx it = Some (ev, tx)"
  shows "pair_fits events market consumed consumedTx it ev tx"
  by (rule pair_events_sound [OF assms [unfolded matchMarketPair_def Let_def]])
    (auto simp: order_events_def order_txs_def)

section \<open>The outcome of one asset\<close>

definition high_cost :: "market_transaction \<Rightarrow> f64" where
  "high_cost tx = (if mtx_quantity tx > 1
     then f64_div (mtx_gross tx) (f64_of_int (mtx_quantity tx)) else mtx_gross tx)"

lemma applyEvent_sel [simp]:
  "rsl_asset (applyEvent ev r) = rsl_asset r" "rsl_reference (applyEvent ev r) = hev_external_id ev"
  "rsl_cost_basis (applyEvent ev r) = rsl_cost_basis r"
  "rsl_cost_currency (applyEvent ev r) = rsl_cost_currency r"
  "rsl_match_confidence (applyEvent ev r) = rsl_match_confidence r"
  by (simp_all add: applyEvent_def)

lemma unresolved_sel [simp]:
  "rsl_asset (unresolved it) = it" "rsl_match_confidence (unresolved it) = MatchUnresolved"
  "rsl_cost_basis (unresolved it) = None"
  by (simp_all add: unresolved_def)

definition graded_exactly ::
  "(string \<Rightarrow> bool) option \<Rightarrow> history_event list \<Rightarrow> trade_record list \<Rightarrow> inventory_item \<Rightarrow> resolution \<Rightarrow> bool" where
  "graded_exactly before events trades it r \<longleftrightarrow> rsl_cost_basis r = None \<and>
     ((\<exists>b ev. before = Some b \<and> \<not> b (itm_asset_id it) \<and> ev \<in> set events \<and>
         hev_asset_id ev = itm_asset_id it \<and> isAcquisitionKind (hev_kind ev) \<and> name_fits ev it \<and>
         rsl_reference r = hev_external_id ev) \<or>
      (\<exists>tr\<in>set trades. \<exists>a\<in>set (trc_received tr). tas_new_asset_id a = itm_asset_id it \<and>
         rsl_reference r = trc_trade_id tr \<and> rsl_acquired_at r = Some (trc_timestamp tr)))"

text \<open>What each step makes of an asset that is still open, and that it leaves a settled one alone.\<close>

lemma try_event_outcome:
  "try_event before events (unresolved it, c, ct) = (unresolved it, c, ct) \<or>
   (\<exists>r. try_event before events (unresolved it, c, ct) = (r, insert (rsl_reference r) c, ct) \<and>
      rsl_asset r = it \<and> rsl_match_confidence r = MatchExact \<and> graded_exactly before events trades it r)"
proof (cases "\<exists>b ev. before = Some b \<and> \<not> b (itm_asset_id it) \<and> matchEvent (filter (\<lambda>ev.
    hev_asset_id ev \<noteq> [] \<and> hev_asset_id ev = itm_asset_id it) events) it = Some ev")
  case True
  then obtain b ev where b: "before = Some b" "\<not> b (itm_asset_id it)" and m: "matchEvent (filter (\<lambda>ev.
    hev_asset_id ev \<noteq> [] \<and> hev_asset_id ev = itm_asset_id it) events) it = Some ev" by blast
  let ?r = "(applyEvent ev (unresolved it))\<lparr>rsl_match_method := MatchSnapshotEvent,
    rsl_match_confidence := MatchExact\<rparr>"
  have "try_event before events (unresolved it, c, ct) = (?r, insert (rsl_reference ?r) c, ct)"
    using b m by (simp add: try_event_def)
  moreover have "graded_exactly before events trades it ?r"
    unfolding graded_exactly_def using matchEvent_sound [OF m] b
    by (intro conjI disjI1 exI [of _ b] exI [of _ ev]) auto
  moreover have "rsl_asset ?r = it" "rsl_match_confidence ?r = MatchExact" by simp_all
  ultimately show ?thesis by blast
next
  case False
  then show ?thesis unfolding try_event_def by (auto split: option.splits)
qed

lemma try_trade_outcome:
  "try_trade trades (unresolved it, c, ct) = (unresolved it, c, ct) \<or>
   (\<exists>r. try_trade trades (unresolved it, c, ct) = (r, c, ct) \<and> rsl_asset r = it \<and>
      rsl_match_confidence r = MatchExact \<and> graded_exactly before events trades it r)"
proof (cases "matchNewAssetID trades (itm_asset_id it)")
  case None
  then show ?thesis by (simp add: try_trade_def)
next
  case (Some tr)
  let ?r = "(unresolved it)\<lparr>rsl_acquired_at := Some (trc_timestamp tr), rsl_type := AcquisitionTrade,
      rsl_reference := trc_trade_id tr, rsl_match_method := MatchNewAssetID,
      rsl_match_confidence := MatchExact\<rparr>"
  have "try_trade trades (unresolved it, c, ct) = (?r, c, ct)" using Some by (simp add: try_trade_def)
  moreover have "graded_exactly before events trades it ?r"
    using matchNewAssetID_sound [OF Some] unfolding graded_exactly_def
    by (intro conjI disjI2 bexI [of _ tr]) auto
  moreover have "rsl_asset ?r = it" "rsl_match_confidence ?r = MatchExact" by simp_all
  ultimately show ?thesis by blast
qed

lemma try_market_outcome:
  "try_market events market (unresolved it, c, ct) = (unresolved it, c, ct) \<or>
   (\<exists>r ev tx. try_market events market (unresolved it, c, ct) =
        (r, insert (hev_external_id ev) c, insert (mtx_external_id tx) ct) \<and>
      rsl_asset r = it \<and> rsl_match_confidence r = MatchHigh \<and> pair_fits events market c ct it ev tx \<and>
      rsl_reference r = mtx_external_id tx \<and> rsl_cost_basis r = Some (high_cost tx))"
proof (cases "matchMarketPair events market c ct it")
  case None
  then show ?thesis by (simp add: try_market_def)
next
  case (Some p)
  then obtain ev tx where m: "matchMarketPair events market c ct it = Some (ev, tx)" by (cases p) simp
  let ?r = "(applyEvent ev (unresolved it))\<lparr>rsl_type := AcquisitionMarketBuy,
      rsl_reference := mtx_external_id tx,
      rsl_cost_currency := (if mtx_currency tx \<noteq> [] then mtx_currency tx else rsl_cost_currency (unresolved it)),
      rsl_cost_basis := Some (high_cost tx),
      rsl_match_method := MatchHistoryMarket, rsl_match_confidence := MatchHigh\<rparr>"
  have "try_market events market (unresolved it, c, ct) =
      (?r, insert (hev_external_id ev) c, insert (mtx_external_id tx) ct)"
    using m by (simp add: try_market_def high_cost_def)
  moreover have "rsl_asset ?r = it" "rsl_match_confidence ?r = MatchHigh"
    "rsl_reference ?r = mtx_external_id tx" "rsl_cost_basis ?r = Some (high_cost tx)" by simp_all
  ultimately show ?thesis using matchMarketPair_sound [OF m] by blast
qed

lemma try_attributes_outcome:
  "try_attributes events now (unresolved it, c, ct) = (unresolved it, c, ct) \<or>
   (\<exists>r ev. try_attributes events now (unresolved it, c, ct) = (r, insert (hev_external_id ev) c, ct) \<and>
      rsl_asset r = it \<and> rsl_match_confidence r = MatchMedium \<and> matchAttributes events c it now = Some ev \<and>
      rsl_reference r = hev_external_id ev \<and> rsl_cost_basis r = None)"
  by (cases "matchAttributes events c it now") (auto simp: try_attributes_def)

lemma settled_stays:
  assumes "rsl_match_confidence r \<noteq> MatchUnresolved"
  shows "try_trade trades (r, c, ct) = (r, c, ct)" "try_market events market (r, c, ct) = (r, c, ct)"
    "try_attributes events now (r, c, ct) = (r, c, ct)"
  using assms by (simp_all add: try_trade_def try_market_def try_attributes_def)

lemma confidence_distinct [simp]:
  "MatchExact \<noteq> MatchUnresolved" "MatchHigh \<noteq> MatchUnresolved" "MatchMedium \<noteq> MatchUnresolved"
  by (simp_all add: match_consts)

text \<open>The five ways \<open>resolve_item\<close> can end, with the ids it consumes.\<close>

lemma resolve_item_outcome:
  assumes "resolve_item before events market trades now it c ct = (r, c', ct')"
  shows "rsl_asset r = it \<and>
     ((rsl_match_confidence r = MatchExact \<and> graded_exactly before events trades it r \<and> ct' = ct \<and>
         (c' = c \<or> (c' = insert (rsl_reference r) c))) \<or>
      (\<exists>ev tx. rsl_match_confidence r = MatchHigh \<and> pair_fits events market c ct it ev tx \<and>
         rsl_reference r = mtx_external_id tx \<and> rsl_cost_basis r = Some (high_cost tx) \<and>
         c' = insert (hev_external_id ev) c \<and> ct' = insert (mtx_external_id tx) ct) \<or>
      (\<exists>ev. rsl_match_confidence r = MatchMedium \<and> matchAttributes events c it now = Some ev \<and>
         rsl_reference r = hev_external_id ev \<and> rsl_cost_basis r = None \<and>
         c' = insert (hev_external_id ev) c \<and> ct' = ct) \<or>
      (r = unresolved it \<and> c' = c \<and> ct' = ct))"
proof -
  note U = assms [unfolded resolve_item_def, symmetric]
  consider (event) r1 where "try_event before events (unresolved it, c, ct) = (r1, insert (rsl_reference r1) c, ct)"
      "rsl_asset r1 = it" "rsl_match_confidence r1 = MatchExact" "graded_exactly before events trades it r1"
    | (open1) "try_event before events (unresolved it, c, ct) = (unresolved it, c, ct)"
    using try_event_outcome [of before events it c ct trades] by blast
  then show ?thesis
  proof cases
    case event
    then show ?thesis using U by (simp add: settled_stays)
  next
    case open1
    consider (trade) r1 where "try_trade trades (unresolved it, c, ct) = (r1, c, ct)"
        "rsl_asset r1 = it" "rsl_match_confidence r1 = MatchExact" "graded_exactly before events trades it r1"
      | (open2) "try_trade trades (unresolved it, c, ct) = (unresolved it, c, ct)"
      using try_trade_outcome [of trades it c ct before events] by blast
    then show ?thesis
    proof cases
      case trade
      then show ?thesis using U open1 by (simp add: settled_stays)
    next
      case open2
      have U': "(r, c', ct') = try_attributes events now (try_market events market (unresolved it, c, ct))"
        using U open1 open2 by simp
      show ?thesis
        using try_market_outcome [of events market it c ct] try_attributes_outcome [of events now it c ct] U'
        by (elim disjE exE conjE) (simp_all add: settled_stays; blast)+
    qed
  qed
qed

section \<open>The outcome of a run\<close>

text \<open>What the confidence of a resolution stands for.\<close>

definition justified ::
  "(string \<Rightarrow> bool) option \<Rightarrow> history_event list \<Rightarrow> market_transaction list \<Rightarrow> trade_record list \<Rightarrow> time \<Rightarrow>
   inventory_item \<Rightarrow> resolution \<Rightarrow> bool" where
  "justified before events market trades now it r \<longleftrightarrow> rsl_asset r = it \<and>
     (rsl_match_confidence r = MatchExact \<and> graded_exactly before events trades it r \<or>
      rsl_match_confidence r = MatchHigh \<and> (\<exists>ev tx. pair_fits events market {} {} it ev tx \<and>
         rsl_reference r = mtx_external_id tx \<and> rsl_cost_basis r = Some (high_cost tx)) \<or>
      rsl_match_confidence r = MatchMedium \<and> (\<exists>ev. matchAttributes [ev] {} it now = Some ev \<and>
         ev \<in> set events \<and> rsl_reference r = hev_external_id ev \<and> rsl_cost_basis r = None) \<or>
      r = unresolved it)"

lemma matchAttributes_alone:
  "matchAttributes events c it now = Some ev \<Longrightarrow> matchAttributes [ev] {} it now = Some ev \<and> ev \<in> set events"
  unfolding matchAttributes_def by (drule find_SomeD) simp

lemma pair_fits_mono:
  "pair_fits events market c ct it ev tx \<Longrightarrow> pair_fits events market {} {} it ev tx"
  by (simp add: pair_fits_def)

lemma resolve_items_justified:
  "list_all2 (justified before events market trades now) its
     (fst (resolve_items before events market trades now its c ct))"
proof (induction its arbitrary: c ct)
  case (Cons it its)
  obtain r c' ct' where eq: "resolve_item before events market trades now it c ct = (r, c', ct')"
    by (metis surj_pair)
  have "justified before events market trades now it r"
    using resolve_item_outcome [OF eq] matchAttributes_alone pair_fits_mono
    unfolding justified_def by blast
  with Cons.IH [of c' ct'] show ?case by (simp add: eq split_beta)
qed simp

text \<open>The ids used up: the references of high resolutions are new purchases each time.\<close>

lemma resolve_items_consumption:
  assumes "resolve_items before events market trades now its c ct = (rs, c')"
  shows "distinct (map rsl_reference (filter (\<lambda>r. rsl_match_confidence r = MatchHigh) rs)) \<and>
     (\<forall>r\<in>set rs. rsl_match_confidence r = MatchHigh \<longrightarrow> rsl_reference r \<notin> ct) \<and>
     distinct (map rsl_reference (filter (\<lambda>r. rsl_match_confidence r = MatchMedium) rs)) \<and>
     (\<forall>r\<in>set rs. rsl_match_confidence r = MatchMedium \<longrightarrow> rsl_reference r \<notin> c \<and> rsl_reference r \<in> c') \<and>
     c \<subseteq> c' \<and> (finite c \<longrightarrow> finite c' \<and>
       card c' \<le> card c + length (filter (\<lambda>r. rsl_match_confidence r \<noteq> MatchUnresolved) rs))"
  using assms
proof (induction its arbitrary: c ct rs)
  case (Cons it its)
  obtain r c1 ct1 where eq: "resolve_item before events market trades now it c ct = (r, c1, ct1)"
    by (metis surj_pair)
  obtain rs1 where rest: "resolve_items before events market trades now its c1 ct1 = (rs1, c')"
    and rs: "rs = r # rs1"
    using Cons.prems eq by (auto split: prod.splits)
  note IH = Cons.IH [OF rest]
  have out: "(rsl_match_confidence r = MatchExact \<and> ct1 = ct \<and> (c1 = c \<or> c1 = insert (rsl_reference r) c)) \<or>
      (\<exists>x. rsl_match_confidence r = MatchHigh \<and> rsl_reference r \<notin> ct \<and> ct1 = insert (rsl_reference r) ct \<and>
         c1 = insert x c) \<or>
      (rsl_match_confidence r = MatchMedium \<and> rsl_reference r \<notin> c \<and> ct1 = ct \<and> c1 = insert (rsl_reference r) c) \<or>
      (rsl_match_confidence r = MatchUnresolved \<and> c1 = c \<and> ct1 = ct)"
    using resolve_item_outcome [OF eq, THEN conjunct2]
  proof (elim disjE exE conjE)
    fix ev tx
    assume "rsl_match_confidence r = MatchHigh" "pair_fits events market c ct it ev tx"
      "rsl_reference r = mtx_external_id tx" "c1 = insert (hev_external_id ev) c"
      "ct1 = insert (mtx_external_id tx) ct"
    then show ?thesis unfolding pair_fits_def by metis
  next
    fix ev
    assume "rsl_match_confidence r = MatchMedium" "matchAttributes events c it now = Some ev"
      "rsl_reference r = hev_external_id ev" "c1 = insert (hev_external_id ev) c" "ct1 = ct"
    then show ?thesis by (metis matchAttributes_sound)
  next
    assume "r = unresolved it" "c1 = c" "ct1 = ct"
    then show ?thesis by (metis unresolved_sel(2))
  qed blast+
  have card1: "card (insert x c) \<le> Suc (card c)" if "finite c" for x
    using card_insert_le_m1 [of "Suc (card c)" c x] by simp
  show ?case
    using out
  proof (elim disjE exE conjE)
    assume "rsl_match_confidence r = MatchExact" "ct1 = ct" "c1 = c"
    then show ?thesis using IH by (auto simp: rs match_consts)
  next
    assume "rsl_match_confidence r = MatchExact" "ct1 = ct" "c1 = insert (rsl_reference r) c"
    then show ?thesis using IH card1 [of "rsl_reference r"] by (auto simp: rs match_consts)
  next
    fix x assume "rsl_match_confidence r = MatchHigh" "rsl_reference r \<notin> ct"
      "ct1 = insert (rsl_reference r) ct" "c1 = insert x c"
    then show ?thesis using IH card1 [of x] by (auto simp: rs match_consts)
  next
    assume "rsl_match_confidence r = MatchMedium" "rsl_reference r \<notin> c" "ct1 = ct"
      "c1 = insert (rsl_reference r) c"
    then show ?thesis using IH card1 [of "rsl_reference r"] by (auto simp: rs match_consts)
  next
    assume "rsl_match_confidence r = MatchUnresolved" "c1 = c" "ct1 = ct"
    then show ?thesis using IH by (auto simp: rs match_consts)
  qed
qed auto


text \<open>
  No purchase pays for two assets and no event disappears. Among the resolutions of one
  run, the purchases behind high matches are pairwise different, as are the events behind
  medium ones; the events handed on to the unmatched store are input events, in order, and at
  most one event per graded asset is missing from them.
\<close>

theorem purchases_used_once:
  "case resolve owned before events market trades now of (rs, left) \<Rightarrow>
     distinct (map rsl_reference (filter (\<lambda>r. rsl_match_confidence r = MatchHigh) rs)) \<and>
     distinct (map rsl_reference (filter (\<lambda>r. rsl_match_confidence r = MatchMedium) rs)) \<and>
     subseq left events \<and>
     card (hev_external_id ` set events - hev_external_id ` set left) \<le>
       length (filter (\<lambda>r. rsl_match_confidence r \<noteq> MatchUnresolved) rs)"
proof -
  obtain rs c where eq: "resolve_items before events market trades now owned {} {} = (rs, c)"
    by (metis surj_pair)
  define left where "left = filter (\<lambda>ev. hev_external_id ev \<notin> c) events"
  have res: "resolve owned before events market trades now = (rs, left)"
    by (simp add: resolve_def eq left_def)
  note C = resolve_items_consumption [OF eq]
  have "hev_external_id ` set events - hev_external_id ` set left \<subseteq> c" by (auto simp: left_def)
  then have "card (hev_external_id ` set events - hev_external_id ` set left) \<le> card c"
    using C by (intro card_mono) auto
  also have "\<dots> \<le> length (filter (\<lambda>r. rsl_match_confidence r \<noteq> MatchUnresolved) rs)" using C by auto
  finally have D: "card (hev_external_id ` set events - hev_external_id ` set left) \<le>
      length (filter (\<lambda>r. rsl_match_confidence r \<noteq> MatchUnresolved) rs)" .
  have "subseq left events" by (simp add: left_def)
  then show ?thesis unfolding res split_conv using C D by (intro conjI) blast+
qed

section \<open>Two weaknesses of the matching\<close>

definition plain_item :: "string \<Rightarrow> inventory_item" where
  "plain_item i = \<lparr>itm_asset_id = i, itm_class_id = ''c'', itm_instance_id = ''0'', itm_amount = 1,
     itm_market_hash_name = ''Case'', itm_marketable = True, itm_tradable = True, itm_name = ''Case'',
     itm_type = [], itm_tags = [], itm_has_description = True\<rparr>"

definition plain_event :: "string \<Rightarrow> time \<Rightarrow> string \<Rightarrow> history_event" where
  "plain_event i t a = \<lparr>hev_external_id = i, hev_timestamp = t, hev_kind = ''Received'',
     hev_market_hash_name = ''Case'', hev_quantity = 1, hev_asset_id = a, hev_class_id = [], hev_instance_id = []\<rparr>"

definition plain_buy :: "string \<Rightarrow> time \<Rightarrow> market_transaction" where
  "plain_buy i t = \<lparr>mtx_external_id = i, mtx_type = ''buy'', mtx_timestamp = t,
     mtx_market_hash_name = ''Case'', mtx_class_id = [], mtx_instance_id = [], mtx_quantity = 1,
     mtx_gross = Fin 5, mtx_net = None, mtx_currency = ''USD''\<rparr>"

text \<open>
  An event whose time could not be read (the zero time) matches any buy: the difference
  saturates to the least duration, and \<open>absDuration\<close> of that wraps to itself, a negative gap.
  Year 2026 is 63902908800 seconds after Go's zero time.
\<close>

lemma zero_time_event_matches_any_buy:
  "map rsl_match_confidence (fst (resolve [plain_item ''a''] None [plain_event ''e'' 0 []]
     [plain_buy ''m'' (63902908800 * dur_second)] [] (63902908800 * dur_second))) = [MatchHigh]"
  by code_simp

text \<open>
  One event can be the evidence of two assets: a medium match does not look at the asset id of
  the event, and an exact match does not look at what is consumed.
\<close>

lemma one_event_for_two_assets:
  "map (\<lambda>r. (rsl_match_confidence r, rsl_reference r))
     (fst (resolve [plain_item ''a'', plain_item ''b''] (Some (\<lambda>i. i = ''a'')) [plain_event ''e'' 5 ''b''] [] [] 6)) =
   [(MatchMedium, ''e''), (MatchExact, ''e'')]"
  by code_simp

end
