(* ===== verification/Price_Cache.thy ===== *)
theory Price_Cache
  imports Steam_Match Steam_Price_Service
begin

text \<open>
  The price layer every market-data provider goes through: the Redis cache of
  \<open>infrastructure/cache/redis.go\<close> and the service of \<open>application/prices/service.go\<close>, which
  answers historical prices from the database first and current prices from the cache first.

  Redis is a table of texts with an optional expiry. A command may fail (\<open>rds_fault\<close>), and the
  server may have dropped a key before it expired (\<open>rds_evicted\<close>). The texts are kept by what
  they spell: \<open>NumText x\<close> is \<open>strconv.FormatFloat(x, 'f', -1, 64)\<close>, which \<open>ParseFloat\<close> reads
  back as \<open>x\<close>; \<open>CandleText c\<close> is the JSON of a candle; \<open>RawText\<close> is any other text. Provider
  calls are the argument \<open>fetch\<close>.

  The lemmas show that a broken cache never fails a read, what a historical lookup returns and
  stores, that a price cached is the price read until it expires, and what becomes of a candle.
\<close>

section \<open>Redis\<close>

record candle =
  cdl_asset :: string
  cdl_currency :: string
  cdl_day :: time
  cdl_open :: f64
  cdl_high :: f64
  cdl_low :: f64
  cdl_close :: f64
  cdl_source :: string

datatype redis_text = NumText f64 | CandleText candle | RawText string

record redis_entry =
  rde_key :: string
  rde_text :: redis_text
  rde_expires :: "time option"

record redis_world = steam_db +
  rds_on :: bool
  rds_entries :: "redis_entry list"
  rds_ops :: nat
  rds_fault :: "nat \<Rightarrow> string option"
  rds_evicted :: "nat \<Rightarrow> bool"

definition redis_conflict :: "redis_entry \<Rightarrow> redis_entry \<Rightarrow> redis_entry" where
  "redis_conflict old new = new\<lparr>rde_key := rde_key old\<rparr>"

interpretation redis_table: settled_table rde_key redis_conflict
  by unfold_locales (simp_all add: redis_conflict_def)

definition redis_cmd :: "('x redis_world_scheme, 'a) eff \<Rightarrow> ('x redis_world_scheme, 'a) eff" where
  "redis_cmd f = (\<lambda>s.
     let s' = s\<lparr>rds_ops := Suc (rds_ops s)\<rparr>
     in case rds_fault s (rds_ops s) of Some msg \<Rightarrow> (Inl (ErrUpstream msg), s') | None \<Rightarrow> f s')"

definition live_text :: "time \<Rightarrow> string \<Rightarrow> redis_entry list \<Rightarrow> redis_text option" where
  "live_text now key es =
    (case find_row rde_key key es of
       None \<Rightarrow> None
     | Some e \<Rightarrow> if (case rde_expires e of None \<Rightarrow> True | Some t \<Rightarrow> now < t) then Some (rde_text e) else None)"

definition rdb_get :: "string \<Rightarrow> ('x redis_world_scheme, redis_text option) eff" where
  "rdb_get key = bind_eff time_now (\<lambda>now. redis_cmd (reading (\<lambda>s.
     if rds_evicted s (rds_ops s) then None else live_text now key (rds_entries s))))"

definition rdb_set :: "string \<Rightarrow> redis_text \<Rightarrow> duration \<Rightarrow> ('x redis_world_scheme, unit) eff" where
  "rdb_set key text ttl = bind_eff time_now (\<lambda>now. redis_cmd (writing (\<lambda>s.
     s\<lparr>rds_entries := upsert_row rde_key redis_conflict
         \<lparr>rde_key = key, rde_text = text, rde_expires = (if ttl > 0 then Some (now + ttl) else None)\<rparr>
         (rds_entries s)\<rparr>)))"

definition rdb_del :: "string \<Rightarrow> ('x redis_world_scheme, unit) eff" where
  "rdb_del key = redis_cmd (writing (\<lambda>s.
     s\<lparr>rds_entries := filter (\<lambda>e. rde_key e \<noteq> key) (rds_entries s)\<rparr>))"

text \<open>The disabled cache misses on every read and ignores every write.\<close>

definition if_redis :: "'a \<Rightarrow> ('x redis_world_scheme, 'a) eff \<Rightarrow> ('x redis_world_scheme, 'a) eff" where
  "if_redis d m = (\<lambda>s. if rds_on s then m s else (Inr d, s))"

definition parse_cached :: "redis_text \<Rightarrow> f64 option" where
  "parse_cached t = (case t of NumText x \<Rightarrow> Some x | CandleText c \<Rightarrow> None | RawText r \<Rightarrow> parse_float r)"

definition cache_get :: "string \<Rightarrow> ('x redis_world_scheme, f64 option) eff" where
  "cache_get key = if_redis None (bind_eff (rdb_get key) (\<lambda>r. ret (Option.bind r parse_cached)))"

definition cache_set :: "string \<Rightarrow> f64 \<Rightarrow> duration \<Rightarrow> ('x redis_world_scheme, unit) eff" where
  "cache_set key price ttl = if_redis () (rdb_set key (NumText price) ttl)"

definition cache_get_raw :: "string \<Rightarrow> ('x redis_world_scheme, redis_text option) eff" where
  "cache_get_raw key = if_redis None (rdb_get key)"

definition cache_set_raw :: "string \<Rightarrow> redis_text \<Rightarrow> duration \<Rightarrow> ('x redis_world_scheme, unit) eff" where
  "cache_set_raw key raw ttl = if_redis () (rdb_set key raw ttl)"

definition cache_delete :: "string \<Rightarrow> ('x redis_world_scheme, unit) eff" where
  "cache_delete key = if_redis () (rdb_del key)"

section \<open>Historical prices\<close>

definition of_res :: "'a res \<Rightarrow> ('s, 'a) eff" where
  "of_res r = (case r of Inl e \<Rightarrow> raise e | Inr x \<Rightarrow> ret x)"

definition track_point ::
  "time \<Rightarrow> historical_price \<Rightarrow> historical_price option \<times> historical_price option \<Rightarrow>
   historical_price option \<times> historical_price option" where
  "track_point t p be = (case be of (best, earliest) \<Rightarrow>
     (if \<not> hpr_timestamp p > t \<and> (case best of None \<Rightarrow> True | Some b \<Rightarrow> hpr_timestamp p > hpr_timestamp b)
      then Some p else best,
      case earliest of None \<Rightarrow> Some p
      | Some e \<Rightarrow> if hpr_timestamp p < hpr_timestamp e then Some p else Some e))"

definition selectAtOrBefore :: "historical_price list \<Rightarrow> time \<Rightarrow> historical_price res" where
  "selectAtOrBefore points t =
    (case fold (track_point t) points (None, None) of
       (Some b, _) \<Rightarrow> Inr b
     | (None, Some e) \<Rightarrow> Inr e
     | (None, None) \<Rightarrow> Inl ErrNotFound)"

definition refresh_historical ::
  "bool \<Rightarrow> time \<Rightarrow> ('x redis_world_scheme, historical_price list) eff option \<Rightarrow>
   ('x redis_world_scheme, historical_price) eff" where
  "refresh_historical history t fetch =
    (case fetch of
       None \<Rightarrow> raise ErrNotFound
     | Some f \<Rightarrow> bind_eff f (\<lambda>points. seq_eff
         (if history \<and> points \<noteq> [] then wrap_err ''prices: history store'' (price_upsert points) else ret ())
         (of_res (selectAtOrBefore points t))))"

definition stored_point ::
  "bool \<Rightarrow> string \<Rightarrow> string \<Rightarrow> time \<Rightarrow> ('x redis_world_scheme, historical_price option) eff" where
  "stored_point history asset currency t =
    (if \<not> history then ret None
     else bind_eff (attempt (price_get asset currency t)) (\<lambda>r. case r of
         Inr p \<Rightarrow> ret (Some p)
       | Inl e \<Rightarrow> if is_not_found e then ret None else raise (Wrapf ''prices: history lookup'' e)))"

definition get_historical ::
  "bool \<Rightarrow> string \<Rightarrow> string \<Rightarrow> time \<Rightarrow> ('x redis_world_scheme, historical_price list) eff option \<Rightarrow>
   ('x redis_world_scheme, historical_price) eff" where
  "get_historical history asset currency t fetch =
     bind_eff (stored_point history (to_upper (trim_space asset)) (to_upper (trim_space currency)) t)
       (\<lambda>r. case r of Some p \<Rightarrow> ret p | None \<Rightarrow> refresh_historical history t fetch)"

section \<open>Current prices and blobs\<close>

definition CurrentPriceTTL :: duration where "CurrentPriceTTL = dur_hour"
definition maxCandleAge :: duration where "maxCandleAge = 25 * dur_hour"

definition current_key :: "string \<Rightarrow> string \<Rightarrow> string" where
  "current_key asset currency =
     ''px:current:'' @ to_upper (trim_space asset) @ '':'' @ to_upper (trim_space currency)"

definition candle_key :: "string \<Rightarrow> string \<Rightarrow> time \<Rightarrow> string" where
  "candle_key asset currency day =
     ''px:candle:'' @ to_upper (trim_space asset) @ '':'' @ to_upper (trim_space currency) @ '':'' @ format_date day"

definition start_of_day :: "time \<Rightarrow> time" where
  "start_of_day t = day_of t * dur_day"

text \<open>A cache read whose error is a miss, and a fetch whose result is written behind.\<close>

definition read_through ::
  "bool \<Rightarrow> ('x redis_world_scheme, 'a option) eff \<Rightarrow> ('a \<Rightarrow> ('x redis_world_scheme, unit) eff) \<Rightarrow>
   ('x redis_world_scheme, 'a) eff option \<Rightarrow> ('x redis_world_scheme, 'a) eff" where
  "read_through cached get put fetch =
     bind_eff (if cached then attempt get else ret (Inr None)) (\<lambda>r.
       case r of
         Inr (Some x) \<Rightarrow> ret x
       | _ \<Rightarrow> (case fetch of
           None \<Rightarrow> raise ErrNotFound
         | Some f \<Rightarrow> bind_eff f (\<lambda>x. seq_eff
             (if cached then bind_eff (attempt (put x)) (\<lambda>_. ret ()) else ret ()) (ret x))))"

definition get_current_with_ttl ::
  "bool \<Rightarrow> string \<Rightarrow> string \<Rightarrow> duration \<Rightarrow> ('x redis_world_scheme, f64) eff option \<Rightarrow>
   ('x redis_world_scheme, f64) eff" where
  "get_current_with_ttl cached asset currency ttl fetch =
     read_through cached (cache_get (current_key asset currency))
       (\<lambda>price. cache_set (current_key asset currency) price ttl) fetch"

definition get_current_price ::
  "bool \<Rightarrow> string \<Rightarrow> string \<Rightarrow> ('x redis_world_scheme, f64) eff option \<Rightarrow>
   ('x redis_world_scheme, f64) eff" where
  "get_current_price cached asset currency fetch =
     get_current_with_ttl cached asset currency CurrentPriceTTL fetch"

definition get_blob ::
  "bool \<Rightarrow> string \<Rightarrow> duration \<Rightarrow> ('x redis_world_scheme, redis_text) eff option \<Rightarrow>
   ('x redis_world_scheme, redis_text) eff" where
  "get_blob cached key ttl fetch =
     read_through cached (cache_get_raw key) (\<lambda>raw. cache_set_raw key raw ttl) fetch"

section \<open>Candles\<close>

text \<open>\<open>json.Marshal\<close> rejects NaN, infinities and years outside four digits.\<close>

definition candle_json :: "candle \<Rightarrow> redis_text res" where
  "candle_json c =
    (if f64_finite (cdl_open c) \<and> f64_finite (cdl_high c) \<and> f64_finite (cdl_low c) \<and>
        f64_finite (cdl_close c) \<and> 0 \<le> time_year (cdl_day c) \<and> time_year (cdl_day c) \<le> 9999
     then Inr (CandleText c) else Inl (ErrText ''json: unsupported value''))"

definition put_candle :: "bool \<Rightarrow> candle \<Rightarrow> ('x redis_world_scheme, unit) eff" where
  "put_candle cached c =
    (if \<not> cached then ret ()
     else case candle_json c of
         Inl e \<Rightarrow> raise (Wrapf ''prices: candle encode'' e)
       | Inr raw \<Rightarrow> bind_eff time_now (\<lambda>now.
           let ttl = time_sub (start_of_day (cdl_day c) + maxCandleAge) now
           in if ttl \<le> 0 then raise (ErrText ''prices: candle day already closed'')
              else cache_set_raw (candle_key (cdl_asset c) (cdl_currency c) (cdl_day c)) raw ttl))"

definition get_candle ::
  "bool \<Rightarrow> string \<Rightarrow> string \<Rightarrow> time \<Rightarrow> ('x redis_world_scheme, candle option) eff" where
  "get_candle cached asset currency day =
    (if \<not> cached then ret None
     else bind_eff (cache_get_raw (candle_key asset currency day)) (\<lambda>r. case r of
         None \<Rightarrow> ret None
       | Some (CandleText c) \<Rightarrow> ret (Some c)
       | Some _ \<Rightarrow> raise (Wrapf ''prices: candle decode'' (ErrText ''json: invalid candle''))))"

definition finalize_candle ::
  "bool \<Rightarrow> bool \<Rightarrow> string \<Rightarrow> string \<Rightarrow> time \<Rightarrow> ('x redis_world_scheme, unit) eff" where
  "finalize_candle history cached asset0 currency0 day =
    (let asset = to_upper (trim_space asset0); currency = to_upper (trim_space currency0)
     in bind_eff
       (if \<not> cached then ret None
        else bind_eff (wrap_err ''prices: candle read'' (get_candle cached asset currency day)) (\<lambda>c.
          seq_eff (wrap_err ''prices: candle drop'' (cache_delete (candle_key asset currency day))) (ret c)))
       (\<lambda>r. case r of
          None \<Rightarrow> ret ()
        | Some c \<Rightarrow> if \<not> history then ret () else bind_eff time_now (\<lambda>now.
            price_upsert [\<lparr>hpr_asset = asset, hpr_timestamp = start_of_day day, hpr_currency = currency,
              hpr_price = cdl_close c, hpr_source = cdl_source c, hpr_updated_at = now\<rparr>])))"

section \<open>Current prices: the cache fails open\<close>

text \<open>What a read serves: the live text under the key, as a number.\<close>

definition cached_price :: "string \<Rightarrow> 'x redis_world_scheme \<Rightarrow> f64 option" where
  "cached_price key s =
    (if rds_on s then Option.bind (live_text (db_clock s (db_ticks s)) key (rds_entries s)) parse_cached else None)"

lemma cache_get_cases:
  "\<exists>n k r. cache_get key s = (r, s\<lparr>db_ticks := n, rds_ops := k\<rparr>) \<and>
     (case r of Inr (Some x) \<Rightarrow> cached_price key s = Some x | _ \<Rightarrow> True)"
proof (cases "rds_on s")
  case False
  then show ?thesis
    by (intro exI [of _ "db_ticks s"] exI [of _ "rds_ops s"] exI [of _ "Inr None"])
      (simp add: cache_get_def if_redis_def)
next
  case True
  let ?s = "s\<lparr>db_ticks := Suc (db_ticks s), rds_ops := Suc (rds_ops s)\<rparr>"
  show ?thesis
  proof (cases "rds_fault s (rds_ops s)")
    case (Some msg)
    with True have "cache_get key s = (Inl (ErrUpstream msg), ?s)"
      by (simp add: cache_get_def if_redis_def rdb_get_def time_now_def redis_cmd_def eff_defs Let_def)
    then show ?thesis by (intro exI conjI) auto
  next
    case None
    let ?o = "if rds_evicted s (Suc (rds_ops s)) then None
      else live_text (db_clock s (db_ticks s)) key (rds_entries s)"
    have "cache_get key s = (Inr (Option.bind ?o parse_cached), ?s)"
      using True None
      by (simp add: cache_get_def if_redis_def rdb_get_def time_now_def redis_cmd_def eff_defs Let_def)
    moreover have "case Option.bind ?o parse_cached of Some x \<Rightarrow> cached_price key s = Some x | None \<Rightarrow> True"
      using True by (auto simp: cached_price_def split: option.split)
    ultimately show ?thesis by (intro exI conjI) (auto split: option.split)
  qed
qed

text \<open>
  C22. The price cache can only help. A current price is either a number the cache holds under
  the key of the asset and has not let expire, or it is what the provider answers, its error
  included, when it is asked in the state of the caller up to the two counters: no failing
  Redis command, corrupt entry or failed write ever turns into an error or another price.
\<close>

theorem cache_fails_open:
  "case get_current_with_ttl cached asset currency ttl (Some fetch) s of (r, s') \<Rightarrow>
     (\<exists>x. r = Inr x \<and> cached \<and> cached_price (current_key asset currency) s = Some x) \<or>
     (\<exists>n k. r = fst (fetch (s\<lparr>db_ticks := n, rds_ops := k\<rparr>)))"
proof -
  let ?get = "cache_get (current_key asset currency)"
  obtain n k r where g: "?get s = (r, s\<lparr>db_ticks := n, rds_ops := k\<rparr>)"
    and c: "case r of Inr (Some x) \<Rightarrow> cached_price (current_key asset currency) s = Some x | _ \<Rightarrow> True"
    using cache_get_cases [of "current_key asset currency" s] by blast
  show ?thesis
  proof (cases "cached \<and> (\<exists>x. r = Inr (Some x))")
    case True
    then obtain x where "cached" "r = Inr (Some x)" by blast
    with g c show ?thesis
      by (simp add: get_current_with_ttl_def read_through_def bind_eff_apply attempt_def ret_def)
  next
    case False
    define m where "m = (if cached then (n, k) else (db_ticks s, rds_ops s))"
    have "fst (get_current_with_ttl cached asset currency ttl (Some fetch) s) =
        fst (fetch (s\<lparr>db_ticks := fst m, rds_ops := snd m\<rparr>))"
      using False g unfolding get_current_with_ttl_def read_through_def m_def
      by (auto simp: bind_eff_apply seq_eff_apply attempt_def ret_def raise_def
          split: sum.splits option.splits prod.splits if_splits)
    then show ?thesis unfolding case_prod_beta by blast
  qed
qed

text \<open>A price that was cached is the price read, until its time is over.\<close>

definition redis_ok :: "'x redis_world_scheme \<Rightarrow> bool" where
  "redis_ok s \<longleftrightarrow> rds_on s \<and> (\<forall>n. rds_fault s n = None) \<and> (\<forall>n. \<not> rds_evicted s n)"

lemma cache_set_live:
  assumes "redis_ok s" "0 < ttl" "now < db_clock s (db_ticks s) + ttl"
  shows "\<exists>s'. cache_set_raw key text ttl s = (Inr (), s') \<and> redis_ok s' \<and>
    live_text now key (rds_entries s') = Some text \<and>
    (\<forall>k. k \<noteq> key \<longrightarrow> live_text now k (rds_entries s') = live_text now k (rds_entries s))"
proof -
  let ?e = "\<lparr>rde_key = key, rde_text = text, rde_expires = Some (db_clock s (db_ticks s) + ttl)\<rparr>"
  let ?es = "upsert_row rde_key redis_conflict ?e (rds_entries s)"
  have "find_row rde_key key ?es = Some ?e"
    using redis_table.find_upsert_same [of ?e "rds_entries s"]
    by (cases "find_row rde_key key (rds_entries s)")
      (auto simp: redis_conflict_def dest: find_row_SomeD)
  moreover have "find_row rde_key k ?es = find_row rde_key k (rds_entries s)" if "k \<noteq> key" for k
    using redis_table.find_upsert_other [of k ?e "rds_entries s"] that by simp
  ultimately show ?thesis
    using assms by (auto simp: cache_set_raw_def if_redis_def rdb_set_def time_now_def redis_cmd_def
        redis_ok_def eff_defs Let_def live_text_def)
qed

lemma cached_price_lasts:
  assumes "redis_ok s" "0 < ttl" "now < db_clock s (db_ticks s) + ttl"
    and "cache_set key x ttl s = (r, s')" "rds_entries t = rds_entries s'" "redis_ok t"
    and "db_clock t (db_ticks t) = now"
  shows "fst (get_current_with_ttl True asset currency ttl' fetch t) = Inr x \<or> current_key asset currency \<noteq> key"
proof -
  have "cache_set key x ttl s = cache_set_raw key (NumText x) ttl s"
    by (simp add: cache_set_def cache_set_raw_def)
  then have "live_text now key (rds_entries t) = Some (NumText x)"
    using cache_set_live [OF assms(1-3), of key "NumText x"] assms(4,5) by auto
  then show ?thesis
    using assms(6,7)
    by (auto simp: get_current_with_ttl_def read_through_def cache_get_def if_redis_def rdb_get_def
        time_now_def redis_cmd_def redis_ok_def eff_defs Let_def parse_cached_def)
qed

section \<open>Historical prices: the database first\<close>

text \<open>The newest point at or before the instant, else the earliest.\<close>

definition chosen :: "historical_price list \<Rightarrow> time \<Rightarrow> historical_price \<Rightarrow> bool" where
  "chosen points t p \<longleftrightarrow> p \<in> set points \<and>
     (if \<exists>q\<in>set points. hpr_timestamp q \<le> t
      then hpr_timestamp p \<le> t \<and> (\<forall>q\<in>set points. hpr_timestamp q \<le> t \<longrightarrow> hpr_timestamp q \<le> hpr_timestamp p)
      else \<forall>q\<in>set points. hpr_timestamp p \<le> hpr_timestamp q)"

definition tracked :: "time \<Rightarrow> historical_price list \<Rightarrow> historical_price option \<times> historical_price option \<Rightarrow> bool" where
  "tracked t ps be \<longleftrightarrow>
     (case fst be of None \<Rightarrow> \<forall>q\<in>set ps. t < hpr_timestamp q
      | Some b \<Rightarrow> b \<in> set ps \<and> hpr_timestamp b \<le> t \<and>
          (\<forall>q\<in>set ps. hpr_timestamp q \<le> t \<longrightarrow> hpr_timestamp q \<le> hpr_timestamp b)) \<and>
     (case snd be of None \<Rightarrow> ps = []
      | Some e \<Rightarrow> e \<in> set ps \<and> (\<forall>q\<in>set ps. hpr_timestamp e \<le> hpr_timestamp q))"

lemma tracked_step: "tracked t ps be \<Longrightarrow> tracked t (ps @ [p]) (track_point t p be)"
  unfolding tracked_def track_point_def
  by (cases be; cases "fst be"; cases "snd be") (auto simp: not_le intro: order_trans less_imp_le)

lemma tracked_fold: "tracked t ps be \<Longrightarrow> tracked t (ps @ qs) (fold (track_point t) qs be)"
proof (induction qs arbitrary: ps be)
  case (Cons q qs)
  from Cons.IH [OF tracked_step [OF Cons.prems, of q]] show ?case by simp
qed simp

lemma selectAtOrBefore_chosen:
  "case selectAtOrBefore points t of Inr p \<Rightarrow> chosen points t p | Inl e \<Rightarrow> points = [] \<and> e = ErrNotFound"
proof -
  have "tracked t points (fold (track_point t) points (None, None))"
    using tracked_fold [of t "[]" "(None, None)" points] by (simp add: tracked_def)
  then show ?thesis
    by (cases "fold (track_point t) points (None, None)")
      (auto simp: selectAtOrBefore_def tracked_def chosen_def not_le split: option.splits)
qed

lemma normalizePrice_upper:
  "normalizePrice (to_upper (trim_space a)) (to_upper (trim_space c)) = normalizePrice a c"
  by (simp add: normalizePrice_def Let_def trim_space_to_upper)

text \<open>The stored quotes a lookup considers.\<close>

definition quotes_until :: "string \<Rightarrow> string \<Rightarrow> time \<Rightarrow> historical_price list \<Rightarrow> historical_price list" where
  "quotes_until asset currency t rows = filter (\<lambda>q.
     (hpr_asset q, hpr_currency q) = normalizePrice asset currency \<and> hpr_timestamp q \<le> t) rows"

lemma stored_point_no_faults:
  assumes "no_faults s"
  shows "\<exists>r. stored_point True (to_upper (trim_space asset)) (to_upper (trim_space currency)) t s =
      (Inr r, s\<lparr>db_ops := Suc (db_ops s)\<rparr>) \<and>
    (case r of None \<Rightarrow> quotes_until asset currency t (db_prices s) = []
     | Some p \<Rightarrow> p \<in> set (quotes_until asset currency t (db_prices s)) \<and>
         (\<forall>q\<in>set (quotes_until asset currency t (db_prices s)). hpr_timestamp q \<le> hpr_timestamp p))"
proof -
  obtain a c where n: "normalizePrice asset currency = (a, c)" by fastforce
  have q: "quotes_until asset currency t (db_prices s) =
      filter (\<lambda>p. hpr_asset p = a \<and> hpr_currency p = c \<and> hpr_timestamp p \<le> t) (db_prices s)"
    by (auto simp: quotes_until_def n intro: filter_cong)
  let ?ps = "sort_key (\<lambda>p. - hpr_timestamp p) (quotes_until asset currency t (db_prices s))"
  show ?thesis
  proof (cases ?ps)
    case Nil
    then have "quotes_until asset currency t (db_prices s) = []"
      by (metis length_0_conv length_sort)
    with assms Nil show ?thesis
      by (simp add: stored_point_def price_get_def normalizePrice_upper n eff_defs is_not_found_def flip: q)
  next
    case (Cons p ps)
    with assms sort_key_hd [OF Cons] show ?thesis
      by (simp add: stored_point_def price_get_def normalizePrice_upper n eff_defs flip: q)
  qed
qed

lemma price_upsert_stores:
  assumes "no_faults s" "points \<noteq> []"
    and "distinct (map price_key (map (price_row (db_clock s (db_ticks s))) points))"
  shows "\<exists>s'. price_upsert points s = (Inr (), s') \<and> (\<forall>q\<in>set points. \<exists>row.
    find_row price_key (price_key (price_row (db_clock s (db_ticks s)) q)) (db_prices s') = Some row \<and>
    hpr_price row = hpr_price q)"
proof -
  let ?rows = "map (price_row (db_clock s (db_ticks s))) points"
  let ?t = "fold (upsert_row price_key price_conflict) ?rows (db_prices s)"
  have "\<exists>row. find_row price_key (price_key r) ?t = Some row \<and> hpr_price row = hpr_price r" if "r \<in> set ?rows" for r
    using price_table.find_upserts_same [OF assms(3) that, of "db_prices s"]
    by (cases "find_row price_key (price_key r) (db_prices s)") (auto simp: price_conflict_def)
  then have "\<exists>row. find_row price_key (price_key (price_row (db_clock s (db_ticks s)) q)) ?t = Some row \<and>
      hpr_price row = hpr_price q" if "q \<in> set points" for q
    using that by (fastforce simp: price_row_def split: prod.splits)
  then show ?thesis
    using assms by (auto simp: price_upsert_def eff_defs time_now_def Let_def)
qed

lemma refresh_no_faults:
  assumes answer: "fetch s0 = (f, s1)" and ok1: "no_faults s1"
  shows "case f of
       Inl e \<Rightarrow> refresh_historical True t (Some fetch) s0 = (Inl e, s1)
     | Inr points \<Rightarrow> if points = [] then refresh_historical True t (Some fetch) s0 = (Inl ErrNotFound, s1)
         else if distinct (map price_key (map (price_row (db_clock s1 (db_ticks s1))) points))
         then \<exists>p s'. refresh_historical True t (Some fetch) s0 = (Inr p, s') \<and> chosen points t p \<and>
           (\<forall>q\<in>set points. \<exists>row. find_row price_key (price_key (price_row (db_clock s1 (db_ticks s1)) q))
              (db_prices s') = Some row \<and> hpr_price row = hpr_price q)
         else \<exists>e s'. refresh_historical True t (Some fetch) s0 = (Inl e, s') \<and> db_prices s' = db_prices s1"
proof (cases f)
  case (Inl e)
  with answer show ?thesis by (simp add: refresh_historical_def bind_eff_apply)
next
  case (Inr points)
  let ?rows = "map (price_row (db_clock s1 (db_ticks s1))) points"
  have run: "refresh_historical True t (Some fetch) s0 = seq_eff
      (if points \<noteq> [] then wrap_err ''prices: history store'' (price_upsert points) else ret ())
      (of_res (selectAtOrBefore points t)) s1"
    using answer by (simp add: refresh_historical_def bind_eff_apply Inr)
  consider (none) "points = []" | (dup) "points \<noteq> []" "\<not> distinct (map price_key ?rows)"
    | (ok) "points \<noteq> []" "distinct (map price_key ?rows)" by blast
  then show ?thesis
  proof cases
    case none
    then show ?thesis by (simp add: Inr run seq_eff_apply ret_def of_res_def raise_def selectAtOrBefore_def)
  next
    case dup
    then have "\<exists>e s'. price_upsert points s1 = (Inl e, s') \<and> db_prices s' = db_prices s1"
      using ok1 by (auto simp: price_upsert_def eff_defs time_now_def Let_def)
    with dup show ?thesis by (auto simp: Inr run seq_eff_apply wrap_err_def)
  next
    case ok
    obtain p where p: "selectAtOrBefore points t = Inr p" "chosen points t p"
      using selectAtOrBefore_chosen [of points t] ok(1) by (cases "selectAtOrBefore points t") auto
    from price_upsert_stores [OF ok1 ok] obtain s' where u: "price_upsert points s1 = (Inr (), s')"
      "\<forall>q\<in>set points. \<exists>row. find_row price_key (price_key (price_row (db_clock s1 (db_ticks s1)) q))
         (db_prices s') = Some row \<and> hpr_price row = hpr_price q" by blast
    then have "refresh_historical True t (Some fetch) s0 = (Inr p, s')"
      using ok(1) by (simp add: run seq_eff_apply wrap_err_def p(1) of_res_def ret_def)
    with p(2) u(2) ok show ?thesis by (simp add: Inr)
  qed
qed

text \<open>
  Historical prices come from the database first, and the provider's answer is kept. With
  a healthy database a lookup returns the newest stored quote at or before the instant without
  asking the provider; when there is none, a provider that fails stores nothing and its error
  is the answer; and when it answers, the result is its newest point at or before the instant
  (its earliest when all are later) and every point it gave is stored. Two points with one key
  make the statement fail, and the answer is lost with them.
\<close>

theorem historical_price_lookup:
  assumes ok: "no_faults s" and answer: "fetch (s\<lparr>db_ops := Suc (db_ops s)\<rparr>) = (f, s1)" and ok1: "no_faults s1"
  shows "(if quotes_until asset currency t (db_prices s) \<noteq> []
     then \<exists>p. get_historical True asset currency t (Some fetch) s = (Inr p, s\<lparr>db_ops := Suc (db_ops s)\<rparr>) \<and>
       chosen (quotes_until asset currency t (db_prices s)) t p
     else case f of
       Inl e \<Rightarrow> get_historical True asset currency t (Some fetch) s = (Inl e, s1)
     | Inr points \<Rightarrow> if points = [] then get_historical True asset currency t (Some fetch) s = (Inl ErrNotFound, s1)
         else if distinct (map price_key (map (price_row (db_clock s1 (db_ticks s1))) points))
         then \<exists>p s'. get_historical True asset currency t (Some fetch) s = (Inr p, s') \<and> chosen points t p \<and>
           (\<forall>q\<in>set points. \<exists>row. find_row price_key (price_key (price_row (db_clock s1 (db_ticks s1)) q))
              (db_prices s') = Some row \<and> hpr_price row = hpr_price q)
         else \<exists>e s'. get_historical True asset currency t (Some fetch) s = (Inl e, s') \<and> db_prices s' = db_prices s1)"
proof -
  obtain r where st: "stored_point True (to_upper (trim_space asset)) (to_upper (trim_space currency)) t s =
      (Inr r, s\<lparr>db_ops := Suc (db_ops s)\<rparr>)"
    and r: "case r of None \<Rightarrow> quotes_until asset currency t (db_prices s) = []
     | Some p \<Rightarrow> p \<in> set (quotes_until asset currency t (db_prices s)) \<and>
         (\<forall>q\<in>set (quotes_until asset currency t (db_prices s)). hpr_timestamp q \<le> hpr_timestamp p)"
    using stored_point_no_faults [OF ok, of asset currency t] by blast
  show ?thesis
  proof (cases r)
    case (Some p)
    with r have in_q: "p \<in> set (quotes_until asset currency t (db_prices s))"
      and newest: "\<forall>q\<in>set (quotes_until asset currency t (db_prices s)). hpr_timestamp q \<le> hpr_timestamp p"
      by simp_all
    from in_q have "hpr_timestamp p \<le> t" by (simp add: quotes_until_def)
    with in_q newest have "chosen (quotes_until asset currency t (db_prices s)) t p"
      unfolding chosen_def by auto
    moreover from in_q have "quotes_until asset currency t (db_prices s) \<noteq> []" by (metis list.set(1) empty_iff)
    ultimately show ?thesis using st Some by (simp add: get_historical_def bind_eff_apply ret_def)
  next
    case None
    with r have e: "quotes_until asset currency t (db_prices s) = []" by simp
    have run: "get_historical True asset currency t (Some fetch) s = refresh_historical True t (Some fetch) (s\<lparr>db_ops := Suc (db_ops s)\<rparr>)"
      using st None by (simp add: get_historical_def bind_eff_apply)
    show ?thesis
      using refresh_no_faults [of fetch "s\<lparr>db_ops := Suc (db_ops s)\<rparr>" f s1 t, OF answer ok1]
      unfolding run e by simp
  qed
qed

section \<open>Candles\<close>

text \<open>A candle that was put is the candle read, for the rest of its day and an hour.\<close>

lemma put_candle_then_get:
  assumes "redis_ok s" "candle_json c = Inr raw"
    and "now < start_of_day (cdl_day c) + maxCandleAge" "db_clock s (db_ticks s) < start_of_day (cdl_day c) + maxCandleAge"
    and "start_of_day (cdl_day c) + maxCandleAge - db_clock s (db_ticks s) < 2 ^ 63"
    and "\<forall>n. db_clock s n \<ge> db_clock s (db_ticks s)"
  shows "\<exists>s'. put_candle True c s = (Inr (), s') \<and>
    live_text now (candle_key (cdl_asset c) (cdl_currency c) (cdl_day c)) (rds_entries s') = Some (CandleText c)"
proof -
  have raw: "raw = CandleText c" using assms(2) by (auto simp: candle_json_def split: if_splits)
  let ?ttl = "start_of_day (cdl_day c) + maxCandleAge - db_clock s (db_ticks s)"
  let ?s = "s\<lparr>db_ticks := Suc (db_ticks s)\<rparr>"
  have sub: "time_sub (start_of_day (cdl_day c) + maxCandleAge) (db_clock s (db_ticks s)) = ?ttl"
    using assms(4,5) by (simp add: time_sub_def)
  have "redis_ok ?s" "0 < ?ttl" "now < db_clock ?s (db_ticks ?s) + ?ttl"
    using assms(1,3,4,6) by (auto simp: redis_ok_def add_increasing2 algebra_simps intro: less_le_trans
        dest: spec [of _ "Suc (db_ticks s)"])
  from cache_set_live [OF this, of "candle_key (cdl_asset c) (cdl_currency c) (cdl_day c)" raw]
  show ?thesis using assms(2,4) raw
    by (auto simp: put_candle_def bind_eff_apply time_now_def sub Let_def)
qed

text \<open>
  Closing a day drops the cached candle before its close is stored, so a failing statement
  loses the close.
\<close>

definition closing_day :: redis_world where
  "closing_day = \<lparr>db_connections = [], db_accounts = [], db_activities = [], db_holdings = [],
     db_cursors = [], db_tokens = [], db_prices = [], db_ops = 0, db_fault = (\<lambda>_. Some ''connection refused''),
     db_clock = (\<lambda>n. 1000 + int n), db_ticks = 0, sdb_snapshots = [], sdb_snapshot_assets = [],
     sdb_events = [], sdb_market_txs = [], sdb_trades = [], sdb_lots = [], sdb_acquisitions = [],
     rds_on = True,
     rds_entries = [\<lparr>rde_key = candle_key ''BTC'' ''USD'' 5,
       rde_text = CandleText \<lparr>cdl_asset = ''BTC'', cdl_currency = ''USD'', cdl_day = 5, cdl_open = Fin 1,
         cdl_high = Fin 3, cdl_low = Fin 1, cdl_close = Fin 2, cdl_source = ''x''\<rparr>, rde_expires = None\<rparr>],
     rds_ops = 0, rds_fault = (\<lambda>_. None), rds_evicted = (\<lambda>_. False)\<rparr>"

lemma candle_lost_when_store_fails:
  "case finalize_candle True True ''BTC'' ''USD'' 5 closing_day of (r, s') \<Rightarrow>
     (case r of Inl _ \<Rightarrow> True | Inr _ \<Rightarrow> False) \<and> rds_entries closing_day \<noteq> [] \<and> rds_entries s' = [] \<and> db_prices s' = []"
  by code_simp

theorem historical_price_lookup_witness:
  "\<exists>p s'. get_historical True ''BTC'' ''USD'' 100 (Some (ret [\<lparr>hpr_asset = ''BTC'', hpr_timestamp = 90,
       hpr_currency = ''USD'', hpr_price = Fin 7, hpr_source = ''x'', hpr_updated_at = 1\<rparr>]))
     (closing_day\<lparr>db_fault := \<lambda>_. None\<rparr>) = (Inr p, s') \<and> hpr_price p = Fin 7"
proof -
  let ?s = "closing_day\<lparr>db_fault := \<lambda>_. None\<rparr>"
  let ?q = "\<lparr>hpr_asset = ''BTC'', hpr_timestamp = 90, hpr_currency = ''USD'', hpr_price = Fin 7,
     hpr_source = ''x'', hpr_updated_at = 1\<rparr>"
  have "quotes_until ''BTC'' ''USD'' 100 (db_prices ?s) = []" by (simp add: quotes_until_def closing_day_def)
  with historical_price_lookup [of ?s "ret [?q]" "Inr [?q]" "?s\<lparr>db_ops := Suc (db_ops ?s)\<rparr>" "''BTC''" "''USD''" 100]
  show ?thesis by (auto simp: no_faults_def ret_def chosen_def)
qed

end
