(* ===== verification/Steam_Fetch.thy ===== *)
theory Steam_Fetch
  imports Steam_Match Go_Time "HOL-Library.AList"
begin

text \<open>
  The paged reads of the Steam client: the inventory (\<open>clients/steam/inventory.go\<close>), the
  inventory history (\<open>history.go\<close>) and the trade history (\<open>trades.go\<close>), with the time formats
  they accept. A walk asks the server for a page under a position; the server is an argument,
  a function of the page number of the walk and the position, whose answer is an error (after
  the retries of \<open>getWithRetry\<close>) or the decoded page. A JSON value of unknown type is a
  \<open>jval\<close>. The rows of a history page are a function of the descriptions known so far: what
  \<open>parseHistoryRows\<close> makes of the page's HTML.

  The lemmas show what a complete inventory contains, and that a capped history walk that is
  resumed from its stored position reaches every page.
\<close>

section \<open>Loosely typed JSON\<close>

text \<open>
  \<open>JNum\<close> is a \<open>json.Number\<close> (its text), \<open>JFloat\<close> a number decoded to \<open>float64\<close>, \<open>JOther\<close> an
  array or object, given by what \<open>fmt.Sprint\<close> prints. A float outside the range of \<open>int64\<close>
  converts to the least one, as on amd64.
\<close>

datatype jval = JNull | JBool bool | JNum string | JFloat f64 | JStr string | JOther string

definition strVal :: "jval \<Rightarrow> string" where
  "strVal v = (case v of JNull \<Rightarrow> [] | JStr s \<Rightarrow> s | JNum s \<Rightarrow> s | JFloat x \<Rightarrow> itoa (int_of_f64 x)
     | JBool b \<Rightarrow> if b then ''true'' else ''false'' | JOther s \<Rightarrow> s)"

definition intVal :: "jval \<Rightarrow> int" where
  "intVal v = (case parse_int (strVal v) of None \<Rightarrow> 0 | Some n \<Rightarrow> n)"

definition truthy :: "jval \<Rightarrow> bool" where
  "truthy v = (case v of JNull \<Rightarrow> False | JBool b \<Rightarrow> b
     | JNum s \<Rightarrow> s \<noteq> [] \<and> s \<noteq> ''0'' | JFloat x \<Rightarrow> \<not> f64_eq x (Fin 0)
     | _ \<Rightarrow> (let s = trim_space (strVal v) in s \<noteq> [] \<and> s \<noteq> ''0'' \<and> \<not> equal_fold s ''false''))"

section \<open>Time formats\<close>

text \<open>\<open>time.Parse\<close> over a layout, element by element.\<close>

datatype layout_elem = LYear | LMonth | LMonthName | LDay bool | LHour | LHour12 | LMinute | LSecond | LPm | LLit string

record time_parts =
  tpt_year :: int
  tpt_month :: int
  tpt_day :: int
  tpt_hour :: int
  tpt_min :: int
  tpt_sec :: int
  tpt_nsec :: int
  tpt_pm :: "bool option"

definition take_num :: "bool \<Rightarrow> string \<Rightarrow> (int \<times> string) option" where
  "take_num fixed s = (case take_digits 2 s of Some r \<Rightarrow> Some r
     | None \<Rightarrow> if fixed then None else take_digits 1 s)"

fun skip_layout :: "string \<Rightarrow> string \<Rightarrow> string option" where
  "skip_layout s [] = Some s"
| "skip_layout s (p # ps) =
    (if p = CHR '' '' then
       if s \<noteq> [] \<and> hd s \<noteq> CHR '' '' then None
       else skip_layout (dropWhile (\<lambda>c. c = CHR '' '') s) ps
     else case s of [] \<Rightarrow> None | c # cs \<Rightarrow> if c = p then skip_layout cs ps else None)"

definition short_months :: "string list" where
  "short_months = [''Jan'', ''Feb'', ''Mar'', ''Apr'', ''May'', ''Jun'', ''Jul'', ''Aug'', ''Sep'', ''Oct'', ''Nov'', ''Dec'']"

definition take_month :: "string \<Rightarrow> (int \<times> string) option" where
  "take_month s = map_option (\<lambda>(i, _). (int i + 1, drop 3 s))
     (List.find (\<lambda>(i, m). equal_fold (take 3 s) m) (enumerate 0 short_months))"

definition parse_elem :: "layout_elem \<Rightarrow> string \<Rightarrow> time_parts \<Rightarrow> (time_parts \<times> string) option" where
  "parse_elem e s p = (case e of
      LYear \<Rightarrow> map_option (\<lambda>(n, r). (p\<lparr>tpt_year := n\<rparr>, r)) (take_digits 4 s)
    | LMonth \<Rightarrow> map_option (\<lambda>(n, r). (p\<lparr>tpt_month := n\<rparr>, r)) (take_num True s)
    | LMonthName \<Rightarrow> map_option (\<lambda>(n, r). (p\<lparr>tpt_month := n\<rparr>, r)) (take_month s)
    | LDay fixed \<Rightarrow> map_option (\<lambda>(n, r). (p\<lparr>tpt_day := n\<rparr>, r)) (take_num fixed s)
    | LHour \<Rightarrow> Option.bind (take_num False s) (\<lambda>(n, r). if n < 24 then Some (p\<lparr>tpt_hour := n\<rparr>, r) else None)
    | LHour12 \<Rightarrow> Option.bind (take_num False s) (\<lambda>(n, r). if n \<le> 12 then Some (p\<lparr>tpt_hour := n\<rparr>, r) else None)
    | LMinute \<Rightarrow> Option.bind (take_num True s) (\<lambda>(n, r). if n < 60 then Some (p\<lparr>tpt_min := n\<rparr>, r) else None)
    | LSecond \<Rightarrow> Option.bind (take_num True s) (\<lambda>(n, r). if n < 60
        then (case take_fraction r of (ns, r') \<Rightarrow> Some (p\<lparr>tpt_sec := n, tpt_nsec := ns\<rparr>, r')) else None)
    | LPm \<Rightarrow> if take 2 s = ''pm'' then Some (p\<lparr>tpt_pm := Some True\<rparr>, drop 2 s)
        else if take 2 s = ''am'' then Some (p\<lparr>tpt_pm := Some False\<rparr>, drop 2 s) else None
    | LLit l \<Rightarrow> map_option (\<lambda>r. (p, r)) (skip_layout s l))"

definition time_of_parts :: "time_parts \<Rightarrow> time option" where
  "time_of_parts p =
    (let h = (if tpt_pm p = Some True \<and> tpt_hour p < 12 then tpt_hour p + 12
              else if tpt_pm p = Some False \<and> tpt_hour p = 12 then 0 else tpt_hour p)
     in if valid_date (tpt_year p) (tpt_month p) (tpt_day p)
        then Some (date_of (tpt_year p) (tpt_month p) (tpt_day p)
          + (h * 3600 + tpt_min p * 60 + tpt_sec p) * dur_second + tpt_nsec p)
        else None)"

fun parse_layout :: "layout_elem list \<Rightarrow> string \<Rightarrow> time_parts \<Rightarrow> time option" where
  "parse_layout [] s p = (if s = [] then time_of_parts p else None)"
| "parse_layout (e # es) s p = (case parse_elem e s p of None \<Rightarrow> None | Some (p', s') \<Rightarrow> parse_layout es s' p')"

definition time_parse :: "layout_elem list \<Rightarrow> string \<Rightarrow> time option" where
  "time_parse es s = parse_layout es s \<lparr>tpt_year = 0, tpt_month = 1, tpt_day = 1, tpt_hour = 0, tpt_min = 0,
     tpt_sec = 0, tpt_nsec = 0, tpt_pm = None\<rparr>"

definition steam_layouts :: "(string \<Rightarrow> time option) list" where
  "steam_layouts = [
     time_parse [LYear, LLit ''-'', LMonth, LLit ''-'', LDay True, LLit '' '', LHour, LLit '':'', LMinute, LLit '':'', LSecond],
     parse_rfc3339,
     time_parse [LMonthName, LLit '' '', LDay False, LLit '', '', LYear],
     time_parse [LDay False, LLit '' '', LMonthName, LLit '', '', LYear],
     time_parse [LMonthName, LLit '' '', LDay False, LLit '' '', LYear],
     time_parse [LDay False, LLit '' '', LMonthName, LLit '', '', LYear, LLit '' '', LHour12, LLit '':'', LMinute, LPm],
     time_parse [LMonthName, LLit '' '', LDay True, LLit '' '', LYear, LLit '' '', LHour, LLit '': +0''],
     time_parse [LMonthName, LLit '' '', LDay False, LLit '' '', LYear, LLit '' '', LHour, LLit '': +0'']]"

text \<open>The zero time stands for a text no layout accepts.\<close>

definition parseSteamTime :: "string \<Rightarrow> time" where
  "parseSteamTime s0 = (let s = trim_space s0 in
     if s = [] then 0
     else case parse_int s of
         Some secs \<Rightarrow> of_unix (if secs > 1000000000000 then secs div 1000 else secs)
       | None \<Rightarrow> (case List.find (\<lambda>o'. o' \<noteq> None) (map (\<lambda>p. p s) steam_layouts) of
           Some (Some t) \<Rightarrow> t | _ \<Rightarrow> 0))"

section \<open>Inventory\<close>

record raw_asset =
  ras_asset_id :: jval
  ras_class_id :: jval
  ras_instance_id :: jval
  ras_amount :: jval

record raw_description =
  rde_class_id :: jval
  rde_instance_id :: jval
  rde_market_hash_name :: string
  rde_marketable :: int
  rde_tradable :: int
  rde_name :: string
  rde_type :: string
  rde_tags :: "(string \<times> string) list"

record inventory_page =
  ipg_assets :: "raw_asset list"
  ipg_descriptions :: "raw_description list"
  ipg_more_items :: jval
  ipg_last_asset_id :: jval
  ipg_total_count :: int
  ipg_success :: jval

definition normInstance :: "string \<Rightarrow> string" where
  "normInstance i = (if i = [] then ''0'' else i)"

definition descKey :: "string \<Rightarrow> string \<Rightarrow> string" where
  "descKey c i = c @ [CHR 0x00] @ normInstance i"

definition desc_key_of :: "raw_description \<Rightarrow> string" where
  "desc_key_of d = descKey (strVal (rde_class_id d)) (strVal (rde_instance_id d))"

definition describe :: "raw_description \<Rightarrow> inventory_item \<Rightarrow> inventory_item" where
  "describe d it = it\<lparr>itm_has_description := True, itm_market_hash_name := rde_market_hash_name d,
     itm_marketable := rde_marketable d \<noteq> 0, itm_tradable := rde_tradable d \<noteq> 0,
     itm_name := rde_name d, itm_type := rde_type d,
     itm_tags := fold (\<lambda>(c, n). AList.update c n) (rde_tags d) []\<rparr>"

definition bare_item :: "raw_asset \<Rightarrow> inventory_item" where
  "bare_item a = \<lparr>itm_asset_id = strVal (ras_asset_id a), itm_class_id = strVal (ras_class_id a),
     itm_instance_id = strVal (ras_instance_id a), itm_amount = intVal (ras_amount a),
     itm_market_hash_name = [], itm_marketable = False, itm_tradable = False, itm_name = [],
     itm_type = [], itm_tags = [], itm_has_description = False\<rparr>"

definition joinInventory :: "raw_asset list \<Rightarrow> raw_description list \<Rightarrow> inventory_item list" where
  "joinInventory assets descs =
    (let byKey = map_of (rev (map (\<lambda>d. (desc_key_of d, d)) descs))
     in map (\<lambda>a. case byKey (descKey (strVal (ras_class_id a)) (strVal (ras_instance_id a))) of
          None \<Rightarrow> bare_item a | Some d \<Rightarrow> describe d (bare_item a)) assets)"

record inventory_walk =
  iwk_assets :: "raw_asset list"
  iwk_descs :: "raw_description list"
  iwk_seen :: "string set"
  iwk_total :: int

definition add_asset :: "raw_asset \<Rightarrow> inventory_walk \<Rightarrow> inventory_walk" where
  "add_asset a w = (let i = strVal (ras_asset_id a) in
     if i \<noteq> [] \<and> i \<in> iwk_seen w then w
     else w\<lparr>iwk_assets := iwk_assets w @ [a], iwk_seen := (if i \<noteq> [] then insert i (iwk_seen w) else iwk_seen w)\<rparr>)"

definition add_page :: "inventory_page \<Rightarrow> inventory_walk \<Rightarrow> inventory_walk" where
  "add_page p w = (let w1 = fold add_asset (ipg_assets p) (w\<lparr>iwk_total := max (iwk_total w) (ipg_total_count p)\<rparr>)
     in w1\<lparr>iwk_descs := iwk_descs w1 @ ipg_descriptions p\<rparr>)"

type_synonym inventory_server = "nat \<Rightarrow> string \<Rightarrow> inventory_page res"

text \<open>The page loop: pages left, page number, position; the result is the error of a page, if any, and whether the last page was reached.\<close>

fun inventory_pages ::
  "inventory_server \<Rightarrow> nat \<Rightarrow> nat \<Rightarrow> string \<Rightarrow> inventory_walk \<Rightarrow> inventory_walk \<times> go_error option \<times> bool" where
  "inventory_pages server 0 k start w = (w, None, False)"
| "inventory_pages server (Suc n) k start w =
    (case server k start of
       Inl e \<Rightarrow> (w, Some e, False)
     | Inr p \<Rightarrow>
         if \<not> truthy (ipg_success p) then (w, Some (Wrapf ''steam inventory'' (ErrText ''success=false'')), False)
         else let w1 = add_page p w; nxt = strVal (ipg_last_asset_id p) in
           if \<not> truthy (ipg_more_items p) then (w1, None, True)
           else if nxt = [] \<or> nxt = start then (w1, None, False)
           else inventory_pages server n (Suc k) nxt w1)"

definition start_walk :: inventory_walk where
  "start_walk = \<lparr>iwk_assets = [], iwk_descs = [], iwk_seen = {}, iwk_total = 0\<rparr>"

definition fetchInventory :: "nat \<Rightarrow> inventory_server \<Rightarrow> inventory_item list \<times> bool \<times> go_error option" where
  "fetchInventory maxPages server =
    (case inventory_pages server maxPages 0 [] start_walk of (w, err, whole) \<Rightarrow>
       let items = joinInventory (iwk_assets w) (iwk_descs w) in
       (case err of
          Some e \<Rightarrow> (items, False, Some e)
        | None \<Rightarrow> if \<not> whole then (items, False, None)
            else if iwk_total w > 0 \<and> int (length (iwk_assets w)) < iwk_total w then (items, False, None)
            else (items, True, None)))"

section \<open>Inventory history\<close>

record history_cursor =
  hcu_time :: jval
  hcu_time_frac :: jval
  hcu_s :: jval

definition cursor_empty :: "history_cursor \<Rightarrow> bool" where
  "cursor_empty c \<longleftrightarrow> strVal (hcu_time c) = [] \<and> strVal (hcu_time_frac c) = [] \<and> strVal (hcu_s c) = []"

definition cursor_key :: "history_cursor \<Rightarrow> string" where
  "cursor_key c = strVal (hcu_time c) @ ''|'' @ strVal (hcu_time_frac c) @ ''|'' @ strVal (hcu_s c)"

text \<open>The query parameters a cursor becomes: its three texts.\<close>

definition cursor_values :: "history_cursor \<Rightarrow> string \<times> string \<times> string" where
  "cursor_values c = (strVal (hcu_time c), strVal (hcu_time_frac c), strVal (hcu_s c))"

datatype raw_cursor = NoCursor | BadCursor string | Cursor history_cursor

record history_page =
  hpg_success :: jval
  hpg_descs :: "(string \<times> string) list"
  hpg_rows :: "(string \<Rightarrow> string option) \<Rightarrow> history_event list"
  hpg_cursor :: raw_cursor

type_synonym history_server = "nat \<Rightarrow> (string \<times> string \<times> string) option \<Rightarrow> history_page res"

definition pageMinTime :: "history_event list \<Rightarrow> time" where
  "pageMinTime rows = fold (\<lambda>ev m. if time_is_zero (hev_timestamp ev) then m
     else if time_is_zero m \<or> hev_timestamp ev < m then hev_timestamp ev else m) rows 0"

record history_walk =
  hwk_events :: "history_event list"
  hwk_descs :: "string \<Rightarrow> string option"

definition add_events :: "history_event list \<Rightarrow> history_event list \<Rightarrow> history_event list" where
  "add_events rows evs = fold (\<lambda>ev evs. if hev_external_id ev \<in> hev_external_id ` set evs then evs else evs @ [ev]) rows evs"

type_synonym history_result = "history_walk \<times> bool \<times> history_cursor option \<times> go_error option"

fun history_pages ::
  "history_server \<Rightarrow> bool \<Rightarrow> time \<Rightarrow> nat \<Rightarrow> nat \<Rightarrow> history_cursor option \<Rightarrow> history_cursor option \<Rightarrow> string set \<Rightarrow>
   history_walk \<Rightarrow> history_result" where
  "history_pages server resume stopBefore 0 k cursor nxt seen w = (w, False, nxt, None)"
| "history_pages server resume stopBefore (Suc n) k cursor nxt seen w =
    (case server k (map_option cursor_values cursor) of
       Inl e \<Rightarrow> (w, False, None, Some e)
     | Inr p \<Rightarrow>
         if \<not> truthy (hpg_success p) then (w, False, None, Some (Wrapf ''steam inventory history'' (ErrText ''success=false'')))
         else let descs = hwk_descs w ++ map_of (rev (hpg_descs p));
                  rows = hpg_rows p descs; w0 = w\<lparr>hwk_descs := descs\<rparr>;
                  w1 = w0\<lparr>hwk_events := add_events rows (hwk_events w)\<rparr> in
           if rows = [] then (w0, True, None, None)
           else if \<not> resume \<and> \<not> time_is_zero stopBefore \<and> \<not> time_is_zero (pageMinTime rows) \<and>
               \<not> pageMinTime rows > stopBefore + dur_second then (w1, True, None, None)
           else case hpg_cursor p of
               NoCursor \<Rightarrow> (w1, True, None, None)
             | BadCursor e \<Rightarrow> (w1, False, cursor, Some (Wrapf ''steam: history cursor decode'' (ErrText e)))
             | Cursor c \<Rightarrow>
                 if cursor_empty c then (w1, False, None, None)
                 else if cursor_key c \<in> seen then (w1, False, None, None)
                 else history_pages server resume stopBefore n (Suc k) (Some c) (Some c) (insert (cursor_key c) seen) w1)"

definition fetchHistory :: "nat \<Rightarrow> history_server \<Rightarrow> history_cursor option \<Rightarrow> time \<Rightarrow> history_result" where
  "fetchHistory maxPages server start stopBefore =
    (let cursor = (case start of None \<Rightarrow> None | Some c \<Rightarrow> if cursor_empty c then None else Some c)
     in history_pages server (cursor \<noteq> None) stopBefore maxPages 0 cursor None {}
          \<lparr>hwk_events = [], hwk_descs = Map.empty\<rparr>)"

section \<open>Trade history\<close>

record raw_trade_asset =
  rta_asset_id :: jval
  rta_class_id :: jval
  rta_instance_id :: jval
  rta_amount :: jval
  rta_new_asset_id :: jval
  rta_new_context_id :: jval

record raw_trade =
  rtr_trade_id :: jval
  rtr_steam_id_other :: jval
  rtr_time_init :: jval
  rtr_status :: jval
  rtr_given :: "raw_trade_asset list"
  rtr_received :: "raw_trade_asset list"

record trade_page =
  tpg_more :: bool
  tpg_trades :: "raw_trade list"

record trade_resume =
  trs_after_time :: time
  trs_after_id :: string

definition normalizeTradeAsset :: "raw_trade_asset \<Rightarrow> trade_asset" where
  "normalizeTradeAsset a = \<lparr>tas_asset_id = strVal (rta_asset_id a), tas_class_id = strVal (rta_class_id a),
     tas_instance_id = strVal (rta_instance_id a),
     tas_quantity = (if intVal (rta_amount a) = 0 then 1 else intVal (rta_amount a)),
     tas_new_asset_id = strVal (rta_new_asset_id a), tas_new_context = strVal (rta_new_context_id a)\<rparr>"

definition trade_of :: "raw_trade \<Rightarrow> trade_record" where
  "trade_of t = \<lparr>trc_trade_id = strVal (rtr_trade_id t), trc_timestamp = parseSteamTime (strVal (rtr_time_init t)),
     trc_other_steam_id = strVal (rtr_steam_id_other t), trc_status = strVal (rtr_status t),
     trc_given = map normalizeTradeAsset (rtr_given t), trc_received = map normalizeTradeAsset (rtr_received t)\<rparr>"

record trade_walk =
  twk_trades :: "trade_record list"
  twk_seen :: "string set"
  twk_after_time :: int
  twk_after_id :: string

definition add_trade :: "raw_trade \<Rightarrow> trade_walk \<Rightarrow> trade_walk" where
  "add_trade t w = (let i = strVal (rtr_trade_id t); ts = to_unix (trc_timestamp (trade_of t)) in
     if i = [] \<or> i \<in> twk_seen w then w
     else w\<lparr>twk_trades := twk_trades w @ [trade_of t], twk_seen := insert i (twk_seen w), twk_after_id := i,
       twk_after_time := (if ts > 0 then ts else twk_after_time w)\<rparr>)"

definition pageMinTradeTime :: "raw_trade list \<Rightarrow> time" where
  "pageMinTradeTime trades = fold (\<lambda>t m. let at' = parseSteamTime (strVal (rtr_time_init t)) in
     if time_is_zero at' then m else if time_is_zero m \<or> at' < m then at' else m) trades 0"

type_synonym trade_server = "nat \<Rightarrow> int \<Rightarrow> string \<Rightarrow> trade_page res"

fun trade_pages ::
  "trade_server \<Rightarrow> bool \<Rightarrow> time \<Rightarrow> nat \<Rightarrow> nat \<Rightarrow> trade_walk \<Rightarrow> trade_walk \<times> bool \<times> trade_resume option \<times> go_error option" where
  "trade_pages server resume stopBefore 0 k w =
    (w, False, if twk_after_id w = [] \<and> twk_after_time w = 0 then None
       else Some \<lparr>trs_after_time = of_unix (twk_after_time w), trs_after_id = twk_after_id w\<rparr>, None)"
| "trade_pages server resume stopBefore (Suc n) k w =
    (case server k (if twk_after_time w > 0 then twk_after_time w else 0) (twk_after_id w) of
       Inl e \<Rightarrow> (w, False, None, Some e)
     | Inr p \<Rightarrow>
         if tpg_trades p = [] then (w, True, None, None)
         else let w1 = fold add_trade (tpg_trades p) w in
           if \<not> resume \<and> \<not> time_is_zero stopBefore \<and> \<not> time_is_zero (pageMinTradeTime (tpg_trades p)) \<and>
               \<not> pageMinTradeTime (tpg_trades p) > stopBefore + dur_second then (w1, True, None, None)
           else if \<not> tpg_more p then (w1, True, None, None)
           else trade_pages server resume stopBefore n (Suc k) w1)"

definition fetchTrades ::
  "nat \<Rightarrow> trade_server \<Rightarrow> trade_resume option \<Rightarrow> time \<Rightarrow>
   trade_record list \<times> bool \<times> trade_resume option \<times> go_error option" where
  "fetchTrades maxPages server start stopBefore =
    (case trade_pages server (start \<noteq> None) stopBefore maxPages 0
        \<lparr>twk_trades = [], twk_seen = {},
         twk_after_time = (case start of None \<Rightarrow> 0 | Some r \<Rightarrow> to_unix (trs_after_time r)),
         twk_after_id = (case start of None \<Rightarrow> [] | Some r \<Rightarrow> trs_after_id r)\<rparr> of
       (w, rest) \<Rightarrow> (twk_trades w, rest))"

section \<open>Durable progress\<close>

text \<open>
  The stored position of a walk (\<open>reconcile.go\<close>). A resume offset is JSON in the code; here it is
  kept by what it spells, and \<open>decode\<close> reads a foreign shape as \<open>encoding/json\<close> would: unknown
  fields are ignored and missing ones are zero.
\<close>

datatype resume_json = HistoryResume history_cursor | MarketResume int | TradeResume trade_resume

record provenance_cursor =
  pcu_watermark :: time
  pcu_resume :: "resume_json option"

record provenance_outcome =
  pou_complete :: bool
  pou_newest :: time
  pou_resume :: "resume_json option"

definition no_outcome :: provenance_outcome where
  "no_outcome = \<lparr>pou_complete = False, pou_newest = 0, pou_resume = None\<rparr>"

definition decodeMarketResume :: "resume_json option \<Rightarrow> int option" where
  "decodeMarketResume raw = (case raw of None \<Rightarrow> None
     | Some (MarketResume off) \<Rightarrow> if off < 0 then None else Some off
     | Some _ \<Rightarrow> Some 0)"

definition decodeHistoryResume :: "resume_json option \<Rightarrow> history_cursor option" where
  "decodeHistoryResume raw = (case raw of
      Some (HistoryResume c) \<Rightarrow> if cursor_empty c then None else Some c
    | _ \<Rightarrow> None)"

definition decodeTradeResume :: "resume_json option \<Rightarrow> trade_resume option" where
  "decodeTradeResume raw = (case raw of None \<Rightarrow> None
     | Some (TradeResume t) \<Rightarrow> Some t
     | Some _ \<Rightarrow> Some \<lparr>trs_after_time = 0, trs_after_id = []\<rparr>)"

definition mergeProvenanceCursor :: "provenance_cursor \<Rightarrow> provenance_outcome \<Rightarrow> provenance_cursor" where
  "mergeProvenanceCursor prev out =
    (if \<not> pou_complete out \<and> pou_resume out = None then prev
     else \<lparr>pcu_watermark = (if \<not> time_is_zero (pou_newest out) \<and> pou_newest out > pcu_watermark prev
             then pou_newest out else pcu_watermark prev),
           pcu_resume = (if \<not> pou_complete out then pou_resume out else None)\<rparr>)"

definition newestEventTime :: "history_event list \<Rightarrow> time" where
  "newestEventTime events = fold (\<lambda>ev m. if hev_timestamp ev > m then hev_timestamp ev else m) events 0"

definition newestTradeTime :: "trade_record list \<Rightarrow> time" where
  "newestTradeTime trades = fold (\<lambda>tr m. if trc_timestamp tr > m then trc_timestamp tr else m) trades 0"

text \<open>One history read of a sync, from the stored position.\<close>

definition read_history ::
  "nat \<Rightarrow> history_server \<Rightarrow> provenance_cursor \<Rightarrow> history_walk \<times> provenance_outcome \<times> go_error option" where
  "read_history maxPages server prev =
    (let start = decodeHistoryResume (pcu_resume prev);
         stop = (if start \<noteq> None then 0 else pcu_watermark prev)
     in case fetchHistory maxPages server start stop of
       (w, whole, res, err) \<Rightarrow> (w, \<lparr>pou_complete = whole, pou_newest = newestEventTime (hwk_events w),
          pou_resume = map_option HistoryResume res\<rparr>, err))"

text \<open>The watermark never moves back, and only a run that says where it stands moves the position.\<close>

lemma watermark_monotone: "pcu_watermark prev \<le> pcu_watermark (mergeProvenanceCursor prev out)"
  by (simp add: mergeProvenanceCursor_def)

lemma failed_run_keeps_position: "mergeProvenanceCursor prev no_outcome = prev"
  by (simp add: mergeProvenanceCursor_def no_outcome_def)

section \<open>What a complete inventory contains\<close>

definition raw_id :: "raw_asset \<Rightarrow> string" where "raw_id a = strVal (ras_asset_id a)"

text \<open>The pages the server gives one after another, the last one without more items.\<close>

fun page_chain :: "inventory_server \<Rightarrow> nat \<Rightarrow> string \<Rightarrow> inventory_page list \<Rightarrow> bool" where
  "page_chain server k start [] = False"
| "page_chain server k start (p # ps) \<longleftrightarrow> server k start = Inr p \<and> truthy (ipg_success p) \<and>
     (if ps = [] then \<not> truthy (ipg_more_items p)
      else truthy (ipg_more_items p) \<and> page_chain server (Suc k) (strVal (ipg_last_asset_id p)) ps)"

definition walk_wf :: "inventory_walk \<Rightarrow> bool" where
  "walk_wf w \<longleftrightarrow> distinct (filter (\<lambda>i. i \<noteq> []) (map raw_id (iwk_assets w))) \<and>
     iwk_seen w = {i \<in> raw_id ` set (iwk_assets w). i \<noteq> []}"

lemma add_asset_wf: "walk_wf w \<Longrightarrow> walk_wf (add_asset a w)"
  by (auto simp: walk_wf_def add_asset_def Let_def raw_id_def)

lemma add_asset_effect:
  "walk_wf w \<Longrightarrow> raw_id ` set (iwk_assets (add_asset a w)) = insert (raw_id a) (raw_id ` set (iwk_assets w)) \<and>
     iwk_descs (add_asset a w) = iwk_descs w \<and> iwk_total (add_asset a w) = iwk_total w"
  by (auto simp: walk_wf_def add_asset_def Let_def raw_id_def)

lemma add_assets_effect:
  "walk_wf w \<Longrightarrow> walk_wf (fold add_asset as w) \<and>
     raw_id ` set (iwk_assets (fold add_asset as w)) = raw_id ` set as \<union> raw_id ` set (iwk_assets w) \<and>
     iwk_descs (fold add_asset as w) = iwk_descs w \<and> iwk_total (fold add_asset as w) = iwk_total w"
proof (induction as arbitrary: w)
  case (Cons a as)
  show ?case using Cons.IH [OF add_asset_wf [OF Cons.prems, of a]] add_asset_effect [OF Cons.prems, of a] by auto
qed simp

lemma add_page_effect:
  assumes "walk_wf w"
  shows "walk_wf (add_page p w) \<and>
     raw_id ` set (iwk_assets (add_page p w)) = raw_id ` set (ipg_assets p) \<union> raw_id ` set (iwk_assets w) \<and>
     iwk_descs (add_page p w) = iwk_descs w @ ipg_descriptions p \<and>
     iwk_total (add_page p w) = max (iwk_total w) (ipg_total_count p)"
proof -
  have "walk_wf (w\<lparr>iwk_total := t\<rparr>)" for t using assms by (simp add: walk_wf_def)
  from add_assets_effect [OF this, of "ipg_assets p"] show ?thesis by (simp add: add_page_def Let_def walk_wf_def)
qed

text \<open>A walk has gathered some pages.\<close>

definition gathered :: "inventory_page list \<Rightarrow> inventory_walk \<Rightarrow> inventory_walk \<Rightarrow> bool" where
  "gathered pages w w' \<longleftrightarrow>
     raw_id ` set (iwk_assets w') = (\<Union>p\<in>set pages. raw_id ` set (ipg_assets p)) \<union> raw_id ` set (iwk_assets w) \<and>
     set (iwk_descs w') = (\<Union>p\<in>set pages. set (ipg_descriptions p)) \<union> set (iwk_descs w) \<and>
     iwk_total w \<le> iwk_total w' \<and> (\<forall>p\<in>set pages. ipg_total_count p \<le> iwk_total w')"

lemma gathered_Nil: "gathered [] w w"
  by (simp add: gathered_def)

lemma gathered_Cons: "walk_wf w \<Longrightarrow> gathered pages (add_page p w) w' \<Longrightarrow> gathered (p # pages) w w'"
  using add_page_effect [of w p] unfolding gathered_def by (simp add: Un_ac)

lemma inventory_pages_outcome:
  assumes "inventory_pages server n k start w = (w', err, whole)" and "walk_wf w"
  shows "walk_wf w' \<and> (whole \<longrightarrow> err = None \<and>
     (\<exists>pages. page_chain server k start pages \<and> length pages \<le> n \<and> gathered pages w w'))"
  using assms
proof (induction n arbitrary: k start w)
  case (Suc n)
  show ?case
  proof (cases "server k start")
    case (Inr p)
    let ?w1 = "add_page p w" and ?nxt = "strVal (ipg_last_asset_id p)"
    note wf1 = add_page_effect [OF Suc.prems(2), of p, THEN conjunct1]
    consider (failed) "\<not> truthy (ipg_success p)" | (last) "truthy (ipg_success p)" "\<not> truthy (ipg_more_items p)"
      | (stall) "truthy (ipg_success p)" "truthy (ipg_more_items p)" "?nxt = [] \<or> ?nxt = start"
      | (step) "truthy (ipg_success p)" "truthy (ipg_more_items p)" "\<not> (?nxt = [] \<or> ?nxt = start)" by blast
    then show ?thesis
    proof cases
      case failed
      with Suc.prems Inr show ?thesis by simp
    next
      case last
      with Suc.prems Inr have "w' = ?w1" "err = None" by (simp_all add: Let_def)
      moreover have "page_chain server k start [p]" using Inr last by simp
      moreover have "gathered [p] w ?w1" using gathered_Cons [OF Suc.prems(2) gathered_Nil] .
      ultimately show ?thesis using wf1 by fastforce
    next
      case stall
      with Suc.prems Inr wf1 show ?thesis by (simp add: Let_def)
    next
      case step
      with Suc.prems(1) Inr have run: "inventory_pages server n (Suc k) ?nxt ?w1 = (w', err, whole)"
        by (simp add: Let_def)
      note IH = Suc.IH [OF run wf1]
      have "page_chain server k start (p # pages)" if "page_chain server (Suc k) ?nxt pages" for pages
        using that step Inr by (cases pages) simp_all
      with IH gathered_Cons [OF Suc.prems(2)] show ?thesis by (metis Suc_le_mono length_Cons)
    qed
  qed (use Suc.prems in simp)
qed simp

lemma joinInventory_items:
  "map itm_asset_id (joinInventory assets descs) = map raw_id assets \<and>
   (\<forall>it\<in>set (joinInventory assets descs). itm_has_description it \<longleftrightarrow>
      (\<exists>d\<in>set descs. desc_key_of d = descKey (itm_class_id it) (itm_instance_id it)))"
proof -
  let ?m = "map_of (rev (map (\<lambda>d. (desc_key_of d, d)) descs))"
  have dom: "?m k = None \<longleftrightarrow> (\<forall>d\<in>set descs. desc_key_of d \<noteq> k)" for k
    by (simp add: map_of_eq_None_iff image_image) blast
  show ?thesis
  proof (intro conjI ballI)
    show "map itm_asset_id (joinInventory assets descs) = map raw_id assets"
      by (simp add: joinInventory_def Let_def raw_id_def bare_item_def describe_def split: option.split)
    fix it assume "it \<in> set (joinInventory assets descs)"
    then obtain a where it: "it = (case ?m (descKey (strVal (ras_class_id a)) (strVal (ras_instance_id a))) of
        None \<Rightarrow> bare_item a | Some d \<Rightarrow> describe d (bare_item a))"
      by (auto simp: joinInventory_def Let_def)
    show "itm_has_description it \<longleftrightarrow> (\<exists>d\<in>set descs. desc_key_of d = descKey (itm_class_id it) (itm_instance_id it))"
      using dom [of "descKey (strVal (ras_class_id a)) (strVal (ras_instance_id a))"]
      by (cases "?m (descKey (strVal (ras_class_id a)) (strVal (ras_instance_id a)))")
        (auto simp: it bare_item_def describe_def)
  qed
qed

text \<open>
  A complete inventory is the whole inventory. No asset id is reported twice, whatever the
  server repeats. When the read is called complete, it made no error and there are at most
  \<open>MaxPages\<close> pages, each the one the previous asked for and the last without more items, such
  that the items are exactly the assets of these pages, at least as many as any page's total
  count, and an item has its market name exactly when some page, not only its own, describes it.
\<close>

theorem complete_inventory_is_whole:
  "case fetchInventory maxPages server of (items, whole, err) \<Rightarrow>
     distinct (filter (\<lambda>i. i \<noteq> []) (map itm_asset_id items)) \<and>
     (whole \<longrightarrow> err = None \<and> (\<exists>pages. page_chain server 0 [] pages \<and> length pages \<le> maxPages \<and>
        set (map itm_asset_id items) = (\<Union>p\<in>set pages. raw_id ` set (ipg_assets p)) \<and>
        (\<forall>p\<in>set pages. ipg_total_count p \<le> int (length items)) \<and>
        (\<forall>it\<in>set items. itm_has_description it \<longleftrightarrow> (\<exists>p\<in>set pages. \<exists>d\<in>set (ipg_descriptions p).
           desc_key_of d = descKey (itm_class_id it) (itm_instance_id it)))))"
proof -
  obtain w err0 whole0 where run: "inventory_pages server maxPages 0 [] start_walk = (w, err0, whole0)"
    by (metis surj_pair)
  let ?items = "joinInventory (iwk_assets w) (iwk_descs w)"
  obtain whole err where f: "fetchInventory maxPages server = (?items, whole, err)"
    and whole: "whole \<Longrightarrow> err = None \<and> whole0 \<and> (0 < iwk_total w \<longrightarrow> iwk_total w \<le> int (length (iwk_assets w)))"
  proof (rule that)
    let ?short = "0 < iwk_total w \<and> int (length (iwk_assets w)) < iwk_total w"
    show "fetchInventory maxPages server = (?items, err0 = None \<and> whole0 \<and> \<not> ?short, err0)"
      by (cases err0) (simp_all add: fetchInventory_def run Let_def)
    show "err0 = None \<and> whole0 \<and> (0 < iwk_total w \<longrightarrow> iwk_total w \<le> int (length (iwk_assets w)))"
      if "err0 = None \<and> whole0 \<and> \<not> ?short" using that by linarith
  qed
  have wf0: "walk_wf start_walk" by (simp add: walk_wf_def start_walk_def)
  note out = inventory_pages_outcome [OF run wf0]
  note items = joinInventory_items [of "iwk_assets w" "iwk_descs w"]
  have ids: "set (map itm_asset_id ?items) = raw_id ` set (iwk_assets w)"
    and len: "length ?items = length (iwk_assets w)"
    using items by (metis list.set_map, metis length_map)
  have "distinct (filter (\<lambda>i. i \<noteq> []) (map itm_asset_id ?items))"
    using out items unfolding walk_wf_def by metis
  moreover have "\<exists>pages. page_chain server 0 [] pages \<and> length pages \<le> maxPages \<and>
        set (map itm_asset_id ?items) = (\<Union>p\<in>set pages. raw_id ` set (ipg_assets p)) \<and>
        (\<forall>p\<in>set pages. ipg_total_count p \<le> int (length ?items)) \<and>
        (\<forall>it\<in>set ?items. itm_has_description it \<longleftrightarrow> (\<exists>p\<in>set pages. \<exists>d\<in>set (ipg_descriptions p).
           desc_key_of d = descKey (itm_class_id it) (itm_instance_id it)))" if whole
  proof -
    from out whole [OF that] obtain pages where pages: "page_chain server 0 [] pages" "length pages \<le> maxPages"
      and g: "gathered pages start_walk w" by blast
    have "iwk_total w \<le> int (length ?items)" using whole [OF that] len by (cases "0 < iwk_total w") auto
    with g have "\<forall>p\<in>set pages. ipg_total_count p \<le> int (length ?items)"
      unfolding gathered_def by (meson order_trans)
    moreover have "set (iwk_descs w) = (\<Union>p\<in>set pages. set (ipg_descriptions p))"
      using g by (simp add: gathered_def start_walk_def)
    then have "\<forall>it\<in>set ?items. itm_has_description it \<longleftrightarrow> (\<exists>p\<in>set pages. \<exists>d\<in>set (ipg_descriptions p).
        desc_key_of d = descKey (itm_class_id it) (itm_instance_id it))" using items by simp
    moreover have "set (map itm_asset_id ?items) = (\<Union>p\<in>set pages. raw_id ` set (ipg_assets p))"
      using g ids by (simp add: gathered_def start_walk_def)
    ultimately show ?thesis using pages by blast
  qed
  ultimately show ?thesis using whole by (simp add: f)
qed

section \<open>A capped history walk reaches every page\<close>

text \<open>
  A server that keeps a fixed history of pages: page \<open>i + 1\<close> is given under the cursor page \<open>i\<close>
  carries, the first one without a cursor, the last one carries none, and no page is empty.
\<close>

definition serves :: "history_page list \<Rightarrow> history_cursor list \<Rightarrow> history_server \<Rightarrow> bool" where
  "serves ps cs server \<longleftrightarrow> ps \<noteq> [] \<and> length cs = length ps \<and> distinct (map cursor_key cs) \<and>
     (\<forall>c\<in>set cs. \<not> cursor_empty c) \<and>
     (\<forall>p\<in>set ps. truthy (hpg_success p) \<and> (\<forall>d. hpg_rows p d \<noteq> [])) \<and>
     (\<forall>k. server k None = Inr (ps ! 0)) \<and>
     (\<forall>k. \<forall>i<length ps. server k (Some (cursor_values (cs ! i))) = Inr (ps ! i)) \<and>
     (\<forall>i<length ps. hpg_cursor (ps ! i) = (if Suc i < length ps then Cursor (cs ! Suc i) else NoCursor))"

definition rows_read :: "history_page \<Rightarrow> history_event list \<Rightarrow> bool" where
  "rows_read p evs \<longleftrightarrow> (\<exists>d. hev_external_id ` set (hpg_rows p d) \<subseteq> hev_external_id ` set evs)"

lemma add_events_ids:
  "hev_external_id ` set (add_events rows evs) = hev_external_id ` set rows \<union> hev_external_id ` set evs"
  unfolding add_events_def by (induction rows arbitrary: evs) (auto simp: image_iff)

lemma rows_read_mono:
  "rows_read p evs \<Longrightarrow> hev_external_id ` set evs \<subseteq> hev_external_id ` set evs' \<Longrightarrow> rows_read p evs'"
  unfolding rows_read_def by (meson order_trans)

lemma serves_next_cursor:
  assumes "serves ps cs server" "Suc i < length ps" "seen \<subseteq> cursor_key ` set (take (Suc i) cs)"
  shows "\<not> cursor_empty (cs ! Suc i) \<and> cursor_key (cs ! Suc i) \<notin> seen \<and>
    insert (cursor_key (cs ! Suc i)) seen \<subseteq> cursor_key ` set (take (Suc (Suc i)) cs)"
proof -
  have d: "distinct (map cursor_key cs)" and len: "Suc i < length cs" using assms by (simp_all add: serves_def)
  have split: "take (Suc (Suc i)) cs = take (Suc i) cs @ [cs ! Suc i]" using len by (rule take_Suc_conv_app_nth)
  have "distinct (map cursor_key (take (Suc (Suc i)) cs))" using d by (metis distinct_take take_map)
  then have "cursor_key (cs ! Suc i) \<notin> cursor_key ` set (take (Suc i) cs)" by (simp add: split)
  moreover have "\<not> cursor_empty (cs ! Suc i)" using assms len by (simp add: serves_def)
  ultimately show ?thesis using assms(3) by (auto simp: split)
qed

lemma serves_page:
  assumes "serves ps cs server" "i < length ps" "cur = (if i = 0 then None else Some (cs ! i)) \<or> cur = Some (cs ! i)"
  shows "server k (map_option cursor_values cur) = Inr (ps ! i) \<and> truthy (hpg_success (ps ! i)) \<and> (\<forall>d. hpg_rows (ps ! i) d \<noteq> []) \<and>
    hpg_cursor (ps ! i) = (if Suc i < length ps then Cursor (cs ! Suc i) else NoCursor)"
  using assms by (auto simp: serves_def split: if_splits)

lemma serves_walk:
  assumes S: "serves ps cs server" and free: "resume \<or> time_is_zero stop"
    and "i < length ps" "cur = (if i = 0 then None else Some (cs ! i)) \<or> cur = Some (cs ! i)"
    and "seen \<subseteq> cursor_key ` set (take (Suc i) cs)"
  shows "\<exists>w'. history_pages server resume stop n k cur nxt seen w =
      (w', \<not> i + n < length ps, if i + n < length ps then (if n = 0 then nxt else Some (cs ! (i + n))) else None, None) \<and>
    hev_external_id ` set (hwk_events w) \<subseteq> hev_external_id ` set (hwk_events w') \<and>
    (\<forall>j. i \<le> j \<and> j < i + n \<and> j < length ps \<longrightarrow> rows_read (ps ! j) (hwk_events w'))"
  using assms(3-5)
proof (induction n arbitrary: i k cur nxt seen w)
  case (Suc n)
  let ?d = "hwk_descs w ++ map_of (rev (hpg_descs (ps ! i)))"
  let ?w1 = "w\<lparr>hwk_descs := ?d, hwk_events := add_events (hpg_rows (ps ! i) ?d) (hwk_events w)\<rparr>"
  note page = serves_page [OF S Suc.prems(1,2), of k]
  have ids: "hev_external_id ` set (hwk_events w) \<subseteq> hev_external_id ` set (hwk_events ?w1)"
    by (simp add: add_events_ids)
  have read: "rows_read (ps ! i) (hwk_events ?w1)"
    unfolding rows_read_def by (intro exI [of _ ?d]) (simp add: add_events_ids)
  show ?case
  proof (cases "Suc i < length ps")
    case False
    then have eq: "history_pages server resume stop (Suc n) k cur nxt seen w = (?w1, True, None, None)"
      using page free by (auto simp: Let_def)
    have "rows_read (ps ! j) (hwk_events ?w1)" if "i \<le> j" "j < length ps" for j
    proof -
      have "j = i" using that False by linarith
      with read show ?thesis by simp
    qed
    then show ?thesis unfolding eq using ids False by auto
  next
    case True
    note nx = serves_next_cursor [OF S True Suc.prems(3)]
    have run: "history_pages server resume stop (Suc n) k cur nxt seen w =
        history_pages server resume stop n (Suc k) (Some (cs ! Suc i)) (Some (cs ! Suc i))
          (insert (cursor_key (cs ! Suc i)) seen) ?w1"
      using page free True nx by (auto simp: Let_def)
    obtain w' where w': "history_pages server resume stop n (Suc k) (Some (cs ! Suc i)) (Some (cs ! Suc i))
          (insert (cursor_key (cs ! Suc i)) seen) ?w1 =
        (w', \<not> Suc i + n < length ps, if Suc i + n < length ps then (if n = 0 then Some (cs ! Suc i)
           else Some (cs ! (Suc i + n))) else None, None)"
      "hev_external_id ` set (hwk_events ?w1) \<subseteq> hev_external_id ` set (hwk_events w')"
      "\<forall>j. Suc i \<le> j \<and> j < Suc i + n \<and> j < length ps \<longrightarrow> rows_read (ps ! j) (hwk_events w')"
      using Suc.IH [OF True disjI2 [OF refl] nx [THEN conjunct2, THEN conjunct2],
          where k = "Suc k" and nxt = "Some (cs ! Suc i)" and w = ?w1]
      by (elim exE conjE) (rule that)
    have "rows_read (ps ! j) (hwk_events w')" if "i \<le> j" "j < i + Suc n" "j < length ps" for j
      using that w'(3) rows_read_mono [OF read w'(2)] by (cases "j = i") auto
    then have "\<forall>j. i \<le> j \<and> j < i + Suc n \<and> j < length ps \<longrightarrow> rows_read (ps ! j) (hwk_events w')" by blast
    moreover have "hev_external_id ` set (hwk_events w) \<subseteq> hev_external_id ` set (hwk_events w')"
      using ids w'(2) by (rule order_trans)
    moreover have "history_pages server resume stop (Suc n) k cur nxt seen w =
        (w', \<not> i + Suc n < length ps, if i + Suc n < length ps then (if Suc n = 0 then nxt
           else Some (cs ! (i + Suc n))) else None, None)"
      unfolding run w'(1) by (cases "n = 0") simp_all
    ultimately show ?thesis by blast
  qed
qed auto

text \<open>The stored positions of successive runs, when every run is persisted.\<close>

fun position_after :: "nat \<Rightarrow> history_server \<Rightarrow> nat \<Rightarrow> provenance_cursor" where
  "position_after maxPages server 0 = \<lparr>pcu_watermark = 0, pcu_resume = None\<rparr>"
| "position_after maxPages server (Suc r) =
     mergeProvenanceCursor (position_after maxPages server r)
       (fst (snd (read_history maxPages server (position_after maxPages server r))))"

definition events_of_run :: "nat \<Rightarrow> history_server \<Rightarrow> nat \<Rightarrow> history_event list" where
  "events_of_run maxPages server r = hwk_events (fst (read_history maxPages server (position_after maxPages server r)))"

lemma run_from_position:
  assumes S: "serves ps cs server" and M: "0 < M" and r: "r * M < length ps"
    and pos: "pcu_resume pc = (if r = 0 then None else Some (HistoryResume (cs ! (r * M))))"
    and zero: "r = 0 \<Longrightarrow> time_is_zero (pcu_watermark pc)"
  shows "(\<forall>j. r * M \<le> j \<and> j < r * M + M \<and> j < length ps \<longrightarrow> rows_read (ps ! j) (hwk_events (fst (read_history M server pc)))) \<and>
     pou_complete (fst (snd (read_history M server pc))) = (\<not> r * M + M < length ps) \<and>
     pou_resume (fst (snd (read_history M server pc))) =
       (if r * M + M < length ps then Some (HistoryResume (cs ! (r * M + M))) else None)"
proof -
  let ?cur = "if r = 0 then None else Some (cs ! (r * M))"
  have ne: "\<not> cursor_empty (cs ! (r * M))" using S r by (simp add: serves_def)
  have start: "decodeHistoryResume (pcu_resume pc) = ?cur" using ne by (simp add: pos decodeHistoryResume_def)
  have cur: "?cur = (if r * M = 0 then None else Some (cs ! (r * M)))" using M by simp
  have free: "r \<noteq> 0 \<or> time_is_zero (if r = 0 then pcu_watermark pc else 0)" using zero by auto
  obtain w' where "history_pages server (r \<noteq> 0) (if r = 0 then pcu_watermark pc else 0) M 0 ?cur None {}
      \<lparr>hwk_events = [], hwk_descs = Map.empty\<rparr> =
      (w', \<not> r * M + M < length ps, if r * M + M < length ps then Some (cs ! (r * M + M)) else None, None)"
    "\<forall>j. r * M \<le> j \<and> j < r * M + M \<and> j < length ps \<longrightarrow> rows_read (ps ! j) (hwk_events w')"
    using serves_walk [OF S free r disjI1 [OF cur], of "{}" M 0 None "\<lparr>hwk_events = [], hwk_descs = Map.empty\<rparr>"] M by auto
  then show ?thesis using ne
    by (simp add: read_history_def start fetchHistory_def Let_def split: if_splits)
qed

lemma position_after_resume:
  assumes S: "serves ps cs server" and M: "0 < M"
  shows "r * M < length ps \<Longrightarrow> pcu_resume (position_after M server r) =
     (if r = 0 then None else Some (HistoryResume (cs ! (r * M))))"
proof (induction r)
  case (Suc r)
  then have r: "r * M < length ps" and more: "r * M + M < length ps" by (simp_all add: add.commute)
  have "pcu_watermark (position_after M server r) = 0" if "r = 0" using that by simp
  from run_from_position [OF S M r Suc.IH [OF r] this] more show ?case
    by (simp add: mergeProvenanceCursor_def add.commute)
qed simp

text \<open>
  C21. The page cap never hides old history. Against a server with a fixed history of pages, the
  runs of successive syncs, each resuming at the stored position, have read every page after
  as many runs as the cap divides the history into; page \<open>j\<close> is read by run \<open>j div MaxPages\<close>.
  The last of these runs is the first complete one, and it clears the position, so that the
  next run starts at the newest page again.
\<close>

theorem capped_walk_reaches_every_page:
  assumes S: "serves ps cs server" and M: "0 < maxPages"
  shows "(\<forall>j<length ps. rows_read (ps ! j) (events_of_run maxPages server (j div maxPages))) \<and>
     pcu_resume (position_after maxPages server (Suc ((length ps - 1) div maxPages))) = None \<and>
     (\<forall>r<(length ps - 1) div maxPages. pcu_resume (position_after maxPages server (Suc r)) \<noteq> None)"
proof -
  have run: "(\<forall>j. r * maxPages \<le> j \<and> j < r * maxPages + maxPages \<and> j < length ps \<longrightarrow>
        rows_read (ps ! j) (events_of_run maxPages server r)) \<and>
      pou_complete (fst (snd (read_history maxPages server (position_after maxPages server r)))) =
        (\<not> r * maxPages + maxPages < length ps)" if "r * maxPages < length ps" for r
  proof -
    have "pcu_watermark (position_after maxPages server r) = 0" if "r = 0" using that by simp
    from run_from_position [OF S M \<open>r * maxPages < length ps\<close> position_after_resume [OF S M that] this]
    show ?thesis by (simp add: events_of_run_def)
  qed
  have "rows_read (ps ! j) (events_of_run maxPages server (j div maxPages))" if "j < length ps" for j
  proof -
    have "j div maxPages * maxPages \<le> j" "j < j div maxPages * maxPages + maxPages"
      using M by (simp_all add: div_times_less_eq_dividend dividend_less_div_times add.commute [of _ maxPages])
    with run [of "j div maxPages"] that show ?thesis by auto
  qed
  moreover have "pcu_resume (position_after maxPages server (Suc ((length ps - 1) div maxPages))) = None"
  proof -
    let ?r = "(length ps - 1) div maxPages"
    have ne: "0 < length ps" using S by (simp add: serves_def)
    have "?r * maxPages \<le> length ps - 1" "length ps - 1 < ?r * maxPages + maxPages"
      using M by (simp_all add: div_times_less_eq_dividend dividend_less_div_times add.commute [of _ maxPages])
    then have "?r * maxPages < length ps" "\<not> ?r * maxPages + maxPages < length ps" using ne by linarith+
    with run [of ?r] have "pou_complete (fst (snd (read_history maxPages server (position_after maxPages server ?r))))"
      by blast
    then show ?thesis by (simp add: mergeProvenanceCursor_def)
  qed
  moreover have "pcu_resume (position_after maxPages server (Suc r)) \<noteq> None" if "r < (length ps - 1) div maxPages" for r
  proof -
    have "Suc r * maxPages \<le> length ps - 1"
      using that by (metis Suc_leI div_times_less_eq_dividend mult_le_mono1 order_trans)
    moreover have "0 < length ps" using S by (simp add: serves_def)
    ultimately have "Suc r * maxPages < length ps" by linarith
    from position_after_resume [OF S M this] show ?thesis by simp
  qed
  ultimately show ?thesis by blast
qed

section \<open>Witnesses\<close>

definition one_item_page :: inventory_page where
  "one_item_page = \<lparr>ipg_assets = [\<lparr>ras_asset_id = JStr ''7'', ras_class_id = JStr ''1'', ras_instance_id = JStr ''0'',
     ras_amount = JStr ''1''\<rparr>], ipg_descriptions = [], ipg_more_items = JNull, ipg_last_asset_id = JNull,
     ipg_total_count = 1, ipg_success = JNum ''1''\<rparr>"

theorem complete_inventory_is_whole_witness:
  "map itm_asset_id (fst (fetchInventory 20 (\<lambda>_ _. Inr one_item_page))) = [''7''] \<and>
   fst (snd (fetchInventory 20 (\<lambda>_ _. Inr one_item_page))) \<and>
   (\<exists>pages. page_chain (\<lambda>_ _. Inr one_item_page) 0 [] pages \<and> length pages \<le> 20)"
proof -
  have run: "map itm_asset_id (fst (fetchInventory 20 (\<lambda>_ _. Inr one_item_page))) = [''7'']"
    "fst (snd (fetchInventory 20 (\<lambda>_ _. Inr one_item_page)))" by code_simp+
  with complete_inventory_is_whole [where maxPages = 20 and server = "\<lambda>_ _. Inr one_item_page"]
  show ?thesis unfolding case_prod_beta by blast
qed

definition history_row :: "string \<Rightarrow> time \<Rightarrow> history_event" where
  "history_row i t = \<lparr>hev_external_id = i, hev_timestamp = t, hev_kind = ''Received'',
     hev_market_hash_name = ''Case'', hev_quantity = 1, hev_asset_id = [], hev_class_id = [], hev_instance_id = []\<rparr>"

definition cursor_at :: "string \<Rightarrow> history_cursor" where
  "cursor_at i = \<lparr>hcu_time = JNull, hcu_time_frac = JNull, hcu_s = JStr i\<rparr>"

definition three_pages :: "history_page list" where
  "three_pages = [
     \<lparr>hpg_success = JBool True, hpg_descs = [], hpg_rows = (\<lambda>_. [history_row ''e3'' 30]), hpg_cursor = Cursor (cursor_at ''2'')\<rparr>,
     \<lparr>hpg_success = JBool True, hpg_descs = [], hpg_rows = (\<lambda>_. [history_row ''e2'' 20]), hpg_cursor = Cursor (cursor_at ''1'')\<rparr>,
     \<lparr>hpg_success = JBool True, hpg_descs = [], hpg_rows = (\<lambda>_. [history_row ''e1'' 10]), hpg_cursor = NoCursor\<rparr>]"

definition three_page_server :: history_server where
  "three_page_server k q = Inr (case q of None \<Rightarrow> three_pages ! 0
     | Some (_, _, i) \<Rightarrow> if i = ''2'' then three_pages ! 1 else if i = ''1'' then three_pages ! 2 else three_pages ! 0)"

theorem capped_walk_reaches_every_page_witness:
  "rows_read (three_pages ! 2) (events_of_run 2 three_page_server 1)"
proof -
  have "serves three_pages [cursor_at ''3'', cursor_at ''2'', cursor_at ''1''] three_page_server"
    by (auto simp: serves_def three_pages_def three_page_server_def cursor_at_def cursor_empty_def cursor_key_def
        cursor_values_def strVal_def truthy_def less_Suc_eq numeral_2_eq_2 numeral_3_eq_3)
  from capped_walk_reaches_every_page [OF this, of 2] show ?thesis by (auto simp: three_pages_def)
qed

section \<open>A stalled trade walk\<close>

text \<open>
  A trade page that repeats while more trades are announced is not noticed: the walk runs to the
  page cap, and the position it leaves is the one it started from, so it never completes.
\<close>

definition same_trades :: trade_page where
  "same_trades = \<lparr>tpg_more = True, tpg_trades = [\<lparr>rtr_trade_id = JStr ''9'', rtr_steam_id_other = JNull,
     rtr_time_init = JNum ''100'', rtr_status = JNull, rtr_given = [], rtr_received = []\<rparr>]\<rparr>"

lemma trade_walk_can_stall:
  "let here = Some \<lparr>trs_after_time = of_unix 100, trs_after_id = ''9''\<rparr>;
       run = fetchTrades 20 (\<lambda>_ _ _. Inr same_trades) here 0
   in \<not> fst (snd run) \<and> map_option trs_after_id (fst (snd (snd run))) = Some ''9'' \<and>
      map_option trs_after_time (fst (snd (snd run))) = Some (of_unix 100)"
  by code_simp

end
