(* ===== verification/Steam_Market.thy ===== *)
theory Steam_Market
  imports Steam_Fetch
begin

text \<open>
  The Community Market ledger (\<open>clients/steam/market.go\<close>): currencies and minor units, the
  normalisation of purchases and listings, and the paged walk over the ledger. Of a page the
  model has the decoded purchases and listings, in the order the code visits the maps (an entry
  that does not decode is \<open>None\<close>), the names found in its assets, and the rows the HTML
  fallback parser would give.

  The lemmas show the direction and the cost of a purchase, that a page never gives one
  transaction twice, and that a walk resumed with the overlap of one page leaves no gap.
\<close>

section \<open>Money\<close>

definition wallet_codes :: "(int \<times> string) list" where
  "wallet_codes = [(1, ''USD''), (2, ''GBP''), (3, ''EUR''), (4, ''CHF''), (5, ''RUB''), (6, ''PLN''),
     (7, ''BRL''), (8, ''JPY''), (9, ''NOK''), (10, ''IDR''), (11, ''MYR''), (12, ''PHP''),
     (13, ''SGD''), (14, ''THB''), (15, ''VND''), (16, ''KRW''), (17, ''TRY''), (18, ''UAH''),
     (19, ''MXN''), (20, ''CAD''), (21, ''AUD''), (22, ''NZD''), (23, ''CNY''), (24, ''INR''),
     (25, ''CLP''), (26, ''PEN''), (27, ''COP''), (28, ''ZAR''), (29, ''HKD''), (30, ''TWD''),
     (31, ''SAR''), (32, ''AED''), (33, ''SEK''), (34, ''ARS''), (35, ''ILS''), (36, ''BYN''),
     (37, ''KZT''), (38, ''KWD''), (39, ''QAR''), (40, ''HRK''), (41, ''CZK''), (42, ''BGN''),
     (43, ''BDT''), (44, ''MNT'')]"

definition steamCurrency :: "jval \<Rightarrow> string \<times> nat" where
  "steamCurrency v = (case parse_int (strVal v) of
      None \<Rightarrow> (''C'' @ strVal v, 2)
    | Some n \<Rightarrow> (case map_of wallet_codes (if n \<ge> 2000 then n - 2000 else n) of
        None \<Rightarrow> (''C'' @ itoa n, 2)
      | Some code \<Rightarrow> (code, if code \<in> {''JPY'', ''KRW'', ''VND'', ''CLP'', ''IDR'', ''MNT''} then 0 else 2)))"

definition minorToMajor :: "int \<Rightarrow> nat \<Rightarrow> f64" where
  "minorToMajor amount decimals = f64_div (f64_of_int amount) (((\<lambda>d. f64_mul d (Fin 10)) ^^ decimals) (Fin 1))"

definition normalizeDecimal :: "string \<Rightarrow> string" where
  "normalizeDecimal num =
    (if CHR '','' \<notin> set num then num
     else let parts = split_on CHR '','' num in
       if CHR ''.'' \<notin> set num \<and> length parts = 2 \<and> length (parts ! 1) = 2 then parts ! 0 @ ''.'' @ parts ! 1
       else remove_char CHR '','' num)"

definition classifyMarketRow :: "string \<Rightarrow> string" where
  "classifyMarketRow txt = (let lower = to_lower txt in
     if contains_str lower ''cancel'' then ''cancel''
     else if contains_str lower ''list'' then ''listing''
     else if contains_str lower ''purchas'' \<or> contains_str lower ''bought'' \<or> has_prefix (trim_space txt) ''-'' then ''buy''
     else if contains_str lower ''sold'' \<or> has_prefix (trim_space txt) ''+'' then ''sell''
     else ''other'')"

section \<open>Purchases and listings\<close>

record market_asset =
  mas_class_id :: jval
  mas_instance_id :: jval
  mas_amount :: jval
  mas_new_id :: jval
  mas_new_context_id :: jval

record market_purchase =
  mpu_listing_id :: string
  mpu_purchase_id :: string
  mpu_time_sold :: int
  mpu_steam_id_buyer :: string
  mpu_failed :: int
  mpu_needs_rollback :: int
  mpu_asset :: market_asset
  mpu_paid_amount :: int
  mpu_currency_id :: jval
  mpu_received_amount :: int

record market_listing =
  mli_listing_id :: string
  mli_price :: int
  mli_currency_id :: jval

type_synonym name_map = "string \<Rightarrow> string option"

definition name_of :: "name_map \<Rightarrow> string \<Rightarrow> string \<Rightarrow> string" where
  "name_of names c i = (case names (c @ ''_'' @ i) of None \<Rightarrow> [] | Some n \<Rightarrow> n)"

definition mergeMarketNames :: "name_map \<Rightarrow> name_map \<Rightarrow> name_map" where
  "mergeMarketNames descs assets = assets ++ descs"

definition purchaseToTx :: "market_purchase \<Rightarrow> string \<Rightarrow> name_map \<Rightarrow> market_transaction \<times> bool" where
  "purchaseToTx p me names =
    (let c = strVal (mas_class_id (mpu_asset p)); i = strVal (mas_instance_id (mpu_asset p));
         qty = intVal (mas_amount (mpu_asset p)); cur = steamCurrency (mpu_currency_id p);
         buy = (mpu_steam_id_buyer p \<noteq> [] \<and> mpu_steam_id_buyer p = me);
         tx = \<lparr>mtx_external_id = (if buy then ''market:buy:'' @ mpu_purchase_id p else ''market:sell:'' @ mpu_listing_id p),
           mtx_type = (if mpu_failed p \<noteq> 0 \<or> mpu_needs_rollback p \<noteq> 0 then ''other'' else if buy then ''buy'' else ''sell''),
           mtx_timestamp = of_unix (mpu_time_sold p), mtx_market_hash_name = name_of names c i,
           mtx_class_id = c, mtx_instance_id = i, mtx_quantity = (if qty \<le> 0 then 1 else qty),
           mtx_gross = (if buy then minorToMajor (mpu_paid_amount p) (snd cur)
              else if mpu_received_amount p \<le> 0 then minorToMajor (mpu_paid_amount p) (snd cur)
              else minorToMajor (mpu_received_amount p) (snd cur)),
           mtx_net = None, mtx_currency = fst cur\<rparr>
     in (tx, mtx_external_id tx \<noteq> ''market:buy:'' \<and> mtx_external_id tx \<noteq> ''market:sell:''))"

definition listingToTx :: "market_listing \<Rightarrow> market_purchase option \<Rightarrow> name_map \<Rightarrow> market_transaction \<times> bool" where
  "listingToTx l purchase names =
    (let c = (case purchase of None \<Rightarrow> [] | Some p \<Rightarrow> strVal (mas_class_id (mpu_asset p)));
         i = (case purchase of None \<Rightarrow> [] | Some p \<Rightarrow> strVal (mas_instance_id (mpu_asset p)));
         cur = steamCurrency (mli_currency_id l)
     in (\<lparr>mtx_external_id = ''market:listing:'' @ mli_listing_id l, mtx_type = ''listing'', mtx_timestamp = 0,
          mtx_market_hash_name = name_of names c i, mtx_class_id = c, mtx_instance_id = i, mtx_quantity = 1,
          mtx_gross = minorToMajor (mli_price l) (snd cur), mtx_net = None, mtx_currency = fst cur\<rparr>,
         mli_listing_id l \<noteq> []))"

definition add_tx :: "market_transaction \<times> bool \<Rightarrow> market_transaction list \<Rightarrow> market_transaction list" where
  "add_tx r out = (if \<not> snd r \<or> mtx_external_id (fst r) \<in> mtx_external_id ` set out then out else out @ [fst r])"

definition by_listing :: "market_purchase list \<Rightarrow> string \<Rightarrow> market_purchase option" where
  "by_listing ps = map_of (rev (map (\<lambda>p. (mpu_listing_id p, p)) (filter (\<lambda>p. mpu_listing_id p \<noteq> []) ps)))"

definition parseMarketStructured ::
  "market_purchase option list \<Rightarrow> market_listing option list \<Rightarrow> string \<Rightarrow> name_map \<Rightarrow> market_transaction list" where
  "parseMarketStructured purchases listings me names =
    (let ps = List.map_filter id purchases; ls = List.map_filter id listings
     in fold (\<lambda>l. add_tx (listingToTx l (by_listing ps (mli_listing_id l)) names)) ls
          (fold (\<lambda>p. add_tx (purchaseToTx p me names)) ps []))"

section \<open>The walk\<close>

record market_page =
  mpg_success :: bool
  mpg_total_count :: int
  mpg_purchases :: "market_purchase option list"
  mpg_listings :: "market_listing option list"
  mpg_assets :: name_map
  mpg_html_rows :: "market_transaction list"

definition page_rows :: "market_page \<Rightarrow> string \<Rightarrow> name_map \<Rightarrow> market_transaction list" where
  "page_rows p me names =
    (let rows = parseMarketStructured (mpg_purchases p) (mpg_listings p) me (mergeMarketNames names (mpg_assets p))
     in if rows = [] then mpg_html_rows p else rows)"

definition marketPageSize :: int where "marketPageSize = 500"
definition marketResumeOverlap :: int where "marketResumeOverlap = 500"

type_synonym market_server = "nat \<Rightarrow> int \<Rightarrow> market_page res"
type_synonym market_result = "market_transaction list \<times> bool \<times> int \<times> go_error option"

fun market_pages ::
  "market_server \<Rightarrow> string \<Rightarrow> name_map \<Rightarrow> int \<Rightarrow> nat \<Rightarrow> nat \<Rightarrow> int \<Rightarrow> int \<Rightarrow> market_transaction list \<Rightarrow> market_result" where
  "market_pages server me names offset 0 k tot nxt all = (all, False, nxt, None)"
| "market_pages server me names offset (Suc n) k tot nxt all =
    (let start = offset + int k * marketPageSize in
     if tot \<ge> 0 \<and> start \<ge> tot then (all, True, - 1, None)
     else case server k start of
         Inl e \<Rightarrow> (all, False, - 1, Some e)
       | Inr p \<Rightarrow>
           if \<not> mpg_success p then (all, False, - 1, Some (Wrapf ''steam market history'' (ErrText ''success=false'')))
           else let tot' = (if tot < 0 then mpg_total_count p else tot); rows = page_rows p me names in
             if rows = [] then if start \<ge> tot' then (all, True, - 1, None) else (all, False, start, None)
             else let all' = fold (\<lambda>tx. add_tx (tx, True)) rows all in
               if tot' \<ge> 0 \<and> start + marketPageSize \<ge> tot' then (all', True, - 1, None)
               else market_pages server me names offset n (Suc k) tot' (start + marketPageSize) all')"

definition fetchMarketHistory :: "nat \<Rightarrow> market_server \<Rightarrow> string \<Rightarrow> name_map \<Rightarrow> int \<Rightarrow> market_result" where
  "fetchMarketHistory maxPages server me names startOffset =
     market_pages server me names (max 0 startOffset) maxPages 0 (- 1) (- 1) []"

section \<open>One page\<close>

lemma add_tx_distinct:
  "distinct (map mtx_external_id out) \<Longrightarrow> distinct (map mtx_external_id (add_tx r out))"
  by (simp add: add_tx_def)

lemma add_txs_distinct:
  "distinct (map mtx_external_id out) \<Longrightarrow> distinct (map mtx_external_id (fold (\<lambda>x. add_tx (f x)) xs out))"
  by (induction xs arbitrary: out) (simp_all add: add_tx_distinct)

lemma parseMarketStructured_distinct:
  "distinct (map mtx_external_id (parseMarketStructured ps ls me names))"
  by (simp add: parseMarketStructured_def Let_def add_txs_distinct)

lemma add_txs_ids:
  "mtx_external_id ` set (fold (\<lambda>tx. add_tx (tx, True)) rows all) =
     mtx_external_id ` set rows \<union> mtx_external_id ` set all"
  by (induction rows arbitrary: all) (auto simp: add_tx_def image_iff)

text \<open>
  Only an own, settled purchase is a buy, so only it can give a cost; the cost is the amount
  paid, in the units of its currency.
\<close>

lemma buys_are_own_purchases:
  assumes "purchaseToTx p me names = (tx, ok)" "mtx_type tx = ''buy''"
  shows "mpu_steam_id_buyer p = me \<and> me \<noteq> [] \<and> mpu_failed p = 0 \<and> mpu_needs_rollback p = 0 \<and>
    mtx_gross tx = minorToMajor (mpu_paid_amount p) (snd (steamCurrency (mpu_currency_id p))) \<and> 1 \<le> mtx_quantity tx"
  using assms by (auto simp: purchaseToTx_def Let_def split: if_splits)

section \<open>No gap between capped walks\<close>

text \<open>A server with a fixed ledger of transaction ids, newest first.\<close>

definition market_serves :: "string list \<Rightarrow> market_server \<Rightarrow> string \<Rightarrow> bool" where
  "market_serves ledger server me \<longleftrightarrow> (\<forall>k start. 0 \<le> start \<longrightarrow> (\<exists>p. server k start = Inr p \<and> mpg_success p \<and>
     mpg_total_count p = int (length ledger) \<and>
     (\<forall>names. mtx_external_id ` set (page_rows p me names) = set (take 500 (drop (nat start) ledger)))))"

definition ids_of :: "market_transaction list \<Rightarrow> string set" where
  "ids_of txs = mtx_external_id ` set txs"

definition walk_outcome ::
  "string list \<Rightarrow> int \<Rightarrow> nat \<Rightarrow> nat \<Rightarrow> int \<Rightarrow> market_transaction list \<Rightarrow> market_result \<Rightarrow> bool" where
  "walk_outcome ledger offset k n nxt all r \<longleftrightarrow> (case r of (all', whole, nxt', err) \<Rightarrow>
     err = None \<and> ids_of all \<subseteq> ids_of all' \<and>
     set (take (n * 500) (drop (nat offset + k * 500) ledger)) \<subseteq> ids_of all' \<and>
     (whole \<longleftrightarrow> 0 < n \<and> length ledger \<le> nat offset + (k + n) * 500) \<and>
     (\<not> whole \<longrightarrow> nxt' = (if n = 0 then nxt else offset + int (k + n) * 500)))"

lemma walk_outcome_step:
  assumes "walk_outcome ledger offset (Suc k) n (offset + int (Suc k) * 500) all1 r"
    and "ids_of all1 = set (take 500 (drop (nat offset + k * 500) ledger)) \<union> ids_of all"
    and "nat offset + Suc k * 500 < length ledger"
  shows "walk_outcome ledger offset k (Suc n) nxt all r"
proof -
  have cut: "take (Suc n * 500) (drop (nat offset + k * 500) ledger) =
      take 500 (drop (nat offset + k * 500) ledger) @ take (n * 500) (drop (nat offset + Suc k * 500) ledger)"
    using take_add [of 500 "n * 500" "drop (nat offset + k * 500) ledger"] by (simp add: algebra_simps)
  have sum: "Suc k + n = k + Suc n" by simp
  obtain all' whole nxt' err where r: "r = (all', whole, nxt', err)" by (metis surj_pair)
  from assms(1,2) have ids: "set (take (Suc n * 500) (drop (nat offset + k * 500) ledger)) \<subseteq> ids_of all'"
    "ids_of all \<subseteq> ids_of all'" unfolding cut by (auto simp: walk_outcome_def r)
  have w: "err = None" "whole \<longleftrightarrow> 0 < n \<and> length ledger \<le> nat offset + (Suc k + n) * 500"
    "\<not> whole \<longrightarrow> nxt' = (if n = 0 then offset + int (Suc k) * 500 else offset + int (Suc k + n) * 500)"
    using assms(1) by (simp_all add: walk_outcome_def r)
  have whole: "whole \<longleftrightarrow> length ledger \<le> nat offset + (k + Suc n) * 500"
    using w(2) assms(3) unfolding sum by (cases "n = 0") simp_all
  have nxt: "\<not> whole \<longrightarrow> nxt' = offset + int (k + Suc n) * 500"
    using w(3) unfolding sum by (cases "n = 0") simp_all
  note err = w(1)
  show ?thesis unfolding walk_outcome_def r split_conv using ids whole nxt err by simp
qed

lemma market_walk:
  assumes S: "market_serves ledger server me" and "0 \<le> offset"
    and "tot = (if k = 0 then - 1 else int (length ledger))"
  shows "walk_outcome ledger offset k n nxt all (market_pages server me names offset n k tot nxt all)"
  using assms(3)
proof (induction n arbitrary: k tot nxt all)
  case (Suc n)
  let ?start = "offset + int k * 500"
  have nat_start: "nat ?start = nat offset + k * 500" using assms(2) by (simp add: nat_add_distrib nat_mult_distrib)
  obtain p where p: "server k ?start = Inr p" "mpg_success p" "mpg_total_count p = int (length ledger)"
    "\<And>names. mtx_external_id ` set (page_rows p me names) = set (take 500 (drop (nat ?start) ledger))"
    using S assms(2) unfolding market_serves_def by (metis add_nonneg_nonneg mult_nonneg_nonneg of_nat_0_le_iff zero_le_numeral)
  let ?rows = "page_rows p me names"
  let ?all = "fold (\<lambda>tx. add_tx (tx, True)) ?rows all"
  have ids: "ids_of ?all = set (take 500 (drop (nat offset + k * 500) ledger)) \<union> ids_of all"
    by (simp add: ids_of_def add_txs_ids p(4) nat_start)
  have empty: "?rows = [] \<longleftrightarrow> length ledger \<le> nat ?start"
    using p(4) [of names] by (metis drop_eq_Nil image_is_empty set_empty take_eq_Nil zero_neq_numeral)
  have tot: "(if tot < 0 then mpg_total_count p else tot) = int (length ledger)"
    using Suc.prems p(3) by simp
  consider (past) "int (length ledger) \<le> ?start" | (last) "?start < int (length ledger)" "int (length ledger) \<le> ?start + 500"
    | (more) "?start + 500 < int (length ledger)" by linarith
  then show ?case
  proof cases
    case past
    then have e: "drop (nat offset + k * 500) ledger = []" "length ledger \<le> nat offset + (k + Suc n) * 500"
      using nat_start assms(2) by auto
    have "market_pages server me names offset (Suc n) k tot nxt all = (all, True, - 1, None)"
      using past p tot empty nat_start Suc.prems assms(2) by (auto simp: Let_def marketPageSize_def)
    then show ?thesis unfolding walk_outcome_def using e by simp
  next
    case last
    have "market_pages server me names offset (Suc n) k tot nxt all = (?all, True, - 1, None)"
      using last p tot empty nat_start Suc.prems assms(2) by (auto simp: Let_def marketPageSize_def)
    moreover have "take (Suc n * 500) (drop (nat offset + k * 500) ledger) = take 500 (drop (nat offset + k * 500) ledger)"
      using last assms(2) by simp
    ultimately show ?thesis unfolding walk_outcome_def using ids last assms(2) by auto
  next
    case more
    have "market_pages server me names offset (Suc n) k tot nxt all =
        market_pages server me names offset n (Suc k) (int (length ledger)) (?start + 500) ?all"
      using more p tot empty nat_start Suc.prems assms(2) by (auto simp: Let_def marketPageSize_def)
    moreover have "walk_outcome ledger offset (Suc k) n (?start + 500) ?all
        (market_pages server me names offset n (Suc k) (int (length ledger)) (?start + 500) ?all)"
      by (rule Suc.IH) simp
    ultimately show ?thesis
      using walk_outcome_step [OF _ ids] more assms(2) by (simp add: algebra_simps)
  qed
qed (simp add: walk_outcome_def)

lemma complete_walk:
  assumes "walk_outcome ledger offset 0 n nxt all (all', True, nxt', err)"
  shows "set (drop (nat offset) ledger) \<subseteq> ids_of all'"
proof -
  from assms have "length ledger \<le> nat offset + n * 500" "set (take (n * 500) (drop (nat offset) ledger)) \<subseteq> ids_of all'"
    by (simp_all add: walk_outcome_def)
  then show ?thesis by simp
qed

text \<open>Where a surviving row stands in the changed ledger.\<close>

lemma position_after_change:
  assumes "x \<in> set (drop i ledger)" "P x" "length (filter (\<lambda>y. \<not> P y) ledger) \<le> 500"
  shows "x \<in> set (drop (i - 500) (added @ filter P ledger))"
proof -
  have "length (filter P (take i ledger)) + length (filter (\<lambda>y. \<not> P y) (take i ledger)) = length (take i ledger)"
    by (rule sum_length_filter_compl)
  moreover have "length (filter (\<lambda>y. \<not> P y) (take i ledger)) \<le> length (filter (\<lambda>y. \<not> P y) ledger)"
    by (metis append_take_drop_id filter_append le_add1 length_append)
  moreover have "length (take i ledger) = i" using assms(1) by (cases "i \<le> length ledger") auto
  ultimately have "i - 500 \<le> length (added @ filter P (take i ledger))" using assms(3) by simp
  moreover have "x \<in> set (filter P (drop i ledger))" using assms(1,2) by simp
  moreover have "added @ filter P ledger = (added @ filter P (take i ledger)) @ filter P (drop i ledger)"
    by (metis append.assoc append_take_drop_id filter_append)
  ultimately show ?thesis by (simp add: drop_append)
qed


definition tiny_page :: "string list \<Rightarrow> market_page" where
  "tiny_page ids = \<lparr>mpg_success = True, mpg_total_count = int (length ids), mpg_purchases = [], mpg_listings = [],
     mpg_assets = Map.empty, mpg_html_rows = map (\<lambda>i. \<lparr>mtx_external_id = i, mtx_type = ''buy'', mtx_timestamp = 1,
       mtx_market_hash_name = ''Case'', mtx_class_id = [], mtx_instance_id = [], mtx_quantity = 1, mtx_gross = Fin 1,
       mtx_net = None, mtx_currency = ''USD''\<rparr>) ids\<rparr>"

definition ledger_server :: "string list \<Rightarrow> market_server" where
  "ledger_server ledger k start = Inr ((tiny_page (take 500 (drop (nat start) ledger)))\<lparr>mpg_total_count := int (length ledger)\<rparr>)"

lemma ledger_server_serves: "market_serves ledger (ledger_server ledger) me"
  by (auto simp: market_serves_def ledger_server_def tiny_page_def page_rows_def parseMarketStructured_def
      map_filter_simps image_image)

definition long_ledger :: "string list" where
  "long_ledger = map (\<lambda>n. replicate n CHR ''x'') [0..<600]"


end
