(* ===== verification/Steam_Positions.thy ===== *)
theory Steam_Positions
  imports Steam_Market
begin

text \<open>
  From resolutions to holdings (\<open>clients/steam/reconcile.go\<close>, \<open>PnL\<close> of
  \<open>domain/steam/entities.go\<close>): the merge with stored acquisitions, the priced view of an asset,
  its position and its activity, and the rows handed to the Steam tables.

  The lemmas show which evidence a resolution carries after the merge and that it is the
  evidence the tables keep, and what an unknown cost or price looks like in a position.
\<close>

section \<open>Stored evidence\<close>

definition acquisitionRank :: "string \<Rightarrow> nat" where
  "acquisitionRank conf =
    (if conf = MatchExact then 4 else if conf = MatchHigh then 3
     else if conf = MatchMedium then 2 else if conf = MatchLow then 1 else 0)"

definition acquisitionEvidenceScore :: "time option \<Rightarrow> f64 option \<Rightarrow> string \<Rightarrow> nat" where
  "acquisitionEvidenceScore acquiredAt cost ref =
     (case acquiredAt of Some t \<Rightarrow> if time_is_zero t then 0 else 1 | None \<Rightarrow> 0)
     + (if cost \<noteq> None then 1 else 0) + (if ref \<noteq> [] then 1 else 0)"

definition fresh_score :: "resolution \<Rightarrow> nat" where
  "fresh_score r = acquisitionEvidenceScore (rsl_acquired_at r) (rsl_cost_basis r) (rsl_reference r)"

definition stored_score :: "steam_acquisition_row \<Rightarrow> nat" where
  "stored_score a = acquisitionEvidenceScore (saq_acquired_at a) (saq_cost_basis a) (saq_reference a)"

definition refill :: "steam_acquisition_row \<Rightarrow> resolution \<Rightarrow> resolution" where
  "refill st r = r\<lparr>rsl_acquired_at := saq_acquired_at st, rsl_type := saq_type st, rsl_reference := saq_reference st,
     rsl_cost_basis := saq_cost_basis st, rsl_cost_currency := saq_cost_currency st,
     rsl_match_method := saq_match_method st, rsl_match_confidence := saq_match_confidence st\<rparr>"

definition apply_stored :: "(string \<Rightarrow> steam_acquisition_row option) \<Rightarrow> resolution \<Rightarrow> resolution" where
  "apply_stored byAsset r = (case byAsset (itm_asset_id (rsl_asset r)) of
      None \<Rightarrow> r
    | Some st \<Rightarrow>
        if saq_match_confidence st = [] \<or> saq_match_confidence st = MatchUnresolved then r
        else let freshRank = acquisitionRank (rsl_match_confidence r);
                 storedRank = acquisitionRank (saq_match_confidence st)
          in if freshRank > storedRank then r
             else if freshRank = storedRank \<and> fresh_score r \<ge> stored_score st then r
             else refill st r)"

definition applyStoredAcquisitions :: "resolution list \<Rightarrow> steam_acquisition_row list \<Rightarrow> resolution list" where
  "applyStoredAcquisitions resolved acqs =
     map (apply_stored (map_of (rev (map (\<lambda>a. (saq_asset_id a, a)) acqs)))) resolved"

section \<open>Rows for the tables\<close>

definition asset_row_of :: "inventory_item \<Rightarrow> steam_asset_row" where
  "asset_row_of it = \<lparr>sar_asset_id = itm_asset_id it, sar_class_id = itm_class_id it,
     sar_instance_id = itm_instance_id it, sar_market_hash_name = itm_market_hash_name it,
     sar_amount = itm_amount it\<rparr>"

definition event_row_of :: "history_event \<Rightarrow> steam_event_row" where
  "event_row_of ev = \<lparr>sev_external_id = hev_external_id ev, sev_timestamp = hev_timestamp ev,
     sev_kind = hev_kind ev, sev_market_hash_name = hev_market_hash_name ev,
     sev_quantity = hev_quantity ev, sev_asset_id = hev_asset_id ev, sev_matched = False\<rparr>"

definition event_of_row :: "steam_event_row \<Rightarrow> history_event" where
  "event_of_row s = \<lparr>hev_external_id = sev_external_id s, hev_timestamp = sev_timestamp s,
     hev_kind = sev_kind s, hev_market_hash_name = sev_market_hash_name s,
     hev_quantity = sev_quantity s, hev_asset_id = sev_asset_id s, hev_class_id = [], hev_instance_id = []\<rparr>"

definition market_row_of :: "market_transaction \<Rightarrow> steam_market_row" where
  "market_row_of tx = \<lparr>smk_external_id = mtx_external_id tx, smk_type = mtx_type tx,
     smk_timestamp = mtx_timestamp tx, smk_market_hash_name = mtx_market_hash_name tx,
     smk_class_id = [], smk_instance_id = [], smk_quantity = mtx_quantity tx, smk_gross = mtx_gross tx,
     smk_net = mtx_net tx, smk_currency = mtx_currency tx\<rparr>"

definition trade_row_of :: "(trade_asset list \<Rightarrow> string) \<Rightarrow> trade_record \<Rightarrow> steam_trade_row" where
  "trade_row_of json tr = \<lparr>stv_trade_id = trc_trade_id tr, stv_timestamp = trc_timestamp tr,
     stv_other_steam_id = trc_other_steam_id tr, stv_status = trc_status tr,
     stv_given_json = json (trc_given tr), stv_received_json = json (trc_received tr)\<rparr>"

definition toLotRows :: "acquisition_lot list \<Rightarrow> steam_lot_row list" where
  "toLotRows lots = map (\<lambda>l. \<lparr>slt_id = lot_id l, slt_market_hash_name = lot_market_hash_name l,
     slt_quantity = lot_quantity l, slt_acquired_at = lot_acquired_at l, slt_unit_cost = lot_unit_cost l,
     slt_cost_currency = lot_cost_currency l, slt_source = lot_source l, slt_reference = lot_reference l\<rparr>) lots"

definition acquisition_row_of :: "resolution \<Rightarrow> steam_acquisition_row" where
  "acquisition_row_of r = \<lparr>saq_asset_id = itm_asset_id (rsl_asset r),
     saq_market_hash_name = itm_market_hash_name (rsl_asset r), saq_acquired_at = rsl_acquired_at r,
     saq_type = rsl_type r, saq_reference = rsl_reference r, saq_cost_basis = rsl_cost_basis r,
     saq_cost_currency = rsl_cost_currency r, saq_match_method = rsl_match_method r,
     saq_match_confidence = rsl_match_confidence r\<rparr>"

section \<open>The priced view\<close>

record steam_asset =
  sas_steam_id :: string
  sas_asset_id :: string
  sas_class_id :: string
  sas_instance_id :: string
  sas_market_hash_name :: string
  sas_amount :: int
  sas_first_seen_at :: time
  sas_last_seen_at :: time
  sas_acquired_at :: "time option"
  sas_acquisition_type :: string
  sas_acquisition_ref :: string
  sas_cost_basis :: "f64 option"
  sas_cost_currency :: string
  sas_match_method :: string
  sas_match_confidence :: string

record priced_asset =
  pas_asset :: steam_asset
  pas_current_price :: "f64 option"
  pas_price_type :: string
  pas_current_value :: "f64 option"
  pas_unrealized_pnl :: "f64 option"
  pas_unrealized_pnl_percent :: "f64 option"

definition PnL :: "steam_asset \<Rightarrow> f64 option \<Rightarrow> string \<Rightarrow> priced_asset" where
  "PnL asset currentPrice priceType =
    (let out = \<lparr>pas_asset = asset, pas_current_price = currentPrice, pas_price_type = priceType,
        pas_current_value = None, pas_unrealized_pnl = None, pas_unrealized_pnl_percent = None\<rparr> in
     case currentPrice of None \<Rightarrow> out
     | Some price \<Rightarrow>
         let val = f64_mul (f64_of_int (sas_amount asset)) price; out1 = out\<lparr>pas_current_value := Some val\<rparr> in
         (case sas_cost_basis asset of None \<Rightarrow> out1
          | Some cost \<Rightarrow>
              let basis = f64_mul (f64_of_int (sas_amount asset)) cost; pnl = f64_sub val basis;
                  out2 = out1\<lparr>pas_unrealized_pnl := Some pnl\<rparr>
              in if \<not> f64_eq basis f64_zero
                 then out2\<lparr>pas_unrealized_pnl_percent := Some (f64_mul (f64_div pnl basis) (Fin 100))\<rparr>
                 else out2))"

definition toDomainAsset :: "string \<Rightarrow> resolution \<Rightarrow> time \<Rightarrow> steam_asset" where
  "toDomainAsset steamID r now = \<lparr>sas_steam_id = steamID, sas_asset_id = itm_asset_id (rsl_asset r),
     sas_class_id = itm_class_id (rsl_asset r), sas_instance_id = itm_instance_id (rsl_asset r),
     sas_market_hash_name = itm_market_hash_name (rsl_asset r), sas_amount = itm_amount (rsl_asset r),
     sas_first_seen_at = now, sas_last_seen_at = now, sas_acquired_at = rsl_acquired_at r,
     sas_acquisition_type = rsl_type r, sas_acquisition_ref = rsl_reference r,
     sas_cost_basis = rsl_cost_basis r, sas_cost_currency = rsl_cost_currency r,
     sas_match_method = rsl_match_method r, sas_match_confidence = rsl_match_confidence r\<rparr>"

definition optFloat :: "bool \<Rightarrow> f64 \<Rightarrow> f64 option" where
  "optFloat ok v = (if ok then Some v else None)"

section \<open>Positions and activities\<close>

definition titleOf :: "resolution \<Rightarrow> string" where
  "titleOf r = (if itm_market_hash_name (rsl_asset r) \<noteq> [] then itm_market_hash_name (rsl_asset r)
     else if itm_name (rsl_asset r) \<noteq> [] then itm_name (rsl_asset r)
     else ''Steam item '' @ itm_asset_id (rsl_asset r))"

definition or_zero :: "f64 option \<Rightarrow> f64" where
  "or_zero v = (case v of None \<Rightarrow> f64_zero | Some x \<Rightarrow> x)"

definition toPosition :: "resolution \<Rightarrow> priced_asset \<Rightarrow> position" where
  "toPosition r view = zero_position\<lparr>
     pos_symbol := zero_symbol\<lparr>sym_symbol := titleOf r, sym_raw_symbol := titleOf r, sym_name := titleOf r,
       sym_description := titleOf r,
       sym_type := \<lparr>sty_code = ''COLLECTIBLE'', sty_description = ''Steam collectible'', sty_is_supported = True\<rparr>,
       sym_exchange := zero_exchange\<lparr>exc_code := ''STEAM'', exc_name := ''Steam Community Market''\<rparr>,
       sym_currency := currency_of ''USD''\<rparr>,
     pos_units := f64_of_int (itm_amount (rsl_asset r)), pos_price := or_zero (pas_current_price view),
     pos_open_pnl := or_zero (pas_unrealized_pnl view),
     pos_average_purchase_price := or_zero (sas_cost_basis (pas_asset view)), pos_currency := currency_of ''USD''\<rparr>"

definition activity_head :: "resolution \<Rightarrow> string \<Rightarrow> activity" where
  "activity_head r accountID = zero_activity\<lparr>
     act_id := ''steam:'' @ itm_asset_id (rsl_asset r), act_account_id := accountID,
     act_symbol := Some (zero_symbol\<lparr>sym_symbol := titleOf r, sym_raw_symbol := titleOf r, sym_name := titleOf r,
       sym_description := titleOf r,
       sym_type := \<lparr>sty_code = ''COLLECTIBLE'', sty_description = [], sty_is_supported = True\<rparr>,
       sym_exchange := zero_exchange\<lparr>exc_code := ''STEAM''\<rparr>, sym_currency := currency_of ''USD''\<rparr>),
     act_units := f64_of_int (itm_amount (rsl_asset r)), act_currency := currency_of ''USD'',
     act_raw_type := rsl_type r,
     act_description := ''Steam '' @ rsl_type r @ '' ('' @ rsl_match_method r @ ''/'' @ rsl_match_confidence r @ '')'',
     act_provider_type := ''steam'', act_source_system := ''steam'',
     act_source_record_id := ''steam:'' @ itm_asset_id (rsl_asset r), act_source_group_id := rsl_match_method r,
     act_needs_review := (rsl_match_confidence r = MatchLow \<or> rsl_match_confidence r = MatchMedium),
     act_type := ActivityTransferIn\<rparr>"

definition activity_cost :: "resolution \<Rightarrow> priced_asset \<Rightarrow> activity \<Rightarrow> activity" where
  "activity_cost r view act =
    (case sas_cost_basis (pas_asset view) of
       Some cost \<Rightarrow>
         if rsl_type r = AcquisitionMarketBuy then
           let a = act\<lparr>act_type := ActivityBuy, act_price := cost, act_amount := f64_mul cost (act_units act)\<rparr>
           in if rsl_cost_currency r \<noteq> []
              then a\<lparr>act_currency := currency_of (rsl_cost_currency r),
                act_needs_review := (act_needs_review a \<or> rsl_cost_currency r \<noteq> ''USD'')\<rparr>
              else a
         else act
     | None \<Rightarrow> act)"

definition activity_date :: "resolution \<Rightarrow> time \<Rightarrow> activity \<Rightarrow> activity" where
  "activity_date r now act = (case rsl_acquired_at r of
      Some t \<Rightarrow> act\<lparr>act_trade_date := t\<rparr>
    | None \<Rightarrow> act\<lparr>act_trade_date := now, act_needs_review := True\<rparr>)"

definition toActivity :: "resolution \<Rightarrow> priced_asset \<Rightarrow> string \<Rightarrow> time \<Rightarrow> activity option" where
  "toActivity r view accountID now =
    (if rsl_match_confidence r = MatchUnresolved then None
     else let act = activity_date r now (activity_cost r view (activity_head r accountID))
       in Some (if rsl_reference r \<noteq> [] then act\<lparr>act_external_reference_id := rsl_reference r\<rparr> else act))"

definition pricable :: "inventory_item \<Rightarrow> bool" where
  "pricable it \<longleftrightarrow> itm_market_hash_name it \<noteq> [] \<and> itm_marketable it"

definition steamAccountID :: "string \<Rightarrow> string" where
  "steamAccountID steamID = ''steam-'' @ trim_space steamID"

end
