(* ===== verification/Steam_Quotes.thy ===== *)
theory Steam_Quotes
  imports Steam_Market Price_Cache "HOL-Library.Multiset"
begin

text \<open>
  Market prices of the Steam client (\<open>clients/steam/prices.go\<close>, with the client's state from
  \<open>client.go\<close> and the price helpers of \<open>reconcile.go\<close>): the price text, the current quote from
  database, cache or market, the stale fallback, and the price-history backfill with its
  currency check. The answers of the market are functions of the number of the request; a text
  is bytes, so a currency symbol is its UTF-8 sequence.

  The lemmas show that a price is never negative or zero, how old a fallback can be, and that a
  series is stored only when it agrees with a fresh quote.
\<close>

section \<open>Price texts\<close>

definition money_symbols :: "string list" where
  "money_symbols = [''$'', [CHR 0xE2, CHR 0x82, CHR 0xAC], [CHR 0xC2, CHR 0xA3], [CHR 0xE2, CHR 0x82, CHR 0xBD],
     [CHR 0xE0, CHR 0xB8, CHR 0xBF], [CHR 0xC2, CHR 0xA5], [CHR 0xE2, CHR 0x82, CHR 0xB4],
     [CHR 0xE2, CHR 0x82, CHR 0xB9], [CHR 0xE2, CHR 0x82, CHR 0xA9], ''z'', [CHR 0xC5, CHR 0x82], ''K'',
     [CHR 0xC4, CHR 0x8D]]"

definition leading_symbol :: "string \<Rightarrow> string option" where
  "leading_symbol s = List.find (has_prefix s) money_symbols"

function trim_symbols :: "string \<Rightarrow> string" where
  "trim_symbols s = (case leading_symbol s of None \<Rightarrow> s | Some p \<Rightarrow> trim_symbols (drop (length p) s))"
  by pat_completeness auto
termination
proof (relation "measure length", simp)
  fix s p assume "leading_symbol s = Some p"
  then have "p \<in> set money_symbols" "has_prefix s p" by (auto simp: leading_symbol_def dest: find_SomeD)
  then have "p \<noteq> []" "length p \<le> length s" by (auto simp: money_symbols_def has_prefix_iff)
  then show "(drop (length p) s, s) \<in> measure length" by (cases s) auto
qed

definition trailing_symbol :: "string \<Rightarrow> string option" where
  "trailing_symbol s = List.find (has_suffix s) money_symbols"

function trim_symbols_right :: "string \<Rightarrow> string" where
  "trim_symbols_right s = (case trailing_symbol s of None \<Rightarrow> s
     | Some p \<Rightarrow> trim_symbols_right (take (length s - length p) s))"
  by pat_completeness auto
termination
proof (relation "measure length", simp)
  fix s p assume "trailing_symbol s = Some p"
  then have "p \<in> set money_symbols" "has_suffix s p" by (auto simp: trailing_symbol_def dest: find_SomeD)
  then have "p \<noteq> []" "length p \<le> length s" by (auto simp: money_symbols_def has_suffix_iff)
  then have "0 < length p" "length p \<le> length s" by simp_all
  then have "length s - length p < length s" by linarith
  then show "(take (length s - length p) s, s) \<in> measure length" by simp
qed

declare trim_symbols.simps [simp del] trim_symbols_right.simps [simp del]

text \<open>\<open>strings.ReplaceAll(s, p, "")\<close>.\<close>

function remove_all :: "string \<Rightarrow> string \<Rightarrow> string" where
  "remove_all p s = (if p = [] \<or> s = [] then s
     else if has_prefix s p then remove_all p (drop (length p) s) else hd s # remove_all p (tl s))"
  by pat_completeness auto
termination
  by (relation "measure (\<lambda>(p, s). length s)") (auto simp: has_prefix_iff)

declare remove_all.simps [simp del]

definition last_index :: "char \<Rightarrow> string \<Rightarrow> int" where
  "last_index c s = int (length s) - 1 - int (length (takeWhile (\<lambda>d. d \<noteq> c) (rev s)))"

definition comma_to_dot :: "string \<Rightarrow> string" where
  "comma_to_dot s = map (\<lambda>c. if c = CHR '','' then CHR ''.'' else c) s"

definition decimal_mark :: "string \<Rightarrow> string" where
  "decimal_mark s =
    (if CHR ''.'' \<in> set s \<and> CHR '','' \<in> set s then
       if last_index CHR ''.'' s > last_index CHR '','' s then remove_char CHR '','' s
       else comma_to_dot (remove_char CHR ''.'' s)
     else if CHR '','' \<in> set s then
       let i = nat (last_index CHR '','' s); frac = drop (Suc i) s in
       if 1 \<le> length frac \<and> length frac \<le> 2 \<and> list_all is_digit frac then take i s @ ''.'' @ frac
       else remove_char CHR '','' s
     else s)"

definition parseSteamMoney :: "string \<Rightarrow> f64 option" where
  "parseSteamMoney s0 =
    (let s1 = trim_space (trim_symbols_right (trim_symbols (trim_space s0)));
         s = remove_all ''--'' (remove_char (CHR 0x27) (remove_all [CHR 0xC2, CHR 0xA0] (remove_char CHR '' '' s1)))
     in if s = [] \<or> s = ''-'' then None
        else case parse_float (decimal_mark s) of
            None \<Rightarrow> None
          | Some v \<Rightarrow> if f64_le v (Fin 0) then None else Some v)"

section \<open>The client\<close>

record price_overview =
  pov_success :: bool
  pov_lowest_price :: string
  pov_median_price :: string

record price_series =
  psr_success :: bool
  psr_prices :: "jval list list"

record steam_world = redis_world +
  stw_calls :: nat
  stw_overview :: "nat \<Rightarrow> string \<Rightarrow> price_overview res"
  stw_series :: "nat \<Rightarrow> string \<Rightarrow> price_series res"
  stw_price_fails :: int
  stw_observed :: time
  stw_pending :: "sync_cursor list"
  stw_dirty :: bool
  stw_empty_unconfirmed :: bool

record steam_client =
  scl_steam_id :: string
  scl_api_key :: string
  scl_session :: string
  scl_refresh_token :: string
  scl_max_pages :: nat
  scl_price_ttl :: duration
  scl_currency :: int
  scl_history_budget :: int
  scl_min_item_value :: f64
  scl_cache_namespace :: string
  scl_auth :: bool
  scl_store :: bool
  scl_cursors :: bool
  scl_price_history :: bool
  scl_prices :: "bool option"

text \<open>
  A missing dependency is \<open>False\<close>; \<open>scl_prices\<close> is the price service, with \<open>Some cached\<close> saying
  whether it has a cache. \<open>stw_observed\<close> is the local variable the fetch closure writes.
\<close>

definition ErrNoPrice :: go_error where "ErrNoPrice = ErrText ''steam: no usable market price''"

definition priceSourceQuote :: string where "priceSourceQuote = ''steam_quote''"
definition priceSourceHistory :: string where "priceSourceHistory = ''steam_history_usd''"

definition priceDedupeKey :: "string \<Rightarrow> string" where
  "priceDedupeKey name = fst (asset_key name 1)"

definition cacheAsset :: "steam_client \<Rightarrow> string \<Rightarrow> string" where
  "cacheAsset c asset = (if scl_cache_namespace c = [] then asset else ''ns:'' @ scl_cache_namespace c @ '':'' @ asset)"

definition overview_price :: "price_overview \<Rightarrow> f64 res" where
  "overview_price env =
    (if \<not> pov_success env then Inl (Wrap2 ErrNoPrice (ErrText ''success=false''))
     else case parseSteamMoney (pov_median_price env) of
         Some v \<Rightarrow> Inr v
       | None \<Rightarrow> (case parseSteamMoney (pov_lowest_price env) of
           Some v \<Rightarrow> Inr v
         | None \<Rightarrow> Inl (Wrap2 ErrNoPrice (ErrText ''no amount''))))"

definition fetchOverview :: "string \<Rightarrow> ('x steam_world_scheme, f64) eff" where
  "fetchOverview name = (\<lambda>s.
     (case stw_overview s (stw_calls s) name of Inl e \<Rightarrow> Inl e | Inr env \<Rightarrow> overview_price env,
      s\<lparr>stw_calls := Suc (stw_calls s)\<rparr>))"

text \<open>The fetch closure: it counts transient failures and remembers when it saw the quote.\<close>

definition observe_overview :: "string \<Rightarrow> ('x steam_world_scheme, f64) eff" where
  "observe_overview name = (\<lambda>s. case fetchOverview name s of
      (Inl e, s') \<Rightarrow> (Inl e, if errors_is e ErrNoPrice then s'
         else s'\<lparr>stw_price_fails := stw_price_fails s' + 1\<rparr>)
    | (Inr v, s') \<Rightarrow> bind_eff time_now (\<lambda>now. bind_eff (writing (\<lambda>s. s\<lparr>stw_observed := now\<rparr>)) (\<lambda>_. ret v))
         (s'\<lparr>stw_price_fails := 0\<rparr>))"

definition remember_quote :: "steam_client \<Rightarrow> string \<Rightarrow> string \<Rightarrow> string \<Rightarrow> f64 \<Rightarrow> ('x steam_world_scheme, unit) eff" where
  "remember_quote c name asset cur v =
     bind_eff (reading stw_observed) (\<lambda>observed.
       if \<not> scl_price_history c \<or> name = [] \<or> time_is_zero observed then ret ()
       else bind_eff time_now (\<lambda>now. bind_eff (attempt (price_upsert [\<lparr>hpr_asset = asset, hpr_timestamp = observed,
         hpr_currency = cur, hpr_price = v, hpr_source = priceSourceQuote, hpr_updated_at = now\<rparr>])) (\<lambda>_. ret ())))"

type_synonym quote = "f64 \<times> string \<times> time \<times> bool"

definition recent_quote :: "steam_client \<Rightarrow> string \<Rightarrow> string \<Rightarrow> string \<Rightarrow> ('x steam_world_scheme, quote option) eff" where
  "recent_quote c name asset cur =
    (if scl_price_history c \<and> name \<noteq> [] then
       bind_eff time_now (\<lambda>now. bind_eff (attempt (price_get asset cur now)) (\<lambda>r. case r of
           Inl e \<Rightarrow> ret None
         | Inr p \<Rightarrow> bind_eff time_now (\<lambda>later.
             if time_sub later (hpr_timestamp p) < scl_price_ttl c
             then ret (Some (hpr_price p, ''steam_history'', hpr_timestamp p, True)) else ret None)))
     else ret None)"

definition CurrentPrice :: "steam_client \<Rightarrow> string \<Rightarrow> ('x steam_world_scheme, quote) eff" where
  "CurrentPrice c name = (case asset_key name (scl_currency c) of (asset, cur) \<Rightarrow>
     bind_eff (recent_quote c name asset cur) (\<lambda>r. case r of
       Some q \<Rightarrow> ret q
     | None \<Rightarrow> bind_eff (writing (\<lambda>s. s\<lparr>stw_observed := 0\<rparr>)) (\<lambda>_.
         bind_eff (attempt (case scl_prices c of
             None \<Rightarrow> observe_overview name
           | Some cached \<Rightarrow> get_current_with_ttl cached (cacheAsset c asset) cur (scl_price_ttl c)
               (Some (observe_overview name)))) (\<lambda>v. case v of
           Inl e \<Rightarrow> if errors_is e ErrNoPrice then ret (f64_zero, [], 0, False) else raise e
         | Inr x \<Rightarrow> seq_eff (remember_quote c name asset cur x)
             (bind_eff (reading stw_observed) (\<lambda>observed. ret (x, ''steam_median'', observed, True)))))))"

definition stalePriceMaxAge :: duration where "stalePriceMaxAge = 24 * dur_hour"

definition stalePrice :: "steam_client \<Rightarrow> string \<Rightarrow> ('x steam_world_scheme, (f64 \<times> string) option) eff" where
  "stalePrice c name =
    (if \<not> scl_price_history c \<or> trim_space name = [] then ret None
     else bind_eff time_now (\<lambda>now. case asset_key name (scl_currency c) of (asset, cur) \<Rightarrow>
       bind_eff (attempt (price_get asset cur now)) (\<lambda>r. case r of
           Inl e \<Rightarrow> ret None
         | Inr p \<Rightarrow> if time_is_zero (hpr_timestamp p) \<or> hpr_timestamp p > now + 60 * dur_second then ret None
             else if time_sub now (hpr_timestamp p) > stalePriceMaxAge then ret None
             else ret (Some (hpr_price p, ''steam_history'')))))"

section \<open>Price history\<close>

definition historyQuoteDriftBand :: f64 where "historyQuoteDriftBand = Fin 5"

fun sift :: "f64 \<Rightarrow> f64 list \<Rightarrow> f64 list" where
  "sift x [] = [x]"
| "sift x (y # ys) = (if f64_lt x y then y # sift x ys else x # y # ys)"

definition sortFloats :: "f64 list \<Rightarrow> f64 list" where
  "sortFloats v = rev (fold sift v [])"

definition seriesDrifted :: "historical_price list \<Rightarrow> f64 \<Rightarrow> bool" where
  "seriesDrifted rows q =
    (if rows = [] \<or> f64_le q (Fin 0) then False
     else let prices = sortFloats (map hpr_price (drop (length rows - 5) rows)); median = prices ! (length prices div 2)
       in f64_lt (f64_mul historyQuoteDriftBand q) median \<or> f64_lt (f64_mul historyQuoteDriftBand median) q)"

definition tripleToFloat :: "jval \<Rightarrow> f64 option" where
  "tripleToFloat v = (case v of
      JFloat x \<Rightarrow> if f64_lt (Fin 0) x then Some x else None
    | JNum s \<Rightarrow> parseSteamMoney s
    | JStr s \<Rightarrow> parseSteamMoney s
    | _ \<Rightarrow> None)"

definition series_row :: "string \<Rightarrow> string \<Rightarrow> time \<Rightarrow> jval list \<Rightarrow> historical_price option" where
  "series_row asset cur now entry =
    (case entry of
       [a, b, v] \<Rightarrow> (let t = parseSteamTime (strVal a) in
         if time_is_zero t then None
         else map_option (\<lambda>median. \<lparr>hpr_asset = asset, hpr_timestamp = t, hpr_currency = cur, hpr_price = median,
             hpr_source = priceSourceHistory, hpr_updated_at = now\<rparr>) (tripleToFloat b))
     | _ \<Rightarrow> None)"

definition SyncPriceHistory ::
  "steam_client \<Rightarrow> string \<Rightarrow> f64 \<Rightarrow> bool \<Rightarrow> ('x steam_world_scheme, nat) eff" where
  "SyncPriceHistory c name q haveQuote =
    (if \<not> scl_price_history c then ret 0
     else if scl_session c = [] \<and> \<not> scl_auth c then raise (Wrapf ''steam auth'' (ErrText ''requires a Steam session''))
     else bind_eff (\<lambda>s. (stw_series s (stw_calls s) name, s\<lparr>stw_calls := Suc (stw_calls s)\<rparr>)) (\<lambda>env.
       if \<not> psr_success env then raise (Wrapf ''steam pricehistory'' (ErrText ''success=false''))
       else case asset_key name (scl_currency c) of (asset, cur) \<Rightarrow>
         bind_eff time_now (\<lambda>now.
           let rows = List.map_filter (series_row asset cur now) (psr_prices env) in
           if rows = [] then ret 0
           else if \<not> haveQuote \<or> f64_le q (Fin 0) then ret 0
           else if seriesDrifted rows q then ret 0
           else seq_eff (wrap_err ''steam pricehistory store'' (price_upsert rows)) (ret (length rows)))))"

section \<open>What a price is\<close>

text \<open>A price text gives a number above zero, or the NaN that \<open>ParseFloat\<close> reads.\<close>

lemma parseSteamMoney_positive: "parseSteamMoney s = Some v \<Longrightarrow> \<not> f64_le v (Fin 0)"
  by (auto simp: parseSteamMoney_def Let_def split: if_splits option.splits)

lemma money_text_can_be_nan: "parseSteamMoney ''NaN'' = Some NaN \<and> parseSteamMoney ''Infinity'' = Some PInf"
  by code_simp

text \<open>The spellings of one amount.\<close>

lemma money_spellings:
  "map parseSteamMoney [''$1,234.56'', ''1.234,56 '' @ [CHR 0xE2, CHR 0x82, CHR 0xAC], ''1234.56'', ''1 234,56 z'' @ [CHR 0xC5, CHR 0x82]]
     = replicate 4 (parse_float ''1234.56'') \<and>
   parseSteamMoney ''1,234'' = parse_float ''1234'' \<and> parseSteamMoney ''31,28'' = parse_float ''31.28'' \<and>
   parseSteamMoney ''$--'' = None"
  by code_simp

text \<open>The insertion sort sorts: the median of the drift test is the middle of the last prices.\<close>

lemma mset_sift: "mset (sift x ys) = add_mset x (mset ys)"
  by (induction ys) auto

lemma set_sift: "set (sift x ys) = insert x (set ys)"
  by (induction ys) auto

lemma sortFloats_mset: "mset (sortFloats v) = mset v"
proof -
  have "mset (fold sift v ys) = mset v + mset ys" for ys
    by (induction v arbitrary: ys) (auto simp: mset_sift)
  then show ?thesis by (simp add: sortFloats_def)
qed

definition not_above :: "f64 \<Rightarrow> f64 \<Rightarrow> bool" where
  "not_above x y \<longleftrightarrow> \<not> f64_lt y x"

lemma not_above_trans:
  "x \<noteq> NaN \<Longrightarrow> y \<noteq> NaN \<Longrightarrow> z \<noteq> NaN \<Longrightarrow> not_above x y \<Longrightarrow> not_above y z \<Longrightarrow> not_above x z"
  unfolding not_above_def by (cases x; cases y; cases z) auto

lemma sorted_sift:
  assumes "NaN \<notin> set (x # ys)" "sorted_wrt (\<lambda>a b. not_above b a) ys"
  shows "sorted_wrt (\<lambda>a b. not_above b a) (sift x ys)"
  using assms
proof (induction ys)
  case (Cons y ys)
  show ?case
  proof (cases "f64_lt x y")
    case True
    then have "not_above x y" by (simp add: not_above_def f64_lt_asym)
    with True Cons show ?thesis by (auto simp: set_sift)
  next
    case False
    then have xy: "not_above y x" by (simp add: not_above_def)
    have "not_above z x" if "z \<in> set ys" for z
    proof (rule not_above_trans [of z y x])
      show "z \<noteq> NaN" "y \<noteq> NaN" "x \<noteq> NaN" using Cons.prems(1) that by auto
      show "not_above z y" using Cons.prems(2) that by simp
    qed (rule xy)
    with False xy Cons.prems(2) show ?thesis by auto
  qed
qed simp

lemma sortFloats_sorted:
  assumes "NaN \<notin> set v"
  shows "sorted_wrt not_above (sortFloats v)"
proof -
  have "sorted_wrt (\<lambda>a b. not_above b a) (fold sift v ys)"
    if "NaN \<notin> set v \<union> set ys" "sorted_wrt (\<lambda>a b. not_above b a) ys" for ys
    using that
  proof (induction v arbitrary: ys)
    case (Cons x v)
    then show ?case by (auto simp: set_sift intro!: Cons.IH sorted_sift)
  qed simp
  from this [of "[]"] assms show ?thesis by (simp add: sortFloats_def sorted_wrt_rev)
qed

section \<open>What is stored and what is served\<close>

text \<open>A fallback quote is a stored row of the item that is at most a day old.\<close>

lemma stalePrice_age:
  assumes "stalePrice c name s = (Inr (Some (v, k)), s')"
  shows "\<exists>p\<in>set (db_prices s). hpr_price p = v \<and> hpr_timestamp p \<noteq> 0 \<and>
    db_clock s (db_ticks s) - hpr_timestamp p \<le> 24 * dur_hour"
proof -
  obtain a u where key: "asset_key name (scl_currency c) = (a, u)" by fastforce
  obtain r s1 where get: "price_get a u (db_clock s (db_ticks s)) (s\<lparr>db_ticks := Suc (db_ticks s)\<rparr>) = (r, s1)"
    by fastforce
  from assms obtain p where p: "r = Inr p" "hpr_price p = v" "hpr_timestamp p \<noteq> 0"
    "\<not> time_sub (db_clock s (db_ticks s)) (hpr_timestamp p) > stalePriceMaxAge"
    by (auto simp: stalePrice_def bind_eff_apply time_now_def key attempt_def get ret_def split: if_splits sum.splits)
  have "p \<in> set (db_prices s)" using price_get_latest [OF get [unfolded p(1)]] by simp
  moreover have "db_clock s (db_ticks s) - hpr_timestamp p \<le> 24 * dur_hour"
    using p(4) by (auto simp: time_sub_def stalePriceMaxAge_def split: if_splits)
  ultimately show ?thesis using p by blast
qed

lemma seriesDrifted_agrees:
  "\<not> seriesDrifted rows q \<Longrightarrow> rows \<noteq> [] \<Longrightarrow> \<not> f64_le q (Fin 0) \<Longrightarrow>
     let prices = sortFloats (map hpr_price (drop (length rows - 5) rows)); median = prices ! (length prices div 2)
     in \<not> f64_lt (f64_mul (Fin 5) q) median \<and> \<not> f64_lt (f64_mul (Fin 5) median) q"
  by (simp add: seriesDrifted_def Let_def historyQuoteDriftBand_def)

lemma price_upsert_cases:
  "price_upsert rows s = (r, s') \<Longrightarrow> db_prices s' = db_prices s \<or>
     r = Inr () \<and> db_prices s' = fold (upsert_row price_key price_conflict)
       (map (price_row (db_clock s (db_ticks s))) rows) (db_prices s)"
  by (auto simp: price_upsert_def eff_defs time_now_def exec_sql_def Let_def split: if_splits option.splits)

text \<open>
  C29. A price series is stored only when it agrees with a fresh quote. The backfill of a name
  leaves the stored prices as they are, or there was a positive quote, the middle of the last
  (at most five) points of the series is within a factor of five of it, and exactly the points
  of the series are written, all marked as US dollar history. So a series in another currency,
  or one nothing can be compared with, is never taken for dollars.
\<close>

theorem price_series_validated:
  "case SyncPriceHistory c name q haveQuote s of (r, s') \<Rightarrow>
     db_prices s' = db_prices s \<or>
     (\<exists>rows now. r = Inr (length rows) \<and> rows \<noteq> [] \<and> haveQuote \<and> \<not> f64_le q (Fin 0) \<and>
        (let prices = sortFloats (map hpr_price (drop (length rows - 5) rows)); median = prices ! (length prices div 2)
         in \<not> f64_lt (f64_mul (Fin 5) q) median \<and> \<not> f64_lt (f64_mul (Fin 5) median) q) \<and>
        (\<forall>p\<in>set rows. hpr_source p = ''steam_history_usd'' \<and> hpr_timestamp p \<noteq> 0 \<and>
           (hpr_asset p, hpr_currency p) = asset_key name (scl_currency c)) \<and>
        db_prices s' = fold (upsert_row price_key price_conflict) (map (price_row now) rows) (db_prices s))"
proof -
  let ?s1 = "s\<lparr>stw_calls := Suc (stw_calls s)\<rparr>"
  obtain a u where key: "asset_key name (scl_currency c) = (a, u)" by fastforce
  show ?thesis
  proof (cases "scl_price_history c \<and> \<not> (scl_session c = [] \<and> \<not> scl_auth c)")
    case False
    then show ?thesis by (auto simp: SyncPriceHistory_def ret_def raise_def)
  next
    case conf: True
    show ?thesis
    proof (cases "stw_series s (stw_calls s) name")
      case (Inl e)
      with conf show ?thesis by (auto simp: SyncPriceHistory_def bind_eff_apply)
    next
      case (Inr env)
      let ?rows = "List.map_filter (series_row a u (db_clock s (db_ticks s))) (psr_prices env)"
      let ?s2 = "?s1\<lparr>db_ticks := Suc (db_ticks s)\<rparr>"
      show ?thesis
      proof (cases "psr_success env \<and> ?rows \<noteq> [] \<and> haveQuote \<and> \<not> f64_le q (Fin 0) \<and> \<not> seriesDrifted ?rows q")
        case False
        with conf Inr show ?thesis
          by (auto simp: SyncPriceHistory_def bind_eff_apply key time_now_def ret_def raise_def Let_def)
      next
        case True
        obtain r1 s3 where up: "price_upsert ?rows ?s2 = (r1, s3)" by fastforce
        have conf1: "scl_price_history c" and conf2: "(scl_session c = [] \<and> \<not> scl_auth c) = False"
          using conf by auto
        have run: "SyncPriceHistory c name q haveQuote s = (case r1 of
            Inl e \<Rightarrow> (Inl (Wrapf ''steam pricehistory store'' e), s3) | Inr _ \<Rightarrow> (Inr (length ?rows), s3))"
          using Inr True up by (simp add: conf1 conf2 SyncPriceHistory_def bind_eff_apply key time_now_def ret_def
              Let_def seq_eff_apply wrap_err_def split: sum.split)
        have rows: "\<forall>p\<in>set ?rows. hpr_source p = ''steam_history_usd'' \<and> hpr_timestamp p \<noteq> 0 \<and>
            (hpr_asset p, hpr_currency p) = asset_key name (scl_currency c)"
          by (auto simp: List.map_filter_def series_row_def Let_def key priceSourceHistory_def split: list.splits if_splits)
        have drift: "let prices = sortFloats (map hpr_price (drop (length ?rows - 5) ?rows)); median = prices ! (length prices div 2)
           in \<not> f64_lt (f64_mul (Fin 5) q) median \<and> \<not> f64_lt (f64_mul (Fin 5) median) q"
          by (rule seriesDrifted_agrees) (use True in blast)+
        from price_upsert_cases [OF up] show ?thesis
        proof
          assume "db_prices s3 = db_prices ?s2"
          then show ?thesis by (simp add: run split: sum.split)
        next
          assume w: "r1 = Inr () \<and> db_prices s3 = fold (upsert_row price_key price_conflict)
            (map (price_row (db_clock ?s2 (db_ticks ?s2))) ?rows) (db_prices ?s2)"
          then have ran: "SyncPriceHistory c name q haveQuote s = (Inr (length ?rows), s3)" by (simp add: run)
          have stored: "db_prices s3 = fold (upsert_row price_key price_conflict)
            (map (price_row (db_clock ?s2 (db_ticks ?s2))) ?rows) (db_prices s)" using w by simp
          show ?thesis unfolding ran split_conv
            by (rule disjI2, rule exI [of _ ?rows], rule exI [of _ "db_clock ?s2 (db_ticks ?s2)"], intro conjI refl)
              (use True rows drift stored in \<open>blast | assumption\<close>)+
        qed
      qed
    qed
  qed
qed

end
