(* ===== verification/Steam_Snapshot.thy ===== *)
theory Steam_Snapshot
  imports Steam_Positions Steam_Quotes
begin

text \<open>
  One synchronisation of the Steam client (\<open>Fetch\<close> and its helpers in
  \<open>clients/steam/reconcile.go\<close>, \<open>ensureAuth\<close> and \<open>SnapshotCommitted\<close> in \<open>client.go\<close>), over the
  database, the Redis cache and the client's own fields (\<open>steam_world\<close>). What Steam answers in
  the run is the record \<open>steam_remote\<close>: the outcome of the authentication, the servers of the
  four walks, and the JSON codec of a stored position (\<open>encoding/json\<close>, with the flag of
  \<open>Unmarshal\<close>) and of a trade's assets. Log lines and the counters only they use are left out.

  The lemmas show when an emptied inventory is believed, what is staged for a source that
  failed, which evidence is durable when an event is marked as used, and which stacks the value
  filter lets through.
\<close>

record steam_remote =
  srm_auth :: "go_error option"
  srm_inventory :: inventory_server
  srm_history :: history_server
  srm_market :: market_server
  srm_trades :: trade_server
  srm_encode :: "provenance_cursor \<Rightarrow> string option"
  srm_decode :: "string \<Rightarrow> provenance_cursor \<times> bool"
  srm_trade_json :: "trade_asset list \<Rightarrow> string"

section \<open>Durable walk positions\<close>

definition cursorScopeInventory :: string where "cursorScopeInventory = ''steam-inventory''"
definition cursorScopeHistory :: string where "cursorScopeHistory = ''steam-history''"
definition cursorScopeMarket :: string where "cursorScopeMarket = ''steam-market''"
definition cursorScopeTrades :: string where "cursorScopeTrades = ''steam-trades''"
definition cursorScopeEmptyProbe :: string where "cursorScopeEmptyProbe = ''steam-empty-probe''"

lemmas cursor_scopes = cursorScopeInventory_def cursorScopeHistory_def cursorScopeMarket_def
  cursorScopeTrades_def cursorScopeEmptyProbe_def

definition steamCursorScope :: "string \<Rightarrow> string \<Rightarrow> string" where
  "steamCursorScope base steamID = base @ '':'' @ trim_space steamID"

definition zero_cursor :: provenance_cursor where
  "zero_cursor = \<lparr>pcu_watermark = 0, pcu_resume = None\<rparr>"

definition decode_position :: "steam_remote \<Rightarrow> string \<Rightarrow> provenance_cursor" where
  "decode_position rm pos = (case srm_decode rm pos of
      (pc, True) \<Rightarrow> pc
    | (pc, False) \<Rightarrow> (case parse_rfc3339 pos of Some t \<Rightarrow> pc\<lparr>pcu_watermark := t\<rparr> | None \<Rightarrow> pc))"

definition loadProvenanceCursor ::
  "steam_client \<Rightarrow> steam_remote \<Rightarrow> string \<Rightarrow> ('x steam_world_scheme, provenance_cursor) eff" where
  "loadProvenanceCursor c rm scope =
    (if \<not> scl_cursors c then ret zero_cursor
     else bind_eff (attempt (cursor_get scope)) (\<lambda>r. case r of
         Inl e \<Rightarrow> ret zero_cursor
       | Inr cur \<Rightarrow> ret (decode_position rm (scu_position cur))))"

definition storeProvenanceCursor ::
  "steam_remote \<Rightarrow> string \<Rightarrow> provenance_cursor \<Rightarrow> bool \<Rightarrow> time \<Rightarrow> ('x steam_world_scheme, unit) eff" where
  "storeProvenanceCursor rm scope pc complete' now = (case srm_encode rm pc of
      None \<Rightarrow> ret ()
    | Some raw \<Rightarrow> writing (\<lambda>s. s\<lparr>stw_pending := stw_pending s @ [\<lparr>scu_scope = scope, scu_position = raw,
        scu_complete = complete', scu_updated_at = now\<rparr>], stw_dirty := True\<rparr>))"

definition SnapshotCommitted :: "steam_client \<Rightarrow> ('x steam_world_scheme, unit) eff" where
  "SnapshotCommitted c = bind_eff (reading stw_dirty) (\<lambda>dirty.
     if \<not> dirty then ret ()
     else seq_eff (writing (\<lambda>s. s\<lparr>stw_dirty := False\<rparr>))
       (if \<not> scl_cursors c then ret ()
        else bind_eff (reading stw_pending) (\<lambda>pending.
          for_each (\<lambda>cur. bind_eff (attempt (cursor_set cur)) (\<lambda>_. ret ())) pending)))"

section \<open>An empty inventory\<close>

definition empty_probe :: "steam_client \<Rightarrow> time \<Rightarrow> ('x steam_world_scheme, bool) eff" where
  "empty_probe c taken =
    (if \<not> scl_cursors c then ret False
     else bind_eff (attempt (cursor_get (steamCursorScope cursorScopeEmptyProbe (scl_steam_id c)))) (\<lambda>r. case r of
         Inl e \<Rightarrow> ret False
       | Inr probe \<Rightarrow> (case parse_rfc3339 (scu_position probe) of
           None \<Rightarrow> ret False
         | Some pt \<Rightarrow> ret (\<not> time_is_zero pt \<and> \<not> taken > pt))))"

definition confirmEmptyInventory :: "steam_client \<Rightarrow> ('x steam_world_scheme, bool) eff" where
  "confirmEmptyInventory c =
    (if \<not> scl_store c then ret True
     else bind_eff (attempt (latest_snapshot (scl_steam_id c))) (\<lambda>r. case r of
         Inl e \<Rightarrow> if errors_is e ErrNotFound then ret True
           else raise (Wrapf ''steam: cannot confirm empty inventory'' e)
       | Inr prev \<Rightarrow> if ssn_assets prev = [] then ret True else empty_probe c (ssn_taken_at prev)))"

definition record_empty_probe :: "steam_client \<Rightarrow> time \<Rightarrow> ('x steam_world_scheme, unit) eff" where
  "record_empty_probe c now =
    (if \<not> scl_cursors c then ret ()
     else bind_eff (attempt (cursor_set \<lparr>scu_scope = steamCursorScope cursorScopeEmptyProbe (scl_steam_id c),
         scu_position = format_rfc3339 now, scu_complete = False, scu_updated_at = now\<rparr>)) (\<lambda>_. ret ()))"

section \<open>Reading the sources\<close>

definition ensureAuth :: "steam_client \<Rightarrow> steam_remote \<Rightarrow> steam_client res" where
  "ensureAuth c rm =
    (if trim_space (scl_refresh_token c) = [] \<or> scl_auth c then Inr c
     else case srm_auth rm of Some e \<Rightarrow> Inl e | None \<Rightarrow> Inr (c\<lparr>scl_auth := True\<rparr>))"

definition hasSession :: "steam_client \<Rightarrow> bool" where
  "hasSession c \<longleftrightarrow> trim_space (scl_session c) \<noteq> [] \<or> scl_auth c \<or> trim_space (scl_refresh_token c) \<noteq> []"

definition hasAPIKey :: "steam_client \<Rightarrow> bool" where
  "hasAPIKey c \<longleftrightarrow> trim_space (scl_api_key c) \<noteq> []"

definition scope_of :: "steam_client \<Rightarrow> string \<Rightarrow> string" where
  "scope_of c base = steamCursorScope base (scl_steam_id c)"

definition read_events ::
  "steam_client \<Rightarrow> steam_remote \<Rightarrow> ('x steam_world_scheme, history_event list \<times> name_map \<times> provenance_outcome) eff" where
  "read_events c rm =
    (if \<not> hasSession c then ret ([], Map.empty, no_outcome)
     else bind_eff (loadProvenanceCursor c rm (scope_of c cursorScopeHistory)) (\<lambda>prev.
       let start = decodeHistoryResume (pcu_resume prev);
           stop = (if start \<noteq> None then 0 else pcu_watermark prev)
       in case fetchHistory (scl_max_pages c) (srm_history rm) start stop of
         (w, whole, nxt, err) \<Rightarrow> ret (hwk_events w, hwk_descs w,
           \<lparr>pou_complete = whole, pou_newest = newestEventTime (hwk_events w),
            pou_resume = map_option HistoryResume nxt\<rparr>)))"

definition read_market ::
  "steam_client \<Rightarrow> steam_remote \<Rightarrow> time \<Rightarrow> name_map \<Rightarrow>
   ('x steam_world_scheme, market_transaction list \<times> provenance_outcome) eff" where
  "read_market c rm now names =
    (if \<not> hasSession c then ret ([], no_outcome)
     else bind_eff (loadProvenanceCursor c rm (scope_of c cursorScopeMarket)) (\<lambda>prev.
       let start = (case decodeMarketResume (pcu_resume prev) of
             Some off \<Rightarrow> if off > 0 then max 0 (off - marketResumeOverlap) else 0 | None \<Rightarrow> 0)
       in case fetchMarketHistory (scl_max_pages c) (srm_market rm) (scl_steam_id c) names start of
         (txs, whole, nxt, err) \<Rightarrow> ret (txs,
           \<lparr>pou_complete = whole, pou_newest = (if whole then now else 0),
            pou_resume = (if nxt > 0 then Some (MarketResume nxt) else None)\<rparr>)))"

definition read_trades ::
  "steam_client \<Rightarrow> steam_remote \<Rightarrow> ('x steam_world_scheme, trade_record list \<times> provenance_outcome) eff" where
  "read_trades c rm =
    (if \<not> hasAPIKey c then ret ([], no_outcome)
     else bind_eff (loadProvenanceCursor c rm (scope_of c cursorScopeTrades)) (\<lambda>prev.
       let start = decodeTradeResume (pcu_resume prev);
           stop = (if start \<noteq> None then 0 else pcu_watermark prev)
       in case fetchTrades (scl_max_pages c) (srm_trades rm) start stop of
         (trades, whole, nxt, err) \<Rightarrow> ret (trades,
           \<lparr>pou_complete = whole, pou_newest = newestTradeTime trades, pou_resume = map_option TradeResume nxt\<rparr>)))"

text \<open>The values of the map from external ids: the last row of an id counts.\<close>

definition market_values :: "market_transaction list \<Rightarrow> market_transaction list" where
  "market_values txs = map snd (fold (\<lambda>tx. AList.update (mtx_external_id tx) tx) txs [])"

definition known_assets :: "steam_client \<Rightarrow> ('x steam_world_scheme, (string \<Rightarrow> bool) option) eff" where
  "known_assets c =
    (if \<not> scl_store c then ret None
     else bind_eff (attempt (latest_snapshot (scl_steam_id c))) (\<lambda>r. case r of
         Inl e \<Rightarrow> ret None
       | Inr prev \<Rightarrow> ret (Some (\<lambda>i. i \<in> sar_asset_id ` set (ssn_assets prev)))))"

definition reload_events ::
  "steam_client \<Rightarrow> history_event list \<Rightarrow> ('x steam_world_scheme, history_event list) eff" where
  "reload_events c events =
    (if \<not> scl_store c then ret events
     else bind_eff (attempt (unmatched_events (scl_steam_id c))) (\<lambda>r. case r of
         Inl e \<Rightarrow> ret events
       | Inr stored \<Rightarrow> ret (events @ map event_of_row
           (filter (\<lambda>x. sev_external_id x \<notin> hev_external_id ` set events) stored))))"

definition refill_resolved ::
  "steam_client \<Rightarrow> inventory_item list \<Rightarrow> resolution list \<Rightarrow> ('x steam_world_scheme, resolution list) eff" where
  "refill_resolved c items resolved =
    (if \<not> scl_store c \<or> items = [] then ret resolved
     else bind_eff (attempt (acquisitions_for_assets (scl_steam_id c) (map itm_asset_id items))) (\<lambda>r. case r of
         Inl e \<Rightarrow> ret resolved
       | Inr acqs \<Rightarrow> ret (applyStoredAcquisitions resolved acqs)))"

section \<open>Persisting the run\<close>

record provenance_outcomes =
  pos_history :: provenance_outcome
  pos_market :: provenance_outcome
  pos_trades :: provenance_outcome

text \<open>\<open>now.UTC().Format("20060102T150405.999999999Z")\<close>: the fraction loses its trailing zeros.\<close>

definition snapshot_stamp :: "time \<Rightarrow> string" where
  "snapshot_stamp t = (case civil_of_days (day_of t) of (y, m, d) \<Rightarrow>
     let s = second_of_day t; ns = t mod dur_second;
         frac = rev (dropWhile (\<lambda>ch. ch = CHR ''0'') (rev (pad_int 9 ns)))
     in pad_int 4 y @ pad_int 2 m @ pad_int 2 d @ ''T'' @ pad_int 2 (s div 3600) @ pad_int 2 (s div 60 mod 60) @
        pad_int 2 (s mod 60) @ (if ns = 0 then [] else ''.'' @ frac) @ ''Z'')"

definition snapshot_of :: "steam_client \<Rightarrow> inventory_item list \<Rightarrow> bool \<Rightarrow> time \<Rightarrow> steam_inventory_snapshot" where
  "snapshot_of c items complete' now = \<lparr>ssn_id = ''steam:'' @ scl_steam_id c @ '':'' @ snapshot_stamp now,
     ssn_steam_id = scl_steam_id c, ssn_taken_at = now, ssn_complete = complete',
     ssn_assets = map asset_row_of items\<rparr>"

definition matched_ids :: "history_event list \<Rightarrow> history_event list \<Rightarrow> string list" where
  "matched_ids events unmatched =
     filter (\<lambda>i. i \<notin> hev_external_id ` set unmatched) (map hev_external_id events)"

text \<open>The best-effort writes; the results of the source writes decide which positions advance.\<close>

definition save_evidence ::
  "steam_client \<Rightarrow> bool \<Rightarrow> history_event list \<Rightarrow> resolution list \<Rightarrow> history_event list \<Rightarrow> ('x steam_world_scheme, unit) eff" where
  "save_evidence c complete' events resolved unmatched =
     seq_eff (if complete' then bind_eff (attempt (save_lots (scl_steam_id c) (toLotRows (buildLots resolved)))) (\<lambda>_. ret ())
              else ret ())
       (bind_eff (attempt (save_acquisitions (scl_steam_id c) (map acquisition_row_of resolved))) (\<lambda>r. case r of
          Inl e \<Rightarrow> ret ()
        | Inr _ \<Rightarrow> bind_eff (attempt (mark_events_matched (scl_steam_id c) (matched_ids events unmatched))) (\<lambda>_. ret ())))"

definition stage_source ::
  "steam_client \<Rightarrow> steam_remote \<Rightarrow> time \<Rightarrow> string \<Rightarrow> unit res \<Rightarrow> provenance_outcome \<Rightarrow> ('x steam_world_scheme, unit) eff" where
  "stage_source c rm now base written out =
    (let eff = (case written of Inl e \<Rightarrow> no_outcome | Inr _ \<Rightarrow> out) in
     bind_eff (loadProvenanceCursor c rm (scope_of c base)) (\<lambda>prev.
       storeProvenanceCursor rm (scope_of c base) (mergeProvenanceCursor prev eff) (pou_complete eff) now))"

definition stage_cursors ::
  "steam_client \<Rightarrow> steam_remote \<Rightarrow> bool \<Rightarrow> provenance_outcomes \<Rightarrow> time \<Rightarrow> unit res \<Rightarrow> unit res \<Rightarrow> unit res \<Rightarrow>
   ('x steam_world_scheme, unit) eff" where
  "stage_cursors c rm complete' out now eventsW marketW tradesW =
     seq_eff (writing (\<lambda>s. s\<lparr>stw_pending := [\<lparr>scu_scope = scope_of c cursorScopeInventory,
         scu_position = format_rfc3339 now, scu_complete = complete', scu_updated_at = now\<rparr>]\<rparr>))
     (seq_eff (stage_source c rm now cursorScopeHistory eventsW (pos_history out))
     (seq_eff (stage_source c rm now cursorScopeMarket marketW (pos_market out))
       (stage_source c rm now cursorScopeTrades tradesW (pos_trades out))))"

definition persistProvenance ::
  "steam_client \<Rightarrow> steam_remote \<Rightarrow> inventory_item list \<Rightarrow> bool \<Rightarrow> provenance_outcomes \<Rightarrow> time \<Rightarrow>
   history_event list \<Rightarrow> market_transaction list \<Rightarrow> trade_record list \<Rightarrow> resolution list \<Rightarrow> history_event list \<Rightarrow>
   ('x steam_world_scheme, unit) eff" where
  "persistProvenance c rm items complete' out now events marketTxs trades resolved unmatched =
    (if \<not> scl_store c then ret ()
     else seq_eff (wrap_err ''steam: snapshot save'' (save_snapshot (snapshot_of c items complete' now)))
       (bind_eff (attempt (record_events (scl_steam_id c) (map event_row_of events))) (\<lambda>eventsW.
        bind_eff (attempt (save_market_transactions (scl_steam_id c) (map market_row_of marketTxs))) (\<lambda>marketW.
        bind_eff (attempt (save_trades (scl_steam_id c) (map (trade_row_of (srm_trade_json rm)) trades))) (\<lambda>tradesW.
        seq_eff (save_evidence c complete' events resolved unmatched)
          (stage_cursors c rm complete' out now eventsW marketW tradesW))))))"

section \<open>Valuing the resolutions\<close>

record priced_quote =
  pqt_price :: f64
  pqt_type :: string
  pqt_observed :: time
  pqt_ok :: bool

type_synonym quotes = "string \<Rightarrow> priced_quote option"

definition group_quantity :: "resolution list \<Rightarrow> string \<Rightarrow> int" where
  "group_quantity resolved key = sum_list (map (\<lambda>r. itm_amount (rsl_asset r))
     (filter (\<lambda>r. itm_market_hash_name (rsl_asset r) \<noteq> [] \<and>
        priceDedupeKey (itm_market_hash_name (rsl_asset r)) = key) resolved))"

definition live_quote :: "steam_client \<Rightarrow> string \<Rightarrow> ('x steam_world_scheme, priced_quote) eff" where
  "live_quote c name = bind_eff (attempt (CurrentPrice c name)) (\<lambda>r. case r of
      Inr (price, kind, observed, True) \<Rightarrow>
        ret \<lparr>pqt_price = price, pqt_type = kind, pqt_observed = observed, pqt_ok = True\<rparr>
    | _ \<Rightarrow> bind_eff (stalePrice c name) (\<lambda>q. case q of
        Some (price, kind) \<Rightarrow> ret \<lparr>pqt_price = price, pqt_type = kind, pqt_observed = 0, pqt_ok = True\<rparr>
      | None \<Rightarrow> ret \<lparr>pqt_price = f64_zero, pqt_type = [], pqt_observed = 0, pqt_ok = False\<rparr>))"

definition price_of ::
  "steam_client \<Rightarrow> string \<Rightarrow> quotes \<Rightarrow> ('x steam_world_scheme, (f64 \<times> string \<times> bool) \<times> quotes) eff" where
  "price_of c name priced = (case priced (priceDedupeKey name) of
      Some q \<Rightarrow> ret ((pqt_price q, pqt_type q, pqt_ok q), priced)
    | None \<Rightarrow> bind_eff (live_quote c name) (\<lambda>q.
        ret ((pqt_price q, pqt_type q, pqt_ok q), priced(priceDedupeKey name \<mapsto> q))))"

record assembly =
  asm_pricing :: bool
  asm_priced :: quotes
  asm_positions :: "position list"
  asm_activities :: "activity list"
  asm_retracted :: "string list"

definition priceFailBreaker :: int where "priceFailBreaker = 10"

text \<open>The switch of the loop: the price, its kind and whether there is one.\<close>

definition value_item ::
  "steam_client \<Rightarrow> inventory_item \<Rightarrow> bool \<Rightarrow> quotes \<Rightarrow> ('x steam_world_scheme, (f64 \<times> string \<times> bool) \<times> quotes) eff" where
  "value_item c it pricing priced =
    (if pricing \<and> \<not> pricable it then ret ((f64_zero, [], False), priced)
     else if pricing then price_of c (itm_market_hash_name it) priced
     else if pricable it then bind_eff (stalePrice c (itm_market_hash_name it)) (\<lambda>q. case q of
         Some (price, kind) \<Rightarrow> ret ((price, kind, True), priced)
       | None \<Rightarrow> ret ((f64_zero, [], False), priced))
     else ret ((f64_zero, [], False), priced))"

definition is_filtered :: "steam_client \<Rightarrow> resolution list \<Rightarrow> resolution \<Rightarrow> f64 \<Rightarrow> bool \<Rightarrow> bool" where
  "is_filtered c resolved r price valued \<longleftrightarrow>
     f64_lt f64_zero (scl_min_item_value c) \<and>
     (\<not> valued \<or> f64_le (f64_mul (f64_of_int (group_quantity resolved
        (priceDedupeKey (itm_market_hash_name (rsl_asset r))))) price) (scl_min_item_value c))"

definition emit :: "steam_client \<Rightarrow> string \<Rightarrow> time \<Rightarrow> resolution \<Rightarrow> f64 \<times> string \<times> bool \<Rightarrow> assembly \<Rightarrow> assembly" where
  "emit c accountID now r q a = (case q of (price, kind, valued) \<Rightarrow>
     let view = PnL (toDomainAsset (scl_steam_id c) r now) (optFloat valued price) kind in
     a\<lparr>asm_positions := asm_positions a @ [toPosition r view],
       asm_activities := (case toActivity r view accountID now of
          None \<Rightarrow> asm_activities a | Some act \<Rightarrow> asm_activities a @ [act])\<rparr>)"

definition place ::
  "steam_client \<Rightarrow> resolution list \<Rightarrow> string \<Rightarrow> time \<Rightarrow> resolution \<Rightarrow> f64 \<times> string \<times> bool \<Rightarrow> assembly \<Rightarrow> assembly" where
  "place c resolved accountID now r q a = (case q of (price, kind, valued) \<Rightarrow>
     if is_filtered c resolved r price valued
     then a\<lparr>asm_retracted := asm_retracted a @ [''steam:'' @ itm_asset_id (rsl_asset r)]\<rparr>
     else emit c accountID now r q a)"

definition assemble_item ::
  "steam_client \<Rightarrow> resolution list \<Rightarrow> string \<Rightarrow> time \<Rightarrow> resolution \<Rightarrow> assembly \<Rightarrow> ('x steam_world_scheme, assembly) eff" where
  "assemble_item c resolved accountID now r a =
     bind_eff (reading stw_price_fails) (\<lambda>fails.
       let pricing = (asm_pricing a \<and> \<not> fails \<ge> priceFailBreaker) in
       bind_eff (value_item c (rsl_asset r) pricing (asm_priced a)) (\<lambda>(q, priced).
         ret (place c resolved accountID now r q (a\<lparr>asm_pricing := pricing, asm_priced := priced\<rparr>))))"

definition no_assembly :: assembly where
  "no_assembly = \<lparr>asm_pricing = True, asm_priced = Map.empty, asm_positions = [], asm_activities = [], asm_retracted = []\<rparr>"

definition assemble ::
  "steam_client \<Rightarrow> resolution list \<Rightarrow> string \<Rightarrow> time \<Rightarrow> ('x steam_world_scheme, assembly) eff" where
  "assemble c resolved accountID now =
     fold_eff (assemble_item c resolved accountID now) resolved no_assembly"

section \<open>Price-history backfill\<close>

definition historyLookback :: duration where "historyLookback = 30 * 24 * dur_hour"
definition minHistoryPoints :: nat where "minHistoryPoints = 10"

definition history_covered :: "steam_client \<Rightarrow> string \<Rightarrow> time \<Rightarrow> ('x steam_world_scheme, bool) eff" where
  "history_covered c name now = (case asset_key name (scl_currency c) of (asset, cur) \<Rightarrow>
     bind_eff (attempt (price_list asset cur (now - historyLookback) now)) (\<lambda>r. case r of
         Inl e \<Rightarrow> ret False
       | Inr pts \<Rightarrow> ret (minHistoryPoints \<le> length (filter (\<lambda>p. hpr_source p \<noteq> priceSourceQuote) pts))))"

definition fresh_quote :: "quotes \<Rightarrow> string \<Rightarrow> f64 option" where
  "fresh_quote priced name = (case priced (priceDedupeKey name) of
      None \<Rightarrow> None
    | Some q \<Rightarrow> if pqt_ok q \<and> f64_lt f64_zero (pqt_price q) \<and> \<not> time_is_zero (pqt_observed q)
        then Some (pqt_price q) else None)"

definition backfill_item ::
  "steam_client \<Rightarrow> quotes \<Rightarrow> time \<Rightarrow> resolution \<Rightarrow> string set \<times> int \<Rightarrow> ('x steam_world_scheme, string set \<times> int) eff" where
  "backfill_item c priced now r st = (case st of (seen, budget) \<Rightarrow>
     let name = itm_market_hash_name (rsl_asset r); key = priceDedupeKey name in
     if \<not> pricable (rsl_asset r) \<or> key \<in> seen then ret st
     else if budget \<le> 0 then ret (insert key seen, budget)
     else bind_eff (history_covered c name now) (\<lambda>covered.
       if covered then ret (insert key seen, budget)
       else (case fresh_quote priced name of
           None \<Rightarrow> ret (insert key seen, budget)
         | Some q \<Rightarrow> bind_eff (attempt (SyncPriceHistory c name q True)) (\<lambda>_. ret (insert key seen, budget - 1)))))"

definition backfillPriceHistory ::
  "steam_client \<Rightarrow> resolution list \<Rightarrow> quotes \<Rightarrow> ('x steam_world_scheme, unit) eff" where
  "backfillPriceHistory c resolved priced =
    (if \<not> scl_price_history c \<or> scl_history_budget c \<le> 0 then ret ()
     else bind_eff time_now (\<lambda>now.
       bind_eff (fold_eff (backfill_item c priced now) resolved ({}, scl_history_budget c)) (\<lambda>_. ret ())))"

section \<open>The snapshot\<close>

record provenance =
  prv_events :: "history_event list"
  prv_market :: "market_transaction list"
  prv_trades :: "trade_record list"
  prv_outcomes :: provenance_outcomes

definition read_provenance :: "steam_client \<Rightarrow> steam_remote \<Rightarrow> time \<Rightarrow> ('x steam_world_scheme, provenance) eff" where
  "read_provenance c rm now =
     bind_eff (read_events c rm) (\<lambda>(events, names, hist).
     bind_eff (read_market c rm now names) (\<lambda>(txs, mkt).
     bind_eff (read_trades c rm) (\<lambda>(trades, trd).
       ret \<lparr>prv_events = events, prv_market = txs, prv_trades = trades,
         prv_outcomes = \<lparr>pos_history = hist, pos_market = mkt, pos_trades = trd\<rparr>\<rparr>)))"

definition tx_complete :: "steam_client \<Rightarrow> bool \<Rightarrow> provenance_outcomes \<Rightarrow> bool" where
  "tx_complete c whole out \<longleftrightarrow> whole \<and> (pou_complete (pos_history out) \<or> \<not> hasSession c) \<and>
     (pou_complete (pos_market out) \<or> \<not> hasSession c) \<and> (pou_complete (pos_trades out) \<or> \<not> hasAPIKey c)"

definition steam_account :: "steam_client \<Rightarrow> time \<Rightarrow> bool \<Rightarrow> account" where
  "steam_account c now txComplete = zero_account\<lparr>
     acc_id := steamAccountID (scl_steam_id c), acc_name := ''Steam CS2'', acc_type := AccountTypeSecurities,
     acc_raw_type := ''STEAM_CS2'', acc_currency := ''USD'', acc_balance_currency := ''USD'',
     acc_brokerage_authorization := ''steam-auth'', acc_institution_name := ''Steam'',
     acc_sync_enabled := True, acc_status := ''open'', acc_created_date := now,
     acc_last_holdings_sync := Some now, acc_initial_holdings_done := True,
     acc_initial_tx_sync_done := txComplete, acc_last_tx_sync := (if txComplete then Some now else None)\<rparr>"

definition steam_connection :: "time \<Rightarrow> connection" where
  "steam_connection now = zero_connection\<lparr>con_id := ''steam-conn'', con_authorization_id := ''steam-auth'',
     con_brokerage_name := ''Steam'', con_brokerage_slug := ''steam'', con_display_name := ''Steam'',
     con_name := ''Steam'', con_status := ConnectionActive, con_updated_at := now\<rparr>"

definition snapshot_from :: "steam_client \<Rightarrow> time \<Rightarrow> bool \<Rightarrow> bool \<Rightarrow> assembly \<Rightarrow> broker_snapshot" where
  "snapshot_from c now whole txComplete a = (let accountID = steamAccountID (scl_steam_id c) in
     zero_snapshot\<lparr>snap_connection := steam_connection now, snap_accounts := [steam_account c now txComplete],
       snap_holdings := [zero_holdings\<lparr>hol_account_id := accountID, hol_positions := asm_positions a,
         hol_captured_at := now, hol_partial := \<not> whole\<rparr>],
       snap_activities := [(accountID, asm_activities a)],
       snap_retracted_activities := (if asm_retracted a \<noteq> [] \<and> whole then [(accountID, asm_retracted a)] else [])\<rparr>)"

text \<open>The inventory of the run: its items, whether it is complete, and whether an empty one is unconfirmed.\<close>

definition read_inventory ::
  "steam_client \<Rightarrow> steam_remote \<Rightarrow> ('x steam_world_scheme, inventory_item list \<times> bool) eff" where
  "read_inventory c rm = (case fetchInventory (scl_max_pages c) (srm_inventory rm) of (items, whole, err) \<Rightarrow>
     if err \<noteq> None \<and> items = [] then raise (the err)
     else if items = [] \<and> whole \<and> err = None then
       bind_eff (confirmEmptyInventory c) (\<lambda>confirmed.
         seq_eff (writing (\<lambda>s. s\<lparr>stw_empty_unconfirmed := \<not> confirmed\<rparr>)) (ret (items, whole)))
     else ret (items, whole))"

definition resolve_run ::
  "steam_client \<Rightarrow> inventory_item list \<Rightarrow> provenance \<Rightarrow> time \<Rightarrow>
   ('x steam_world_scheme, history_event list \<times> resolution list \<times> history_event list) eff" where
  "resolve_run c items pv now =
     bind_eff (known_assets c) (\<lambda>before.
     bind_eff (reload_events c (prv_events pv)) (\<lambda>events.
       case resolve items before events (market_values (prv_market pv)) (prv_trades pv) now of
         (resolved, unmatched) \<Rightarrow>
           bind_eff (refill_resolved c items resolved) (\<lambda>resolved'. ret (events, resolved', unmatched))))"

definition emptyUnconfirmed :: go_error where
  "emptyUnconfirmed = Wrapf ''steam inventory'' (ErrText ''complete empty inventory unconfirmed: refusing to clear holdings'')"

definition finish_run ::
  "steam_client \<Rightarrow> time \<Rightarrow> bool \<Rightarrow> bool \<Rightarrow> resolution list \<Rightarrow> ('x steam_world_scheme, broker_snapshot) eff" where
  "finish_run c now whole txComplete resolved =
     bind_eff (reading stw_empty_unconfirmed) (\<lambda>unconfirmed.
       if unconfirmed then seq_eff (record_empty_probe c now) (raise emptyUnconfirmed)
       else bind_eff (assemble c resolved (steamAccountID (scl_steam_id c)) now) (\<lambda>a.
         seq_eff (backfillPriceHistory c resolved (asm_priced a))
           (ret (snapshot_from c now whole txComplete a))))"

definition Fetch :: "steam_client \<Rightarrow> steam_remote \<Rightarrow> ('x steam_world_scheme, broker_snapshot) eff" where
  "Fetch c0 rm =
    (if trim_space (scl_steam_id c0) = [] then raise (ErrText ''steam: STEAM_ID not configured'')
     else bind_eff time_now (\<lambda>now.
       seq_eff (writing (\<lambda>s. s\<lparr>stw_price_fails := 0, stw_empty_unconfirmed := False\<rparr>))
       (case ensureAuth c0 rm of Inl e \<Rightarrow> raise e | Inr c \<Rightarrow>
         bind_eff (read_inventory c rm) (\<lambda>(items, whole).
         bind_eff (read_provenance c rm now) (\<lambda>pv.
         bind_eff (resolve_run c items pv now) (\<lambda>(events, resolved, unmatched).
         bind_eff (reading stw_empty_unconfirmed) (\<lambda>unconfirmed.
         seq_eff (persistProvenance c rm items (whole \<and> \<not> unconfirmed) (prv_outcomes pv) now events
             (prv_market pv) (prv_trades pv) resolved unmatched)
           (finish_run c now whole (tx_complete c whole (prv_outcomes pv)) resolved))))))))"

end
