(* ===== verification/Steam_Runs.thy ===== *)
theory Steam_Runs
  imports Steam_Snapshot
begin

text \<open>
  What a run of the Steam client may change (\<open>Fetch\<close>). The locale \<open>read_frame\<close> states the
  contract of a part of the state that the reads, the pricing and the staging of positions leave
  alone, and \<open>run_frame\<close> carries it through the whole run. They are interpreted on the seven Steam tables
  and on the tables of the sync engine. What \<open>persistProvenance\<close> does to the tables is shown
  beside it, and the two together give the safety of a failed or partial run.
\<close>

section \<open>Code that does not fail\<close>

definition never_fails :: "('s, 'a) eff \<Rightarrow> bool" where
  "never_fails m \<longleftrightarrow> (\<forall>s. \<exists>x. fst (m s) = Inr x)"

named_theorems nf_intros "rules for code that returns no error"

lemma never_failsD: "never_fails m \<Longrightarrow> m s = (r, s') \<Longrightarrow> \<exists>x. r = Inr x"
  unfolding never_fails_def by (metis fst_conv)

lemma nf_basic [nf_intros]:
  "never_fails (ret x)" "never_fails (reading f)" "never_fails (writing g)" "never_fails (attempt m)"
  "never_fails time_now"
  by (simp_all add: never_fails_def eff_defs time_now_def split: prod.split)

lemma nf_bind [nf_intros]: "never_fails m \<Longrightarrow> (\<And>x. never_fails (f x)) \<Longrightarrow> never_fails (bind_eff m f)"
  unfolding never_fails_def bind_eff_def by (simp split: prod.split sum.split) (metis fst_conv sum.distinct(1))

lemma nf_seq [nf_intros]: "never_fails m \<Longrightarrow> never_fails n \<Longrightarrow> never_fails (seq_eff m n)"
  unfolding seq_eff_def by (rule nf_bind)

lemma nf_fold [nf_intros]: "(\<And>x b. never_fails (f x b)) \<Longrightarrow> never_fails (fold_eff f xs b)"
  by (induction xs arbitrary: b) (auto intro: nf_intros)

lemma nf_cases [nf_intros]:
  "(b \<Longrightarrow> never_fails m) \<Longrightarrow> (\<not> b \<Longrightarrow> never_fails n) \<Longrightarrow> never_fails (if b then m else n)"
  "never_fails m \<Longrightarrow> (\<And>x. never_fails (k x)) \<Longrightarrow> never_fails (case o' of None \<Rightarrow> m | Some x \<Rightarrow> k x)"
  "(\<And>e. never_fails (p e)) \<Longrightarrow> (\<And>x. never_fails (k' x)) \<Longrightarrow> never_fails (case r of Inl e \<Rightarrow> p e | Inr x \<Rightarrow> k' x)"
  "(\<And>x y. never_fails (h x y)) \<Longrightarrow> never_fails (case q of (x, y) \<Rightarrow> h x y)"
  "never_fails (g z) \<Longrightarrow> never_fails (let y = z in g y)"
  by (auto split: option.split sum.split prod.split)

lemma nf_bool_case [nf_intros]:
  "(b \<Longrightarrow> never_fails m) \<Longrightarrow> (\<not> b \<Longrightarrow> never_fails n) \<Longrightarrow> never_fails (case b of True \<Rightarrow> m | False \<Rightarrow> n)"
  by (cases b) auto

lemma nf_stalePrice [nf_intros]: "never_fails (stalePrice c name)"
  unfolding stalePrice_def by (intro nf_intros)

lemma nf_assemble [nf_intros]: "never_fails (assemble c resolved accountID now)"
  unfolding assemble_def assemble_item_def value_item_def price_of_def live_quote_def Let_def by (intro nf_intros)

lemma nf_backfill [nf_intros]: "never_fails (backfillPriceHistory c resolved priced)"
  unfolding backfillPriceHistory_def backfill_item_def history_covered_def Let_def by (intro nf_intros)

lemma nf_stage_cursors [nf_intros]: "never_fails (stage_cursors c rm whole out now ew mw tw)"
  unfolding stage_cursors_def stage_source_def loadProvenanceCursor_def storeProvenanceCursor_def Let_def by (intro nf_intros)

lemma nf_save_evidence [nf_intros]: "never_fails (save_evidence c whole events resolved unmatched)"
  unfolding save_evidence_def by (intro nf_intros)

lemma nf_reads [nf_intros]:
  "never_fails (read_provenance c rm now)" "never_fails (resolve_run c items pv now)"
  unfolding read_provenance_def read_events_def read_market_def read_trades_def loadProvenanceCursor_def Let_def
    resolve_run_def known_assets_def reload_events_def refill_resolved_def
  by (intro nf_intros)+

section \<open>What a run leaves alone\<close>

locale read_frame =
  fixes v :: "'x steam_world_scheme \<Rightarrow> 'v"
  assumes v_counters: "v (s\<lparr>db_ops := n\<rparr>) = v s" "v (s\<lparr>db_ticks := n\<rparr>) = v s" "v (s\<lparr>stw_calls := n\<rparr>) = v s"
      "v (s\<lparr>rds_ops := n\<rparr>) = v s" "v (s\<lparr>stw_price_fails := i\<rparr>) = v s" "v (s\<lparr>stw_observed := t\<rparr>) = v s"
    and v_prices: "v (s\<lparr>db_prices := ps\<rparr>) = v s"
    and v_redis: "v (s\<lparr>rds_entries := es\<rparr>) = v s"
    and v_cursors: "v (s\<lparr>db_cursors := cs\<rparr>) = v s"
    and v_client: "v (s\<lparr>stw_pending := pend\<rparr>) = v s" "v (s\<lparr>stw_dirty := b\<rparr>) = v s"
begin

lemma frame_sql: "keeps v m \<Longrightarrow> keeps v (exec_sql m)"
  by (rule keeps_exec_sql) (simp_all add: v_counters)

lemma frame_now: "keeps v time_now"
  by (simp add: keeps_def time_now_def v_counters)

lemma frame_writing: "(\<And>s. v (f s) = v s) \<Longrightarrow> keeps v (writing f)"
  by (simp add: keeps_def writing_def)

lemma frame_redis: "keeps v m \<Longrightarrow> keeps v (redis_cmd m)"
  by (simp add: keeps_def redis_cmd_def Let_def v_counters split: option.split)

lemma frame_if_redis: "keeps v m \<Longrightarrow> keeps v (if_redis d m)"
  by (simp add: keeps_def if_redis_def)

lemmas frame_rules = keep_intros frame_sql frame_now frame_writing frame_redis frame_if_redis

lemma frame_case_list: "keeps v m \<Longrightarrow> (\<And>x xs. keeps v (n x xs)) \<Longrightarrow> keeps v (case l of [] \<Rightarrow> m | x # xs \<Rightarrow> n x xs)"
  by (cases l) auto

lemma frame_price_get: "keeps v (price_get a u t)"
  unfolding price_get_def by (intro frame_rules frame_case_list)

lemma frame_price_list: "keeps v (price_list a u t t')"
  unfolding price_list_def by (intro frame_rules)

lemma frame_price_upsert: "keeps v (price_upsert rows)"
proof -
  have w: "keeps v (\<lambda>s. if b then (Inl e, s) else (Inr (), s\<lparr>db_prices := f s\<rparr>))" for b e f
    by (simp add: keeps_def v_prices)
  show ?thesis unfolding price_upsert_def Let_def by (intro frame_rules w)
qed

lemma frame_cursor_get: "keeps v (cursor_get scope)"
  unfolding cursor_get_def by (intro frame_rules)

lemma frame_cursor_set: "keeps v (cursor_set cur)"
  unfolding cursor_set_def Let_def by (intro frame_rules) (simp add: v_cursors)

lemma frame_snapshot_reads:
  "keeps v (latest_snapshot i)" "keeps v (unmatched_events i)" "keeps v (acquisitions_for_assets i ids)"
  unfolding latest_snapshot_def unmatched_events_def acquisitions_for_assets_def by (intro frame_rules)+

lemmas frame_repos = frame_price_get frame_price_list frame_price_upsert frame_cursor_get frame_cursor_set
  frame_snapshot_reads

lemma frame_overview: "keeps v (observe_overview name)"
  by (rule keepsI) (auto simp: observe_overview_def fetchOverview_def bind_eff_apply time_now_def writing_def ret_def
      v_counters split: prod.split sum.split)

lemma frame_current: "keeps v (CurrentPrice c name)"
  unfolding CurrentPrice_def recent_quote_def remember_quote_def get_current_with_ttl_def read_through_def
    cache_get_def cache_set_def rdb_get_def rdb_set_def option.case
  by (intro frame_rules frame_repos frame_overview) (simp_all add: v_counters v_redis)

lemma frame_stale: "keeps v (stalePrice c name)"
  unfolding stalePrice_def by (intro frame_rules frame_repos)

lemma frame_case_bool: "keeps v m \<Longrightarrow> keeps v n \<Longrightarrow> keeps v (case b of True \<Rightarrow> m | False \<Rightarrow> n)"
  by (cases b) auto

lemma frame_assemble: "keeps v (assemble c resolved accountID now)"
  unfolding assemble_def assemble_item_def value_item_def price_of_def live_quote_def Let_def
  by (intro frame_rules frame_current frame_stale frame_case_bool)

lemma frame_series: "keeps v (SyncPriceHistory c name q have)"
proof -
  have "keeps v (\<lambda>s. (stw_series s (stw_calls s) name, s\<lparr>stw_calls := Suc (stw_calls s)\<rparr>))"
    by (simp add: keeps_def v_counters)
  then show ?thesis unfolding SyncPriceHistory_def Let_def by (intro frame_rules frame_repos)
qed

lemma frame_backfill: "keeps v (backfillPriceHistory c resolved priced)"
  unfolding backfillPriceHistory_def backfill_item_def history_covered_def Let_def
  by (intro frame_rules frame_repos frame_series)

lemma frame_load_cursor: "keeps v (loadProvenanceCursor c rm scope)"
  unfolding loadProvenanceCursor_def by (intro frame_rules frame_repos)

lemma frame_stage: "keeps v (stage_cursors c rm whole out now ew mw tw)"
  unfolding stage_cursors_def stage_source_def storeProvenanceCursor_def Let_def
  by (intro frame_rules frame_load_cursor) (simp_all add: v_client)

lemma frame_provenance: "keeps v (read_provenance c rm now)"
  unfolding read_provenance_def read_events_def read_market_def read_trades_def Let_def
  by (intro frame_rules frame_load_cursor)

lemma frame_resolve: "keeps v (resolve_run c items pv now)"
  unfolding resolve_run_def known_assets_def reload_events_def refill_resolved_def
  by (intro frame_rules frame_repos)

lemma frame_finish: "keeps v (finish_run c now whole txComplete resolved)"
  unfolding finish_run_def record_empty_probe_def
  by (intro frame_rules frame_repos frame_assemble frame_backfill)

lemma frame_committed: "keeps v (SnapshotCommitted c)"
  unfolding SnapshotCommitted_def by (intro frame_rules frame_repos) (simp add: v_client)

end

text \<open>With the flag of an unconfirmed empty inventory, the whole run is covered.\<close>

locale run_frame = read_frame v for v :: "'x steam_world_scheme \<Rightarrow> 'v" +
  assumes v_unconfirmed: "v (s\<lparr>stw_empty_unconfirmed := b\<rparr>) = v s"
begin

lemma frame_inventory: "keeps v (read_inventory c rm)"
  unfolding read_inventory_def confirmEmptyInventory_def empty_probe_def Let_def
  by (intro frame_rules frame_repos) (simp_all add: v_unconfirmed)

end

text \<open>The seven Steam tables, and the tables of the sync engine.\<close>

definition steam_tables :: "'x steam_db_scheme \<Rightarrow> steam_snapshot_po list \<times> steam_snapshot_asset_po list \<times>
    steam_event_po list \<times> steam_market_tx_po list \<times> steam_trade_po list \<times> steam_lot_po list \<times> steam_acquisition_po list" where
  "steam_tables s = (sdb_snapshots s, sdb_snapshot_assets s, sdb_events s, sdb_market_txs s, sdb_trades s,
     sdb_lots s, sdb_acquisitions s)"

definition engine_tables :: "'x db_scheme \<Rightarrow> connection_po list \<times> account_po list \<times> activity_po list \<times> holdings_po list" where
  "engine_tables s = (db_connections s, db_accounts s, db_activities s, db_holdings s)"

interpretation steam_frame: run_frame steam_tables
  by unfold_locales (simp_all add: steam_tables_def)

interpretation engine_frame: run_frame engine_tables
  by unfold_locales (simp_all add: engine_tables_def)

interpretation unconfirmed_frame: read_frame stw_empty_unconfirmed
  by unfold_locales simp_all

interpretation fault_frame: run_frame "db_fault :: 'x steam_world_scheme \<Rightarrow> nat \<Rightarrow> string option"
  by unfold_locales simp_all

section \<open>What persisting changes\<close>

text \<open>The writes to the Steam tables leave the rest of the world alone.\<close>

locale write_frame =
  fixes v :: "'x steam_world_scheme \<Rightarrow> 'v"
  assumes w_counters: "v (s\<lparr>db_ops := n\<rparr>) = v s"
    and w_tables: "v (s\<lparr>sdb_snapshots := t1\<rparr>) = v s" "v (s\<lparr>sdb_snapshot_assets := t2\<rparr>) = v s"
      "v (s\<lparr>sdb_events := t3\<rparr>) = v s" "v (s\<lparr>sdb_market_txs := t4\<rparr>) = v s" "v (s\<lparr>sdb_trades := t5\<rparr>) = v s"
      "v (s\<lparr>sdb_lots := t6\<rparr>) = v s" "v (s\<lparr>sdb_acquisitions := t7\<rparr>) = v s"
begin

lemma write_restore: "v (restore_steam old new) = v new"
  by (simp add: restore_steam_def w_tables)

lemma write_sql: "keeps v m \<Longrightarrow> keeps v (exec_sql m)"
  by (rule keeps_exec_sql) (simp_all add: w_counters)

lemma write_tx: "keeps v m \<Longrightarrow> keeps v (steam_tx m)"
  unfolding steam_tx_def
proof (rule keeps_seq [OF write_sql [OF keeps_ret]], rule keepsI)
  fix s assume m: "keeps v m"
  obtain r s' where eq: "seq_eff m (exec_sql (ret ())) s = (r, s')" by fastforce
  have "v s' = v s" by (rule keeps_eq [OF keeps_seq [OF m write_sql [OF keeps_ret]] eq])
  then show "v (snd (case seq_eff m (exec_sql (ret ())) s of (Inl e, s') \<Rightarrow> (Inl e, restore_steam s s')
      | (Inr x, s') \<Rightarrow> (Inr x, s'))) = v s"
    by (simp add: eq write_restore split: sum.split)
qed

lemma write_plain: "(\<And>s. v (f s) = v s) \<Longrightarrow> keeps v (writing f)"
  by (simp add: keeps_def writing_def)

lemmas write_rules = keep_intros write_sql write_tx

lemma write_snapshot: "keeps v (save_snapshot snap)"
proof -
  have "keeps v (\<lambda>s. case insert_rows ssn_id rows (sdb_snapshots s) of
      Inl e \<Rightarrow> (Inl e, s) | Inr t \<Rightarrow> (Inr (), s\<lparr>sdb_snapshots := t\<rparr>))"
    and "keeps v (\<lambda>s. case insert_rows asset_line_key ls (sdb_snapshot_assets s) of
      Inl e \<Rightarrow> (Inl e, s) | Inr t \<Rightarrow> (Inr (), s\<lparr>sdb_snapshot_assets := t\<rparr>))" for rows ls
    by (auto simp: keeps_def w_tables split: sum.split)
  then show ?thesis unfolding save_snapshot_def Let_def by (intro write_rules)
qed

lemma write_rows:
  "keeps v (record_events i evs)" "keeps v (save_market_transactions i txs)" "keeps v (save_trades i trs)"
  "keeps v (mark_events_matched i ids)"
  unfolding record_events_def record_event_def save_market_transactions_def save_trades_def mark_events_matched_def
  by (intro write_rules write_plain; simp add: w_tables)+

lemma write_lots: "keeps v (save_lots i lots)"
proof -
  have "keeps v (\<lambda>s. case insert_rows lot_key [l] (sdb_lots s) of
      Inl e \<Rightarrow> (Inl e, s) | Inr t \<Rightarrow> (Inr (), s\<lparr>sdb_lots := t\<rparr>))" for l
    by (auto simp: keeps_def w_tables split: sum.split)
  then show ?thesis unfolding save_lots_def by (intro write_rules write_plain; simp add: w_tables)
qed

lemma write_acquisitions: "keeps v (save_acquisitions i as)"
  unfolding save_acquisitions_def save_acquisition_def write_acquisition_def
  by (intro write_rules write_plain; simp add: w_tables)

lemma write_evidence: "keeps v (save_evidence c whole events resolved unmatched)"
  unfolding save_evidence_def by (intro keep_intros write_lots write_acquisitions write_rows)

end

interpretation unconfirmed_write: write_frame stw_empty_unconfirmed
  by unfold_locales simp_all

interpretation engine_write: write_frame engine_tables
  by unfold_locales (simp_all add: engine_tables_def)

interpretation cursors_write: write_frame "\<lambda>s :: 'x steam_world_scheme. (db_cursors s, db_fault s)"
  by unfold_locales simp_all

text \<open>The baseline: the lots, and the complete snapshots as \<open>LatestSnapshot\<close> chooses among them.\<close>

definition baseline :: "'x steam_db_scheme \<Rightarrow> steam_lot_po list \<times> (string \<Rightarrow> steam_snapshot_po option)" where
  "baseline s = (sdb_lots s, \<lambda>i. latest_complete i (sdb_snapshots s))"

lemma baseline_of_tables: "steam_tables s' = steam_tables s \<Longrightarrow> baseline s' = baseline s"
  by (simp add: steam_tables_def baseline_def)

lemma keeps_tx_of_tables:
  assumes "\<And>s n. v (s\<lparr>db_ops := n\<rparr>) = v s" and "\<And>a b. v (restore_steam a b) = v a" and "keeps v m"
  shows "keeps v (steam_tx m)"
proof (rule keepsI)
  fix s obtain r s' where eq: "steam_tx m s = (r, s')" by fastforce
  then show "v (snd (steam_tx m s)) = v s"
  proof (cases rule: steam_tx_cases)
    case (3 w)
    then have "v s' = v w" by (simp add: assms(1))
    also have "\<dots> = v s" using keeps_eq [OF assms(3) 3(2)] by (simp add: assms(1))
    finally show ?thesis by (simp add: eq)
  qed (simp_all add: eq assms(1,2))
qed

lemma keeps_plain: "(\<And>s. v (f s) = v s) \<Longrightarrow> keeps v (writing f)"
  by (simp add: keeps_def writing_def)

lemmas table_rules = keep_intros keeps_exec_sql keeps_tx_of_tables keeps_plain

lemma baseline_rows:
  fixes i :: string
  shows "keeps baseline (record_events i evs)" "keeps baseline (save_market_transactions i txs)"
    "keeps baseline (save_trades i trs)" "keeps baseline (mark_events_matched i ids)"
  unfolding record_events_def record_event_def save_market_transactions_def save_trades_def mark_events_matched_def
  by (intro keep_intros keeps_exec_sql keeps_plain; simp add: baseline_def)+

lemma baseline_acquisitions: "keeps baseline (save_acquisitions i as)"
  unfolding save_acquisitions_def save_acquisition_def write_acquisition_def
  by (intro table_rules; simp add: baseline_def restore_steam_def)

lemma baseline_evidence: "keeps baseline (save_evidence c False events resolved unmatched)"
  unfolding save_evidence_def if_False by (intro keep_intros baseline_acquisitions baseline_rows)

lemma attempt_apply: "attempt m s = (case m s of (r, s') \<Rightarrow> (Inr r, s'))"
  by (simp add: attempt_def)

text \<open>The steps of \<open>persistProvenance\<close>: the snapshot fails and nothing is written, or every other step is run.\<close>

lemma persist_steps:
  assumes "scl_store c"
    and "persistProvenance c rm items whole out now events txs trades resolved unmatched s = (r, s')"
  obtains (failed) e where "r = Inl e" "steam_tables s' = steam_tables s"
  | (saved) s1 ew s2 mw s3 tw s4 s5 where
      "save_snapshot (snapshot_of c items whole now) s = (Inr (), s1)"
      "record_events (scl_steam_id c) (map event_row_of events) s1 = (ew, s2)"
      "save_market_transactions (scl_steam_id c) (map market_row_of txs) s2 = (mw, s3)"
      "save_trades (scl_steam_id c) (map (trade_row_of (srm_trade_json rm)) trades) s3 = (tw, s4)"
      "save_evidence c whole events resolved unmatched s4 = (Inr (), s5)"
      "stage_cursors c rm whole out now ew mw tw s5 = (Inr (), s')" "r = Inr ()"
proof -
  obtain r1 s1 where snap: "save_snapshot (snapshot_of c items whole now) s = (r1, s1)" by fastforce
  show thesis
  proof (cases r1)
    case (Inl e)
    from snap have "steam_tables s1 = steam_tables s"
      by (cases rule: save_snapshot_cases) (simp_all add: Inl steam_tables_def restore_steam_def)
    with Inl snap assms show thesis
      by (intro failed) (auto simp: persistProvenance_def seq_eff_apply wrap_err_def)
  next
    case (Inr x)
    obtain ew s2 where ev: "record_events (scl_steam_id c) (map event_row_of events) s1 = (ew, s2)" by fastforce
    obtain mw s3 where mk: "save_market_transactions (scl_steam_id c) (map market_row_of txs) s2 = (mw, s3)" by fastforce
    obtain tw s4 where tr: "save_trades (scl_steam_id c) (map (trade_row_of (srm_trade_json rm)) trades) s3 = (tw, s4)"
      by fastforce
    obtain r5 s5 where evd: "save_evidence c whole events resolved unmatched s4 = (r5, s5)" by fastforce
    obtain r6 s6 where st: "stage_cursors c rm whole out now ew mw tw s5 = (r6, s6)" by fastforce
    have "r5 = Inr ()" "r6 = Inr ()"
      using never_failsD [OF nf_save_evidence evd] never_failsD [OF nf_stage_cursors st] by auto
    with Inr snap ev mk tr evd st assms show thesis
      by (intro saved) (auto simp: persistProvenance_def seq_eff_apply bind_eff_apply attempt_apply wrap_err_def)
  qed
qed

lemma persist_unsaved:
  assumes "persistProvenance c rm items whole out now events txs trades resolved unmatched s = (Inl e, s')"
  shows "steam_tables s' = steam_tables s"
proof (cases "scl_store c")
  case True
  from True assms show ?thesis by (cases rule: persist_steps) auto
qed (use assms in \<open>simp add: persistProvenance_def ret_def\<close>)

lemma persist_partial:
  assumes "persistProvenance c rm items False out now events txs trades resolved unmatched s = (r, s')"
  shows "baseline s' = baseline s"
proof (cases "scl_store c")
  case True
  from True assms show ?thesis
  proof (cases rule: persist_steps)
    case (saved s1 ew s2 mw s3 tw s4 s5)
    from saved(1) have "baseline s1 = baseline s"
      by (cases rule: save_snapshot_cases)
        (simp_all add: baseline_def latest_complete_partial snapshot_of_def steam_snapshot_po.defs)
    moreover have "baseline s4 = baseline s1"
      using keeps_eq [OF baseline_rows(1) saved(2)] keeps_eq [OF baseline_rows(2) saved(3)]
        keeps_eq [OF baseline_rows(3) saved(4)] by simp
    moreover have "baseline s5 = baseline s4" by (rule keeps_eq [OF baseline_evidence saved(5)])
    moreover have "baseline s' = baseline s5"
      by (rule baseline_of_tables [OF keeps_eq [OF steam_frame.frame_stage saved(6)]])
    ultimately show ?thesis by simp
  next
    case (failed e)
    then show ?thesis by (intro baseline_of_tables)
  qed
qed (use assms in \<open>simp add: persistProvenance_def ret_def\<close>)

section \<open>The run as a whole\<close>

definition same_settings :: "steam_client \<Rightarrow> steam_client \<Rightarrow> bool" where
  "same_settings c0 c \<longleftrightarrow> c = c0\<lparr>scl_auth := scl_auth c\<rparr>"

lemma ensureAuth_settings: "ensureAuth c0 rm = Inr c \<Longrightarrow> same_settings c0 c"
  by (auto simp: ensureAuth_def same_settings_def split: if_splits option.splits)

lemma same_settingsD:
  "same_settings c0 c \<Longrightarrow> scl_steam_id c = scl_steam_id c0 \<and> scl_store c = scl_store c0 \<and>
     scl_cursors c = scl_cursors c0 \<and> scl_max_pages c = scl_max_pages c0 \<and>
     scl_min_item_value c = scl_min_item_value c0"
  unfolding same_settings_def by (erule ssubst) simp

text \<open>
  A run ends before it persists anything, or it reaches \<open>persistProvenance\<close> in a state with
  the tables it started from; after a persisted run only \<open>finish_run\<close> is left.
\<close>

lemma Fetch_steps:
  assumes "Fetch c0 rm s = (r, s')"
  obtains (early) e where "r = Inl e" "steam_tables s' = steam_tables s"
      "trim_space (scl_steam_id c0) = [] \<or> isl (ensureAuth c0 rm) \<or>
        (\<exists>c s0. same_settings c0 c \<and> read_inventory c rm s0 = (Inl e, s'))"
  | (reached) c now s0 items whole s1 pv s2 events resolved unmatched s3 p s4 where
      "same_settings c0 c" "steam_tables s0 = steam_tables s"
      "db_cursors s0 = db_cursors s \<and> db_fault s0 = db_fault s \<and> now = db_clock s (db_ticks s)" "read_inventory c rm s0 = (Inr (items, whole), s1)"
      "read_provenance c rm now s1 = (Inr pv, s2)"
      "resolve_run c items pv now s2 = (Inr (events, resolved, unmatched), s3)"
      "persistProvenance c rm items (whole \<and> \<not> stw_empty_unconfirmed s3) (prv_outcomes pv) now events
         (prv_market pv) (prv_trades pv) resolved unmatched s3 = (p, s4)"
      "steam_tables s3 = steam_tables s"
      "case p of Inl e \<Rightarrow> r = Inl e \<and> s' = s4
       | Inr _ \<Rightarrow> finish_run c now whole (tx_complete c whole (prv_outcomes pv)) resolved s4 = (r, s')"
proof -
  let ?s0 = "s\<lparr>db_ticks := Suc (db_ticks s), stw_price_fails := 0, stw_empty_unconfirmed := False\<rparr>"
  have t0: "steam_tables ?s0 = steam_tables s" by (simp add: steam_tables_def)
  show thesis
  proof (cases "trim_space (scl_steam_id c0) = []")
    case True
    with assms show thesis by (intro early) (auto simp: Fetch_def raise_def)
  next
    case configured: False
    show thesis
    proof (cases "ensureAuth c0 rm")
      case (Inl e)
      with configured assms t0 show thesis
        by (intro early) (auto simp: Fetch_def raise_def bind_eff_apply seq_eff_apply time_now_def writing_def)
    next
      case (Inr c)
      obtain ri s1 where inv: "read_inventory c rm ?s0 = (ri, s1)" by fastforce
      have t1: "steam_tables s1 = steam_tables s"
        using keeps_eq [OF steam_frame.frame_inventory inv] t0 by simp
      show thesis
      proof (cases ri)
        case (Inl e)
        with configured Inr inv assms have "r = Inl e" "s' = s1"
          by (auto simp: Fetch_def bind_eff_apply seq_eff_apply time_now_def writing_def)
        with t1 inv Inl ensureAuth_settings [OF Inr] show thesis by (intro early) blast+
      next
        case items: (Inr x)
        obtain items whole where x: "x = (items, whole)" by fastforce
        let ?now = "db_clock s (db_ticks s)"
        obtain rp s2 where prv: "read_provenance c rm ?now s1 = (rp, s2)" by fastforce
        obtain pv where pv: "rp = Inr pv" using never_failsD [OF nf_reads(1) prv] by blast
        obtain rr s3 where res: "resolve_run c items pv ?now s2 = (rr, s3)" by fastforce
        obtain events resolved unmatched where rr: "rr = Inr (events, resolved, unmatched)"
          using never_failsD [OF nf_reads(2) res] by (metis surj_pair)
        obtain p s4 where per: "persistProvenance c rm items (whole \<and> \<not> stw_empty_unconfirmed s3)
            (prv_outcomes pv) ?now events (prv_market pv) (prv_trades pv) resolved unmatched s3 = (p, s4)" by fastforce
        have t3: "steam_tables s3 = steam_tables s"
          using keeps_eq [OF steam_frame.frame_provenance prv] keeps_eq [OF steam_frame.frame_resolve res] t1 by simp
        have run: "Fetch c0 rm s = (case p of Inl e \<Rightarrow> (Inl e, s4)
            | Inr _ \<Rightarrow> finish_run c ?now whole (tx_complete c whole (prv_outcomes pv)) resolved s4)"
          using configured Inr inv items x prv pv res rr per
          by (simp add: Fetch_def bind_eff_apply seq_eff_apply time_now_def writing_def reading_def)
        show thesis
          by (rule reached [OF ensureAuth_settings [OF Inr] t0 _ inv [unfolded items x] prv [unfolded pv]
                res [unfolded rr] per t3])
            (use run assms in \<open>auto split: sum.split\<close>)
      qed
    qed
  qed
qed

text \<open>The same steps as a rule for a given run.\<close>

lemma Fetch_run:
  assumes "trim_space (scl_steam_id c0) \<noteq> []" and "ensureAuth c0 rm = Inr c" and "db_clock s (db_ticks s) = now"
    and "read_inventory c rm (s\<lparr>db_ticks := Suc (db_ticks s), stw_price_fails := 0, stw_empty_unconfirmed := False\<rparr>)
      = (Inr (items, whole), s1)"
    and "read_provenance c rm now s1 = (Inr pv, s2)"
    and "resolve_run c items pv now s2 = (Inr (events, resolved, unmatched), s3)"
    and "persistProvenance c rm items (whole \<and> \<not> stw_empty_unconfirmed s3) (prv_outcomes pv) now
      events (prv_market pv) (prv_trades pv) resolved unmatched s3 = (Inr u, s4)"
  shows "Fetch c0 rm s = finish_run c now whole (tx_complete c whole (prv_outcomes pv)) resolved s4"
  using assms by (simp add: Fetch_def bind_eff_apply seq_eff_apply time_now_def writing_def reading_def)

text \<open>The end of a run raises only for an unconfirmed empty inventory.\<close>

lemma finish_run_cases:
  assumes "finish_run c now whole txc resolved s = (r, s')"
  obtains (unconfirmed) "stw_empty_unconfirmed s" "r = Inl emptyUnconfirmed" "record_empty_probe c now s = (Inr (), s')"
  | (served) a s1 where "\<not> stw_empty_unconfirmed s" "r = Inr (snapshot_from c now whole txc a)"
      "assemble c resolved (steamAccountID (scl_steam_id c)) now s = (Inr a, s1)"
      "backfillPriceHistory c resolved (asm_priced a) s1 = (Inr (), s')"
proof (cases "stw_empty_unconfirmed s")
  case True
  obtain q s1 where pr: "record_empty_probe c now s = (q, s1)" by fastforce
  have "never_fails (record_empty_probe c now)" unfolding record_empty_probe_def by (intro nf_intros)
  from never_failsD [OF this pr] have "q = Inr ()" by simp
  with True pr assms show thesis
    by (intro unconfirmed) (auto simp: finish_run_def bind_eff_apply reading_def seq_eff_apply raise_def)
next
  case False
  obtain ra s1 where as: "assemble c resolved (steamAccountID (scl_steam_id c)) now s = (ra, s1)" by fastforce
  obtain a where a: "ra = Inr a" using never_failsD [OF nf_assemble as] by blast
  obtain rb s2 where bf: "backfillPriceHistory c resolved (asm_priced a) s1 = (rb, s2)" by fastforce
  have "rb = Inr ()" using never_failsD [OF nf_backfill bf] by simp
  with False as a bf assms show thesis
    by (intro served) (auto simp: finish_run_def bind_eff_apply reading_def seq_eff_apply ret_def)
qed

end
