(* ===== verification/Steam_Safety.thy ===== *)
theory Steam_Safety
  imports Steam_Runs
begin

text \<open>
  The safety of a Steam run: what a failed or partial one may not erase, when an emptied
  inventory is believed, when an event counts as used, and which positions advance.
\<close>

section \<open>Failed and partial runs\<close>

lemma unconfirmed_persist:
  assumes "persistProvenance c rm items whole out now events txs trades resolved unmatched s = (Inr u, s')"
  shows "stw_empty_unconfirmed s' = stw_empty_unconfirmed s"
proof (cases "scl_store c")
  case True
  from True assms show ?thesis
  proof (cases rule: persist_steps)
    case (saved s1 ew s2 mw s3 tw s4 s5)
    note w = unconfirmed_write.write_snapshot unconfirmed_write.write_rows unconfirmed_write.write_evidence
    show ?thesis
      using keeps_eq [OF w(1) saved(1)] keeps_eq [OF w(2) saved(2)] keeps_eq [OF w(3) saved(3)]
        keeps_eq [OF w(4) saved(4)] keeps_eq [OF w(6) saved(5)] keeps_eq [OF unconfirmed_frame.frame_stage saved(6)] by simp
  qed simp
qed (use assms in \<open>simp add: persistProvenance_def ret_def\<close>)

lemma engine_persist: "keeps engine_tables (persistProvenance c rm items whole out now events txs trades resolved unmatched)"
  unfolding persistProvenance_def
  by (intro keep_intros engine_write.write_snapshot engine_write.write_rows engine_write.write_evidence engine_frame.frame_stage)

lemma engine_Fetch: "keeps engine_tables (Fetch c rm)"
  unfolding Fetch_def
  by (intro keep_intros engine_frame.frame_rules engine_frame.frame_inventory engine_frame.frame_provenance
      engine_frame.frame_resolve engine_frame.frame_finish engine_persist) (simp add: engine_tables_def)

lemma finish_tables:
  "finish_run c now whole txc resolved s = (r, s') \<Longrightarrow> steam_tables s' = steam_tables s"
  by (rule keeps_eq [OF steam_frame.frame_finish])


section \<open>An emptied inventory\<close>

text \<open>What justifies clearing: nothing to erase, or an earlier sighting no older than the newest complete snapshot.\<close>

definition empty_justified :: "string \<Rightarrow> 'x steam_db_scheme \<Rightarrow> bool" where
  "empty_justified sid s \<longleftrightarrow>
    (case latest_complete sid (sdb_snapshots s) of
       None \<Rightarrow> True
     | Some p \<Rightarrow> filter (\<lambda>l. sar_snapshot_id l = ssn_id p) (sdb_snapshot_assets s) = [] \<or>
         (\<exists>cur\<in>set (db_cursors s). scu_scope cur = steamCursorScope cursorScopeEmptyProbe sid \<and>
           (\<exists>pt. parse_rfc3339 (scu_position cur) = Some pt \<and> pt \<noteq> 0 \<and> ssn_taken_at p \<le> pt)))"

lemma latest_snapshot_result:
  fixes s :: "'x steam_world_scheme"
  assumes "latest_snapshot sid s = (r, s')"
  shows "db_cursors s' = db_cursors s \<and>
    (case r of
       Inl e \<Rightarrow> errors_is e ErrNotFound \<longrightarrow> latest_complete sid (sdb_snapshots s) = None
     | Inr prev \<Rightarrow> (\<exists>p. latest_complete sid (sdb_snapshots s) = Some p \<and> ssn_taken_at prev = ssn_taken_at p \<and>
         ssn_assets prev = map steam_asset_row.truncate (filter (\<lambda>a. sar_snapshot_id a = ssn_id p) (sdb_snapshot_assets s))))"
proof -
  have c: "keeps db_cursors (latest_snapshot sid :: ('x steam_world_scheme, steam_inventory_snapshot) eff)"
    unfolding latest_snapshot_def by (intro keep_intros keeps_exec_sql) simp_all
  from assms have "case r of
       Inl e \<Rightarrow> errors_is e ErrNotFound \<longrightarrow> latest_complete sid (sdb_snapshots s) = None
     | Inr prev \<Rightarrow> (\<exists>p. latest_complete sid (sdb_snapshots s) = Some p \<and> ssn_taken_at prev = ssn_taken_at p \<and>
         ssn_assets prev = map steam_asset_row.truncate (filter (\<lambda>a. sar_snapshot_id a = ssn_id p) (sdb_snapshot_assets s)))"
    by (auto simp: latest_snapshot_def eff_defs exec_sql_def Let_def steam_snapshot_po.defs steam_inventory_snapshot.defs
        split: option.splits)
  with keeps_eq [OF c assms] show ?thesis by blast
qed

lemma cursor_get_found:
  fixes s :: "'x db_scheme"
  assumes "cursor_get scope s = (Inr cur, s')"
  shows "cur \<in> set (db_cursors s) \<and> scu_scope cur = scope"
  using assms by (auto simp: cursor_get_def eff_defs exec_sql_def Let_def find_row_def find_Some_iff split: option.splits)

lemma empty_probe_sound:
  assumes "empty_probe c taken s = (Inr True, s')"
  shows "\<exists>cur\<in>set (db_cursors s). scu_scope cur = steamCursorScope cursorScopeEmptyProbe (scl_steam_id c) \<and>
    (\<exists>pt. parse_rfc3339 (scu_position cur) = Some pt \<and> pt \<noteq> 0 \<and> taken \<le> pt)"
proof -
  obtain r s1 where get: "cursor_get (steamCursorScope cursorScopeEmptyProbe (scl_steam_id c)) s = (r, s1)" by fastforce
  from assms get obtain cur pt where "r = Inr cur" "parse_rfc3339 (scu_position cur) = Some pt" "pt \<noteq> 0" "taken \<le> pt"
    by (auto simp: empty_probe_def bind_eff_apply attempt_apply ret_def split: if_splits sum.splits option.splits)
  with cursor_get_found get show ?thesis by blast
qed

lemma confirm_sound:
  fixes s :: "'x steam_world_scheme"
  assumes "confirmEmptyInventory c s = (Inr True, s')" and "scl_store c"
  shows "empty_justified (scl_steam_id c) s"
proof -
  obtain r s1 where snap: "latest_snapshot (scl_steam_id c) s = (r, s1)" by fastforce
  note res = latest_snapshot_result [OF snap]
  show ?thesis
  proof (cases r)
    case (Inl e)
    with assms snap have "errors_is e ErrNotFound"
      by (auto simp: confirmEmptyInventory_def bind_eff_apply attempt_apply raise_def split: if_splits)
    with res Inl show ?thesis by (simp add: empty_justified_def)
  next
    case (Inr prev)
    with res obtain p where p: "latest_complete (scl_steam_id c) (sdb_snapshots s) = Some p"
      "ssn_taken_at prev = ssn_taken_at p" "db_cursors s1 = db_cursors s"
      "ssn_assets prev = map steam_asset_row.truncate (filter (\<lambda>a. sar_snapshot_id a = ssn_id p) (sdb_snapshot_assets s))"
      by auto
    show ?thesis
    proof (cases "ssn_assets prev = []")
      case True
      with p show ?thesis by (simp add: empty_justified_def)
    next
      case False
      with assms snap Inr have "empty_probe c (ssn_taken_at prev) s1 = (Inr True, s')"
        by (simp add: confirmEmptyInventory_def bind_eff_apply attempt_apply)
      from empty_probe_sound [OF this] p show ?thesis by (simp add: empty_justified_def)
    qed
  qed
qed

text \<open>
  C24. An emptied inventory is believed at the second sighting only. If the pages say that the
  inventory is complete and empty and the run still returns a snapshot, then the newest complete
  snapshot of the account was absent or empty already, or the stored probe of an earlier empty
  sighting parses to an instant not before that snapshot was taken.
\<close>

theorem emptied_inventory_needs_two_sightings:
  fixes s :: "'x steam_world_scheme"
  assumes "fetchInventory (scl_max_pages c) (srm_inventory rm) = ([], True, None)" and "scl_store c"
    and "Fetch c rm s = (Inr snap, s')"
  shows "empty_justified (scl_steam_id c) s"
  using assms(3)
proof (cases rule: Fetch_steps)
  case (reached d now s0 items whole s1 pv s2 events resolved unmatched s3 p s4)
  note d = same_settingsD [OF reached(1)]
  obtain rc s5 where conf: "confirmEmptyInventory d s0 = (rc, s5)" by fastforce
  from reached(4) assms(1) d obtain ok where ok: "rc = Inr ok" "s1 = s5\<lparr>stw_empty_unconfirmed := \<not> ok\<rparr>"
    by (auto simp: read_inventory_def bind_eff_apply conf seq_eff_apply writing_def ret_def split: sum.splits)
  from reached(9) obtain u where u: "p = Inr u"
    "finish_run d now whole (tx_complete d whole (prv_outcomes pv)) resolved s4 = (Inr snap, s')"
    by (auto split: sum.splits)
  from u(2) have "\<not> stw_empty_unconfirmed s4" by (cases rule: finish_run_cases) auto
  then have ok_true: ok
    using unconfirmed_persist [OF reached(7) [unfolded u(1)]]
      keeps_eq [OF unconfirmed_frame.frame_provenance reached(5)] keeps_eq [OF unconfirmed_frame.frame_resolve reached(6)] ok(2)
    by simp
  have "empty_justified (scl_steam_id d) s0"
    by (rule confirm_sound [of d s0 s5]) (use conf ok(1) ok_true d assms(2) in auto)
  with reached(2,3) d show ?thesis by (simp add: empty_justified_def steam_tables_def cong: option.case_cong)
qed simp

text \<open>Two worlds for the witnesses: one stored item, without and with the probe of an earlier sighting.\<close>

definition quiet_client :: steam_client where
  "quiet_client = \<lparr>scl_steam_id = ''76'', scl_api_key = [], scl_session = [], scl_refresh_token = [], scl_max_pages = 2,
     scl_price_ttl = 20 * dur_minute, scl_currency = 1, scl_history_budget = 0, scl_min_item_value = Fin 10,
     scl_cache_namespace = [], scl_auth = False, scl_store = True, scl_cursors = True, scl_price_history = False,
     scl_prices = None\<rparr>"

definition empty_page :: inventory_page where
  "empty_page = \<lparr>ipg_assets = [], ipg_descriptions = [], ipg_more_items = JBool False, ipg_last_asset_id = JNull,
     ipg_total_count = 0, ipg_success = JBool True\<rparr>"

definition empty_steam :: steam_remote where
  "empty_steam = \<lparr>srm_auth = None, srm_inventory = (\<lambda>_ _. Inr empty_page),
     srm_history = (\<lambda>_ _. Inl (ErrText ''unused'')), srm_market = (\<lambda>_ _. Inl (ErrText ''unused'')),
     srm_trades = (\<lambda>_ _ _. Inl (ErrText ''unused'')), srm_encode = (\<lambda>_. Some ''{}''),
     srm_decode = (\<lambda>_. (zero_cursor, True)), srm_trade_json = (\<lambda>_. ''[]'')\<rparr>"

definition one_item_world :: steam_world where
  "one_item_world = redis_world.extend (steam_db.extend
     (db.extend (empty_db\<lparr>db_clock := (\<lambda>n. 100 * dur_second)\<rparr>)
       (steam_db.fields [\<lparr>ssn_id = ''steam:76:1'', ssn_steam_id = ''76'', ssn_taken_at = 1, ssn_complete = True\<rparr>]
         [\<lparr>sar_asset_id = ''a1'', sar_class_id = ''c'', sar_instance_id = ''0'', sar_market_hash_name = ''Case'',
           sar_amount = 1, sar_snapshot_id = ''steam:76:1''\<rparr>] [] [] [] [] []))
     (redis_world.fields False [] 0 (\<lambda>_. None) (\<lambda>_. False)))
     (steam_world.fields 0 (\<lambda>_ _. Inl (ErrText ''unused'')) (\<lambda>_ _. Inl (ErrText ''unused'')) 0 0 [] False False)"

definition probed_world :: steam_world where
  "probed_world = one_item_world\<lparr>db_cursors := [\<lparr>scu_scope = ''steam-empty-probe:76'',
     scu_position = ''0001-01-01T00:00:50Z'', scu_complete = False, scu_updated_at = 50 * dur_second\<rparr>]\<rparr>"

definition no_provenance :: provenance where
  "no_provenance = \<lparr>prv_events = [], prv_market = [], prv_trades = [],
     prv_outcomes = \<lparr>pos_history = no_outcome, pos_market = no_outcome, pos_trades = no_outcome\<rparr>\<rparr>"

definition start_run :: "steam_world \<Rightarrow> steam_world" where
  "start_run w = w\<lparr>db_ticks := Suc (db_ticks w), stw_price_fails := 0, stw_empty_unconfirmed := False\<rparr>"
definition after_reads :: "steam_world \<Rightarrow> steam_world" where
  "after_reads w = snd (resolve_run quiet_client [] no_provenance (100 * dur_second)
     (snd (read_provenance quiet_client empty_steam (100 * dur_second)
       (snd (read_inventory quiet_client empty_steam (start_run w))))))"
definition after_persist :: "bool \<Rightarrow> steam_world \<Rightarrow> steam_world" where
  "after_persist whole w = snd (persistProvenance quiet_client empty_steam [] whole (prv_outcomes no_provenance)
     (100 * dur_second) [] [] [] [] [] (after_reads w))"

lemma fst_snd: "fst p = x \<Longrightarrow> p = (x, snd p)"
  by (cases p) simp

lemma quiet_run:
  assumes "db_clock w (db_ticks w) = 100 * dur_second"
    and inv: "fst (read_inventory quiet_client empty_steam (start_run w)) = Inr ([], True)"
    and prv: "fst (read_provenance quiet_client empty_steam (100 * dur_second)
      (snd (read_inventory quiet_client empty_steam (start_run w)))) = Inr no_provenance"
    and res: "fst (resolve_run quiet_client [] no_provenance (100 * dur_second)
     (snd (read_provenance quiet_client empty_steam (100 * dur_second)
       (snd (read_inventory quiet_client empty_steam (start_run w)))))) = Inr ([], [], [])"
    and u: "stw_empty_unconfirmed (after_reads w) = u"
    and per: "fst (persistProvenance quiet_client empty_steam [] (\<not> u) (prv_outcomes no_provenance)
     (100 * dur_second) [] [] [] [] [] (after_reads w)) = Inr ()"
  shows "Fetch quiet_client empty_steam w =
    finish_run quiet_client (100 * dur_second) True True [] (after_persist (\<not> u) w)"
proof -
  have txc: "tx_complete quiet_client True (prv_outcomes no_provenance) = True" by code_simp
  have pv: "prv_market no_provenance = []" "prv_trades no_provenance = []" by (simp_all add: no_provenance_def)
  have cfg: "trim_space (scl_steam_id quiet_client) \<noteq> []" "ensureAuth quiet_client empty_steam = Inr quiet_client"
    by code_simp+
  have per': "persistProvenance quiet_client empty_steam [] (True \<and> \<not> stw_empty_unconfirmed (after_reads w))
      (prv_outcomes no_provenance) (100 * dur_second) [] (prv_market no_provenance) (prv_trades no_provenance) [] []
      (after_reads w) = (Inr (), after_persist (\<not> u) w)"
    using fst_snd [OF per] by (simp add: pv u after_persist_def)
  note run = Fetch_run [OF cfg assms(1) fst_snd [OF inv, unfolded start_run_def]
      fst_snd [OF prv, unfolded start_run_def] fst_snd [OF res, unfolded start_run_def]
      per' [unfolded after_reads_def start_run_def]]
  show ?thesis using run by (simp only: txc)
qed

theorem emptied_inventory_needs_two_sightings_witness:
  "\<exists>snap s'. Fetch quiet_client empty_steam probed_world = (Inr snap, s') \<and> empty_justified ''76'' probed_world"
proof -
  let ?s4 = "after_persist (\<not> False) probed_world"
  obtain r s' where fin: "finish_run quiet_client (100 * dur_second) True True [] ?s4 = (r, s')" by fastforce
  have run: "Fetch quiet_client empty_steam probed_world = (r, s')"
    unfolding fin [symmetric] by (rule quiet_run) code_simp+
  have flag: "stw_empty_unconfirmed ?s4 = False" by code_simp
  from fin obtain snap where "r = Inr snap"
    by (cases rule: finish_run_cases) (use flag in auto)
  with run have ok: "Fetch quiet_client empty_steam probed_world = (Inr snap, s')" by simp
  have "fetchInventory (scl_max_pages quiet_client) (srm_inventory empty_steam) = ([], True, None)"
    "scl_store quiet_client" "scl_steam_id quiet_client = ''76''" by code_simp+
  with emptied_inventory_needs_two_sightings [OF this(1,2) ok] ok show ?thesis by simp
qed

text \<open>The probe of an unconfirmed run is written and read back.\<close>

lemma empty_probe_found:
  fixes s :: "'x steam_world_scheme"
  assumes "no_faults s" and "scl_cursors c"
    and "find_row scu_scope (steamCursorScope cursorScopeEmptyProbe (scl_steam_id c)) (db_cursors s) = Some cur"
    and "parse_rfc3339 (scu_position cur) = Some pt" and "pt \<noteq> 0" and "taken \<le> pt"
  shows "fst (empty_probe c taken s) = Inr True"
  using assms by (simp add: empty_probe_def bind_eff_apply attempt_apply cursor_get_def wrap_err_def reading_def ret_def)

lemma probe_recorded:
  fixes s s' :: "'x steam_world_scheme"
  assumes "no_faults s" and "scl_cursors c" and "record_empty_probe c now s = (r, s')" and "now \<noteq> 0"
  shows "\<exists>cur. find_row scu_scope (steamCursorScope cursorScopeEmptyProbe (scl_steam_id c)) (db_cursors s') = Some cur \<and>
    scu_position cur = format_rfc3339 now"
proof -
  let ?new = "\<lparr>scu_scope = steamCursorScope cursorScopeEmptyProbe (scl_steam_id c),
    scu_position = format_rfc3339 now, scu_complete = False, scu_updated_at = now\<rparr>"
  have "db_cursors s' = upsert_row scu_scope cursor_conflict ?new (db_cursors s)"
    using assms by (auto simp: record_empty_probe_def bind_eff_apply attempt_apply cursor_set_def time_now_def
        wrap_err_def writing_def ret_def Let_def)
  moreover have "find_row scu_scope (scu_scope ?new) (upsert_row scu_scope cursor_conflict ?new (db_cursors s)) =
      Some (case find_row scu_scope (scu_scope ?new) (db_cursors s) of None \<Rightarrow> ?new | Some old \<Rightarrow> cursor_conflict old ?new)"
    by (rule cur_table.find_upsert_same)
  ultimately show ?thesis by (simp add: cursor_conflict_def split: option.split)
qed

lemma confirm_complete:
  fixes s :: "'x steam_world_scheme"
  assumes ok: "no_faults s" and cur: "scl_cursors c"
    and row: "find_row scu_scope (steamCursorScope cursorScopeEmptyProbe (scl_steam_id c)) (db_cursors s) = Some cur"
      "parse_rfc3339 (scu_position cur) = Some pt" "pt \<noteq> 0"
    and age: "\<And>p. latest_complete (scl_steam_id c) (sdb_snapshots s) = Some p \<Longrightarrow> ssn_taken_at p \<le> pt"
  shows "fst (confirmEmptyInventory c s) = Inr True"
proof (cases "scl_store c")
  case True
  obtain r s1 where snap: "latest_snapshot (scl_steam_id c) s = (r, s1)" by fastforce
  have f: "keeps db_fault (latest_snapshot (scl_steam_id c) :: ('x steam_world_scheme, steam_inventory_snapshot) eff)"
    by (rule fault_frame.frame_snapshot_reads(1))
  have ok1: "no_faults s1" using keeps_eq [OF f snap] ok by (simp add: no_faults_def)
  note res = latest_snapshot_result [OF snap]
  show ?thesis
  proof (cases r)
    case (Inl e)
    then have "e = ErrNotFound"
      using latest_snapshot_no_faults [OF ok, of "scl_steam_id c"] snap by (auto split: option.splits)
    with Inl snap True show ?thesis by (simp add: confirmEmptyInventory_def bind_eff_apply attempt_apply ret_def)
  next
    case (Inr prev)
    with res age obtain "ssn_taken_at prev \<le> pt" "db_cursors s1 = db_cursors s" by auto
    with empty_probe_found [OF ok1 cur _ row(2,3)] row(1) Inr snap True show ?thesis
      by (simp add: confirmEmptyInventory_def bind_eff_apply attempt_apply ret_def)
  qed
qed (simp add: confirmEmptyInventory_def ret_def)

lemma nf_empty_probe: "never_fails (empty_probe c taken)"
  unfolding empty_probe_def by (intro nf_intros)

lemma read_inventory_error:
  assumes "fetchInventory (scl_max_pages c) (srm_inventory rm) = ([], True, None)"
    and "read_inventory c rm s = (Inl e, s')"
  shows "e \<noteq> emptyUnconfirmed"
proof -
  obtain rc s1 where conf: "confirmEmptyInventory c s = (rc, s1)" by fastforce
  from assms conf have "rc = Inl e"
    by (auto simp: read_inventory_def bind_eff_apply seq_eff_apply writing_def ret_def split: sum.splits)
  with conf never_failsD [OF nf_empty_probe] show ?thesis
    by (fastforce simp: confirmEmptyInventory_def bind_eff_apply attempt_apply ret_def raise_def emptyUnconfirmed_def
        split: if_splits sum.splits prod.splits)
qed

lemma faults_persist: "keeps db_fault (persistProvenance c rm items whole out now events txs trades resolved unmatched)"
proof -
  note cf = cursors_write.write_snapshot cursors_write.write_rows cursors_write.write_evidence
  have "keeps db_fault m" if "keeps (\<lambda>s. (db_cursors s, db_fault s)) m" for m :: "('x steam_world_scheme, 'y) eff"
    using that by (simp add: keeps_def)
  then show ?thesis unfolding persistProvenance_def
    by (intro keep_intros fault_frame.frame_stage) (auto intro: cf)
qed

text \<open>
  A genuinely emptied inventory is believed at the next sighting. When no statement fails
  and a run stops because an empty inventory is unconfirmed, then the check of the following run
  confirms it, provided the newest complete snapshot is not younger than the whole second of the
  run's clock, in which the probe is recorded. An account cannot be stuck in the refusal.
\<close>

theorem second_sighting_is_believed:
  fixes s s' :: "'x steam_world_scheme"
  defines "now \<equiv> db_clock s (db_ticks s)"
  assumes empty: "fetchInventory (scl_max_pages c) (srm_inventory rm) = ([], True, None)"
    and settings: "trim_space (scl_steam_id c) \<noteq> []" "srm_auth rm = None" "scl_cursors c"
    and ok: "no_faults s" and run: "Fetch c rm s = (Inl emptyUnconfirmed, s')"
    and clock: "0 \<le> time_year now" "time_year now \<le> 9999" "dur_second \<le> now"
    and age: "\<And>p. latest_complete (scl_steam_id c) (sdb_snapshots s) = Some p \<Longrightarrow>
      ssn_taken_at p \<le> now - now mod dur_second"
  shows "fst (confirmEmptyInventory c s') = Inr True"
  using run
proof (cases rule: Fetch_steps)
  case (early e)
  have "\<not> isl (ensureAuth c rm)" using settings(2) by (simp add: ensureAuth_def)
  with early settings(1) obtain d s0 where "same_settings c d" "read_inventory d rm s0 = (Inl emptyUnconfirmed, s')"
    by auto
  with read_inventory_error [of d rm s0] same_settingsD [of c d] empty show ?thesis by auto
next
  case (reached d now' s0 items whole s1 pv s2 events resolved unmatched s3 p s4)
  note d = same_settingsD [OF reached(1)]
  have now': "now' = now" using reached(3) by (simp add: now_def)
  have "no_faults s0" using reached(3) ok by (simp add: no_faults_def)
  then have ok4: "no_faults s4"
    using keeps_eq [OF fault_frame.frame_inventory reached(4)] keeps_eq [OF fault_frame.frame_provenance reached(5)]
      keeps_eq [OF fault_frame.frame_resolve reached(6)] keeps_eq [OF faults_persist reached(7)]
    by (simp add: no_faults_def)
  have "e \<noteq> emptyUnconfirmed" if "p = Inl e" for e
    using reached(7) that by (auto simp: persistProvenance_def seq_eff_apply wrap_err_def emptyUnconfirmed_def ret_def
        bind_eff_apply attempt_apply dest!: never_failsD [OF nf_save_evidence] never_failsD [OF nf_stage_cursors]
        split: if_splits prod.splits sum.splits)
  with reached(9) obtain u where u: "p = Inr u"
    "finish_run d now' whole (tx_complete d whole (prv_outcomes pv)) resolved s4 = (Inl emptyUnconfirmed, s')"
    by (auto split: sum.splits)
  from u(2) have end': "stw_empty_unconfirmed s4" "record_empty_probe d now s4 = (Inr (), s')"
    by (cases rule: finish_run_cases; simp add: now')+
  from end'(1) unconfirmed_persist [OF reached(7) [unfolded u(1)]] have "stw_empty_unconfirmed s3" by simp
  with reached(7) have "baseline s4 = baseline s3" using persist_partial by (metis (full_types))
  then have "baseline s' = baseline s"
    using baseline_of_tables [OF finish_tables [OF u(2)]] baseline_of_tables [OF reached(8)] by simp
  then have base: "latest_complete i (sdb_snapshots s') = latest_complete i (sdb_snapshots s)" for i
    by (simp add: baseline_def fun_eq_iff)
  have ok': "no_faults s'" using keeps_eq [OF fault_frame.frame_finish u(2)] ok4 by (simp add: no_faults_def)
  obtain cur where cur: "find_row scu_scope (steamCursorScope cursorScopeEmptyProbe (scl_steam_id c)) (db_cursors s') = Some cur"
      "scu_position cur = format_rfc3339 now"
    using probe_recorded [OF ok4 _ end'(2)] settings(3) d clock(3) by auto
  show ?thesis
  proof (rule confirm_complete [OF ok' settings(3) cur(1)])
    show "parse_rfc3339 (scu_position cur) = Some (now - now mod dur_second)"
      unfolding cur(2) by (rule parse_rfc3339_format [OF clock(1,2)])
    show "now - now mod dur_second \<noteq> 0"
      using clock(3) pos_mod_bound [of dur_second now] by simp
  qed (use age base in simp)
qed

theorem second_sighting_is_believed_witness:
  "\<exists>s'. Fetch quiet_client empty_steam one_item_world = (Inl emptyUnconfirmed, s') \<and>
     fst (confirmEmptyInventory quiet_client s') = Inr True"
proof -
  let ?s4 = "after_persist (\<not> True) one_item_world"
  obtain r s' where fin: "finish_run quiet_client (100 * dur_second) True True [] ?s4 = (r, s')" by fastforce
  have run: "Fetch quiet_client empty_steam one_item_world = (r, s')"
    unfolding fin [symmetric] by (rule quiet_run) code_simp+
  have flag: "stw_empty_unconfirmed ?s4 = True" by code_simp
  from fin have "r = Inl emptyUnconfirmed"
    by (cases rule: finish_run_cases) (use flag in auto)
  with run have stopped: "Fetch quiet_client empty_steam one_item_world = (Inl emptyUnconfirmed, s')" by simp
  have "fst (confirmEmptyInventory quiet_client s') = Inr True"
  proof (rule second_sighting_is_believed [OF _ _ _ _ _ stopped])
    show "fetchInventory (scl_max_pages quiet_client) (srm_inventory empty_steam) = ([], True, None)"
      "trim_space (scl_steam_id quiet_client) \<noteq> []" "srm_auth empty_steam = None" "scl_cursors quiet_client"
      "0 \<le> time_year (db_clock one_item_world (db_ticks one_item_world))"
      "time_year (db_clock one_item_world (db_ticks one_item_world)) \<le> 9999"
      "dur_second \<le> db_clock one_item_world (db_ticks one_item_world)" by code_simp+
    show "no_faults one_item_world"
      by (simp add: no_faults_def one_item_world_def empty_db_def redis_world.defs steam_db.defs db.defs)
    fix p assume "latest_complete (scl_steam_id quiet_client) (sdb_snapshots one_item_world) = Some p"
    moreover have "map_option ssn_taken_at (latest_complete (scl_steam_id quiet_client) (sdb_snapshots one_item_world)) = Some 1"
      "(1::int) \<le> db_clock one_item_world (db_ticks one_item_world) - db_clock one_item_world (db_ticks one_item_world) mod dur_second"
      by code_simp+
    ultimately show "ssn_taken_at p \<le> db_clock one_item_world (db_ticks one_item_world)
        - db_clock one_item_world (db_ticks one_item_world) mod dur_second" by simp
  qed
  with stopped show ?thesis by blast
qed

end
