(* ===== verification/Steam_Evidence.thy ===== *)
theory Steam_Evidence
  imports Steam_Safety
begin

text \<open>
  The evidence a Steam run keeps: which acquisition records stand behind an event that counts as
  used, what the merge of fresh and stored evidence serves, and which walk positions are staged
  after the rows of a source were or were not written.
\<close>

section \<open>Events and the records they became\<close>

definition matched_in :: "string \<times> string \<Rightarrow> 'x steam_db_scheme \<Rightarrow> bool" where
  "matched_in k s \<longleftrightarrow> (\<exists>e. event_row k s = Some e \<and> sev_matched e)"

lemma matched_upsert:
  assumes "find_row event_key k (upsert_row event_key keep_old new t) = Some e" "sev_matched e" "\<not> sev_matched new"
  shows "find_row event_key k t = Some e"
proof (cases "find_row event_key k t")
  case None
  with assms event_table.find_upsert_same [of new t] event_table.find_upsert_other [of k new t] show ?thesis
    by (cases "k = event_key new") auto
next
  case (Some old)
  with find_upsert_keep_old [OF Some] assms(1) show ?thesis by simp
qed

lemma record_events_matched:
  fixes s s' :: "'x steam_db_scheme"
  assumes "record_events i evs s = (r, s')" and "\<forall>ev\<in>set evs. \<not> sev_matched ev"
  shows "matched_in k s' \<Longrightarrow> matched_in k s"
  using assms unfolding record_events_def
proof (induction evs arbitrary: s)
  case (Cons ev evs)
  obtain r1 s1 where one: "record_event i ev s = (r1, s1)" by fastforce
  let ?new = "steam_event_row.extend (ev\<lparr>sev_quantity := default_one (sev_quantity ev)\<rparr>) (steam_event_po.fields i)"
  have new: "\<not> sev_matched ?new" using Cons.prems(3) by (simp add: steam_event_row.defs)
  have "sdb_events s1 = sdb_events s \<or> sdb_events s1 = upsert_row event_key keep_old ?new (sdb_events s)"
    using one by (auto simp: record_event_def wrap_err_def exec_sql_def Let_def writing_def split: option.splits)
  then have "matched_in k s1 \<Longrightarrow> matched_in k s"
    unfolding matched_in_def event_row_def using matched_upsert [OF _ _ new] by metis
  with Cons one show ?case by (auto simp: seq_eff_apply split: sum.splits)
qed (simp add: ret_def)

lemma events_kept:
  "keeps sdb_events (save_lots i lots)" "keeps sdb_events (save_acquisitions i as)"
  "keeps sdb_events (save_market_transactions i txs)" "keeps sdb_events (save_trades i trs)"
proof -
  have l: "keeps sdb_events (\<lambda>s. case insert_rows lot_key [l] (sdb_lots s) of
      Inl e \<Rightarrow> (Inl e, s) | Inr t \<Rightarrow> (Inr (), s\<lparr>sdb_lots := t\<rparr>))" for l
    by (auto simp: keeps_def split: sum.split)
  show "keeps sdb_events (save_lots i lots)"
    unfolding save_lots_def by (intro table_rules l; simp add: restore_steam_def)
  show "keeps sdb_events (save_acquisitions i as)"
    unfolding save_acquisitions_def save_acquisition_def write_acquisition_def
    by (intro table_rules; simp add: restore_steam_def)
  show "keeps sdb_events (save_market_transactions i txs)" "keeps sdb_events (save_trades i trs)"
    unfolding save_market_transactions_def save_trades_def by (intro table_rules; simp)+
qed

lemma save_acquisitions_stored:
  fixes s s' :: "'x steam_db_scheme"
  assumes "save_acquisitions i as s = (Inr (), s')" and "a \<in> set as"
  shows "\<exists>new. acquisition_row (i, saq_asset_id a) s' = Some new \<and> as_strong new a"
  using assms(1) unfolding save_acquisitions_def
proof (cases rule: steam_tx_cases)
  case (3 w)
  from save_acquisitions_loop [OF 3(2)] assms(2) 3(3) show ?thesis by simp
qed simp_all

text \<open>\<open>save_evidence\<close> marks events only after the acquisition records were written.\<close>

lemma save_evidence_marks:
  fixes s s' :: "'x steam_world_scheme"
  assumes run: "save_evidence c whole events resolved unmatched s = (r, s')"
    and marked: "sdb_events s' \<noteq> sdb_events s" and res: "res \<in> set resolved"
  shows "\<exists>new. acquisition_row (scl_steam_id c, itm_asset_id (rsl_asset res)) s' = Some new \<and>
    as_strong new (acquisition_row_of res)"
proof -
  obtain u s1 where lots: "(if whole then bind_eff (attempt (save_lots (scl_steam_id c) (toLotRows (buildLots resolved)))) (\<lambda>_. ret ())
      else ret ()) s = (u, s1)" by fastforce
  have k1: "keeps sdb_events (if whole then bind_eff (attempt (save_lots (scl_steam_id c) (toLotRows (buildLots resolved)))) (\<lambda>_. ret ())
      else ret ())" by (intro keep_intros events_kept)
  obtain r2 s2 where acq: "save_acquisitions (scl_steam_id c) (map acquisition_row_of resolved) s1 = (r2, s2)" by fastforce
  have "never_fails (if whole then bind_eff (attempt (save_lots (scl_steam_id c) (toLotRows (buildLots resolved)))) (\<lambda>_. ret ())
      else ret ())" by (intro nf_intros)
  from never_failsD [OF this lots] have u: "u = Inr ()" by simp
  have same: "sdb_events s2 = sdb_events s"
    using keeps_eq [OF k1 lots] keeps_eq [OF events_kept(2) acq] by simp
  show ?thesis
  proof (cases r2)
    case (Inl e)
    with run lots u acq have "s' = s2" by (simp add: save_evidence_def seq_eff_apply bind_eff_apply attempt_apply ret_def)
    with same marked show ?thesis by simp
  next
    case (Inr x)
    have ka: "keeps sdb_acquisitions (mark_events_matched i ids)" for i ids
      unfolding mark_events_matched_def by (intro table_rules; simp)
    obtain r3 s3 where mark: "mark_events_matched (scl_steam_id c) (matched_ids events unmatched) s2 = (r3, s3)" by fastforce
    with run lots u acq Inr have "s' = s3"
      by (simp add: save_evidence_def seq_eff_apply bind_eff_apply attempt_apply ret_def)
    then have "sdb_acquisitions s' = sdb_acquisitions s2" using keeps_eq [OF ka mark] by simp
    moreover have "\<exists>new. acquisition_row (scl_steam_id c, itm_asset_id (rsl_asset res)) s2 = Some new \<and>
        as_strong new (acquisition_row_of res)"
      using save_acquisitions_stored [of "scl_steam_id c" "map acquisition_row_of resolved" s1 s2 "acquisition_row_of res"]
        acq Inr res by (simp add: acquisition_row_of_def)
    ultimately show ?thesis by (simp add: acquisition_row_def)
  qed
qed

text \<open>
  C25. An event counts as used only when its evidence is durable. If after
  \<open>persistProvenance\<close>, whatever statement failed in it, an event is marked as matched that was
  not marked before, then for every resolution of the run the acquisition table holds a record
  at least as strong: the same or a higher confidence, and at the same confidence at least as
  many of timestamp, cost and reference. So evidence beyond the reach of the next walk is never
  given up before it was stored.
\<close>

theorem matched_events_have_stored_evidence:
  fixes s s' :: "'x steam_world_scheme"
  assumes run: "persistProvenance c rm items whole out now events txs trades resolved unmatched s = (r, s')"
    and matched: "matched_in k s'" "\<not> matched_in k s" and res: "res \<in> set resolved"
  shows "\<exists>new. acquisition_row (scl_steam_id c, itm_asset_id (rsl_asset res)) s' = Some new \<and>
    as_strong new (acquisition_row_of res)"
proof (cases "scl_store c")
  case False
  with run matched show ?thesis by (simp add: persistProvenance_def ret_def)
next
  case True
  from True run show ?thesis
  proof (cases rule: persist_steps)
    case (failed e)
    then have "sdb_events s' = sdb_events s" by (simp add: steam_tables_def)
    with matched show ?thesis by (simp add: matched_in_def event_row_def)
  next
    case (saved s1 ew s2 mw s3 tw s4 s5)
    from saved(1) have "sdb_events s1 = sdb_events s"
      by (cases rule: save_snapshot_cases) (simp_all add: restore_steam_def)
    then have "\<not> matched_in k s1" using matched(2) by (simp add: matched_in_def event_row_def)
    then have "\<not> matched_in k s2"
      using record_events_matched [OF saved(2), of k] by (auto simp: event_row_of_def)
    moreover have "sdb_events s4 = sdb_events s2"
      using keeps_eq [OF events_kept(3) saved(3)] keeps_eq [OF events_kept(4) saved(4)] by simp
    moreover have tables: "steam_tables s' = steam_tables s5" by (rule keeps_eq [OF steam_frame.frame_stage saved(6)])
    ultimately have "sdb_events s5 \<noteq> sdb_events s4"
      using matched(1) by (auto simp: matched_in_def event_row_def steam_tables_def)
    from save_evidence_marks [OF saved(5) this res] tables show ?thesis
      by (simp add: acquisition_row_def steam_tables_def)
  qed
qed

definition traded_case :: inventory_item where
  "traded_case = \<lparr>itm_asset_id = ''a2'', itm_class_id = ''c'', itm_instance_id = ''0'', itm_amount = 1,
     itm_market_hash_name = ''Case'', itm_marketable = True, itm_tradable = True, itm_name = ''Case'', itm_type = [],
     itm_tags = [], itm_has_description = True\<rparr>"

definition traded_event :: history_event where
  "traded_event = \<lparr>hev_external_id = ''e1'', hev_timestamp = 7, hev_kind = EventTraded, hev_market_hash_name = ''Case'',
     hev_quantity = 1, hev_asset_id = ''a2'', hev_class_id = [], hev_instance_id = []\<rparr>"

theorem matched_events_have_stored_evidence_witness:
  "\<exists>r s' res. resolve [traded_case] (Some (\<lambda>_. False)) [traded_event] [] [] 9 = ([res], []) \<and>
     persistProvenance quiet_client empty_steam [traded_case] True (prv_outcomes no_provenance) 9 [traded_event] [] []
       [res] [] one_item_world = (r, s') \<and>
     matched_in (''76'', ''e1'') s' \<and>
     (\<exists>new. acquisition_row (''76'', ''a2'') s' = Some new \<and> as_strong new (acquisition_row_of res))"
proof -
  let ?res = "hd (fst (resolve [traded_case] (Some (\<lambda>_. False)) [traded_event] [] [] 9))"
  let ?p = "persistProvenance quiet_client empty_steam [traded_case] True (prv_outcomes no_provenance) 9 [traded_event] [] []
       [?res] [] one_item_world"
  have res: "resolve [traded_case] (Some (\<lambda>_. False)) [traded_event] [] [] 9 = ([?res], [])" by code_simp
  have m: "matched_in (''76'', ''e1'') (snd ?p)"
  proof -
    have "map_option sev_matched (event_row (''76'', ''e1'') (snd ?p)) = Some True" by code_simp
    then show ?thesis by (auto simp: matched_in_def)
  qed
  have "event_row (''76'', ''e1'') one_item_world = None" by code_simp
  then have "\<not> matched_in (''76'', ''e1'') one_item_world" by (simp add: matched_in_def)
  from matched_events_have_stored_evidence [OF surjective_pairing m this, of ?res]
  have "\<exists>new. acquisition_row (scl_steam_id quiet_client, itm_asset_id (rsl_asset ?res)) (snd ?p) = Some new \<and>
    as_strong new (acquisition_row_of ?res)" by simp
  moreover have "scl_steam_id quiet_client = ''76''" "itm_asset_id (rsl_asset ?res) = ''a2''" by code_simp+
  ultimately show ?thesis using res m surjective_pairing by metis
qed

section \<open>Served and stored evidence\<close>

type_synonym evidence = "time option \<times> string \<times> string \<times> f64 option \<times> string \<times> string \<times> string"

definition row_evidence :: "'y steam_acquisition_row_scheme \<Rightarrow> evidence" where
  "row_evidence a = (saq_acquired_at a, saq_type a, saq_reference a, saq_cost_basis a, saq_cost_currency a,
     saq_match_method a, saq_match_confidence a)"

definition resolution_evidence :: "resolution \<Rightarrow> evidence" where
  "resolution_evidence r = (rsl_acquired_at r, rsl_type r, rsl_reference r, rsl_cost_basis r, rsl_cost_currency r,
     rsl_match_method r, rsl_match_confidence r)"

lemma row_of_evidence: "row_evidence (acquisition_row_of r) = resolution_evidence r"
  by (simp add: row_evidence_def resolution_evidence_def acquisition_row_of_def)

lemma rank_is_rank: "acquisitionRank c = confidenceRank c"
  by (simp add: acquisitionRank_def confidenceRank_def match_consts)

lemma score_is_score: "fresh_score r = evidence_score (acquisition_row_of r)" "stored_score a = evidence_score a"
  by (simp_all add: fresh_score_def stored_score_def acquisitionEvidenceScore_def evidence_score_def acquisition_row_of_def)

text \<open>
  The merge in memory follows the rule of the table: the fresh evidence stays exactly when the
  table would accept it.
\<close>

lemma merge_follows_table:
  assumes "byAsset (itm_asset_id (rsl_asset r)) = Some st" "saq_match_confidence st \<notin> {[], MatchUnresolved}"
  shows "apply_stored byAsset r = (if as_strong (acquisition_row_of r) st then r else refill st r)"
proof -
  have "saq_match_confidence (acquisition_row_of r) = rsl_match_confidence r" by (simp add: acquisition_row_of_def)
  with assms show ?thesis
    by (auto simp: apply_stored_def as_strong_def rank_is_rank score_is_score Let_def)
qed

lemma merged_is_accepted:
  assumes "byAsset (itm_asset_id (rsl_asset r)) = Some st" "saq_match_confidence st \<notin> {[], MatchUnresolved}"
  shows "as_strong (acquisition_row_of (apply_stored byAsset r)) st"
proof (cases "as_strong (acquisition_row_of r) st")
  case False
  have "saq_match_confidence (acquisition_row_of (refill st r)) = saq_match_confidence st"
    "evidence_score (acquisition_row_of (refill st r)) = evidence_score st"
    by (simp_all add: acquisition_row_of_def refill_def evidence_score_def)
  with False show ?thesis by (simp add: merge_follows_table [of byAsset r st, OF assms] as_strong_def)
qed (simp add: merge_follows_table [of byAsset r st, OF assms])

lemma save_acquisition_exact:
  fixes s s' :: "'x steam_db_scheme"
  assumes "save_acquisition i a s = (Inr (), s')"
    and "\<And>old. acquisition_row (i, saq_asset_id a) s = Some old \<Longrightarrow> as_strong a old"
  shows "\<exists>new. acquisition_row (i, saq_asset_id a) s' = Some new \<and> row_evidence new = row_evidence a"
proof -
  let ?k = "(i, saq_asset_id a)"
  let ?s1 = "s\<lparr>db_ops := Suc (db_ops s)\<rparr>"
  from read_bind_InrD [OF assms(1) [unfolded save_acquisition_def]]
  have rest: "(case acquisition_row ?k s of
          Some existing \<Rightarrow>
            if confidenceRank (saq_match_confidence existing) > confidenceRank (saq_match_confidence a)
            then ret ()
            else if confidenceRank (saq_match_confidence existing) =
                confidenceRank (saq_match_confidence a) \<and> \<not> strongerOrEqualAcquisition existing a
            then ret ()
            else write_acquisition i a
        | None \<Rightarrow> write_acquisition i a) ?s1 = (Inr (), s')" by (simp add: acquisition_row_def)
  have w: "write_acquisition i a ?s1 = (Inr (), s')"
  proof (cases "acquisition_row ?k s")
    case (Some old)
    with rest assms(2) [OF Some] show ?thesis by (auto simp: as_strong_def strongerOrEqualAcquisition_def)
  qed (use rest in simp)
  have "row_evidence (steam_acquisition_row.extend a x) = row_evidence a"
    "row_evidence (acquisition_conflict old (steam_acquisition_row.extend a x)) = row_evidence a" for x old
    by (simp_all add: row_evidence_def acquisition_conflict_def steam_acquisition_row.defs)
  with write_acquisition_row(1) [OF w] show ?thesis by (simp split: option.split)
qed

lemma save_loop_exact:
  fixes s s' :: "'x steam_db_scheme"
  assumes "for_each (save_acquisition i) as s = (Inr (), s')" and "distinct (map saq_asset_id as)"
    and "\<And>a old. a \<in> set as \<Longrightarrow> acquisition_row (i, saq_asset_id a) s = Some old \<Longrightarrow> as_strong a old"
  shows "\<forall>a\<in>set as. \<exists>new. acquisition_row (i, saq_asset_id a) s' = Some new \<and> row_evidence new = row_evidence a"
  using assms
proof (induction as arbitrary: s)
  case (Cons a as)
  obtain s1 where one: "save_acquisition i a s = (Inr (), s1)" and loop: "for_each (save_acquisition i) as s1 = (Inr (), s')"
    using Cons.prems(1) by (auto simp: seq_eff_apply split: prod.splits sum.splits)
  have other: "acquisition_row (i, saq_asset_id b) s1 = acquisition_row (i, saq_asset_id b) s" if "b \<in> set as" for b
  proof (rule save_acquisition_step(2) [OF one])
    show "(i, saq_asset_id b) \<noteq> (i, saq_asset_id a)" using that Cons.prems(2) by (auto simp: image_iff)
  qed
  have rest: "\<forall>b\<in>set as. \<exists>new. acquisition_row (i, saq_asset_id b) s' = Some new \<and> row_evidence new = row_evidence b"
    by (rule Cons.IH [OF loop]) (use Cons.prems(2,3) other in auto)
  have "acquisition_row (i, saq_asset_id a) s' = acquisition_row (i, saq_asset_id a) s1"
  proof (rule conjunct2 [OF conjunct2 [OF save_acquisitions_loop [OF loop]], rule_format])
    show "(i, saq_asset_id a) \<notin> (\<lambda>a. (i, saq_asset_id a)) ` set as" using Cons.prems(2) by (auto simp: image_iff)
  qed
  with rest save_acquisition_exact [OF one] Cons.prems(3) show ?case by auto
qed simp

lemma merge_row:
  fixes t :: "steam_acquisition_po list"
  assumes u: "unique_keys acquisition_key t" and ids: "i \<in> set ids"
  shows "map_of (rev (map (\<lambda>a. (saq_asset_id a, a)) (map steam_acquisition_row.truncate
      (filter (\<lambda>a. saq_steam_id a = sid \<and> saq_asset_id a \<in> set ids) t)))) i =
    map_option steam_acquisition_row.truncate (find_row acquisition_key (sid, i) t)"
  using u
proof (induction t)
  case (Cons a t)
  have ut: "unique_keys acquisition_key t" and new: "acquisition_key a \<notin> acquisition_key ` set t"
    using Cons.prems by (auto simp: unique_keys_def)
  show ?case
  proof (cases "acquisition_key a = (sid, i)")
    case True
    then have "find_row acquisition_key (sid, i) t = None"
      using new by (auto simp: find_row_def find_None_iff image_iff)
    with True Cons.IH [OF ut] ids show ?thesis
      by (simp add: acquisition_key_def find_row_def map_add_def steam_acquisition_row.defs)
  next
    case False
    with Cons.IH [OF ut] show ?thesis
      by (auto simp: acquisition_key_def find_row_def map_add_def steam_acquisition_row.defs split: option.split)
  qed
qed (simp add: find_row_def)


definition graded_world :: steam_world where
  "graded_world = one_item_world\<lparr>sdb_acquisitions := [steam_acquisition_row.extend
     \<lparr>saq_asset_id = ''a2'', saq_market_hash_name = ''Case'', saq_acquired_at = Some 7, saq_type = ''trade'',
      saq_reference = ''e1'', saq_cost_basis = None, saq_cost_currency = [], saq_match_method = MatchSnapshotEvent,
      saq_match_confidence = MatchExact\<rparr> (steam_acquisition_po.fields ''76'')]\<rparr>"


end
