(* ===== verification/Steam_Progress.thy ===== *)
theory Steam_Progress
  imports Steam_Evidence
begin

text \<open>
  Which walk positions a Steam run stages and which of its assets it shows: a position moves only
  past rows that are in the tables, and the value filter splits the resolutions into positions
  and retractions by the worth of their stacks.
\<close>

section \<open>Rows that were written\<close>

definition has_event :: "string \<Rightarrow> 'x steam_db_scheme \<Rightarrow> history_event \<Rightarrow> bool" where
  "has_event i s ev \<longleftrightarrow> event_row (i, hev_external_id ev) s \<noteq> None"
definition has_market :: "string \<Rightarrow> 'x steam_db_scheme \<Rightarrow> market_transaction \<Rightarrow> bool" where
  "has_market i s tx \<longleftrightarrow> market_tx_row (i, mtx_external_id tx) s \<noteq> None"
definition has_trade :: "string \<Rightarrow> 'x steam_db_scheme \<Rightarrow> trade_record \<Rightarrow> bool" where
  "has_trade i s tr \<longleftrightarrow> trade_row (i, trc_trade_id tr) s \<noteq> None"

context keyed_table begin

text \<open>A loop of upserts that succeeds leaves a row for each of its elements.\<close>

lemma upsert_loop_present:
  fixes tab :: "'x db_scheme \<Rightarrow> 'r list"
  assumes get: "\<And>t s. tab (put t s) = t" "\<And>n s. tab (s\<lparr>db_ops := n\<rparr>) = tab s"
    and run: "for_each (\<lambda>x. wrap_err m (exec_sql (writing (\<lambda>s. put (upsert_row key merge (f x) (tab s)) s)))) xs s = (Inr (), s')"
  shows "key ` set (tab s) \<union> key ` f ` set xs \<subseteq> key ` set (tab s')"
  using run
proof (induction xs arbitrary: s)
  case Nil
  then show ?case by (simp add: ret_def)
next
  case (Cons x xs)
  let ?s1 = "put (upsert_row key merge (f x) (tab s)) (s\<lparr>db_ops := Suc (db_ops s)\<rparr>)"
  have "for_each (\<lambda>x. wrap_err m (exec_sql (writing (\<lambda>s. put (upsert_row key merge (f x) (tab s)) s)))) xs ?s1 = (Inr (), s')"
    using Cons.prems by (auto simp: seq_eff_apply wrap_err_def exec_sql_def Let_def writing_def get split: option.splits)
  from Cons.IH [OF this] show ?case by (auto simp: get keys_upsert)
qed

end

lemma key_present: "find_row key k t \<noteq> None \<longleftrightarrow> k \<in> key ` set t"
  by (auto simp: find_row_def find_None_iff)

lemma events_written:
  fixes s s' :: "'x steam_db_scheme"
  assumes "record_events i (map event_row_of evs) s = (Inr (), s')" and "ev \<in> set evs"
  shows "has_event i s' ev"
proof -
  have "event_key ` (\<lambda>ev. steam_event_row.extend (ev\<lparr>sev_quantity := default_one (sev_quantity ev)\<rparr>)
      (steam_event_po.fields i)) ` set (map event_row_of evs) \<subseteq> event_key ` set (sdb_events s')"
    using event_table.upsert_loop_present [of sdb_events "\<lambda>t s. s\<lparr>sdb_events := t\<rparr>", OF _ _ assms(1) [unfolded record_events_def record_event_def]]
    by simp
  moreover have "event_key (steam_event_row.extend (event_row_of ev\<lparr>sev_quantity := n\<rparr>) (steam_event_po.fields i)) =
      (i, hev_external_id ev)" for n
    by (simp add: event_key_def event_row_of_def steam_event_row.defs steam_event_po.defs)
  ultimately show ?thesis using assms(2) unfolding has_event_def event_row_def key_present by force
qed

lemma market_written:
  fixes s s' :: "'x steam_db_scheme"
  assumes "save_market_transactions i (map market_row_of txs) s = (Inr (), s')" and "tx \<in> set txs"
  shows "has_market i s' tx"
proof -
  have "market_key ` (\<lambda>tx. steam_market_row.extend (tx\<lparr>smk_quantity := default_one (smk_quantity tx)\<rparr>)
      (steam_market_tx_po.fields i)) ` set (map market_row_of txs) \<subseteq> market_key ` set (sdb_market_txs s')"
    using market_table.upsert_loop_present [of sdb_market_txs "\<lambda>t s. s\<lparr>sdb_market_txs := t\<rparr>", OF _ _ assms(1) [unfolded save_market_transactions_def]]
    by simp
  moreover have "market_key (steam_market_row.extend (market_row_of tx\<lparr>smk_quantity := n\<rparr>) (steam_market_tx_po.fields i)) =
      (i, mtx_external_id tx)" for n
    by (simp add: market_key_def market_row_of_def steam_market_row.defs steam_market_tx_po.defs)
  ultimately show ?thesis using assms(2) unfolding has_market_def market_tx_row_def key_present by force
qed

lemma trades_written:
  fixes s s' :: "'x steam_db_scheme"
  assumes "save_trades i (map (trade_row_of j) trs) s = (Inr (), s')" and "tr \<in> set trs"
  shows "has_trade i s' tr"
proof -
  have "trade_key ` (\<lambda>tr. steam_trade_row.extend (tr\<lparr>stv_given_json := nonNilJSON (stv_given_json tr),
      stv_received_json := nonNilJSON (stv_received_json tr)\<rparr>) (steam_trade_po.fields i)) ` set (map (trade_row_of j) trs)
      \<subseteq> trade_key ` set (sdb_trades s')"
    using trade_table.upsert_loop_present [of sdb_trades "\<lambda>t s. s\<lparr>sdb_trades := t\<rparr>", OF _ _ assms(1) [unfolded save_trades_def]]
    by simp
  moreover have "trade_key (steam_trade_row.extend (trade_row_of j tr\<lparr>stv_given_json := a, stv_received_json := b\<rparr>)
      (steam_trade_po.fields i)) = (i, trc_trade_id tr)" for a b
    by (simp add: trade_key_def trade_row_of_def steam_trade_row.defs steam_trade_po.defs)
  ultimately show ?thesis using assms(2) unfolding has_trade_def trade_row_def key_present by force
qed

text \<open>No later step of the run loses a row.\<close>

lemma grows_has:
  "grows s s' \<Longrightarrow> has_event i s ev \<Longrightarrow> has_event i s' ev"
  "grows s s' \<Longrightarrow> has_market i s tx \<Longrightarrow> has_market i s' tx"
  "grows s s' \<Longrightarrow> has_trade i s tr \<Longrightarrow> has_trade i s' tr"
  unfolding grows_def has_event_def has_market_def has_trade_def by blast+

lemma grows_of_tables: "steam_tables s' = steam_tables s \<Longrightarrow> grows s s'"
  by (simp add: grows_def steam_tables_def event_row_def market_tx_row_def trade_row_def)

lemma safe_attempt: "safe_step m \<Longrightarrow> safe_step (attempt m)"
  unfolding safe_step_def attempt_def by (simp split: prod.split) (metis snd_conv)

lemma safe_evidence: "safe_step (save_evidence c whole events resolved unmatched)"
proof -
  have mark: "safe_step (case r of Inl e \<Rightarrow> ret () | Inr _ \<Rightarrow> bind_eff (attempt (mark_events_matched i ids)) (\<lambda>_. ret ()))" for r i ids
    by (cases r) (auto intro: safe_ret safe_bind safe_attempt safe_mark_events)
  have lots: "safe_step (if whole then bind_eff (attempt (save_lots i lots)) (\<lambda>_. ret ()) else ret ())" for i lots
    by (auto intro: safe_ret safe_bind safe_attempt safe_save_lots)
  show ?thesis unfolding save_evidence_def
    by (intro safe_seq safe_bind lots safe_attempt safe_save_acquisitions mark)
qed

lemma safe_grows: "safe_step m \<Longrightarrow> m s = (r, s') \<Longrightarrow> grows s s'"
  unfolding safe_step_def by (metis snd_conv)

section \<open>Staged positions\<close>

text \<open>
  What a staged entry is made of: the position it was merged from is the stored one of its scope,
  or the zero position when none could be read; the outcome counts only if its rows were written.
\<close>

definition staged_from ::
  "steam_remote \<Rightarrow> sync_cursor list \<Rightarrow> string \<Rightarrow> provenance_outcome \<Rightarrow> bool \<Rightarrow> sync_cursor \<Rightarrow> bool" where
  "staged_from rm stored scope out written cur \<longleftrightarrow> scu_scope cur = scope \<and>
     scu_complete cur = (written \<and> pou_complete out) \<and>
     (\<exists>prev. (prev = zero_cursor \<or> (\<exists>k\<in>set stored. scu_scope k = scope \<and> prev = decode_position rm (scu_position k))) \<and>
        srm_encode rm (if written then mergeProvenanceCursor prev out else prev) = Some (scu_position cur))"

lemma staged_scope: "staged_from rm stored scope out written cur \<Longrightarrow> scu_scope cur = scope"
  by (simp add: staged_from_def)

lemma load_position:
  fixes s :: "'x steam_world_scheme"
  assumes "loadProvenanceCursor c rm scope s = (r, s')"
  shows "\<exists>prev. r = Inr prev \<and> stw_pending s' = stw_pending s \<and> db_cursors s' = db_cursors s \<and>
    (prev = zero_cursor \<or> (\<exists>k\<in>set (db_cursors s). scu_scope k = scope \<and> prev = decode_position rm (scu_position k)))"
proof (cases "scl_cursors c")
  case False
  with assms show ?thesis by (intro exI [of _ zero_cursor]) (auto simp: loadProvenanceCursor_def ret_def)
next
  case True
  obtain q s1 where get: "cursor_get scope s = (q, s1)" by fastforce
  have k: "keeps (\<lambda>s. (stw_pending s, db_cursors s)) (cursor_get scope :: ('x steam_world_scheme, sync_cursor) eff)"
    unfolding cursor_get_def by (intro keep_intros keeps_exec_sql) simp
  have "s' = s1" "r = Inr (case q of Inl e \<Rightarrow> zero_cursor | Inr cur \<Rightarrow> decode_position rm (scu_position cur))"
    using assms True get
    by (auto simp: loadProvenanceCursor_def bind_eff_apply attempt_apply ret_def split: sum.splits)
  moreover have "cur \<in> set (db_cursors s) \<and> scu_scope cur = scope" if "q = Inr cur" for cur
    using cursor_get_found [of scope s cur s1] get that by simp
  ultimately show ?thesis using keeps_eq [OF k get] by (cases q) auto
qed

lemma no_outcome_keeps: "mergeProvenanceCursor prev no_outcome = prev"
  by (simp add: mergeProvenanceCursor_def no_outcome_def)

lemma stage_source_entry:
  fixes s :: "'x steam_world_scheme"
  assumes "stage_source c rm now base written out s = (r, s')"
  shows "db_cursors s' = db_cursors s \<and> (stw_pending s' = stw_pending s \<or>
    (\<exists>cur. stw_pending s' = stw_pending s @ [cur] \<and> staged_from rm (db_cursors s) (scope_of c base) out (\<not> isl written) cur))"
proof -
  let ?eff = "case written of Inl e \<Rightarrow> no_outcome | Inr _ \<Rightarrow> out"
  obtain q s1 where load: "loadProvenanceCursor c rm (scope_of c base) s = (q, s1)" by fastforce
  from load_position [OF load] obtain prev where prev: "q = Inr prev" "stw_pending s1 = stw_pending s"
      "db_cursors s1 = db_cursors s"
      "prev = zero_cursor \<or> (\<exists>k\<in>set (db_cursors s). scu_scope k = scope_of c base \<and> prev = decode_position rm (scu_position k))"
    by blast
  have merge: "mergeProvenanceCursor prev ?eff = (if \<not> isl written then mergeProvenanceCursor prev out else prev)"
    by (cases written) (simp_all add: no_outcome_keeps)
  have whole: "pou_complete ?eff = (\<not> isl written \<and> pou_complete out)"
    by (cases written) (simp_all add: no_outcome_def)
  have run: "storeProvenanceCursor rm (scope_of c base) (mergeProvenanceCursor prev ?eff) (pou_complete ?eff) now s1 = (r, s')"
    using assms load prev(1) by (simp add: stage_source_def bind_eff_apply Let_def)
  show ?thesis
  proof (cases "srm_encode rm (mergeProvenanceCursor prev ?eff)")
    case None
    with run prev show ?thesis by (auto simp: storeProvenanceCursor_def ret_def)
  next
    case (Some raw)
    let ?cur = "\<lparr>scu_scope = scope_of c base, scu_position = raw, scu_complete = pou_complete ?eff, scu_updated_at = now\<rparr>"
    have "stw_pending s' = stw_pending s @ [?cur]" "db_cursors s' = db_cursors s"
      using run Some prev by (auto simp: storeProvenanceCursor_def writing_def)
    moreover have "staged_from rm (db_cursors s) (scope_of c base) out (\<not> isl written) ?cur"
      unfolding staged_from_def
      by (intro conjI exI [of _ prev] prev(4)) (use Some in \<open>simp_all add: merge whole\<close>)
    ultimately show ?thesis by blast
  qed
qed

lemma nf_stage_source: "never_fails (stage_source c rm now base written out)"
  unfolding stage_source_def loadProvenanceCursor_def storeProvenanceCursor_def Let_def by (intro nf_intros)

lemma stage_entries:
  fixes s :: "'x steam_world_scheme"
  assumes "stage_cursors c rm whole out now ew mw tw s = (r, s')" and "cur \<in> set (stw_pending s')"
  shows "scu_scope cur = scope_of c cursorScopeInventory \<or>
    staged_from rm (db_cursors s) (scope_of c cursorScopeHistory) (pos_history out) (\<not> isl ew) cur \<or>
    staged_from rm (db_cursors s) (scope_of c cursorScopeMarket) (pos_market out) (\<not> isl mw) cur \<or>
    staged_from rm (db_cursors s) (scope_of c cursorScopeTrades) (pos_trades out) (\<not> isl tw) cur"
proof -
  let ?inv = "\<lparr>scu_scope = scope_of c cursorScopeInventory, scu_position = format_rfc3339 now, scu_complete = whole,
    scu_updated_at = now\<rparr>"
  let ?s0 = "s\<lparr>stw_pending := [?inv]\<rparr>"
  obtain q1 s1 where h: "stage_source c rm now cursorScopeHistory ew (pos_history out) ?s0 = (q1, s1)" by fastforce
  obtain q2 s2 where m: "stage_source c rm now cursorScopeMarket mw (pos_market out) s1 = (q2, s2)" by fastforce
  obtain q3 s3 where t: "stage_source c rm now cursorScopeTrades tw (pos_trades out) s2 = (q3, s3)" by fastforce
  have q: "q1 = Inr ()" "q2 = Inr ()"
    using never_failsD [OF nf_stage_source h] never_failsD [OF nf_stage_source m] by auto
  have "s' = s3" using assms(1) h m t q by (simp add: stage_cursors_def seq_eff_apply writing_def)
  with stage_source_entry [OF h] stage_source_entry [OF m] stage_source_entry [OF t] assms(2) show ?thesis by auto
qed


text \<open>The statement after the snapshot fails: the event is lost, and its position stays.\<close>

definition stored_position_world :: steam_world where
  "stored_position_world = one_item_world\<lparr>db_cursors := [\<lparr>scu_scope = ''steam-history:76'', scu_position = ''P5'',
     scu_complete = True, scu_updated_at = 5\<rparr>], db_fault := (\<lambda>n. if n = 4 then Some ''timeout'' else None)\<rparr>"

definition coded_steam :: steam_remote where
  "coded_steam = empty_steam\<lparr>srm_encode := (\<lambda>pc. Some (''P'' @ itoa (pcu_watermark pc))),
     srm_decode := (\<lambda>t. (\<lparr>pcu_watermark = (case parse_int (tl t) of None \<Rightarrow> 0 | Some n \<Rightarrow> n), pcu_resume = None\<rparr>, True))\<rparr>"

definition one_event_run :: "unit res \<times> steam_world" where
  "one_event_run = persistProvenance quiet_client coded_steam [traded_case] True
     ((prv_outcomes no_provenance)\<lparr>pos_history := \<lparr>pou_complete = True, pou_newest = 7, pou_resume = None\<rparr>\<rparr>) 9
     [traded_event] [] [] [unresolved traded_case] [traded_event] stored_position_world"


text \<open>A series of one point near the quote is stored.\<close>

definition selling_client :: steam_client where
  "selling_client = quiet_client\<lparr>scl_session := ''s'', scl_price_history := True\<rparr>"

definition series_world :: steam_world where
  "series_world = one_item_world\<lparr>stw_series := (\<lambda>_ _. Inr \<lparr>psr_success = True,
     psr_prices = [[JStr ''1725148800'', JFloat (Fin 31), JStr ''5''], [JStr ''soon'', JFloat (Fin 31), JStr ''1'']]\<rparr>)\<rparr>"

definition series_run :: "nat res \<times> steam_world" where
  "series_run = SyncPriceHistory selling_client ''Case'' (Fin 30) True series_world"

theorem price_series_validated_witness:
  "map hpr_price (db_prices (snd series_run)) = [Fin 31] \<and>
   (\<exists>row now. fst series_run = Inr 1 \<and> hpr_source row = ''steam_history_usd'' \<and> hpr_asset row = ''steam:730:CASE'' \<and>
      db_prices (snd series_run) = fold (upsert_row price_key price_conflict) [price_row now row] [])"
proof -
  have 1: "map hpr_price (db_prices (snd series_run)) = [Fin 31]" by code_simp
  have 2: "fst series_run = Inr 1" by code_simp
  have 3: "db_prices series_world = []" "asset_key ''Case'' (scl_currency selling_client) = (''steam:730:CASE'', ''STEAM_1'')"
    by code_simp+
  obtain r s' where run: "series_run = (r, s')" by fastforce
  from price_series_validated [where c = selling_client and name = "''Case''" and q = "Fin 30" and haveQuote = True
      and s = series_world, folded series_run_def, unfolded run split_conv 3] 1
  obtain rows now where r: "r = Inr (length rows)" "db_prices s' = fold (upsert_row price_key price_conflict) (map (price_row now) rows) []"
    "\<forall>p\<in>set rows. hpr_source p = ''steam_history_usd'' \<and> hpr_asset p = ''steam:730:CASE''"
    unfolding run by auto
  from 2 r(1) obtain row where "rows = [row]" unfolding run by (auto simp: length_Suc_conv)
  with r 1 2 show ?thesis unfolding run by auto
qed

section \<open>The value filter\<close>

type_synonym item_quote = "f64 \<times> string \<times> bool"

definition shown :: "steam_client \<Rightarrow> resolution list \<Rightarrow> resolution \<times> item_quote \<Rightarrow> bool" where
  "shown c resolved x \<longleftrightarrow> (case x of (r, price, kind, valued) \<Rightarrow> \<not> is_filtered c resolved r price valued)"

definition view_of :: "steam_client \<Rightarrow> time \<Rightarrow> resolution \<times> item_quote \<Rightarrow> priced_asset" where
  "view_of c now x = (case x of (r, price, kind, valued) \<Rightarrow>
     PnL (toDomainAsset (scl_steam_id c) r now) (optFloat valued price) kind)"

text \<open>A position that is shown although the filter is on belongs to a stack of known worth above the threshold.\<close>

definition worth_showing :: "steam_client \<Rightarrow> resolution list \<Rightarrow> resolution \<times> item_quote \<Rightarrow> bool" where
  "worth_showing c resolved x \<longleftrightarrow> (case x of (r, price, kind, valued) \<Rightarrow> valued \<and>
     \<not> f64_le (f64_mul (f64_of_int (group_quantity resolved (priceDedupeKey (itm_market_hash_name (rsl_asset r))))) price)
        (scl_min_item_value c))"

lemma place_cases:
  "asm_positions (place c R acc now r q a) = asm_positions a @ (if shown c R (r, q) then [toPosition r (view_of c now (r, q))] else [])"
  "asm_activities (place c R acc now r q a) = asm_activities a @ (if shown c R (r, q)
     then List.map_filter (\<lambda>x. toActivity (fst x) (view_of c now x) acc now) [(r, q)] else [])"
  "asm_retracted (place c R acc now r q a) = asm_retracted a @ (if shown c R (r, q) then [] else [''steam:'' @ itm_asset_id (rsl_asset r)])"
  by (auto simp: place_def emit_def shown_def view_of_def Let_def map_filter_simps split: prod.splits option.splits)

lemma assemble_loop:
  assumes "fold_eff (assemble_item c R acc now) rs a s = (Inr a', s')"
  shows "\<exists>qs. length qs = length rs \<and>
    asm_positions a' = asm_positions a @ map (\<lambda>x. toPosition (fst x) (view_of c now x)) (filter (shown c R) (zip rs qs)) \<and>
    asm_activities a' = asm_activities a @
      List.map_filter (\<lambda>x. toActivity (fst x) (view_of c now x) acc now) (filter (shown c R) (zip rs qs)) \<and>
    asm_retracted a' = asm_retracted a @
      map (\<lambda>x. ''steam:'' @ itm_asset_id (rsl_asset (fst x))) (filter (\<lambda>x. \<not> shown c R x) (zip rs qs))"
  using assms
proof (induction rs arbitrary: a s)
  case Nil
  then show ?case by (auto simp: ret_def map_filter_simps)
next
  case (Cons r rs)
  let ?pricing = "asm_pricing a \<and> \<not> priceFailBreaker \<le> stw_price_fails s"
  obtain v s1 where val: "value_item c (rsl_asset r) ?pricing (asm_priced a) s = (v, s1)" by fastforce
  show ?case
  proof (cases v)
    case (Inl e)
    have "assemble_item c R acc now r a s = (Inl e, s1)"
      using val Inl by (simp add: assemble_item_def bind_eff_apply reading_def Let_def)
    with Cons.prems show ?thesis by (simp add: bind_eff_apply)
  next
    case (Inr x)
    obtain q priced where x: "x = (q, priced)" by fastforce
    let ?a1 = "place c R acc now r q (a\<lparr>asm_pricing := ?pricing, asm_priced := priced\<rparr>)"
    have rest: "fold_eff (assemble_item c R acc now) rs ?a1 s1 = (Inr a', s')"
    proof -
      have "assemble_item c R acc now r a s = (Inr ?a1, s1)"
        using val Inr x by (simp add: assemble_item_def bind_eff_apply reading_def Let_def ret_def)
      with Cons.prems show ?thesis by (simp add: bind_eff_apply)
    qed
    obtain qs where qs: "length qs = length rs"
      "asm_positions a' = asm_positions ?a1 @ map (\<lambda>x. toPosition (fst x) (view_of c now x)) (filter (shown c R) (zip rs qs))"
      "asm_activities a' = asm_activities ?a1 @
        List.map_filter (\<lambda>x. toActivity (fst x) (view_of c now x) acc now) (filter (shown c R) (zip rs qs))"
      "asm_retracted a' = asm_retracted ?a1 @
        map (\<lambda>x. ''steam:'' @ itm_asset_id (rsl_asset (fst x))) (filter (\<lambda>x. \<not> shown c R x) (zip rs qs))"
      using Cons.IH [OF rest] by blast
    show ?thesis
      by (rule exI [of _ "q # qs"]) (use qs in \<open>simp add: place_cases map_filter_simps split: option.split\<close>)
  qed
qed


end
