(* ===== verification/Snap_Limiter.thy ===== *)
theory Snap_Limiter
  imports Config
begin

text \<open>
  The request limiter of the SnapTrade client, \<open>clients/snaptrade/limiter.go\<close>. Its state is
  shared by all goroutines and only changed under its mutex, so one turn of the loop of
  \<open>wait\<close> and one call of \<open>observe\<close> are the atomic steps; what happens between two turns of one
  caller is the sleep, during which the others may run. The clock readings are arguments.
\<close>

section \<open>State\<close>

record quota_state =
  qst_limit :: int
  qst_remaining :: int
  qst_reset_at :: time

definition no_quota :: quota_state where
  "no_quota = \<lparr>qst_limit = 0, qst_remaining = 0, qst_reset_at = 0\<rparr>"

record rate_limiter =
  rlm_minimum_interval :: duration
  rlm_safety_percent :: int
  rlm_global_limit :: int
  rlm_account_limit :: int
  rlm_last_request :: time
  rlm_global_requests :: "time list"
  rlm_account_requests :: "string \<Rightarrow> time list"
  rlm_global_server :: quota_state
  rlm_account_server :: "string \<Rightarrow> quota_state"

definition newRateLimiter :: "snaptrade_config \<Rightarrow> rate_limiter" where
  "newRateLimiter cfg =
    (let globalLimit = (if stc_requests_per_minute cfg > 0 \<and> stc_requests_per_minute cfg < 250
           then stc_requests_per_minute cfg else 250);
         accountLimit0 = (if stc_auth_mode cfg = ''personal'' then 10 else 0);
         accountLimit = (if stc_account_requests_pm cfg > 0 \<and> (accountLimit0 = 0 \<or> stc_account_requests_pm cfg < accountLimit0)
           then stc_account_requests_pm cfg else accountLimit0)
     in \<lparr>rlm_minimum_interval = stc_request_interval cfg, rlm_safety_percent = stc_safety_percent cfg,
          rlm_global_limit = globalLimit, rlm_account_limit = accountLimit, rlm_last_request = 0,
          rlm_global_requests = [], rlm_account_requests = (\<lambda>_. []), rlm_global_server = no_quota,
          rlm_account_server = (\<lambda>_. no_quota)\<rparr>)"

section \<open>Capacities and waits\<close>

definition maxDuration :: "duration \<Rightarrow> duration \<Rightarrow> duration" where
  "maxDuration a b = (if b > a then b else a)"

definition cutoff :: "time \<Rightarrow> time" where
  "cutoff now = now - dur_minute"

definition pruneWindow :: "time list \<Rightarrow> time \<Rightarrow> time list" where
  "pruneWindow ts now = dropWhile (\<lambda>t. \<not> cutoff now < t) ts"

definition safeCapacity :: "int \<Rightarrow> int \<Rightarrow> int" where
  "safeCapacity limit safetyPercent =
    (let capacity = int_of_f64 (f64_floor (f64_div (f64_of_int (wrap64 (limit * safetyPercent))) (Fin 100)))
     in if capacity < 1 then 1 else capacity)"

definition effectiveCapacity :: "rate_limiter \<Rightarrow> int \<Rightarrow> int \<Rightarrow> int" where
  "effectiveCapacity l local server =
    (let limit = (if server > 0 \<and> (local = 0 \<or> server < local) then server else local)
     in if limit \<le> 0 then 0 else safeCapacity limit (rlm_safety_percent l))"

definition localWindowWait :: "time list \<Rightarrow> int \<Rightarrow> time \<Rightarrow> duration" where
  "localWindowWait requests capacity now =
    (if capacity \<le> 0 \<or> int (length requests) < capacity then 0
     else time_sub (requests ! (length requests - nat capacity) + dur_minute) now)"

definition serverQuotaWait :: "quota_state \<Rightarrow> int \<Rightarrow> time \<Rightarrow> duration" where
  "serverQuotaWait q safetyPercent now =
    (if qst_limit q \<le> 0 \<or> time_is_zero (qst_reset_at q) \<or> \<not> now < qst_reset_at q then 0
     else let reserve = qst_limit q - safeCapacity (qst_limit q) safetyPercent
       in if qst_remaining q > reserve then 0 else time_sub (qst_reset_at q) now)"

section \<open>One turn of wait\<close>

text \<open>The pruning at the start of a turn, the wait it computes, and the booking of a request.\<close>

definition prune_state :: "string \<Rightarrow> time \<Rightarrow> rate_limiter \<Rightarrow> rate_limiter" where
  "prune_state accountID now l =
    (let l1 = l\<lparr>rlm_global_requests := pruneWindow (rlm_global_requests l) now\<rparr>
     in if accountID = [] then l1
        else l1\<lparr>rlm_account_requests := (rlm_account_requests l)(accountID := pruneWindow (rlm_account_requests l accountID) now)\<rparr>)"

definition turn_wait :: "string \<Rightarrow> time \<Rightarrow> rate_limiter \<Rightarrow> duration" where
  "turn_wait accountID now l =
    (let w0 = (if time_is_zero (rlm_last_request l) then 0
           else maxDuration 0 (wrap64 (rlm_minimum_interval l - time_sub now (rlm_last_request l))));
         globalCapacity = effectiveCapacity l (rlm_global_limit l) (qst_limit (rlm_global_server l));
         w1 = maxDuration w0 (localWindowWait (rlm_global_requests l) globalCapacity now);
         w2 = maxDuration w1 (serverQuotaWait (rlm_global_server l) (rlm_safety_percent l) now)
     in if accountID = [] then w2
        else let q = rlm_account_server l accountID;
                 accountCapacity = effectiveCapacity l (rlm_account_limit l) (qst_limit q);
                 w3 = (if accountCapacity > 0
                   then maxDuration w2 (localWindowWait (rlm_account_requests l accountID) accountCapacity now) else w2)
             in maxDuration w3 (serverQuotaWait q (rlm_safety_percent l) now))"

definition book_request :: "string \<Rightarrow> time \<Rightarrow> rate_limiter \<Rightarrow> rate_limiter" where
  "book_request accountID now l =
    (let l1 = l\<lparr>rlm_last_request := now, rlm_global_requests := rlm_global_requests l @ [now]\<rparr>
     in if accountID \<noteq> [] \<and> (rlm_account_limit l > 0 \<or> qst_limit (rlm_account_server l accountID) > 0)
        then l1\<lparr>rlm_account_requests := (rlm_account_requests l)(accountID := rlm_account_requests l accountID @ [now])\<rparr>
        else l1)"

definition wait_turn :: "string \<Rightarrow> time \<Rightarrow> rate_limiter \<Rightarrow> duration \<times> rate_limiter" where
  "wait_turn accountID now l =
    (let l1 = prune_state accountID now l; w = turn_wait accountID now l1
     in if w \<le> 0 then (0, book_request accountID now l1) else (w, l1))"

text \<open>
  The whole call. A sleep of \<open>d\<close> that starts at \<open>now\<close> ends with the error of a cancelled
  context or at a later clock reading, and with the state the other goroutines left. A call
  that never returns has the value \<open>None\<close>.
\<close>

type_synonym pause = "time \<Rightarrow> duration \<Rightarrow> rate_limiter \<Rightarrow> go_error option \<times> time \<times> rate_limiter"

partial_function (option) limiter_wait ::
  "pause \<Rightarrow> string \<Rightarrow> time \<Rightarrow> rate_limiter \<Rightarrow> (go_error option \<times> time \<times> rate_limiter) option" where
  "limiter_wait pause accountID now l =
    (case wait_turn accountID now l of (w, l1) \<Rightarrow>
       if w \<le> 0 then Some (None, now, l1)
       else case pause now w l1 of
         (Some e, later, l2) \<Rightarrow> Some (Some e, later, l2)
       | (None, later, l2) \<Rightarrow> limiter_wait pause accountID later l2)"

section \<open>What the server reports\<close>

definition parseHeaderInt :: "string \<Rightarrow> int option" where
  "parseHeaderInt raw = (if raw = [] then None
     else case parse_int raw of None \<Rightarrow> None | Some v \<Rightarrow> if v < 0 then None else Some v)"

definition quotaFromHeaders :: "(string \<Rightarrow> string) \<Rightarrow> string \<Rightarrow> time \<Rightarrow> quota_state option" where
  "quotaFromHeaders headers prefix now =
    (let limit = parseHeaderInt (headers (prefix @ ''Limit''));
         remaining = parseHeaderInt (headers (prefix @ ''Remaining''));
         reset = parseHeaderInt (headers (prefix @ ''Reset''))
     in if limit = None \<and> remaining = None \<and> reset = None then None
        else Some \<lparr>qst_limit = (case limit of None \<Rightarrow> 0 | Some n \<Rightarrow> n),
          qst_remaining = (case remaining of None \<Rightarrow> 0 | Some n \<Rightarrow> n),
          qst_reset_at = (case reset of Some n \<Rightarrow> if n > 0 then now + wrap64 (n * dur_second) else 0 | None \<Rightarrow> 0)\<rparr>)"

definition observe :: "(string \<Rightarrow> string) \<Rightarrow> string \<Rightarrow> time \<Rightarrow> rate_limiter \<Rightarrow> rate_limiter" where
  "observe headers accountID now l =
    (let l1 = (case quotaFromHeaders headers ''X-RateLimit-'' now of None \<Rightarrow> l | Some q \<Rightarrow> l\<lparr>rlm_global_server := q\<rparr>)
     in if accountID = [] then l1
        else case quotaFromHeaders headers ''X-RateLimit-Account-'' now of None \<Rightarrow> l1
          | Some q \<Rightarrow> l1\<lparr>rlm_account_server := (rlm_account_server l1)(accountID := q)\<rparr>)"

section \<open>The capacity is an exact percentage\<close>

text \<open>
  The code divides in floating point. Below \<open>2 ^ 46\<close> a hundredth is wider than the spacing of
  the floats, so rounding never carries a quotient to the next integer.
\<close>

lemma rnd_pos: "0 < q \<Longrightarrow> rnd q = of_int (round_even (q / 2 powi ulp_exp q)) * 2 powi ulp_exp q"
  by (simp add: rnd_def Let_def)

lemma rnd_hundredth:
  assumes "0 \<le> n" and "n < 100 * 2 ^ 46"
  shows "of_int (n div 100) \<le> rnd (of_int n / 100)" "rnd (of_int n / 100) < of_int (n div 100 + 1)"
proof -
  let ?q = "of_int n / 100 :: rat"
  let ?k = "n div 100"
  have k: "of_int ?k \<le> ?q" "?q \<le> of_int (?k + 1) - 1 / 100"
  proof -
    have "100 * ?k \<le> n" "n \<le> 100 * (?k + 1) - 1" by simp_all
    then have "(of_int (100 * ?k) :: rat) \<le> of_int n" "(of_int n :: rat) \<le> of_int (100 * (?k + 1) - 1)"
      by (simp_all only: of_int_le_iff)
    then show "of_int ?k \<le> ?q" "?q \<le> of_int (?k + 1) - 1 / 100" by simp_all
  qed
  have "of_int (n div 100) \<le> rnd ?q \<and> rnd ?q < of_int (n div 100 + 1)"
  proof (cases "n = 0")
    case False
    with assms have pos: "0 < ?q" by simp
    have "(of_int n :: rat) < of_int (100 * 2 ^ 46)" using assms(2) by (simp only: of_int_less_iff)
    then have "?q < 2 powi 46" by simp
    then have "flog2 ?q < 46" using pos by (intro flog2_less) simp_all
    then have "ulp_exp ?q \<le> - 7" using pos by (simp add: ulp_exp_def)
    then have "ulp_exp ?q = - int (nat (- ulp_exp ?q))" "7 \<le> nat (- ulp_exp ?q)" by simp_all
    then obtain e where e: "ulp_exp ?q = - int e" "7 \<le> e" by blast
    define m where "m = (2 :: int) ^ e"
    have m: "128 \<le> m"
    proof -
      have "(2 :: int) ^ 7 \<le> 2 ^ e" using e(2) by (intro power_increasing) simp_all
      then show ?thesis by (simp add: m_def)
    qed
    have u: "2 powi ulp_exp ?q = inverse (of_int m :: rat)"
      by (simp only: e(1) power_int_minus power_int_of_nat m_def of_int_power of_int_numeral)
    have rnd: "rnd ?q = of_int (round_even (?q * of_int m)) / of_int m"
      unfolding rnd_pos [OF pos] u by (simp only: divide_inverse inverse_inverse_eq)
    have mpos: "(0 :: rat) < of_int m" using m by simp
    have "?k * m \<le> round_even (?q * of_int m)"
    proof -
      have "(of_int (?k * m) :: rat) \<le> ?q * of_int m" using k(1) mpos by (simp only: of_int_mult mult_right_mono less_imp_le)
      from round_even_mono [OF this] show ?thesis by (simp only: round_even_of_int)
    qed
    then have "(of_int (?k * m) :: rat) \<le> of_int (round_even (?q * of_int m))" by (simp only: of_int_le_iff)
    then have lo: "of_int ?k \<le> rnd ?q" unfolding rnd by (simp only: of_int_mult pos_le_divide_eq [OF mpos])
    have "?q * of_int m \<le> (of_int (?k + 1) - 1 / 100) * of_int m" using k(2) mpos by (intro mult_right_mono) auto
    also have "\<dots> = of_int ((?k + 1) * m) - of_int m / 100"
      by (simp only: left_diff_distrib of_int_mult)
    also have "\<dots> < of_int ((?k + 1) * m - 1)"
    proof -
      have "(of_int 128 :: rat) \<le> of_int m" using m by (simp only: of_int_le_iff)
      then show ?thesis by simp
    qed
    finally have "\<lfloor>?q * of_int m\<rfloor> < (?k + 1) * m - 1" by (simp only: floor_less_iff)
    then have "round_even (?q * of_int m) < (?k + 1) * m" using round_even_bounds [of "?q * of_int m"] by linarith
    then have "(of_int (round_even (?q * of_int m)) :: rat) < of_int ((?k + 1) * m)" by (simp only: of_int_less_iff)
    then have "rnd ?q < of_int (?k + 1)" unfolding rnd by (simp only: of_int_mult pos_divide_less_eq [OF mpos])
    with lo show ?thesis by simp
  qed simp
  then show "of_int (n div 100) \<le> rnd ?q" "rnd ?q < of_int (n div 100 + 1)" by blast+
qed

lemma fl_hundredth:
  assumes "0 \<le> n" and "n < 100 * 2 ^ 46"
  obtains r where "f64_div (f64_of_int n) (Fin 100) = Fin r" "\<lfloor>r\<rfloor> = n div 100"
proof -
  let ?r = "rnd (of_int n / 100)"
  note b = rnd_hundredth [OF assms]
  have small: "flog2 \<bar>?r\<bar> < 1024" if "?r \<noteq> 0"
  proof -
    have "0 \<le> ?r" using assms by (intro rnd_nonneg) simp
    moreover have "n div 100 + 1 \<le> 2 ^ 46" using assms(2) by linarith
    then have "(of_int (n div 100 + 1) :: rat) \<le> of_int (2 ^ 46)" by (simp only: of_int_le_iff)
    with b(2) have "?r < 2 powi 46" by simp
    ultimately have "flog2 \<bar>?r\<bar> < 46" using that by (intro flog2_less) simp_all
    then show ?thesis by simp
  qed
  have "f64_of_int n = Fin (of_int n)" unfolding f64_of_int_def by (rule fl_exact) (use assms in simp)
  moreover have "f64_div (Fin (of_int n)) (Fin 100) = fl (of_int n / 100)" by simp
  moreover have "fl (of_int n / 100) = Fin ?r" using small by (auto simp: fl_def Let_def)
  moreover have "\<lfloor>?r\<rfloor> = n div 100" using b by (simp add: floor_eq_iff)
  ultimately show ?thesis using that [of ?r] by simp
qed

lemma safeCapacity_exact:
  assumes "0 \<le> limit * p" and "limit * p < 100 * 2 ^ 46"
  shows "safeCapacity limit p = max 1 (limit * p div 100)"
proof -
  from fl_hundredth [OF assms] obtain r where r: "f64_div (f64_of_int (limit * p)) (Fin 100) = Fin r" "\<lfloor>r\<rfloor> = limit * p div 100" .
  have wrap: "wrap64 (limit * p) = limit * p" using assms by (intro wrap64_id) simp_all
  have "limit * p div 100 < 2 ^ 46" using assms by (simp add: div_less_iff_less_mult)
  moreover have "0 \<le> limit * p div 100" using assms by simp
  ultimately have "int_of_f64 (Fin (of_int (limit * p div 100))) = limit * p div 100"
    by (simp add: int_of_f64_def trunc_rat_def)
  with wrap show ?thesis using r by (auto simp: safeCapacity_def Let_def max_def)
qed

section \<open>Runs\<close>

text \<open>
  The goroutines of a client share one limiter. A run is any interleaving of turns and reports
  under a clock that never goes back; it carries the requests granted so far, oldest first.
\<close>

inductive limiter_run :: "snaptrade_config \<Rightarrow> (string \<times> time) list \<Rightarrow> time \<Rightarrow> rate_limiter \<Rightarrow> bool"
  for cfg :: snaptrade_config where
  start: "0 < t \<Longrightarrow> limiter_run cfg [] t (newRateLimiter cfg)"
| sleeps: "limiter_run cfg gs t l \<Longrightarrow> t \<le> now \<Longrightarrow> wait_turn acc now l = (w, l') \<Longrightarrow> 0 < w \<Longrightarrow> limiter_run cfg gs now l'"
| granted: "limiter_run cfg gs t l \<Longrightarrow> t \<le> now \<Longrightarrow> wait_turn acc now l = (w, l') \<Longrightarrow> w \<le> 0 \<Longrightarrow>
    limiter_run cfg (gs @ [(acc, now)]) now l'"
| reported: "limiter_run cfg gs t l \<Longrightarrow> t \<le> now \<Longrightarrow> limiter_run cfg gs now (observe headers acc now l)"

definition windowed :: "int \<Rightarrow> time list \<Rightarrow> bool" where
  "windowed n ts \<longleftrightarrow> (\<forall>t. int (length (filter (\<lambda>x. cutoff t < x \<and> x \<le> t) ts)) \<le> n)"

definition tracks :: "time list \<Rightarrow> time list \<Rightarrow> time \<Rightarrow> bool" where
  "tracks requests ts t \<longleftrightarrow> (\<exists>mark \<le> cutoff t. requests = filter (\<lambda>x. mark < x) ts)"

definition times_of :: "string \<Rightarrow> (string \<times> time) list \<Rightarrow> time list" where
  "times_of acc gs = map snd (filter (\<lambda>g. fst g = acc) gs)"

lemma windowed_Nil [simp]: "0 \<le> n \<Longrightarrow> windowed n []"
  by (simp add: windowed_def)

lemma windowed_snoc:
  assumes "windowed n ts" and "\<forall>x\<in>set ts. x \<le> now" and "int (length (filter (\<lambda>x. cutoff now < x) ts)) < n"
  shows "windowed n (ts @ [now])"
  unfolding windowed_def
proof
  fix t
  let ?in = "\<lambda>x. cutoff t < x \<and> x \<le> t"
  show "int (length (filter ?in (ts @ [now]))) \<le> n"
  proof (cases "t < now")
    case True
    with assms(1) show ?thesis by (simp add: windowed_def)
  next
    case False
    have "length (filter ?in ts) \<le> length (filter (\<lambda>x. cutoff now < x) ts)"
    proof -
      have "filter ?in ts = filter ?in (filter (\<lambda>x. cutoff now < x) ts)"
        unfolding filter_filter by (rule filter_cong) (use False in \<open>auto simp: cutoff_def\<close>)
      then show ?thesis by (subst \<open>filter ?in ts = _\<close>) (rule length_filter_le)
    qed
    with assms(3) show ?thesis by simp
  qed
qed

lemma sorted_dropWhile_filter:
  "sorted ts \<Longrightarrow> dropWhile (\<lambda>t. \<not> (c :: int) < t) ts = filter (\<lambda>t. c < t) ts"
proof (induction ts)
  case (Cons a ts)
  show ?case
  proof (cases "c < a")
    case True
    then have "filter (\<lambda>t. c < t) ts = ts" using Cons.prems by (intro filter_True) auto
    with True show ?thesis by simp
  next
    case False
    with Cons show ?thesis by simp
  qed
qed simp

lemma prune_tracks:
  assumes "tracks requests ts t" and "sorted ts" and "t \<le> now"
  shows "pruneWindow requests now = filter (\<lambda>x. cutoff now < x) ts"
proof -
  from assms(1) obtain mark where mark: "mark \<le> cutoff t" "requests = filter (\<lambda>x. mark < x) ts"
    unfolding tracks_def by blast
  have "pruneWindow requests now = filter (\<lambda>x. cutoff now < x) (filter (\<lambda>x. mark < x) ts)"
    unfolding pruneWindow_def mark(2) using assms(2) by (intro sorted_dropWhile_filter sorted_wrt_filter)
  also have "\<dots> = filter (\<lambda>x. cutoff now < x) ts"
    unfolding filter_filter by (rule filter_cong) (use mark(1) assms(3) in \<open>auto simp: cutoff_def\<close>)
  finally show ?thesis .
qed

lemma tracksI: "mark \<le> cutoff t \<Longrightarrow> requests = filter (\<lambda>x. mark < x) ts \<Longrightarrow> tracks requests ts t"
  unfolding tracks_def by blast

lemma tracks_pruned: "tracks (filter (\<lambda>x. cutoff now < x) ts) ts now"
  by (rule tracksI [OF order_refl refl])

lemma tracks_snoc:
  assumes "tracks requests ts now"
  shows "tracks (requests @ [now]) (ts @ [now]) now"
proof -
  from assms obtain mark where "mark \<le> cutoff now" "requests = filter (\<lambda>x. mark < x) ts" unfolding tracks_def by blast
  then show ?thesis by (intro tracksI [of mark]) (simp_all add: cutoff_def)
qed

lemma tracks_later:
  assumes "tracks requests ts t" and "t \<le> now"
  shows "tracks requests ts now"
proof -
  from assms(1) obtain mark where mark: "mark \<le> cutoff t" "requests = filter (\<lambda>x. mark < x) ts" unfolding tracks_def by blast
  have "mark \<le> cutoff now" using mark(1) assms(2) by (simp add: cutoff_def)
  then show ?thesis using mark(2) by (rule tracksI)
qed

lemma time_sub_pos: "u < t \<Longrightarrow> 0 < time_sub t u"
  by (simp add: time_sub_def)

lemma time_sub_le: "u \<le> t \<Longrightarrow> 0 \<le> time_sub t u \<and> time_sub t u \<le> t - u \<and> time_sub t u < 2 ^ 63"
  by (simp add: time_sub_def)

text \<open>A turn that grants found fewer requests in the window than the capacity.\<close>

lemma window_wait_positive:
  assumes "\<forall>x\<in>set requests. cutoff now < x" and "0 < capacity" and "capacity \<le> int (length requests)"
  shows "0 < localWindowWait requests capacity now"
proof -
  let ?e = "requests ! (length requests - nat capacity)"
  have "?e \<in> set requests" by (rule nth_mem) (use assms in arith)
  with assms(1) have "cutoff now < ?e" by (rule bspec)
  then have "0 < time_sub (?e + dur_minute) now" by (intro time_sub_pos) (simp add: cutoff_def)
  with assms(2,3) show ?thesis by (simp add: localWindowWait_def)
qed

section \<open>The invariant\<close>

definition sane_limits :: "snaptrade_config \<Rightarrow> bool" where
  "sane_limits cfg \<longleftrightarrow> 1 \<le> stc_safety_percent cfg \<and> stc_safety_percent cfg \<le> 100 \<and>
     0 \<le> stc_request_interval cfg \<and> stc_request_interval cfg < 2 ^ 63 \<and> stc_account_requests_pm cfg < 2 ^ 40"

definition global_quota :: "snaptrade_config \<Rightarrow> int" where
  "global_quota cfg = max 1 (rlm_global_limit (newRateLimiter cfg) * stc_safety_percent cfg div 100)"

definition account_quota :: "snaptrade_config \<Rightarrow> int" where
  "account_quota cfg = max 1 (rlm_account_limit (newRateLimiter cfg) * stc_safety_percent cfg div 100)"

definition same_limits :: "snaptrade_config \<Rightarrow> rate_limiter \<Rightarrow> bool" where
  "same_limits cfg l \<longleftrightarrow> rlm_minimum_interval l = stc_request_interval cfg \<and> rlm_safety_percent l = stc_safety_percent cfg \<and>
     rlm_global_limit l = rlm_global_limit (newRateLimiter cfg) \<and> rlm_account_limit l = rlm_account_limit (newRateLimiter cfg)"

lemma new_limits:
  "0 < rlm_global_limit (newRateLimiter cfg)" "rlm_global_limit (newRateLimiter cfg) \<le> 250"
  "0 \<le> rlm_account_limit (newRateLimiter cfg)"
  "stc_account_requests_pm cfg < 2 ^ 40 \<Longrightarrow> rlm_account_limit (newRateLimiter cfg) < 2 ^ 40"
  by (auto simp: newRateLimiter_def Let_def)

lemma effective_capacity:
  assumes "sane_limits cfg" and "same_limits cfg l" and "0 < local" and "local < 2 ^ 40"
  shows "0 < effectiveCapacity l local server"
    "effectiveCapacity l local server \<le> max 1 (local * stc_safety_percent cfg div 100)"
proof -
  let ?p = "stc_safety_percent cfg"
  define limit where "limit = (if server > 0 \<and> (local = 0 \<or> server < local) then server else local)"
  have limit: "0 < limit" "limit \<le> local" using assms(3) by (auto simp: limit_def)
  have p: "1 \<le> ?p" "?p \<le> 100" "rlm_safety_percent l = ?p" using assms(1,2) by (auto simp: sane_limits_def same_limits_def)
  have mono: "limit * ?p \<le> local * ?p" using limit p by (intro mult_right_mono) auto
  have "local * ?p \<le> local * 100" using assms(3) p by (intro mult_left_mono) auto
  then have "limit * ?p < 100 * 2 ^ 46" using assms(4) mono by simp
  moreover have "0 \<le> limit * ?p" using limit p by simp
  ultimately have cap: "safeCapacity limit ?p = max 1 (limit * ?p div 100)" by (intro safeCapacity_exact)
  have "effectiveCapacity l local server = (if limit \<le> 0 then 0 else safeCapacity limit ?p)"
    by (simp only: effectiveCapacity_def Let_def limit_def p(3))
  with limit(1) cap have eff: "effectiveCapacity l local server = max 1 (limit * ?p div 100)" by simp
  show "0 < effectiveCapacity l local server" unfolding eff by simp
  show "effectiveCapacity l local server \<le> max 1 (local * ?p div 100)"
    unfolding eff using zdiv_mono1 [OF mono, of 100] by simp
qed

lemma maxDuration_le [simp]: "maxDuration a b \<le> c \<longleftrightarrow> a \<le> c \<and> b \<le> c"
  by (auto simp: maxDuration_def)

lemma turn_wait_le:
  "turn_wait acc now l \<le> c \<longleftrightarrow> 0 \<le> c \<and>
     (rlm_last_request l \<noteq> 0 \<longrightarrow> wrap64 (rlm_minimum_interval l - time_sub now (rlm_last_request l)) \<le> c) \<and>
     localWindowWait (rlm_global_requests l) (effectiveCapacity l (rlm_global_limit l) (qst_limit (rlm_global_server l))) now \<le> c \<and>
     serverQuotaWait (rlm_global_server l) (rlm_safety_percent l) now \<le> c \<and>
     (acc \<noteq> [] \<longrightarrow>
       (0 < effectiveCapacity l (rlm_account_limit l) (qst_limit (rlm_account_server l acc)) \<longrightarrow>
         localWindowWait (rlm_account_requests l acc) (effectiveCapacity l (rlm_account_limit l) (qst_limit (rlm_account_server l acc))) now \<le> c) \<and>
       serverQuotaWait (rlm_account_server l acc) (rlm_safety_percent l) now \<le> c)"
  by (simp add: turn_wait_def Let_def)

lemma prune_state_sel [simp]:
  "rlm_minimum_interval (prune_state acc now l) = rlm_minimum_interval l"
  "rlm_safety_percent (prune_state acc now l) = rlm_safety_percent l"
  "rlm_global_limit (prune_state acc now l) = rlm_global_limit l"
  "rlm_account_limit (prune_state acc now l) = rlm_account_limit l"
  "rlm_last_request (prune_state acc now l) = rlm_last_request l"
  "rlm_global_server (prune_state acc now l) = rlm_global_server l"
  "rlm_account_server (prune_state acc now l) = rlm_account_server l"
  "rlm_global_requests (prune_state acc now l) = pruneWindow (rlm_global_requests l) now"
  "rlm_account_requests (prune_state acc now l) a =
     (if acc \<noteq> [] \<and> a = acc then pruneWindow (rlm_account_requests l acc) now else rlm_account_requests l a)"
  by (simp_all add: prune_state_def Let_def)

lemma book_request_sel [simp]:
  "rlm_minimum_interval (book_request acc now l) = rlm_minimum_interval l"
  "rlm_safety_percent (book_request acc now l) = rlm_safety_percent l"
  "rlm_global_limit (book_request acc now l) = rlm_global_limit l"
  "rlm_account_limit (book_request acc now l) = rlm_account_limit l"
  "rlm_last_request (book_request acc now l) = now"
  "rlm_global_server (book_request acc now l) = rlm_global_server l"
  "rlm_account_server (book_request acc now l) = rlm_account_server l"
  "rlm_global_requests (book_request acc now l) = rlm_global_requests l @ [now]"
  "0 < rlm_account_limit l \<Longrightarrow> a \<noteq> [] \<Longrightarrow> rlm_account_requests (book_request acc now l) a =
     (if a = acc then rlm_account_requests l acc @ [now] else rlm_account_requests l a)"
  by (simp_all add: book_request_def Let_def)

lemma same_limits_steps [simp]:
  "same_limits cfg (prune_state acc now l) = same_limits cfg l"
  "same_limits cfg (book_request acc now l) = same_limits cfg l"
  by (simp_all add: same_limits_def)

text \<open>Reported reset times are at most the longest duration away.\<close>

definition reset_near :: "time \<Rightarrow> rate_limiter \<Rightarrow> bool" where
  "reset_near t l \<longleftrightarrow> qst_reset_at (rlm_global_server l) < t + 2 ^ 63 \<and> (\<forall>a. qst_reset_at (rlm_account_server l a) < t + 2 ^ 63)"

definition ordered_accounts :: "time \<Rightarrow> rate_limiter \<Rightarrow> bool" where
  "ordered_accounts t l \<longleftrightarrow> (\<forall>a. sorted (rlm_account_requests l a) \<and> (\<forall>x\<in>set (rlm_account_requests l a). x \<le> t))"

definition limiter_inv :: "snaptrade_config \<Rightarrow> (string \<times> time) list \<Rightarrow> time \<Rightarrow> rate_limiter \<Rightarrow> bool" where
  "limiter_inv cfg gs t l \<longleftrightarrow> same_limits cfg l \<and> 0 < t \<and> (\<forall>g\<in>set gs. 0 < snd g \<and> snd g \<le> t) \<and> sorted (map snd gs) \<and>
     rlm_last_request l = (if gs = [] then 0 else snd (last gs)) \<and> reset_near t l \<and> ordered_accounts t l \<and>
     tracks (rlm_global_requests l) (map snd gs) t \<and>
     (0 < rlm_account_limit l \<longrightarrow> (\<forall>a. a \<noteq> [] \<longrightarrow> tracks (rlm_account_requests l a) (times_of a gs) t))"

definition rate_kept :: "snaptrade_config \<Rightarrow> (string \<times> time) list \<Rightarrow> bool" where
  "rate_kept cfg gs \<longleftrightarrow> windowed (global_quota cfg) (map snd gs) \<and>
     successively (\<lambda>x y. x + stc_request_interval cfg \<le> y) (map snd gs) \<and>
     (0 < rlm_account_limit (newRateLimiter cfg) \<longrightarrow> (\<forall>a. a \<noteq> [] \<longrightarrow> windowed (account_quota cfg) (times_of a gs)))"

lemma wait_turn_cases:
  assumes "wait_turn acc now l = (w, l')"
  obtains (waits) "0 < w" "w = turn_wait acc now (prune_state acc now l)" "l' = prune_state acc now l"
  | (grants) "w \<le> 0" "turn_wait acc now (prune_state acc now l) \<le> 0" "l' = book_request acc now (prune_state acc now l)"
proof (cases "turn_wait acc now (prune_state acc now l) \<le> 0")
  case True
  with assms show ?thesis by (intro grants) (auto simp: wait_turn_def Let_def)
next
  case False
  with assms show ?thesis by (intro waits) (auto simp: wait_turn_def Let_def)
qed

lemma reset_later: "reset_near t l \<Longrightarrow> t \<le> now \<Longrightarrow> reset_near now (prune_state acc now l)"
  by (auto simp: reset_near_def intro: order_less_le_trans)

lemma ordered_prune: "ordered_accounts t l \<Longrightarrow> t \<le> now \<Longrightarrow> ordered_accounts now (prune_state acc now l)"
  by (auto simp: ordered_accounts_def pruneWindow_def sorted_dropWhile dest!: set_dropWhileD intro: order_trans)

lemma ordered_book: "ordered_accounts now l \<Longrightarrow> ordered_accounts now (book_request acc now l)"
  by (auto simp: ordered_accounts_def book_request_def Let_def sorted_append)

lemma sorted_times_of: "sorted (map snd gs) \<Longrightarrow> sorted (times_of a gs)"
  unfolding times_of_def by (rule sorted_filter)

lemma inv_prune:
  assumes "limiter_inv cfg gs t l" and "t \<le> now"
  shows "limiter_inv cfg gs now (prune_state acc now l)"
proof -
  note inv = assms(1)[unfolded limiter_inv_def]
  have sorted: "sorted (map snd gs)" "\<And>a. sorted (times_of a gs)" using inv sorted_times_of by blast+
  have global: "pruneWindow (rlm_global_requests l) now = filter (\<lambda>x. cutoff now < x) (map snd gs)"
    using inv sorted(1) assms(2) by (intro prune_tracks) auto
  have account: "tracks (rlm_account_requests (prune_state acc now l) a) (times_of a gs) now"
    if "0 < rlm_account_limit l" "a \<noteq> []" for a
  proof -
    have tr: "tracks (rlm_account_requests l a) (times_of a gs) t" using inv that by blast
    show ?thesis
      using tracks_later [OF tr assms(2)] prune_tracks [OF tr sorted(2) assms(2)]
      by (cases "a = acc") (auto simp: tracks_pruned)
  qed
  show ?thesis unfolding limiter_inv_def
    using inv assms(2) reset_later [of t l now acc] ordered_prune [of t l now acc] account by (auto simp: global tracks_pruned intro: order_trans)
qed

lemma inv_book:
  assumes "limiter_inv cfg gs now l"
  shows "limiter_inv cfg (gs @ [(acc, now)]) now (book_request acc now l)"
proof -
  note inv = assms[unfolded limiter_inv_def]
  have account: "tracks (rlm_account_requests (book_request acc now l) a) (times_of a (gs @ [(acc, now)])) now"
    if "0 < rlm_account_limit l" "a \<noteq> []" for a
  proof -
    have "tracks (rlm_account_requests l a) (times_of a gs) now" using inv that by blast
    from this tracks_snoc [OF this] show ?thesis using that by (cases "a = acc") (auto simp: times_of_def)
  qed
  have "tracks (rlm_global_requests (book_request acc now l)) (map snd (gs @ [(acc, now)])) now"
    using inv tracks_snoc [of "rlm_global_requests l" "map snd gs" now] by simp
  with inv account ordered_book [of now l acc] show ?thesis unfolding limiter_inv_def by (auto simp: sorted_append reset_near_def)
qed

lemma quota_reset: "quotaFromHeaders h p now = Some q \<Longrightarrow> 0 < now \<Longrightarrow> qst_reset_at q < now + 2 ^ 63"
  using wrap64_range by (auto simp: quotaFromHeaders_def Let_def split: if_splits option.splits)

lemma inv_observe:
  assumes "limiter_inv cfg gs t l" and "t \<le> now"
  shows "limiter_inv cfg gs now (observe headers acc now l)"
proof -
  note inv = assms(1)[unfolded limiter_inv_def]
  have now: "0 < now" using inv assms(2) by simp
  have near: "reset_near now l" using inv assms(2) by (auto simp: reset_near_def intro: order_less_le_trans)
  have reset: "reset_near now (observe headers acc now l)"
    using near quota_reset [OF _ now] by (auto simp: reset_near_def observe_def Let_def split: option.split)
  have ordered: "ordered_accounts now (observe headers acc now l)"
    using inv assms(2) by (auto simp: ordered_accounts_def observe_def Let_def split: option.split intro: order_trans)
  have same: "rlm_global_requests (observe headers acc now l) = rlm_global_requests l"
    "rlm_account_requests (observe headers acc now l) = rlm_account_requests l"
    "rlm_last_request (observe headers acc now l) = rlm_last_request l"
    "rlm_account_limit (observe headers acc now l) = rlm_account_limit l"
    "same_limits cfg (observe headers acc now l) = same_limits cfg l"
    by (simp_all add: observe_def Let_def same_limits_def split: option.split)
  show ?thesis unfolding limiter_inv_def same
    using inv assms(2) reset ordered tracks_later [OF _ assms(2)] by (auto intro: order_trans)
qed

section \<open>The rates are kept\<close>

lemma interval_passed:
  assumes "prev \<le> now" and "0 \<le> interval" and "interval < 2 ^ 63" and "wrap64 (interval - time_sub now prev) \<le> 0"
  shows "prev + interval \<le> now"
proof -
  note b = time_sub_le [OF assms(1)]
  have "wrap64 (interval - time_sub now prev) = interval - time_sub now prev" using assms b by (intro wrap64_id) auto
  with assms b show ?thesis by simp
qed

lemma pruned_requests:
  assumes "limiter_inv cfg gs t l" and "t \<le> now"
  shows "rlm_global_requests (prune_state acc now l) = filter (\<lambda>x. cutoff now < x) (map snd gs)"
    "acc \<noteq> [] \<Longrightarrow> 0 < rlm_account_limit l \<Longrightarrow>
       rlm_account_requests (prune_state acc now l) acc = filter (\<lambda>x. cutoff now < x) (times_of acc gs)"
  using assms prune_tracks [OF _ _ assms(2)] sorted_times_of by (auto simp: limiter_inv_def)

lemma granted_below_capacity:
  assumes "localWindowWait (filter (\<lambda>x. cutoff now < x) ts) capacity now \<le> 0" and "0 < capacity" and "capacity \<le> n"
  shows "int (length (filter (\<lambda>x. cutoff now < x) ts)) < n"
  using assms window_wait_positive [of "filter (\<lambda>x. cutoff now < x) ts" now capacity] by force

lemma rate_kept_snoc:
  assumes inv: "limiter_inv cfg gs t l" and sane: "sane_limits cfg" and kept: "rate_kept cfg gs" and t: "t \<le> now"
    and free: "turn_wait acc now (prune_state acc now l) \<le> 0"
  shows "rate_kept cfg (gs @ [(acc, now)])"
proof -
  let ?l = "prune_state acc now l"
  note I = inv[unfolded limiter_inv_def] and W = free[unfolded turn_wait_le]
  have same: "same_limits cfg ?l" using I by simp
  then have lim: "rlm_global_limit ?l = rlm_global_limit (newRateLimiter cfg)" "rlm_account_limit ?l = rlm_account_limit (newRateLimiter cfg)"
    "rlm_minimum_interval ?l = stc_request_interval cfg" by (simp_all add: same_limits_def)
  have small: "rlm_account_limit (newRateLimiter cfg) < 2 ^ 40" using sane new_limits(4) by (simp add: sane_limits_def)
  have old: "\<forall>x\<in>set (map snd gs). x \<le> now" "\<And>a. \<forall>x\<in>set (times_of a gs). x \<le> now"
    using I t by (auto simp: times_of_def)
  have "windowed (global_quota cfg) (map snd gs @ [now])"
  proof (rule windowed_snoc [OF _ old(1)])
    show "windowed (global_quota cfg) (map snd gs)" using kept by (simp add: rate_kept_def)
    have "0 < rlm_global_limit ?l" "rlm_global_limit ?l < 2 ^ 40" using new_limits(1,2) [of cfg] unfolding lim by simp_all
    note eff = effective_capacity [OF sane same this]
    have "localWindowWait (rlm_global_requests ?l) (effectiveCapacity ?l (rlm_global_limit ?l) (qst_limit (rlm_global_server ?l))) now \<le> 0"
      using W by blast
    from granted_below_capacity [OF this [unfolded pruned_requests(1) [OF inv t]] eff]
    show "int (length (filter (\<lambda>x. cutoff now < x) (map snd gs))) < global_quota cfg"
      by (simp only: global_quota_def lim(1))
  qed
  moreover have "windowed (account_quota cfg) (times_of a (gs @ [(acc, now)]))"
    if a: "a \<noteq> []" and pos: "0 < rlm_account_limit (newRateLimiter cfg)" for a
  proof (cases "a = acc")
    case True
    have "windowed (account_quota cfg) (times_of acc gs @ [now])"
    proof (rule windowed_snoc [OF _ old(2)])
      show "windowed (account_quota cfg) (times_of acc gs)" using kept a pos True by (simp add: rate_kept_def)
      have pos': "0 < rlm_account_limit ?l" "rlm_account_limit ?l < 2 ^ 40" using pos small by (simp_all only: lim(2))
      note eff = effective_capacity [OF sane same pos']
      have "localWindowWait (rlm_account_requests ?l acc) (effectiveCapacity ?l (rlm_account_limit ?l) (qst_limit (rlm_account_server ?l acc))) now \<le> 0"
        using W eff(1) a True by blast
      from granted_below_capacity [OF this [unfolded pruned_requests(2) [OF inv t a [unfolded True] pos'(1) [simplified prune_state_sel(4)]]] eff]
      show "int (length (filter (\<lambda>x. cutoff now < x) (times_of acc gs))) < account_quota cfg"
        by (simp only: account_quota_def lim(2))
    qed
    with True show ?thesis by (simp add: times_of_def)
  next
    case False
    with kept a pos show ?thesis by (auto simp: times_of_def rate_kept_def)
  qed
  moreover have "snd (last gs) + stc_request_interval cfg \<le> now" if "gs \<noteq> []"
  proof (rule interval_passed)
    have mem: "last gs \<in> set gs" using that by simp
    show "snd (last gs) \<le> now" using mem I t by fastforce
    have "0 < snd (last gs)" using I mem by blast
    then have "rlm_last_request ?l = snd (last gs)" "snd (last gs) \<noteq> 0" using I that by (simp, linarith)
    then show "wrap64 (stc_request_interval cfg - time_sub now (snd (last gs))) \<le> 0" using W lim(3) by metis
  qed (use sane in \<open>simp_all add: sane_limits_def\<close>)
  ultimately show ?thesis using kept
    by (cases "gs = []") (auto simp: rate_kept_def successively_append_iff last_map)
qed

lemma run_inv:
  assumes "limiter_run cfg gs t l" and sane: "sane_limits cfg"
  shows "limiter_inv cfg gs t l \<and> rate_kept cfg gs"
  using assms(1)
proof (induction rule: limiter_run.induct)
  case (start t)
  then show ?case
    by (auto simp: limiter_inv_def rate_kept_def same_limits_def reset_near_def ordered_accounts_def no_quota_def tracks_def times_of_def
        newRateLimiter_def Let_def global_quota_def account_quota_def)
next
  case (sleeps gs t l now acc w l')
  from sleeps(3,4) have "l' = prune_state acc now l" by (cases rule: wait_turn_cases) auto
  with sleeps inv_prune show ?case by blast
next
  case (granted gs t l now acc w l')
  from granted(3,4) have "l' = book_request acc now (prune_state acc now l)" "turn_wait acc now (prune_state acc now l) \<le> 0"
    by (cases rule: wait_turn_cases; auto)+
  with granted inv_book [OF inv_prune] rate_kept_snoc [OF _ sane] show ?case by blast
next
  case (reported gs t l now headers acc)
  with inv_observe show ?case by blast
qed

text \<open>
  C31. The request rates are kept. However the goroutines and the reports of the server
  interleave, no minute sees more granted requests than the safety percentage of the global
  limit (at most 250), consecutive requests are at least the configured interval apart, and with
  a limit per account no minute sees more requests for one account than the percentage of it.
  Whatever quota the server reports can only lower these rates.
\<close>

theorem request_rates_kept:
  assumes "sane_limits cfg" and "limiter_run cfg gs t l"
  shows "(\<forall>u. int (length (filter (\<lambda>x. u - dur_minute < x \<and> x \<le> u) (map snd gs))) \<le> global_quota cfg) \<and>
    global_quota cfg \<le> 250 \<and>
    successively (\<lambda>x y. x + stc_request_interval cfg \<le> y) (map snd gs) \<and>
    (0 < rlm_account_limit (newRateLimiter cfg) \<longrightarrow> (\<forall>a u. a \<noteq> [] \<longrightarrow>
       int (length (filter (\<lambda>x. u - dur_minute < x \<and> x \<le> u) (times_of a gs))) \<le> account_quota cfg))"
proof -
  have "rlm_global_limit (newRateLimiter cfg) * stc_safety_percent cfg \<le> 250 * 100"
    using assms(1) new_limits(1,2) [of cfg] by (intro mult_mono) (auto simp: sane_limits_def)
  then have "global_quota cfg \<le> 250" unfolding global_quota_def using zdiv_mono1 [of _ "250 * 100" 100] by simp
  with run_inv [OF assms(2,1)] show ?thesis by (simp add: rate_kept_def windowed_def cutoff_def)
qed

section \<open>A lone caller is served\<close>

lemma window_after_sleep:
  assumes "sorted requests" and "\<forall>x\<in>set requests. x \<le> now" and "localWindowWait requests capacity now \<le> later - now"
  shows "localWindowWait (pruneWindow requests later) capacity later \<le> 0"
proof (cases "0 < capacity \<and> capacity \<le> int (length requests)")
  case True
  let ?k = "length requests - nat capacity" and ?old = "\<lambda>x. \<not> cutoff later < x"
  let ?e = "requests ! ?k"
  have k: "?k < length requests" using True by linarith
  have "?e \<le> now" using assms(2) nth_mem [OF k] by blast
  then have "?e + dur_minute - now \<le> time_sub (?e + dur_minute) now" by (simp add: time_sub_def)
  moreover have "localWindowWait requests capacity now = time_sub (?e + dur_minute) now" using True by (simp add: localWindowWait_def)
  ultimately have e: "?e \<le> cutoff later" using assms(3) by (simp add: cutoff_def)
  have "Suc ?k \<le> length (takeWhile ?old requests)"
  proof (rule length_takeWhile_less_P_nth)
    fix i assume "i < Suc ?k"
    then have "requests ! i \<le> ?e" using k by (intro sorted_nth_mono [OF assms(1)]) auto
    with e show "?old (requests ! i)" by simp
  qed (use k in simp)
  moreover have "length (takeWhile ?old requests) + length (pruneWindow requests later) = length requests"
    unfolding pruneWindow_def by (metis length_append takeWhile_dropWhile_id)
  ultimately have "int (length (pruneWindow requests later)) < capacity" using True by linarith
  then show ?thesis by (simp add: localWindowWait_def)
next
  case False
  have "length (pruneWindow requests later) \<le> length requests" by (simp add: pruneWindow_def length_dropWhile_le)
  with False show ?thesis by (auto simp: localWindowWait_def)
qed

lemma quota_after_sleep:
  assumes "serverQuotaWait q p now \<le> later - now" and "qst_reset_at q < now + 2 ^ 63" and "now \<le> later"
  shows "serverQuotaWait q p later \<le> 0"
  using assms by (auto simp: serverQuotaWait_def Let_def time_sub_def split: if_splits)

lemma interval_after_sleep:
  assumes "prev \<le> now" and "0 \<le> interval" and "interval < 2 ^ 63" and "now \<le> later"
    and "wrap64 (interval - time_sub now prev) \<le> later - now"
  shows "wrap64 (interval - time_sub later prev) \<le> 0"
proof -
  have le: "prev \<le> later" using assms by simp
  note b = time_sub_le [OF assms(1)] time_sub_le [OF le]
  have w: "wrap64 (interval - time_sub now prev) = interval - time_sub now prev"
    "wrap64 (interval - time_sub later prev) = interval - time_sub later prev" using assms b by (intro wrap64_id; auto)+
  show ?thesis
  proof (cases "later - prev \<le> 2 ^ 63 - 1")
    case True
    then have "time_sub later prev = later - prev" using le by (simp add: time_sub_def)
    with assms(5) b show ?thesis unfolding w by linarith
  next
    case False
    then have "time_sub later prev = 2 ^ 63 - 1" by (simp add: time_sub_def)
    with assms(3) show ?thesis unfolding w by linarith
  qed
qed

lemma turn_after_sleep:
  assumes inv: "limiter_inv cfg gs now l" and sane: "sane_limits cfg" and later: "now \<le> later"
    and slept: "turn_wait acc now l \<le> later - now"
  shows "turn_wait acc later (prune_state acc later l) \<le> 0"
proof -
  note I = inv[unfolded limiter_inv_def] and W = slept[unfolded turn_wait_le]
  have eff: "effectiveCapacity (prune_state acc later l) = effectiveCapacity l"
    by (simp add: effectiveCapacity_def fun_eq_iff)
  from I obtain mark where global: "rlm_global_requests l = filter (\<lambda>x. mark < x) (map snd gs)" unfolding tracks_def by blast
  have g: "sorted (rlm_global_requests l)" "\<forall>x\<in>set (rlm_global_requests l). x \<le> now"
    unfolding global using I by (auto intro: sorted_wrt_filter)
  have a: "sorted (rlm_account_requests l acc)" "\<forall>x\<in>set (rlm_account_requests l acc). x \<le> now"
    using I by (auto simp: ordered_accounts_def)
  have near: "qst_reset_at (rlm_global_server l) < now + 2 ^ 63" "qst_reset_at (rlm_account_server l acc) < now + 2 ^ 63"
    using I by (auto simp: reset_near_def)
  have rest: "rlm_last_request l \<noteq> 0 \<Longrightarrow> wrap64 (rlm_minimum_interval l - time_sub later (rlm_last_request l)) \<le> 0"
  proof (rule interval_after_sleep [where now = now])
    assume prev: "rlm_last_request l \<noteq> 0"
    then have "gs \<noteq> []" using I by auto
    then have "last gs \<in> set gs" by simp
    with I \<open>gs \<noteq> []\<close> show "rlm_last_request l \<le> now" by auto
    show "wrap64 (rlm_minimum_interval l - time_sub now (rlm_last_request l)) \<le> later - now" using W prev by blast
  qed (use I sane later in \<open>auto simp: same_limits_def sane_limits_def\<close>)
  show ?thesis unfolding turn_wait_le
    using rest window_after_sleep [OF g] window_after_sleep [OF a] quota_after_sleep [OF _ near(1) later]
      quota_after_sleep [OF _ near(2) later] W
    by (simp add: eff)
qed

text \<open>
  C32. An undisturbed caller is served. Whatever the history of the limiter, a call of
  \<open>wait\<close> that no other goroutine interferes with, and whose sleep lasts as long as it is told to
  and is not cancelled, returns without an error after at most one sleep, with its request booked.
\<close>

theorem lone_caller_is_served:
  assumes "sane_limits cfg" and "limiter_run cfg gs t l" and "t \<le> now"
    and "\<And>u d s. \<exists>later \<ge> u + d. pause u d s = (None, later, s)"
  shows "\<exists>later l'. limiter_wait pause acc now l = Some (None, later, l') \<and> now \<le> later \<and>
    limiter_run cfg (gs @ [(acc, later)]) later l'"
proof -
  have inv: "limiter_inv cfg gs t l" using run_inv [OF assms(2,1)] by blast
  let ?l1 = "prune_state acc now l"
  obtain w l1 where turn: "wait_turn acc now l = (w, l1)" by fastforce
  then show ?thesis
  proof (cases rule: wait_turn_cases)
    case grants
    with turn have "limiter_wait pause acc now l = Some (None, now, l1)" by (subst limiter_wait.simps) simp
    with limiter_run.granted [OF assms(2,3) turn grants(1)] show ?thesis by blast
  next
    case waits
    from assms(4) obtain later where later: "now + w \<le> later" "pause now w l1 = (None, later, l1)" by blast
    have le: "now \<le> later" using waits(1) later(1) by simp
    have "turn_wait acc later (prune_state acc later l1) \<le> 0"
      using turn_after_sleep [OF inv_prune [OF inv assms(3)] assms(1) le] waits later(1) by simp
    then obtain l2 where second: "wait_turn acc later l1 = (0, l2)" by (simp add: wait_turn_def Let_def)
    have "limiter_wait pause acc now l = Some (None, later, l2)"
      using turn waits(1) later(2) second by (subst limiter_wait.simps, simp) (subst limiter_wait.simps, simp)
    moreover have "limiter_run cfg (gs @ [(acc, later)]) later l2"
      using limiter_run.granted [OF limiter_run.sleeps [OF assms(2,3) turn waits(1)] le second] by simp
    ultimately show ?thesis using le by blast
  qed
qed

section \<open>Concrete runs\<close>

definition slow_cfg :: snaptrade_config where
  "slow_cfg = \<lparr>stc_enabled = True, stc_auth_mode = ''personal'', stc_package = ''free'', stc_client_id = ''c'',
     stc_consumer_key = ''k'', stc_user_id = [], stc_user_secret = [], stc_base_url = [], stc_account_ids = [],
     stc_history_start_date = 0, stc_sync_interval = dur_hour, stc_request_interval = 2 * dur_second,
     stc_requests_per_minute = 3, stc_account_requests_pm = 0, stc_safety_percent = 50, stc_page_size = 10,
     stc_max_retries = 0, stc_retry_base_delay = 1, stc_retry_max_delay = 1, stc_incremental_overlap = 0,
     stc_request_timeout = 1, stc_allow_manual_refresh = False, stc_allow_transaction_sync = False,
     stc_manual_refresh_cooldown = dur_hour\<rparr>"

definition first_turn :: "duration \<times> rate_limiter" where
  "first_turn = wait_turn ''a'' dur_second (newRateLimiter slow_cfg)"

lemma first_grant: "limiter_run slow_cfg [(''a'', dur_second)] dur_second (snd first_turn)"
proof -
  have "limiter_run slow_cfg [] 1 (newRateLimiter slow_cfg)" by (rule limiter_run.start) simp
  moreover have "fst first_turn \<le> 0" by code_simp
  ultimately show ?thesis
    using limiter_run.granted [of slow_cfg "[]" 1 _ dur_second "''a''" "fst first_turn" "snd first_turn"]
    by (simp add: first_turn_def)
qed

lemma slow_sane: "sane_limits slow_cfg"
  by (simp add: sane_limits_def slow_cfg_def)

theorem request_rates_kept_witness:
  "\<exists>gs t l. limiter_run slow_cfg gs t l \<and> gs = [(''a'', dur_second), (''a'', 62 * dur_second)] \<and> global_quota slow_cfg = 1 \<and>
     int (length (filter (\<lambda>x. 62 * dur_second - dur_minute < x \<and> x \<le> 62 * dur_second) (map snd gs))) \<le> 1"
proof -
  let ?t = "wait_turn ''a'' (62 * dur_second) (snd first_turn)"
  have "fst ?t \<le> 0" by code_simp
  then have run: "limiter_run slow_cfg ([(''a'', dur_second)] @ [(''a'', 62 * dur_second)]) (62 * dur_second) (snd ?t)"
    using limiter_run.granted [OF first_grant, of "62 * dur_second" "''a''" "fst ?t" "snd ?t"] by simp
  have quota: "global_quota slow_cfg = 1" by code_simp
  from request_rates_kept [OF slow_sane run, unfolded quota, THEN conjunct1, THEN spec, of "62 * dur_second"] run quota
  show ?thesis by auto
qed

theorem lone_caller_is_served_witness:
  "\<exists>later l'. limiter_wait (\<lambda>u d s. (None, u + d, s)) ''a'' (2 * dur_second) (snd first_turn) = Some (None, later, l') \<and>
     limiter_run slow_cfg [(''a'', dur_second), (''a'', later)] later l'"
proof -
  have "\<exists>later l'. limiter_wait (\<lambda>u d s. (None, u + d, s)) ''a'' (2 * dur_second) (snd first_turn) = Some (None, later, l') \<and>
      2 * dur_second \<le> later \<and> limiter_run slow_cfg ([(''a'', dur_second)] @ [(''a'', later)]) later l'"
    by (rule lone_caller_is_served [OF slow_sane first_grant]) auto
  then show ?thesis by auto
qed

end
