(* ===== verification/Binance_History.thy ===== *)
theory Binance_History
  imports Cex_Common Brokerage_Services Go_Number Go_Time "HOL-Library.AList"
begin

text \<open>
  The Binance client, \<open>clients/binance/client.go\<close> and \<open>trades.go\<close>: the spot snapshot and the
  budgeted import of trades, whose progress per pair is read back from the stored activities.
  The SDK is an argument: the account, the prices, the market metadata of selected pairs, and
  the trade pages, which may answer every request of a run differently.
\<close>

section \<open>The balance snapshot\<close>

record raw_balance =
  rbl_asset :: string
  rbl_free :: f64
  rbl_locked :: f64

type_synonym price_map = "string \<Rightarrow> f64 option"

definition price_at :: "price_map \<Rightarrow> string \<Rightarrow> f64" where
  "price_at prices pair = (case prices pair of None \<Rightarrow> Fin 0 | Some p \<Rightarrow> p)"

definition balance_line :: "price_map \<Rightarrow> raw_balance \<Rightarrow> cex_balance option" where
  "balance_line prices b =
    (let qty = f64_add (rbl_free b) (rbl_locked b) in
     if f64_eq qty (Fin 0) then None
     else let asset = NormalizeAsset (rbl_asset b);
              price = (if IsStablecoin asset then Fin 1 else price_at prices (asset @ ''USDT''));
              usd = (if IsStablecoin asset then qty else f64_mul price qty)
       in Some \<lparr>cxb_asset = asset, cxb_quantity = qty, cxb_price_usd = price, cxb_usd_value = usd\<rparr>)"

definition buildSnapshot :: "raw_balance list \<Rightarrow> price_map \<Rightarrow> cex_snapshot" where
  "buildSnapshot balances prices = \<lparr>cxs_balances = List.map_filter (balance_line prices) balances,
     cxs_trades = [], cxs_activities_fetched = False, cxs_partial = False, cxs_fee_price = None\<rparr>"

section \<open>Saved cursors\<close>

type_synonym cursors = "(string \<times> int) list"

definition saved_cursor :: "cursors \<Rightarrow> string \<Rightarrow> int" where
  "saved_cursor cs pair = (case map_of cs pair of None \<Rightarrow> 0 | Some n \<Rightarrow> n)"

text \<open>One stored row: foreign source ids are skipped, an unreadable trade id is an error.\<close>

definition saved_row :: "string \<Rightarrow> cursors \<Rightarrow> cursors res" where
  "saved_row record_id cs =
    (case split_on CHR '':'' record_id of
       provider # pair # rest # _ \<Rightarrow>
         if provider \<noteq> ''binance'' then Inr cs
         else (case parse_int (trim_suffix (trim_suffix rest ''-quote'') ''-base'') of
             None \<Rightarrow> Inl (ErrText ''binance: invalid saved trade ID'')
           | Some i \<Rightarrow> if i < 0 \<or> i = 2 ^ 63 - 1 then Inl (ErrText ''binance: invalid saved trade ID'')
               else Inr (AList.update pair (max (saved_cursor cs pair) (i + 1)) cs))
     | _ \<Rightarrow> Inr cs)"

fun saved_rows :: "string list \<Rightarrow> cursors \<Rightarrow> cursors res" where
  "saved_rows [] cs = Inr cs"
| "saved_rows (r # rs) cs = (case saved_row r cs of Inl e \<Rightarrow> Inl e | Inr cs' \<Rightarrow> saved_rows rs cs')"

definition spot_filter :: "int \<Rightarrow> activity_filter" where
  "spot_filter offset = \<lparr>afi_account_id = ''binance-spot'', afi_start_date = None, afi_end_date = None,
     afi_offset = offset, afi_limit = 1000\<rparr>"

text \<open>The paging loop over the stored activities; \<open>None\<close> would be a loop that never ends.\<close>

partial_function (option) saved_pages ::
  "int \<Rightarrow> cursors \<Rightarrow> 'x db_scheme \<Rightarrow> (cursors res \<times> 'x db_scheme) option" where
  "saved_pages offset cs s =
    (case activity_list (spot_filter offset) s of
       (Inl e, s') \<Rightarrow> Some (Inl (Wrapf ''binance saved history'' e), s')
     | (Inr (rows, n), s') \<Rightarrow>
         (case saved_rows (map act_source_record_id rows) cs of
            Inl e \<Rightarrow> Some (Inl e, s')
          | Inr cs' \<Rightarrow>
              let offset' = offset + int (length rows) in
              if offset' \<ge> n then Some (Inr cs', s')
              else if rows = [] then Some (Inl (ErrText ''binance saved history pagination stalled''), s')
              else saved_pages offset' cs' s'))"

definition savedCursors :: "bool \<Rightarrow> 'x db_scheme \<Rightarrow> (cursors res \<times> 'x db_scheme) option" where
  "savedCursors history s = (if \<not> history then Some (Inr [], s) else saved_pages 0 [] s)"

section \<open>The pairs in scope\<close>

definition scope_of_balance :: "price_map \<Rightarrow> raw_balance \<Rightarrow> string option" where
  "scope_of_balance prices b =
    (let asset = to_upper (rbl_asset b) in
     if f64_le (f64_add (rbl_free b) (rbl_locked b)) (Fin 0) \<or> IsStablecoin asset then None
     else if prices (asset @ ''USDT'') \<noteq> None then Some (asset @ ''USDT'') else None)"

definition historySymbols ::
  "string list \<Rightarrow> raw_balance list \<Rightarrow> price_map option \<Rightarrow> cursors \<Rightarrow> string list res" where
  "historySymbols configured balances prices cs =
    (if configured \<noteq> [] then
       Inr (sort (remdups (filter (\<lambda>s. s \<noteq> []) (map (\<lambda>s. to_upper (trim_space s)) configured))))
     else case prices of
       None \<Rightarrow> Inl (ErrText ''binance: prices unavailable for automatic history pair selection'')
     | Some ps \<Rightarrow> Inr (sort (remdups (map fst cs @ List.map_filter (scope_of_balance ps) balances))))"

section \<open>The trades of one pair\<close>

record binance_market =
  bmk_symbol :: string
  bmk_base :: string
  bmk_quote :: string

record raw_fill =
  rfl_id :: int
  rfl_price :: string
  rfl_quantity :: string
  rfl_commission :: string
  rfl_commission_asset :: string
  rfl_time :: int
  rfl_is_buyer :: bool

definition fill_number :: "string \<Rightarrow> f64 option" where
  "fill_number s = (case parse_float s of
     None \<Rightarrow> None | Some x \<Rightarrow> if f64_is_nan x \<or> f64_is_inf x \<or> f64_lt x (Fin 0) then None else Some x)"

definition fill_id :: "string \<Rightarrow> int \<Rightarrow> string" where
  "fill_id pair i = ''binance:'' @ pair @ '':'' @ itoa i"

definition mapTrade :: "raw_fill option \<Rightarrow> binance_market \<Rightarrow> cex_trade res" where
  "mapTrade raw m =
    (case raw of None \<Rightarrow> Inl (ErrText ''binance: invalid trade'')
     | Some r \<Rightarrow>
       if rfl_id r < 0 \<or> rfl_time r \<le> 0 \<or> bmk_base m = [] \<or> bmk_quote m = [] then Inl (ErrText ''binance: invalid trade'')
       else case (fill_number (rfl_price r), fill_number (rfl_quantity r), fill_number (rfl_commission r)) of
         (Some price, Some qty, Some fee) \<Rightarrow>
           Inr \<lparr>cxt_id = fill_id (bmk_symbol m) (rfl_id r), cxt_symbol = bmk_symbol m, cxt_base_asset = bmk_base m,
             cxt_quote_asset = bmk_quote m, cxt_side = (if rfl_is_buyer r then ''buy'' else ''sell''), cxt_price = price,
             cxt_quantity = qty, cxt_fee = fee, cxt_fee_asset = rfl_commission_asset r, cxt_note = [],
             cxt_timestamp = of_unix_milli (rfl_time r)\<rparr>
       | _ \<Rightarrow> Inl (ErrText ''binance: invalid trade numeric value''))"

text \<open>The rows of one page: the trades so far, the next id, and the error that stopped it.\<close>

fun page_fills ::
  "binance_market \<Rightarrow> int \<Rightarrow> raw_fill option list \<Rightarrow> cex_trade list \<Rightarrow> int \<Rightarrow> cex_trade list \<times> int \<times> go_error option" where
  "page_fills m fromID [] ts nextID = (ts, nextID, None)"
| "page_fills m fromID (raw # raws) ts nextID =
    (case mapTrade raw m of
       Inl e \<Rightarrow> (ts, nextID, Some e)
     | Inr t \<Rightarrow>
         let i = rfl_id (the raw) in
         if i = 2 ^ 63 - 1 then (ts, nextID, Some (ErrText ''binance trade ID overflow''))
         else if i < fromID \<or> cxt_id t \<in> cxt_id ` set ts then page_fills m fromID raws ts nextID
         else page_fills m fromID raws (ts @ [t]) (max nextID (i + 1)))"

type_synonym fill_server = "nat \<Rightarrow> string \<Rightarrow> int \<Rightarrow> raw_fill option list res"

definition historyPageBudget :: nat where "historyPageBudget = 20"

text \<open>
  Up to \<open>budget\<close> pages of one pair; \<open>made\<close> requests have been sent before. The result holds the
  trades, whether the pair is finished, the pages used and the error.
\<close>

fun symbolTrades ::
  "fill_server \<Rightarrow> nat \<Rightarrow> binance_market \<Rightarrow> int \<Rightarrow> nat \<Rightarrow> nat \<Rightarrow> cex_trade list \<Rightarrow>
   cex_trade list \<times> bool \<times> nat \<times> go_error option" where
  "symbolTrades server made m fromID used 0 ts = (ts, False, used, None)"
| "symbolTrades server made m fromID used (Suc budget) ts =
    (case server (made + used) (bmk_symbol m) fromID of
       Inl e \<Rightarrow> (ts, False, Suc used, Some (Wrapf ''binance trades'' e))
     | Inr page \<Rightarrow> (case page_fills m fromID page ts fromID of
         (ts', nextID, Some e) \<Rightarrow> (ts', False, Suc used, Some e)
       | (ts', nextID, None) \<Rightarrow>
           if length page < 1000 then (ts', True, Suc used, None)
           else if nextID \<le> fromID then (ts', False, Suc used, Some (ErrText ''binance trades: pagination did not advance''))
           else symbolTrades server made m nextID (Suc used) budget ts'))"

section \<open>A run over the scope\<close>

record history_progress =
  hpg_finished :: "string \<Rightarrow> bool"
  hpg_next :: string

record binance_fetcher =
  bnf_symbols :: "string list"
  bnf_history :: bool
  bnf_progress :: history_progress
  bnf_pending :: history_progress

definition errHistoryPending :: go_error where
  "errHistoryPending = ErrText ''binance: more history remains for a later sync''"

definition search_strings :: "string list \<Rightarrow> string \<Rightarrow> nat" where
  "search_strings symbols x = length (takeWhile (\<lambda>s. s < x) symbols)"

text \<open>The pairs of this run with the pair that follows each in the rotation.\<close>

definition rotation :: "string list \<Rightarrow> string \<Rightarrow> (string \<times> string) list" where
  "rotation symbols start_at =
    (let n = length symbols; start = search_strings symbols start_at mod n in
     map (\<lambda>i. (symbols ! ((start + i) mod n), symbols ! ((start + i + 1) mod n))) [0..<min n historyPageBudget])"

type_synonym market_info = "string list \<Rightarrow> binance_market list res"

definition market_of :: "binance_market list \<Rightarrow> string \<Rightarrow> binance_market option" where
  "market_of infos pair = map_of (rev (map (\<lambda>m. (bmk_symbol m, m)) infos)) pair"

fun trade_loop ::
  "fill_server \<Rightarrow> binance_market list \<Rightarrow> cursors \<Rightarrow> (string \<times> string) list \<Rightarrow> nat \<Rightarrow> nat \<Rightarrow>
   cex_trade list \<Rightarrow> history_progress \<Rightarrow> cex_trade list \<times> go_error option \<times> history_progress" where
  "trade_loop server infos cs [] made left acc p = (acc, None, p)"
| "trade_loop server infos cs ((pair, following) # todo) made left acc p =
    (if left = 0 then (acc, None, p)
     else let p1 = p\<lparr>hpg_finished := (hpg_finished p)(pair := False)\<rparr> in
       case market_of infos pair of
         None \<Rightarrow> (acc, Some (ErrText ''binance: no metadata for selected pair''), p1)
       | Some m \<Rightarrow> (case symbolTrades server made m (saved_cursor cs pair) 0 (min 2 left) [] of
           (ts, complete', used, Some e) \<Rightarrow> (acc @ ts, Some e, p1)
         | (ts, complete', used, None) \<Rightarrow>
             trade_loop server infos cs todo (made + used) (left - used) (acc @ ts)
               (p1\<lparr>hpg_next := following, hpg_finished := (hpg_finished p1)(pair := complete')\<rparr>)))"

definition run_trades ::
  "market_info \<Rightarrow> fill_server \<Rightarrow> binance_fetcher \<Rightarrow> raw_balance list \<Rightarrow> price_map option \<Rightarrow> cursors \<Rightarrow>
   cex_trade list \<times> go_error option \<times> history_progress" where
  "run_trades info server f balances prices cs =
    (let p = bnf_progress f in
     case historySymbols (bnf_symbols f) balances prices cs of
       Inl e \<Rightarrow> ([], Some e, p)
     | Inr symbols \<Rightarrow>
         if symbols = [] then ([], (if bnf_symbols f \<noteq> [] then None else Some errHistoryPending), p)
         else let todo = rotation symbols (hpg_next p) in
           case info (map fst todo) of
             Inl e \<Rightarrow> ([], Some (Wrapf ''binance selected market metadata'' e), p)
           | Inr infos \<Rightarrow> (case trade_loop server infos cs todo 0 historyPageBudget [] p of
               (ts, Some e, p') \<Rightarrow> (ts, Some e, p')
             | (ts, None, p') \<Rightarrow>
                 if \<not> list_all (hpg_finished p') symbols then (ts, Some errHistoryPending, p')
                 else if bnf_symbols f = [] then (ts, Some errHistoryPending, p')
                 else (ts, None, p')))"

definition Trades ::
  "market_info \<Rightarrow> fill_server \<Rightarrow> binance_fetcher \<Rightarrow> raw_balance list \<Rightarrow> price_map option \<Rightarrow> 'x db_scheme \<Rightarrow>
   (cex_trade list \<times> go_error option \<times> binance_fetcher \<times> 'x db_scheme) option" where
  "Trades info server f balances prices s =
    (let f0 = f\<lparr>bnf_pending := bnf_progress f\<rparr> in
     case savedCursors (bnf_history f) s of
       None \<Rightarrow> None
     | Some (Inl e, s') \<Rightarrow> Some ([], Some e, f0, s')
     | Some (Inr cs, s') \<Rightarrow> (case run_trades info server f balances prices cs of
         (ts, err, p) \<Rightarrow> Some (ts, err, f0\<lparr>bnf_pending := p\<rparr>, s')))"

section \<open>The client\<close>

record binance_client =
  bnc_api_key :: string
  bnc_secret :: string
  bnc_account :: "(string \<times> string \<times> string) list res"
  bnc_prices :: "(string \<times> string) list res"
  bnc_info :: market_info
  bnc_fills :: fill_server
  bnc_fetcher :: binance_fetcher

text \<open>The account and the ticker prices as the SDK answers them, and what the fetcher makes of them.\<close>

definition raw_balance_of :: "string \<times> string \<times> string \<Rightarrow> raw_balance option" where
  "raw_balance_of = (\<lambda>(asset, free_text, locked_text).
    let free = float_value free_text; locked = float_value locked_text in
    if f64_eq free (Fin 0) \<and> f64_eq locked (Fin 0) then None
    else Some \<lparr>rbl_asset = asset, rbl_free = free, rbl_locked = locked\<rparr>)"

definition Account :: "(string \<times> string \<times> string) list res \<Rightarrow> raw_balance list res" where
  "Account r = map_sum id (List.map_filter raw_balance_of) r"

definition Prices :: "(string \<times> string) list res \<Rightarrow> price_map res" where
  "Prices r = map_sum id (\<lambda>rows. map_of (rev (List.map_filter
    (\<lambda>(pair, text). map_option (\<lambda>v. (pair, v)) (parse_float text)) rows))) r"

definition binance_fetch ::
  "binance_client \<Rightarrow> time \<Rightarrow> 'x db_scheme \<Rightarrow> (broker_snapshot res \<times> binance_client \<times> 'x db_scheme) option" where
  "binance_fetch c now s =
    (if bnc_api_key c = [] \<or> bnc_secret c = [] then Some (Inl (ErrText ''binance: api key/secret not configured''), c, s)
     else case Account (bnc_account c) of
       Inl e \<Rightarrow> Some (Inl (Wrapf ''binance: account'' e), c, s)
     | Inr balances \<Rightarrow>
         let prices = (case Prices (bnc_prices c) of Inl _ \<Rightarrow> Map.empty | Inr ps \<Rightarrow> ps);
             snap0 = (buildSnapshot balances prices)\<lparr>cxs_partial := isl (bnc_prices c)\<rparr>
         in case Trades (bnc_info c) (bnc_fills c) (bnc_fetcher c) balances (Some prices) s of
              None \<Rightarrow> None
            | Some (ts, err, f, s') \<Rightarrow>
                Some (Inr (cex_translate now ''binance'' ''Binance'' (snap0\<lparr>cxs_trades := ts, cxs_activities_fetched := (err = None)\<rparr>)),
                  c\<lparr>bnc_fetcher := f\<rparr>, s'))"

definition binance_committed :: "binance_client \<Rightarrow> binance_client" where
  "binance_committed c = c\<lparr>bnc_fetcher := (bnc_fetcher c)\<lparr>bnf_progress := bnf_pending (bnc_fetcher c)\<rparr>\<rparr>"

section \<open>The request budget\<close>

text \<open>A run asks for at most twenty pages: what the server would answer after that is irrelevant.\<close>

lemma symbolTrades_budget:
  assumes "\<And>k. made + used \<le> k \<Longrightarrow> k < made + used + budget \<Longrightarrow> server k = server' k"
  shows "symbolTrades server made m fromID used budget ts = symbolTrades server' made m fromID used budget ts"
  using assms
proof (induction budget arbitrary: fromID used ts)
  case (Suc budget)
  have same: "server (made + used) = server' (made + used)" by (rule Suc.prems) simp_all
  have rest: "symbolTrades server made m x (Suc used) budget us = symbolTrades server' made m x (Suc used) budget us" for x us
    by (rule Suc.IH) (use Suc.prems in auto)
  show ?case by (simp add: same rest split: sum.split prod.split option.split)
qed simp

lemma symbolTrades_used:
  "symbolTrades server made m fromID used budget ts = (ts', whole, used', err) \<Longrightarrow> used' \<le> used + budget"
proof (induction budget arbitrary: fromID used ts)
  case (Suc budget)
  then show ?case by (fastforce split: sum.splits prod.splits option.splits if_splits)
qed simp

lemma trade_loop_budget:
  assumes "\<And>k. made \<le> k \<Longrightarrow> k < made + left \<Longrightarrow> server k = server' k"
  shows "trade_loop server infos cs todo made left acc p = trade_loop server' infos cs todo made left acc p"
  using assms
proof (induction todo arbitrary: made left acc p)
  case (Cons x todo)
  obtain pair following where x: "x = (pair, following)" by fastforce
  show ?case
  proof (cases "left = 0 \<or> market_of infos pair = None")
    case True
    then show ?thesis by (auto simp: x Let_def)
  next
    case False
    then obtain m where m: "market_of infos pair = Some m" by blast
    have same: "symbolTrades server made m (saved_cursor cs pair) 0 (min 2 left) [] =
        symbolTrades server' made m (saved_cursor cs pair) 0 (min 2 left) []"
      by (rule symbolTrades_budget) (use Cons.prems in auto)
    obtain ts whole used err where st: "symbolTrades server' made m (saved_cursor cs pair) 0 (min 2 left) [] = (ts, whole, used, err)"
      by (metis surj_pair)
    from symbolTrades_used [OF st] have "used \<le> left" by simp
    then have rest: "trade_loop server infos cs todo (made + used) (left - used) acc' p' =
        trade_loop server' infos cs todo (made + used) (left - used) acc' p'" for acc' p'
      by (intro Cons.IH) (use Cons.prems in auto)
    show ?thesis using False by (simp add: x m same st rest Let_def split: option.split)
  qed
qed simp

text \<open>
  C33. A run of the Binance import stays within its request budget. Two servers that agree on
  the first twenty trade requests of a run give the same trades, the same error and the same
  progress: no later request is ever sent, whatever the number of pairs in scope.
\<close>

theorem binance_request_budget:
  assumes "\<And>k. k < 20 \<Longrightarrow> server k = server' k"
  shows "run_trades info server f balances prices cs = run_trades info server' f balances prices cs"
proof -
  have "trade_loop server infos cs todo 0 historyPageBudget [] p = trade_loop server' infos cs todo 0 historyPageBudget [] p" for infos todo p
    by (rule trade_loop_budget) (use assms in \<open>simp add: historyPageBudget_def\<close>)
  then show ?thesis by (simp only: run_trades_def)
qed

section \<open>Trade ids and cursors\<close>

lemma itoa_digits: "0 \<le> i \<Longrightarrow> list_all is_digit (itoa i)"
  by (simp add: itoa_def nat_digits_all_digits)

lemma no_colon_digits: "list_all is_digit ds \<Longrightarrow> CHR '':'' \<notin> set ds"
  by (auto simp: list_all_iff is_digit_def char_code_def)

lemma trim_no_suffix: "\<not> has_suffix s p \<Longrightarrow> trim_suffix s p = s"
  by (simp add: trim_suffix_def)

lemma digits_no_suffix: "list_all is_digit ds \<Longrightarrow> \<not> has_suffix ds (CHR ''-'' # p)"
proof
  assume "list_all is_digit ds" "has_suffix ds (CHR ''-'' # p)"
  then have "is_digit CHR ''-''" by (auto simp: has_suffix_iff)
  then show False by (simp add: is_digit_def char_code_def)
qed

lemma fill_id_inj:
  assumes "0 \<le> i" "i < 2 ^ 63" "0 \<le> j" "j < 2 ^ 63" and "fill_id pair i = fill_id pair j"
  shows "i = j"
proof -
  have "itoa i = itoa j" using assms(5) unfolding fill_id_def by (simp only: same_append_eq)
  moreover have "parse_int (itoa i) = Some i" "parse_int (itoa j) = Some j" using assms(1-4) by (intro parse_int_itoa; linarith)+
  ultimately show ?thesis by (metis option.inject)
qed

lemma saved_cursor_update [simp]:
  "saved_cursor (AList.update k v cs) p = (if p = k then v else saved_cursor cs p)"
  by (simp add: saved_cursor_def update_conv')

lemma saved_row_leg:
  assumes "CHR '':'' \<notin> set pair" and "0 \<le> i" "i < 2 ^ 63 - 1" and "leg \<in> {''-quote'', ''-base''}"
  shows "saved_row (fill_id pair i @ leg) cs = Inr (AList.update pair (max (saved_cursor cs pair) (i + 1)) cs)"
proof -
  let ?d = "itoa i"
  have d: "list_all is_digit ?d" using assms(2) by (rule itoa_digits)
  have "fill_id pair i @ leg = ''binance'' @ CHR '':'' # (pair @ CHR '':'' # (?d @ leg))" by (simp add: fill_id_def)
  moreover have "split_on CHR '':'' (''binance'' @ CHR '':'' # (pair @ CHR '':'' # (?d @ leg))) = [''binance'', pair, ?d @ leg]"
    using assms(1,4) no_colon_digits [OF d] by (subst split_on_append_sep, simp, subst split_on_append_sep) (auto simp: split_on_absent)
  moreover have "trim_suffix (trim_suffix (?d @ leg) ''-quote'') ''-base'' = ?d"
  proof (cases "leg = ''-quote''")
    case True
    then show ?thesis by (simp add: trim_no_suffix digits_no_suffix [OF d])
  next
    case False
    then have leg: "leg = ''-base''" using assms(4) by simp
    have "\<not> has_suffix (?d @ ''-base'') ''-quote''" using leg_ids_differ by (metis has_suffix_iff)
    then have "trim_suffix (?d @ ''-base'') ''-quote'' = ?d @ ''-base''" by (rule trim_no_suffix)
    then show ?thesis unfolding leg by simp
  qed
  moreover have "parse_int ?d = Some i" using assms by (intro parse_int_itoa) simp_all
  ultimately show ?thesis using assms(2,3) by (simp add: saved_row_def)
qed

lemma saved_rows_append:
  "saved_rows (xs @ ys) cs = (case saved_rows xs cs of Inl e \<Rightarrow> Inl e | Inr cs' \<Rightarrow> saved_rows ys cs')"
  by (induction xs arbitrary: cs) (auto split: sum.split)

definition is_leg :: "(string \<times> int) set \<Rightarrow> string \<Rightarrow> bool" where
  "is_leg F r \<longleftrightarrow> (\<exists>(pair, i)\<in>F. r \<in> {fill_id pair i @ ''-quote'', fill_id pair i @ ''-base''})"

definition sound_fill :: "string \<times> int \<Rightarrow> bool" where
  "sound_fill x \<longleftrightarrow> CHR '':'' \<notin> set (fst x) \<and> 0 \<le> snd x \<and> snd x < 2 ^ 63 - 1"

lemma saved_rows_legs:
  assumes "\<forall>x\<in>F. sound_fill x" and "\<forall>r\<in>set rs. is_leg F r"
  shows "\<exists>cs'. saved_rows rs cs = Inr cs' \<and> (\<forall>p. saved_cursor cs p \<le> saved_cursor cs' p) \<and>
    (\<forall>p n. n < saved_cursor cs' p \<longrightarrow> n < saved_cursor cs p \<or> (\<exists>i. (p, i) \<in> F \<and> n \<le> i))"
  using assms(2)
proof (induction rs arbitrary: cs)
  case (Cons r rs)
  then obtain pair i where x: "(pair, i) \<in> F" "r \<in> {fill_id pair i @ ''-quote'', fill_id pair i @ ''-base''}"
    by (auto simp: is_leg_def)
  then have "sound_fill (pair, i)" using assms(1) by blast
  then have row: "saved_row r cs = Inr (AList.update pair (max (saved_cursor cs pair) (i + 1)) cs)"
    using x(2) saved_row_leg [of pair i] by (auto simp: sound_fill_def)
  let ?cs = "AList.update pair (max (saved_cursor cs pair) (i + 1)) cs"
  from Cons obtain cs' where cs': "saved_rows rs ?cs = Inr cs'" "\<forall>p. saved_cursor ?cs p \<le> saved_cursor cs' p"
    "\<forall>p n. n < saved_cursor cs' p \<longrightarrow> n < saved_cursor ?cs p \<or> (\<exists>i. (p, i) \<in> F \<and> n \<le> i)"
    by (metis list.set_intros(2))
  have grown: "saved_cursor cs p \<le> saved_cursor ?cs p" for p by simp
  have new: "n < saved_cursor cs p \<or> (\<exists>i. (p, i) \<in> F \<and> n \<le> i)" if "n < saved_cursor ?cs p" for p n
    using that x(1) by (auto split: if_splits)
  show ?case using row cs' grown new by (simp del: saved_cursor_update) (meson order_trans)
qed simp

section \<open>An honest exchange\<close>

text \<open>
  The exchange keeps the ids of the fills of each pair in rising order; a request from an id is
  answered by an error or by the first thousand fills from that id on.
\<close>

definition fills_serve :: "(string \<Rightarrow> int list) \<Rightarrow> fill_server \<Rightarrow> bool" where
  "fills_serve ledger server \<longleftrightarrow>
     (\<forall>p. sorted_wrt (<) (ledger p) \<and> (\<forall>i\<in>set (ledger p). 0 \<le> i \<and> i < 2 ^ 63 \<and> CHR '':'' \<notin> set p)) \<and>
     (\<forall>k p x page. server k p x = Inr page \<longrightarrow>
        None \<notin> set page \<and> map (\<lambda>r. rfl_id (the r)) page = take 1000 (filter (\<lambda>i. x \<le> i) (ledger p)))"

definition next_id :: "int \<Rightarrow> int list \<Rightarrow> int" where
  "next_id start ids = foldl (\<lambda>a i. max a (i + 1)) start ids"

lemma next_id_Cons [simp]: "next_id start (i # ids) = next_id (max start (i + 1)) ids" "next_id start [] = start"
  by (simp_all add: next_id_def)

lemma next_id_ge: "start \<le> next_id start ids"
proof (induction ids arbitrary: start)
  case (Cons i ids)
  from Cons [of "max start (i + 1)"] show ?case by simp
qed simp

lemma next_id_bounds: "i \<in> set ids \<Longrightarrow> i < next_id start ids"
proof (induction ids arbitrary: start)
  case (Cons j ids)
  then show ?case using next_id_ge [of "max start (j + 1)" ids] by auto
qed simp

lemma prefix_is_filter:
  assumes "sorted_wrt (<) xs" and "\<forall>i\<in>set xs. x \<le> (i :: int)"
  shows "filter (\<lambda>i. i < next_id x (take n xs)) xs = take n xs"
  using assms
proof (induction xs arbitrary: x n)
  case (Cons a xs)
  show ?case
  proof (cases n)
    case 0
    with Cons.prems show ?thesis by (auto simp: filter_empty_conv not_less)
  next
    case (Suc k)
    have start: "max x (a + 1) = a + 1" using Cons.prems(2) by simp
    have "\<forall>i\<in>set xs. a + 1 \<le> i" using Cons.prems(1) by auto
    with Cons.IH [of "a + 1" k] Cons.prems(1) have "filter (\<lambda>i. i < next_id (a + 1) (take k xs)) xs = take k xs" by simp
    moreover have "a < next_id (a + 1) (take k xs)" using next_id_ge [of "a + 1" "take k xs"] by simp
    ultimately show ?thesis by (simp add: Suc start)
  qed
qed simp

lemma filter_ranges:
  assumes "sorted_wrt (<) xs" and "a \<le> b" and "b \<le> (c :: int)"
  shows "filter (\<lambda>i. a \<le> i \<and> i < b) xs @ filter (\<lambda>i. b \<le> i \<and> i < c) xs = filter (\<lambda>i. a \<le> i \<and> i < c) xs"
  using assms(1)
proof (induction xs)
  case (Cons x xs)
  show ?case
  proof (cases "x < b")
    case True
    with Cons assms show ?thesis by simp
  next
    case False
    then have "filter (\<lambda>i. a \<le> i \<and> i < b) xs = []" using Cons.prems by (auto simp: filter_empty_conv)
    with Cons False assms show ?thesis by simp
  qed
qed simp

section \<open>The trades of a pair have no gap\<close>

text \<open>The trades of a pair so far, with both assets named.\<close>

definition trades_of :: "string \<Rightarrow> int list \<Rightarrow> cex_trade list \<Rightarrow> bool" where
  "trades_of pair ids ts \<longleftrightarrow> map cxt_id ts = map (fill_id pair) ids \<and> (\<forall>i\<in>set ids. 0 \<le> i \<and> i < 2 ^ 63 - 1) \<and>
     (\<forall>t\<in>set ts. pair_resolved t)"

lemma mapTrade_Inr:
  assumes "mapTrade (Some r) m = Inr t"
  shows "cxt_id t = fill_id (bmk_symbol m) (rfl_id r)" "pair_resolved t" "0 \<le> rfl_id r"
  using assms by (auto simp: mapTrade_def pair_resolved_def resolve_pair_def split: if_splits option.splits)

lemma trades_of_snoc:
  "trades_of pair ids ts \<Longrightarrow> cxt_id t = fill_id pair i \<Longrightarrow> pair_resolved t \<Longrightarrow> 0 \<le> i \<Longrightarrow> i < 2 ^ 63 - 1 \<Longrightarrow>
    trades_of pair (ids @ [i]) (ts @ [t])"
  by (auto simp: trades_of_def)

lemma fresh_fill:
  assumes "trades_of pair ids ts" and "\<forall>j\<in>set ids. j < i" and "0 \<le> i" and "i < 2 ^ 63"
  shows "fill_id pair i \<notin> cxt_id ` set ts"
proof
  assume "fill_id pair i \<in> cxt_id ` set ts"
  then have "fill_id pair i \<in> fill_id pair ` set ids" using assms(1) by (metis list.set_map trades_of_def)
  then obtain j where j: "j \<in> set ids" "fill_id pair i = fill_id pair j" by blast
  then have "0 \<le> j" "j < 2 ^ 63" using assms(1) by (auto simp: trades_of_def)
  from fill_id_inj [OF assms(3,4) this j(2)] assms(2) j(1) show False by auto
qed

lemma page_fills_prefix:
  assumes "page_fills m x page ts start = (ts', nid, err)" and "None \<notin> set page"
    and "trades_of (bmk_symbol m) ids ts" and "sorted_wrt (<) (map (\<lambda>r. rfl_id (the r)) page)"
    and "\<forall>r\<in>set page. x \<le> rfl_id (the r) \<and> 0 \<le> rfl_id (the r) \<and> rfl_id (the r) < 2 ^ 63"
    and "\<forall>r\<in>set page. \<forall>j\<in>set ids. j < rfl_id (the r)"
  shows "\<exists>n. let new = take n (map (\<lambda>r. rfl_id (the r)) page) in
    trades_of (bmk_symbol m) (ids @ new) ts' \<and> nid = next_id start new \<and> (err = None \<longrightarrow> new = map (\<lambda>r. rfl_id (the r)) page)"
  using assms
proof (induction page arbitrary: ts start ids)
  case Nil
  then show ?case by simp
next
  case (Cons raw page)
  from Cons.prems(2) obtain r where r: "raw = Some r" by (cases raw) auto
  let ?i = "rfl_id r"
  show ?case
  proof (cases "mapTrade raw m")
    case (Inl e)
    with Cons.prems show ?thesis by (intro exI [of _ 0]) auto
  next
    case (Inr t)
    note t = mapTrade_Inr [OF Inr [unfolded r]]
    show ?thesis
    proof (cases "?i = 2 ^ 63 - 1")
      case True
      with Cons.prems Inr show ?thesis by (intro exI [of _ 0]) (auto simp: r Let_def)
    next
      case False
      have bounds: "x \<le> ?i" "?i < 2 ^ 63" using Cons.prems(5) by (auto simp: r)
      have fresh: "fill_id (bmk_symbol m) ?i \<notin> cxt_id ` set ts"
        by (rule fresh_fill [OF Cons.prems(3)]) (use Cons.prems(6) t(3) bounds in \<open>auto simp: r\<close>)
      have step: "page_fills m x page (ts @ [t]) (max start (?i + 1)) = (ts', nid, err)"
        using Cons.prems(1) Inr False bounds(1) fresh by (simp add: r Let_def t(1))
      have added: "trades_of (bmk_symbol m) (ids @ [?i]) (ts @ [t])"
        by (rule trades_of_snoc [OF Cons.prems(3) t]) (use bounds False in simp)
      have "\<exists>n. let new = take n (map (\<lambda>r. rfl_id (the r)) page) in
          trades_of (bmk_symbol m) ((ids @ [?i]) @ new) ts' \<and> nid = next_id (max start (?i + 1)) new \<and>
          (err = None \<longrightarrow> new = map (\<lambda>r. rfl_id (the r)) page)"
        by (rule Cons.IH [OF step _ added]) (use Cons.prems in \<open>auto simp: r\<close>)
      then obtain n where n: "let new = take n (map (\<lambda>r. rfl_id (the r)) page) in
          trades_of (bmk_symbol m) ((ids @ [?i]) @ new) ts' \<and> nid = next_id (max start (?i + 1)) new \<and>
          (err = None \<longrightarrow> new = map (\<lambda>r. rfl_id (the r)) page)" by blast
      show ?thesis by (rule exI [of _ "Suc n"]) (use n in \<open>simp add: r Let_def\<close>)
    qed
  qed
qed

lemma symbolTrades_range:
  assumes "symbolTrades server made m x used budget ts = (ts', whole, used', err)" and honest: "fills_serve ledger server"
    and "trades_of (bmk_symbol m) (filter (\<lambda>i. x0 \<le> i \<and> i < x) (ledger (bmk_symbol m))) ts" and "x0 \<le> x"
  shows "\<exists>b. trades_of (bmk_symbol m) (filter (\<lambda>i. x0 \<le> i \<and> i < b) (ledger (bmk_symbol m))) ts' \<and>
    (whole \<longrightarrow> (\<forall>i\<in>set (ledger (bmk_symbol m)). i < b))"
  using assms(1,3,4)
proof (induction budget arbitrary: x used ts)
  case 0
  then show ?case by auto
next
  case (Suc budget)
  let ?L = "ledger (bmk_symbol m)"
  note S = honest[unfolded fills_serve_def, THEN conjunct1, THEN spec, of "bmk_symbol m"]
  show ?case
  proof (cases "server (made + used) (bmk_symbol m) x")
    case (Inl e)
    with Suc.prems show ?thesis by auto
  next
    case (Inr page)
    let ?ids = "map (\<lambda>r. rfl_id (the r)) page"
    have page: "None \<notin> set page" "?ids = take 1000 (filter (\<lambda>i. x \<le> i) ?L)"
      using honest Inr unfolding fills_serve_def by blast+
    have sub: "set ?ids \<subseteq> {i \<in> set ?L. x \<le> i}" unfolding page(2) using set_take_subset by fastforce
    obtain us nid perr where fills: "page_fills m x page ts x = (us, nid, perr)" by (metis surj_pair)
    have "\<exists>n. let new = take n ?ids in trades_of (bmk_symbol m) (filter (\<lambda>i. x0 \<le> i \<and> i < x) ?L @ new) us \<and>
        nid = next_id x new \<and> (perr = None \<longrightarrow> new = ?ids)"
    proof (rule page_fills_prefix [OF fills page(1) Suc.prems(2)])
      show "sorted_wrt (<) ?ids" unfolding page(2) using S by (intro sorted_wrt_take sorted_wrt_filter) blast
      show "\<forall>r\<in>set page. x \<le> rfl_id (the r) \<and> 0 \<le> rfl_id (the r) \<and> rfl_id (the r) < 2 ^ 63"
        using sub S by fastforce
      show "\<forall>r\<in>set page. \<forall>j\<in>set (filter (\<lambda>i. x0 \<le> i \<and> i < x) ?L). j < rfl_id (the r)" using sub by fastforce
    qed
    then obtain n where n: "trades_of (bmk_symbol m) (filter (\<lambda>i. x0 \<le> i \<and> i < x) ?L @ take n ?ids) us"
      "nid = next_id x (take n ?ids)" "perr = None \<Longrightarrow> take n ?ids = ?ids" by (auto simp: Let_def)
    have ge: "x \<le> nid" unfolding n(2) by (rule next_id_ge)
    have "take n ?ids = filter (\<lambda>i. x \<le> i \<and> i < nid) ?L"
    proof -
      have "take n ?ids = take (min n 1000) (filter (\<lambda>i. x \<le> i) ?L)" by (simp add: page(2))
      moreover have "filter (\<lambda>i. i < next_id x (take (min n 1000) (filter (\<lambda>i. x \<le> i) ?L))) (filter (\<lambda>i. x \<le> i) ?L)
          = take (min n 1000) (filter (\<lambda>i. x \<le> i) ?L)"
        using S by (intro prefix_is_filter sorted_wrt_filter) auto
      ultimately show ?thesis by (simp add: n(2) conj_commute)
    qed
    then have got: "trades_of (bmk_symbol m) (filter (\<lambda>i. x0 \<le> i \<and> i < nid) ?L) us"
      using n(1) filter_ranges [of ?L x0 x nid] S Suc.prems(3) ge by simp
    have last_page: "\<forall>i\<in>set ?L. i < nid" if "perr = None" "length page < 1000"
    proof
      fix i assume i: "i \<in> set ?L"
      show "i < nid"
      proof (cases "x \<le> i")
        case True
        have "length ?ids < 1000" using that(2) by simp
        then have "?ids = filter (\<lambda>i. x \<le> i) ?L" unfolding page(2) by (metis length_take min_less_iff_conj nat_less_le take_all_iff not_le min.absorb_iff2 linorder_not_less)
        with i True have "i \<in> set (take n ?ids)" using n(3) that(1) by simp
        then show ?thesis unfolding n(2) by (rule next_id_bounds)
      next
        case False
        with ge show ?thesis by simp
      qed
    qed
    consider (stop) "ts' = us" "whole \<longrightarrow> perr = None \<and> length page < 1000"
      | (more) "symbolTrades server made m nid (Suc used) budget us = (ts', whole, used', err)"
      using Suc.prems(1) Inr fills by (auto split: option.splits if_splits)
    then show ?thesis
    proof cases
      case stop
      with got last_page show ?thesis by blast
    next
      case more
      show ?thesis by (rule Suc.IH [OF more got]) (use Suc.prems(3) ge in simp)
    qed
  qed
qed

section \<open>A run leaves no gap\<close>

definition gapless :: "(string \<Rightarrow> int list) \<Rightarrow> cursors \<Rightarrow> (string \<times> int) list \<Rightarrow> bool" where
  "gapless ledger cs F \<longleftrightarrow> (\<forall>(p, i)\<in>set F. i \<in> set (ledger p) \<and> sound_fill (p, i) \<and>
     (\<forall>j\<in>set (ledger p). saved_cursor cs p \<le> j \<longrightarrow> j \<le> i \<longrightarrow> (p, j) \<in> set F))"

definition trades_for :: "(string \<times> int) list \<Rightarrow> cex_trade list \<Rightarrow> bool" where
  "trades_for F ts \<longleftrightarrow> map cxt_id ts = map (\<lambda>(p, i). fill_id p i) F \<and> (\<forall>t\<in>set ts. pair_resolved t)"

lemma gapless_append: "gapless ledger cs F \<Longrightarrow> gapless ledger cs G \<Longrightarrow> gapless ledger cs (F @ G)"
  unfolding gapless_def by fastforce

lemma gapless_pair:
  assumes "fills_serve ledger server" and "trades_of p (filter (\<lambda>i. saved_cursor cs p \<le> i \<and> i < b) (ledger p)) ts"
  shows "gapless ledger cs (map (Pair p) (filter (\<lambda>i. saved_cursor cs p \<le> i \<and> i < b) (ledger p)))"
    "trades_for (map (Pair p) (filter (\<lambda>i. saved_cursor cs p \<le> i \<and> i < b) (ledger p))) ts"
  using assms by (auto simp: gapless_def sound_fill_def trades_of_def trades_for_def fills_serve_def comp_def)

lemma trade_loop_gapless:
  assumes "trade_loop server infos cs todo made left acc p = (ts, err, p')" and honest: "fills_serve ledger server"
    and "gapless ledger cs F" and "trades_for F acc"
  shows "\<exists>F'. gapless ledger cs F' \<and> trades_for F' ts"
  using assms(1,3,4)
proof (induction todo arbitrary: made left acc p F)
  case (Cons x todo)
  obtain pair following where x: "x = (pair, following)" by fastforce
  show ?case
  proof (cases "left = 0 \<or> market_of infos pair = None")
    case True
    with Cons.prems show ?thesis by (auto simp: x Let_def split: if_splits)
  next
    case False
    then obtain m where m: "market_of infos pair = Some m" by blast
    have sym: "bmk_symbol m = pair" using m by (auto simp: market_of_def dest: map_of_SomeD)
    obtain us whole used perr where st: "symbolTrades server made m (saved_cursor cs pair) 0 (min 2 left) [] = (us, whole, used, perr)"
      by (metis surj_pair)
    have none: "trades_of (bmk_symbol m) (filter (\<lambda>i. saved_cursor cs pair \<le> i \<and> i < saved_cursor cs pair) (ledger (bmk_symbol m))) []"
      by (auto simp: trades_of_def filter_empty_conv)
    from symbolTrades_range [OF st honest none order_refl] obtain b
      where "trades_of pair (filter (\<lambda>i. saved_cursor cs pair \<le> i \<and> i < b) (ledger pair)) us" unfolding sym by blast
    note part = gapless_pair [OF honest this]
    let ?F = "F @ map (Pair pair) (filter (\<lambda>i. saved_cursor cs pair \<le> i \<and> i < b) (ledger pair))"
    have F: "gapless ledger cs ?F" "trades_for ?F (acc @ us)"
      using gapless_append [OF Cons.prems(2) part(1)] Cons.prems(3) part(2) by (auto simp: trades_for_def)
    show ?thesis
    proof (cases perr)
      case None
      with Cons.prems(1) False m st obtain made' left' p1 where
          "trade_loop server infos cs todo made' left' (acc @ us) p1 = (ts, err, p')"
        by (auto simp: x Let_def)
      from Cons.IH [OF this F] show ?thesis .
    next
      case (Some e)
      with Cons.prems(1) False m st have "ts = acc @ us" by (simp add: x Let_def)
      with F show ?thesis by blast
    qed
  qed
qed auto

lemma run_trades_gapless:
  assumes "run_trades info server f balances prices cs = (ts, err, p)" and "fills_serve ledger server"
  obtains F where "gapless ledger cs F" "trades_for F ts"
proof -
  have none: "gapless ledger cs []" "trades_for [] []" by (simp_all add: gapless_def trades_for_def)
  consider "ts = []" | (loop) infos todo err1 p1 where
      "trade_loop server infos cs todo 0 historyPageBudget [] (bnf_progress f) = (ts, err1, p1)"
    using assms(1) by (auto simp: run_trades_def Let_def split: sum.splits if_splits prod.splits option.splits)
  then show ?thesis
  proof cases
    case loop
    from trade_loop_gapless [OF loop assms(2) none] that show ?thesis by blast
  qed (use none that in blast)
qed

definition both_legs :: "string set \<Rightarrow> string \<Rightarrow> int \<Rightarrow> bool" where
  "both_legs R p i \<longleftrightarrow> fill_id p i @ ''-quote'' \<in> R \<and> fill_id p i @ ''-base'' \<in> R"

definition leg_ids :: "string \<Rightarrow> (string \<Rightarrow> time \<Rightarrow> f64) option \<Rightarrow> cex_trade list \<Rightarrow> string list" where
  "leg_ids accountID fee ts = map act_source_record_id (concat (map (trade_legs ''binance'' accountID fee) ts))"

lemma leg_ids_of_fills:
  assumes "trades_for F ts"
  shows "\<forall>r\<in>set (leg_ids a fee ts). is_leg (set F) r" "(p, i) \<in> set F \<Longrightarrow> both_legs (set (leg_ids a fee ts)) p i"
proof -
  have ids: "cxt_id ` set ts = (\<lambda>(p, i). fill_id p i) ` set F" using assms unfolding trades_for_def by (metis list.set_map)
  have legs: "set (leg_ids a fee ts) = (\<Union>t\<in>set ts. {cxt_id t @ ''-quote'', cxt_id t @ ''-base''})"
  proof -
    have one: "act_source_record_id ` set (trade_legs ''binance'' a fee t) = {cxt_id t @ ''-quote'', cxt_id t @ ''-base''}"
      if "t \<in> set ts" for t
    proof (rule trade_legs_cases [of t "''binance''" a fee])
      assume "\<not> pair_resolved t"
      with assms that show ?thesis by (auto simp: trades_for_def)
    qed simp
    have "set (leg_ids a fee ts) = (\<Union>t\<in>set ts. act_source_record_id ` set (trade_legs ''binance'' a fee t))"
      by (auto simp: leg_ids_def)
    also have "\<dots> = (\<Union>t\<in>set ts. {cxt_id t @ ''-quote'', cxt_id t @ ''-base''})" using one by (rule SUP_cong [OF refl])
    finally show ?thesis .
  qed
  show "\<forall>r\<in>set (leg_ids a fee ts). is_leg (set F) r"
  proof
    fix r assume "r \<in> set (leg_ids a fee ts)"
    then obtain t where t: "t \<in> set ts" "r \<in> {cxt_id t @ ''-quote'', cxt_id t @ ''-base''}" unfolding legs by blast
    then have "cxt_id t \<in> (\<lambda>(p, i). fill_id p i) ` set F" using ids by blast
    with t(2) show "is_leg (set F) r" by (auto simp: is_leg_def)
  qed
  show "both_legs (set (leg_ids a fee ts)) p i" if "(p, i) \<in> set F"
  proof -
    have "fill_id p i \<in> cxt_id ` set ts" unfolding ids using that by force
    then show ?thesis unfolding both_legs_def legs by auto
  qed
qed

text \<open>
  C34. The import of Binance trades leaves no gap. If the stored activities hold both legs of
  every fill below the cursor of its pair, then so they do after the legs of a run are stored,
  whether the run ended normally, at its budget or with an error: the cursors read back from the
  larger table have not fallen, and every fill below the new cursors is stored with both legs.
\<close>

theorem binance_fills_without_gap:
  assumes honest: "fills_serve ledger server" and saved: "saved_rows stored [] = Inr cs"
    and whole: "\<And>p i. i \<in> set (ledger p) \<Longrightarrow> i < saved_cursor cs p \<Longrightarrow> both_legs (set stored) p i"
    and run: "run_trades info server f balances prices cs = (ts, err, progress)"
  shows "\<exists>cs'. saved_rows (stored @ leg_ids accountID fee ts) [] = Inr cs' \<and>
    (\<forall>p. saved_cursor cs p \<le> saved_cursor cs' p) \<and>
    (\<forall>p i. i \<in> set (ledger p) \<longrightarrow> i < saved_cursor cs' p \<longrightarrow> both_legs (set (stored @ leg_ids accountID fee ts)) p i)"
proof -
  obtain F where F: "gapless ledger cs F" "trades_for F ts" using run_trades_gapless [OF run honest] by blast
  have sound: "\<forall>x\<in>set F. sound_fill x" using F(1) by (auto simp: gapless_def)
  obtain cs' where cs': "saved_rows (leg_ids accountID fee ts) cs = Inr cs'" "\<forall>p. saved_cursor cs p \<le> saved_cursor cs' p"
    "\<forall>p n. n < saved_cursor cs' p \<longrightarrow> n < saved_cursor cs p \<or> (\<exists>i. (p, i) \<in> set F \<and> n \<le> i)"
    using saved_rows_legs [OF sound leg_ids_of_fills(1) [OF F(2)]] by blast
  have "both_legs (set (stored @ leg_ids accountID fee ts)) p i" if "i \<in> set (ledger p)" "i < saved_cursor cs' p" for p i
  proof (cases "i < saved_cursor cs p")
    case True
    with whole [OF that(1)] show ?thesis by (auto simp: both_legs_def)
  next
    case False
    with cs'(3) that(2) obtain j where "(p, j) \<in> set F" "i \<le> j" by blast
    with F(1) that(1) False have "(p, i) \<in> set F" by (fastforce simp: gapless_def)
    from leg_ids_of_fills(2) [OF F(2) this] show ?thesis by (auto simp: both_legs_def)
  qed
  with cs'(1,2) saved show ?thesis by (auto simp: saved_rows_append)
qed

section \<open>The scan of the stored activities\<close>

definition spot_rows :: "'x db_scheme \<Rightarrow> activity list" where
  "spot_rows s = map activity_to_domain (activity_order (filter (activity_matches (spot_filter 0)) (db_activities s)))"

lemma spot_filter_matches: "activity_matches (spot_filter n) = activity_matches (spot_filter 0)"
  by (simp add: activity_matches_def spot_filter_def fun_eq_iff)

lemma spot_filter_page [simp]: "afi_limit (spot_filter n) = 1000" "afi_offset (spot_filter n) = n"
  by (simp_all add: spot_filter_def)

lemma drop_page: "drop n xs = take k (drop n xs) @ drop (n + length (take k (drop n xs))) xs"
proof -
  have "drop (n + length (take k (drop n xs))) xs = drop k (drop n xs)" by (simp add: min_def add.commute)
  then show ?thesis by (simp only: append_take_drop_id)
qed

lemma spot_page:
  assumes "activity_list (spot_filter (int n)) s = (r, s')"
  shows "spot_rows s' = spot_rows s \<and> (r = Inr (take 1000 (drop n (spot_rows s)), int (length (spot_rows s))) \<or> (\<exists>e. r = Inl e))"
  using assms
  by (auto simp: activity_list_def Let_def eff_defs exec_sql_def spot_rows_def spot_filter_matches [of "int n"] take_map drop_map
      length_activity_order split: option.splits prod.splits sum.splits)

lemma saved_pages_end:
  assumes "n \<le> length (spot_rows s)"
  shows "\<exists>r s'. saved_pages (int n) cs s = Some (r, s') \<and>
    (\<forall>cs'. r = Inr cs' \<longrightarrow> saved_rows (map act_source_record_id (drop n (spot_rows s))) cs = Inr cs')"
  using assms
proof (induction "length (spot_rows s) - n" arbitrary: n cs s rule: less_induct)
  case less
  let ?rows = "spot_rows s" and ?page = "take 1000 (drop n (spot_rows s))"
  obtain r s1 where page: "activity_list (spot_filter (int n)) s = (r, s1)" by fastforce
  note P = spot_page [OF page]
  show ?case
  proof (cases r)
    case (Inl e)
    with page show ?thesis by (subst saved_pages.simps) auto
  next
    case (Inr x)
    with P have x: "x = (?page, int (length ?rows))" by auto
    let ?n = "n + length ?page"
    have split: "map act_source_record_id (drop n ?rows) = map act_source_record_id ?page @ map act_source_record_id (drop ?n ?rows)"
      by (simp only: map_append [symmetric] drop_page [symmetric])
    show ?thesis
    proof (cases "saved_rows (map act_source_record_id ?page) cs")
      case (Inl e)
      with page Inr x show ?thesis by (subst saved_pages.simps) auto
    next
      case cs1: (Inr cs1)
      show ?thesis
      proof (cases "length ?rows \<le> ?n")
        case True
        then have "drop ?n ?rows = []" by simp
        then have "saved_rows (map act_source_record_id (drop n ?rows)) cs = Inr cs1" unfolding split using cs1 by (simp del: drop_eq_Nil)
        with True page Inr x cs1 show ?thesis by (subst saved_pages.simps) (auto simp: Let_def)
      next
        case False
        then have ne: "?page \<noteq> []" and pos: "0 < length ?page" by auto
        have smaller: "length (spot_rows s1) - ?n < length ?rows - n" using P False pos by auto
        have le: "?n \<le> length (spot_rows s1)" using P False by simp
        have step: "saved_pages (int n) cs s = saved_pages (int ?n) cs1 s1"
          using page Inr x cs1 False ne by (subst saved_pages.simps) (simp add: Let_def not_le del: length_take of_nat_add add: of_nat_add [symmetric])
        from less.hyps [OF smaller le, of cs1] P show ?thesis unfolding step split by (simp add: saved_rows_append cs1)
      qed
    qed
  qed
qed

text \<open>
  The scan of the stored activities always ends. Whichever statement fails, the paging loop
  that reads the saved trade ids returns after finitely many pages; if it succeeds, its cursors
  are those of all stored activities of the spot account, page borders notwithstanding.
\<close>

theorem saved_cursor_scan_ends:
  "\<exists>r s'. savedCursors True s = Some (r, s') \<and>
     (\<forall>cs. r = Inr cs \<longrightarrow> saved_rows (map act_source_record_id (spot_rows s)) [] = Inr cs)"
  using saved_pages_end [of 0 s "[]"] by (simp add: savedCursors_def)

text \<open>
  A pair without metadata at the head of the rotation stops the run before any request, and the
  rotation does not move: the following runs start at the same pair, so no pair is ever imported
  again.
\<close>

lemma missing_market_blocks:
  assumes "historySymbols (bnf_symbols f) balances prices cs = Inr symbols" and "symbols \<noteq> []"
    and "rotation symbols (hpg_next (bnf_progress f)) = (pair, following) # todo"
    and "info (pair # map fst todo) = Inr infos" and "market_of infos pair = None"
  shows "\<exists>p. run_trades info server f balances prices cs = ([], Some (ErrText ''binance: no metadata for selected pair''), p) \<and>
    hpg_next p = hpg_next (bnf_progress f)"
  using assms by (simp add: run_trades_def Let_def historyPageBudget_def)

section \<open>A concrete import\<close>

definition btc_ledger :: "string \<Rightarrow> int list" where
  "btc_ledger p = (if p = ''BTCUSDT'' then [3, 7] else [])"

definition fill_of :: "int \<Rightarrow> raw_fill" where
  "fill_of i = \<lparr>rfl_id = i, rfl_price = ''2'', rfl_quantity = ''1'', rfl_commission = ''0'', rfl_commission_asset = ''BNB'',
     rfl_time = 1000, rfl_is_buyer = True\<rparr>"

definition btc_server :: fill_server where
  "btc_server k p x = Inr (map (\<lambda>i. Some (fill_of i)) (filter (\<lambda>i. x \<le> i) (btc_ledger p)))"

definition btc_info :: market_info where
  "btc_info ps = Inr [\<lparr>bmk_symbol = ''BTCUSDT'', bmk_base = ''BTC'', bmk_quote = ''USDT''\<rparr>]"

definition btc_fetcher :: binance_fetcher where
  "btc_fetcher = \<lparr>bnf_symbols = ['' btcusdt''], bnf_history = True, bnf_progress = \<lparr>hpg_finished = (\<lambda>_. False), hpg_next = []\<rparr>,
     bnf_pending = \<lparr>hpg_finished = (\<lambda>_. False), hpg_next = []\<rparr>\<rparr>"

definition btc_stored :: "string list" where
  "btc_stored = [fill_id ''BTCUSDT'' 3 @ ''-quote'', fill_id ''BTCUSDT'' 3 @ ''-base'']"

definition btc_run :: "cex_trade list \<times> go_error option \<times> history_progress" where
  "btc_run = run_trades btc_info btc_server btc_fetcher [] None [(''BTCUSDT'', 4)]"

lemma btc_serves: "fills_serve btc_ledger btc_server"
  by (auto simp: fills_serve_def btc_ledger_def btc_server_def fill_of_def)

theorem binance_fills_without_gap_witness:
  "map cxt_id (fst btc_run) = [''binance:BTCUSDT:7''] \<and> fst (snd btc_run) = None \<and>
   (\<exists>cs'. saved_rows (btc_stored @ leg_ids ''binance-spot'' None (fst btc_run)) [] = Inr cs' \<and> 4 \<le> saved_cursor cs' ''BTCUSDT'')"
proof -
  have 1: "map cxt_id (fst btc_run) = [''binance:BTCUSDT:7'']" "fst (snd btc_run) = None" by code_simp+
  have saved: "saved_rows btc_stored [] = Inr [(''BTCUSDT'', 4)]" by code_simp
  have whole: "both_legs (set btc_stored) p i" if "i \<in> set (btc_ledger p)" "i < saved_cursor [(''BTCUSDT'', 4)] p" for p i
    using that by (auto simp: btc_ledger_def saved_cursor_def both_legs_def btc_stored_def split: if_splits)
  have run: "run_trades btc_info btc_server btc_fetcher [] None [(''BTCUSDT'', 4)] = (fst btc_run, fst (snd btc_run), snd (snd btc_run))"
    by (simp add: btc_run_def)
  have at: "saved_cursor [(''BTCUSDT'', 4)] ''BTCUSDT'' = 4" by code_simp
  obtain cs' where "saved_rows (btc_stored @ leg_ids ''binance-spot'' None (fst btc_run)) [] = Inr cs'"
      "saved_cursor [(''BTCUSDT'', 4)] ''BTCUSDT'' \<le> saved_cursor cs' ''BTCUSDT''"
    using binance_fills_without_gap [where accountID = "''binance-spot''" and fee = None, OF btc_serves saved whole run] by blast
  with 1 at show ?thesis by auto
qed

theorem binance_request_budget_witness:
  "map cxt_id (fst (run_trades btc_info (\<lambda>k. if k < 20 then btc_server k else (\<lambda>_ _. Inl (ErrText ''limit''))) btc_fetcher [] None
     [(''BTCUSDT'', 4)])) = [''binance:BTCUSDT:7'']"
proof -
  have "run_trades btc_info (\<lambda>k. if k < 20 then btc_server k else (\<lambda>_ _. Inl (ErrText ''limit''))) btc_fetcher [] None
      [(''BTCUSDT'', 4)] = btc_run"
    unfolding btc_run_def by (rule binance_request_budget) simp
  moreover have "map cxt_id (fst btc_run) = [''binance:BTCUSDT:7'']" by code_simp
  ultimately show ?thesis by simp
qed

definition btc_db :: db where
  "btc_db = after_batch ''binance-spot'' [sample_activity ''binance:BTCUSDT:3-base'' [], sample_activity ''binance:ETHUSDT:5-quote'' []] empty_db"

theorem saved_cursor_scan_ends_witness:
  "map act_source_record_id (spot_rows btc_db) = [''binance:BTCUSDT:3-base'', ''binance:ETHUSDT:5-quote''] \<and>
   (\<exists>r s'. savedCursors True btc_db = Some (r, s') \<and> (r = Inr [(''BTCUSDT'', 4), (''ETHUSDT'', 6)] \<or> isl r))"
proof -
  have rows: "map act_source_record_id (spot_rows btc_db) = [''binance:BTCUSDT:3-base'', ''binance:ETHUSDT:5-quote'']" by code_simp
  have cs: "saved_rows [''binance:BTCUSDT:3-base'', ''binance:ETHUSDT:5-quote''] [] = Inr [(''BTCUSDT'', 4), (''ETHUSDT'', 6)]" by code_simp
  from saved_cursor_scan_ends [of btc_db] obtain r s' where r: "savedCursors True btc_db = Some (r, s')"
    "\<forall>cs. r = Inr cs \<longrightarrow> saved_rows (map act_source_record_id (spot_rows btc_db)) [] = Inr cs" by blast
  then have "r = Inr [(''BTCUSDT'', 4), (''ETHUSDT'', 6)] \<or> isl r" unfolding rows cs by (cases r) auto
  with r(1) rows show ?thesis by blast
qed

end
