(* ===== verification/Cex_Clients.thy ===== *)
theory Cex_Clients
  imports Cex_Common Price_Cache Binance_History Sync_Runs
begin

text \<open>
  The Bitget client, \<open>clients/bitget/client.go\<close>, and the Hyperliquid client,
  \<open>clients/hyperliquid/client.go\<close>, from the decoded answers of their servers to the snapshot,
  and what a failing price source does to the holdings an exchange account has stored.
\<close>

section \<open>Bitget\<close>

definition atof :: "string \<Rightarrow> f64" where
  "atof s = (if s = [] then Fin 0 else float_value s)"

record 'a envelope =
  env_code :: string
  env_msg :: string
  env_data :: 'a

record bitget_asset =
  bga_coin :: string
  bga_avail :: string
  bga_frozen :: string
  bga_locked :: string

record bitget_raw =
  bgr_coin :: string
  bgr_avail :: f64
  bgr_frozen :: f64
  bgr_locked :: f64

definition bitget_ok :: "'a envelope \<Rightarrow> bool" where
  "bitget_ok env \<longleftrightarrow> env_code env = ''00000'' \<or> env_code env = []"

definition getAssets :: "bitget_asset list envelope res \<Rightarrow> bitget_raw list res" where
  "getAssets reply = (case reply of
       Inl e \<Rightarrow> Inl e
     | Inr env \<Rightarrow> if \<not> bitget_ok env then Inl (ErrText ''api error'')
         else Inr (map (\<lambda>a. \<lparr>bgr_coin = to_upper (bga_coin a), bgr_avail = atof (bga_avail a),
           bgr_frozen = atof (bga_frozen a), bgr_locked = atof (bga_locked a)\<rparr>) (env_data env)))"

definition getTickers :: "(string \<times> string) list envelope res \<Rightarrow> price_map res" where
  "getTickers reply = (case reply of
       Inl e \<Rightarrow> Inl e
     | Inr env \<Rightarrow> if \<not> bitget_ok env then Inl (ErrText ''api error'')
         else Inr (map_of (rev (map (\<lambda>(pair, last_price). (pair, atof last_price)) (env_data env)))))"

definition bitget_line :: "price_map \<Rightarrow> bitget_raw \<Rightarrow> cex_balance option" where
  "bitget_line prices a =
    (let qty = f64_add (f64_add (bgr_avail a) (bgr_frozen a)) (bgr_locked a) in
     if f64_eq qty (Fin 0) then None
     else let price = (if IsStablecoin (bgr_coin a) then Fin 1 else price_at prices (bgr_coin a @ ''USDT''));
              usd = (if IsStablecoin (bgr_coin a) then qty else f64_mul price qty)
       in Some \<lparr>cxb_asset = bgr_coin a, cxb_quantity = qty, cxb_price_usd = price, cxb_usd_value = usd\<rparr>)"

definition bitget_snapshot :: "bitget_raw list \<Rightarrow> price_map \<Rightarrow> cex_snapshot" where
  "bitget_snapshot balances prices = \<lparr>cxs_balances = List.map_filter (bitget_line prices) balances,
     cxs_trades = [], cxs_activities_fetched = False, cxs_partial = False, cxs_fee_price = None\<rparr>"

record bitget_client =
  btc_api_key :: string
  btc_secret :: string
  btc_passphrase :: string
  btc_assets :: "bitget_asset list envelope res"
  btc_tickers :: "(string \<times> string) list envelope res"

definition bitget_fetch :: "bitget_client \<Rightarrow> time \<Rightarrow> broker_snapshot res" where
  "bitget_fetch c now =
    (if btc_api_key c = [] \<or> btc_secret c = [] \<or> btc_passphrase c = []
     then Inl (ErrText ''bitget: API credentials not fully configured'')
     else case getAssets (btc_assets c) of
       Inl e \<Rightarrow> Inl (Wrapf ''bitget: assets'' e)
     | Inr balances \<Rightarrow>
         let prices = (case getTickers (btc_tickers c) of Inl _ \<Rightarrow> Map.empty | Inr ps \<Rightarrow> ps)
         in Inr (cex_translate now ''bitget'' ''Bitget''
              ((bitget_snapshot balances prices)\<lparr>cxs_partial := isl (getTickers (btc_tickers c))\<rparr>)))"

section \<open>Hyperliquid\<close>

text \<open>
  The reply of \<open>spotMetaAndAssetCtxs\<close> is a JSON array; its elements and their decoders are
  arguments. A universe entry is the list of its token indices.
\<close>

record spot_meta =
  smt_tokens :: "(string \<times> int) list"
  smt_universe :: "int list list"

record 'j meta_codec =
  mtc_meta :: "'j \<Rightarrow> spot_meta res"
  mtc_contexts :: "'j \<Rightarrow> string list res"

definition token_name :: "(string \<times> int) list \<Rightarrow> int \<Rightarrow> string" where
  "token_name tokens i = (case map_of (rev (map (\<lambda>(name, index). (index, name)) tokens)) i of
     None \<Rightarrow> [] | Some name \<Rightarrow> name)"

definition universe_mark :: "(string \<times> int) list \<Rightarrow> int list \<Rightarrow> string \<Rightarrow> (string \<times> f64) option" where
  "universe_mark tokens entry mark_text =
    (case entry of [] \<Rightarrow> None
     | base # _ \<Rightarrow> let px = atof mark_text; name = token_name tokens base in
         if f64_le px (Fin 0) \<or> name = [] then None else Some (to_upper name, px))"

definition fetchSpotMarks :: "'j meta_codec \<Rightarrow> 'j list res \<Rightarrow> price_map res" where
  "fetchSpotMarks codec reply = (case reply of
       Inl e \<Rightarrow> Inl e
     | Inr [meta_json, ctx_json] \<Rightarrow> (case mtc_meta codec meta_json of
           Inl e \<Rightarrow> Inl (Wrapf ''hyperliquid: spot meta decode'' e)
         | Inr meta \<Rightarrow> (case mtc_contexts codec ctx_json of
             Inl e \<Rightarrow> Inl (Wrapf ''hyperliquid: spot asset contexts decode'' e)
           | Inr ctxs \<Rightarrow> Inr (map_of (rev (List.map_filter (\<lambda>(entry, mark). universe_mark (smt_tokens meta) entry mark)
               (zip (smt_universe meta) ctxs))))))
     | Inr _ \<Rightarrow> Inl (ErrText ''hyperliquid: spotMetaAndAssetCtxs returned the wrong number of elements''))"

text \<open>The marks through the price service, which may be missing and may have no cache.\<close>

record marks_codec =
  mkc_encode :: "price_map \<Rightarrow> redis_text res"
  mkc_decode :: "redis_text \<Rightarrow> price_map res"

definition CurrentMarksKey :: string where "CurrentMarksKey = ''hl:spot:marks:v1''"

definition spotMarks ::
  "marks_codec \<Rightarrow> bool option \<Rightarrow> price_map res \<Rightarrow> ('x redis_world_scheme, price_map) eff" where
  "spotMarks codec prices fetched = (case prices of
       None \<Rightarrow> of_res fetched
     | Some cached \<Rightarrow> bind_eff
         (get_blob cached CurrentMarksKey CurrentPriceTTL
           (Some (bind_eff (of_res fetched) (\<lambda>marks. of_res (mkc_encode codec marks)))))
         (\<lambda>raw. case mkc_decode codec raw of
            Inl e \<Rightarrow> raise (Wrapf ''hyperliquid: cached marks decode'' e)
          | Inr marks \<Rightarrow> ret marks))"

record hyper_row =
  hyr_coin :: string
  hyr_total :: string
  hyr_entry_ntl :: string

text \<open>One spot balance, with whether it had to do without a mark.\<close>

definition spot_row :: "price_map \<Rightarrow> hyper_row \<Rightarrow> (cex_balance \<times> bool) option" where
  "spot_row marks r =
    (let qty = atof (hyr_total r); ntl = atof (hyr_entry_ntl r); coin = to_upper (hyr_coin r);
         mark = price_at marks coin;
         line = (\<lambda>price usd. \<lparr>cxb_asset = coin, cxb_quantity = qty, cxb_price_usd = price, cxb_usd_value = usd\<rparr>)
     in if f64_eq qty (Fin 0) then None
        else if IsStablecoin (hyr_coin r) then Some (line (Fin 1) qty, False)
        else if f64_gt mark (Fin 0) then Some (line mark (f64_mul mark qty), False)
        else if f64_gt qty (Fin 0) \<and> f64_gt ntl (Fin 0) then Some (line (f64_div ntl qty) ntl, True)
        else Some (line (Fin 0) (Fin 0), True))"

definition hyper_spot ::
  "price_map res \<Rightarrow> hyper_row list res \<Rightarrow> (cex_balance list \<times> bool) res" where
  "hyper_spot marks reply = (case reply of
       Inl e \<Rightarrow> Inl e
     | Inr rows \<Rightarrow> let lines = List.map_filter (spot_row (case marks of Inl _ \<Rightarrow> Map.empty | Inr ms \<Rightarrow> ms)) rows
         in Inr (map fst lines, isl marks \<or> list_ex snd lines))"

record hyper_client =
  hyc_wallet :: string
  hyc_prices :: "bool option"
  hyc_spot :: "hyper_row list res"
  hyc_perp :: "string res"

definition hyper_balances :: "(cex_balance list \<times> bool) res \<Rightarrow> f64 res \<Rightarrow> cex_snapshot" where
  "hyper_balances spot perp =
    (let collateral = (case perp of Inl _ \<Rightarrow> Fin 0 | Inr x \<Rightarrow> x)
     in \<lparr>cxs_balances = (case spot of Inl _ \<Rightarrow> [] | Inr (bs, _) \<Rightarrow> bs) @
           (if f64_gt collateral (Fin 0) then [\<lparr>cxb_asset = ''USDC'', cxb_quantity = collateral,
              cxb_price_usd = Fin 1, cxb_usd_value = collateral\<rparr>] else []),
         cxs_trades = [], cxs_activities_fetched = False,
         cxs_partial = (isl spot \<or> isl perp \<or> (case spot of Inl _ \<Rightarrow> False | Inr (_, fallback) \<Rightarrow> fallback)),
         cxs_fee_price = None\<rparr>)"

definition hyper_fetch ::
  "marks_codec \<Rightarrow> price_map res \<Rightarrow> hyper_client \<Rightarrow> time \<Rightarrow> ('x redis_world_scheme, broker_snapshot) eff" where
  "hyper_fetch codec fetched c now =
    (if hyc_wallet c = [] then raise (ErrText ''hyperliquid: wallet address not configured'')
     else bind_eff (attempt (spotMarks codec (hyc_prices c) fetched)) (\<lambda>marks.
       let spot = hyper_spot marks (hyc_spot c); perp = map_sum id atof (hyc_perp c)
       in case (spot, perp) of
         (Inl e1, Inl e2) \<Rightarrow> raise (Wrapf ''hyperliquid'' (Joined [e1, e2]))
       | _ \<Rightarrow> ret (cex_translate now ''hyperliquid'' ''Hyperliquid'' (hyper_balances spot perp))))"

section \<open>Outages\<close>

text \<open>
  The snapshots an exchange client delivers although a source of prices, or one of the two
  halves of a Hyperliquid account, could not be read.
\<close>

inductive outage_snapshot :: "string \<Rightarrow> broker_snapshot \<Rightarrow> bool" where
  binance_prices_down: "binance_fetch b now (s :: db) = Some (Inr snap, b', s') \<Longrightarrow> bnc_prices b = Inl e \<Longrightarrow>
    outage_snapshot ''binance-spot'' snap"
| bitget_tickers_down: "bitget_fetch c now = Inr snap \<Longrightarrow> getTickers (btc_tickers c) = Inl e \<Longrightarrow>
    outage_snapshot ''bitget-spot'' snap"
| hyper_marks_down: "hyper_fetch codec fetched h now (r :: redis_world) = (Inr snap, r') \<Longrightarrow>
    fst (spotMarks codec (hyc_prices h) fetched r) = Inl e \<Longrightarrow> outage_snapshot ''hyperliquid-spot'' snap"
| hyper_spot_down: "hyper_fetch codec fetched h now (r :: redis_world) = (Inr snap, r') \<Longrightarrow> hyc_spot h = Inl e \<Longrightarrow>
    outage_snapshot ''hyperliquid-spot'' snap"
| hyper_perp_down: "hyper_fetch codec fetched h now (r :: redis_world) = (Inr snap, r') \<Longrightarrow> hyc_perp h = Inl e \<Longrightarrow>
    outage_snapshot ''hyperliquid-spot'' snap"

definition all_partial :: "string \<Rightarrow> broker_snapshot \<Rightarrow> bool" where
  "all_partial i snap \<longleftrightarrow> i \<in> set (partial_accounts snap) \<and>
     (\<forall>h\<in>set (snap_holdings snap). hol_account_id h = i \<longrightarrow> hol_partial h)"

lemma translated_partial:
  "cxs_partial s \<Longrightarrow> all_partial (slug @ ''-spot'') (cex_translate now slug d s)"
  by (simp add: all_partial_def partial_accounts_def cex_translate_def Let_def split: prod.splits)

lemma hyper_fetch_snapshot:
  assumes "hyper_fetch codec fetched h now r = (Inr snap, r')"
  obtains "snap = cex_translate now ''hyperliquid'' ''Hyperliquid''
    (hyper_balances (hyper_spot (fst (spotMarks codec (hyc_prices h) fetched r)) (hyc_spot h)) (map_sum id atof (hyc_perp h)))"
  using assms
  by (auto simp: hyper_fetch_def bind_eff_apply attempt_def raise_def ret_def Let_def split: prod.splits sum.splits if_splits)

lemma outage_partial:
  assumes "outage_snapshot i snap"
  shows "all_partial i snap"
  using assms
proof cases
  case (binance_prices_down b now s b' s' e)
  then show ?thesis
    using translated_partial [of _ "''binance''" now "''Binance''"]
    by (auto simp: binance_fetch_def Prices_def Let_def split: if_splits sum.splits option.splits prod.splits)
next
  case (bitget_tickers_down c now e)
  then show ?thesis
    using translated_partial [of _ "''bitget''" now "''Bitget''"]
    by (auto simp: bitget_fetch_def Let_def split: if_splits sum.splits)
next
  case (hyper_marks_down codec fetched h now r r' e)
  then show ?thesis
    using translated_partial [of _ "''hyperliquid''" now "''Hyperliquid''"]
    by (elim hyper_fetch_snapshot) (simp add: hyper_balances_def hyper_spot_def Let_def split: sum.splits)
next
  case (hyper_spot_down codec fetched h now r r' e)
  then show ?thesis
    using translated_partial [of _ "''hyperliquid''" now "''Hyperliquid''"]
    by (elim hyper_fetch_snapshot) (simp add: hyper_balances_def hyper_spot_def Let_def)
next
  case (hyper_perp_down codec fetched h now r r' e)
  then show ?thesis
    using translated_partial [of _ "''hyperliquid''" now "''Hyperliquid''"]
    by (elim hyper_fetch_snapshot) (simp add: hyper_balances_def Let_def)
qed


section \<open>A concrete outage\<close>

definition bitget_at :: "bool \<Rightarrow> bitget_client" where
  "bitget_at down = \<lparr>btc_api_key = ''k'', btc_secret = ''s'', btc_passphrase = ''p'',
     btc_assets = Inr \<lparr>env_code = ''00000'', env_msg = [],
       env_data = [\<lparr>bga_coin = ''btc'', bga_avail = ''2'', bga_frozen = [], bga_locked = ''1''\<rparr>]\<rparr>,
     btc_tickers = (if down then Inl (ErrUpstream ''http 502'')
       else Inr \<lparr>env_code = ''00000'', env_msg = [], env_data = [(''BTCUSDT'', ''100'')]\<rparr>)\<rparr>"

definition bitget_broker :: "bool \<Rightarrow> broker_client" where
  "bitget_broker down = \<lparr>cli_id = ''bitget'',
     cli_fetch = (case bitget_fetch (bitget_at down) 1000 of Inl e \<Rightarrow> (zero_snapshot, Some e) | Inr snap \<Rightarrow> (snap, None)),
     cli_stream = None, cli_committer = False, cli_sync_interval = None\<rparr>"

definition valued_world :: world where
  "valued_world = snd (sync_one (bitget_broker False) empty_world)"


end
