(* ===== verification/Okx_Fills.thy ===== *)
theory Okx_Fills
  imports Cex_Clients
begin

text \<open>
  The OKX exchange client, the \<open>CEXClient\<close> of \<open>clients/okx/client.go\<close>: balances, and the
  backfill of the trade history in runs of at most three pages, whose position is kept in
  memory and, once the snapshot is stored, in the cursor table. Replies are decoded envelopes.
\<close>

section \<open>Data\<close>

record okx_fill =
  okf_bill_id :: string
  okf_inst_id :: string
  okf_side :: string
  okf_fill_px :: string
  okf_fill_sz :: string
  okf_size :: string
  okf_acc_sz :: string
  okf_fee :: string
  okf_fee_ccy :: string
  okf_ts :: string

record okx_asset =
  oka_ccy :: string
  oka_eq_usd :: string
  oka_cash_bal :: string

text \<open>The client; a missing repository is \<open>False\<close>.\<close>

record okx_cex =
  okc_history :: bool
  okc_cursors :: bool
  okc_fills_after :: string
  okc_fills_after_committed :: bool
  okc_pending_cursor :: sync_cursor
  okc_pending_dirty :: bool

definition zero_sync_cursor :: sync_cursor where
  "zero_sync_cursor = \<lparr>scu_scope = [], scu_position = [], scu_complete = False, scu_updated_at = 0\<rparr>"

definition NewCEX :: "bool \<Rightarrow> bool \<Rightarrow> okx_cex" where
  "NewCEX history cursors = \<lparr>okc_history = history, okc_cursors = cursors, okc_fills_after = [],
     okc_fills_after_committed = False, okc_pending_cursor = zero_sync_cursor, okc_pending_dirty = False\<rparr>"

definition fillsScope :: string where "fillsScope = ''okx-fills''"
definition fillsPageSize :: nat where "fillsPageSize = 100"
definition fillsPageBudget :: nat where "fillsPageBudget = 3"

definition errFillsPending :: go_error where
  "errFillsPending = ErrText ''okx: more fills remain for a later sync''"

definition okx_ok :: "'a envelope \<Rightarrow> bool" where
  "okx_ok env \<longleftrightarrow> env_code env = ''0'' \<or> env_code env = []"

section \<open>One fill\<close>

definition pairBase :: "string \<Rightarrow> string" where
  "pairBase instID = (if CHR ''-'' \<in> set instID then to_upper (takeWhile (\<lambda>c. c \<noteq> CHR ''-'') instID) else [])"

definition pairQuote :: "string \<Rightarrow> string" where
  "pairQuote instID = (if CHR ''-'' \<in> set instID then to_upper (tl (dropWhile (\<lambda>c. c \<noteq> CHR ''-'') instID)) else [])"

fun first_filled :: "string list \<Rightarrow> string" where
  "first_filled [] = []"
| "first_filled (v # vs) = (if trim_space v \<noteq> [] then v else first_filled vs)"

definition fill_trade :: "okx_fill \<Rightarrow> cex_trade option" where
  "fill_trade f =
    (let quantity = first_filled [okf_fill_sz f, okf_size f, okf_acc_sz f]; rawFee = atof (okf_fee f) in
     if quantity = [] then None
     else Some \<lparr>cxt_id = okf_bill_id f, cxt_symbol = okf_inst_id f, cxt_base_asset = pairBase (okf_inst_id f),
       cxt_quote_asset = pairQuote (okf_inst_id f), cxt_side = okf_side f, cxt_price = atof (okf_fill_px f),
       cxt_quantity = atof quantity, cxt_fee = (if f64_lt rawFee (Fin 0) then f64_neg rawFee else Fin 0),
       cxt_fee_asset = okf_fee_ccy f,
       cxt_note = (if \<not> f64_lt rawFee (Fin 0) \<and> f64_gt rawFee (Fin 0)
         then ''Maker rebate '' @ okf_fee f @ '' '' @ okf_fee_ccy f @ '' excluded from fee'' else []),
       cxt_timestamp = of_unix_milli (int_of_f64 (atof (okf_ts f)))\<rparr>)"

section \<open>The walk of one run\<close>

type_synonym fills_api = "nat \<Rightarrow> string \<Rightarrow> okx_fill list envelope res"

definition fills_reply :: "okx_fill list envelope res \<Rightarrow> okx_fill list res" where
  "fills_reply r = (case r of Inl e \<Rightarrow> Inl e
     | Inr env \<Rightarrow> if okx_ok env then Inr (env_data env) else Inl (ErrText ''okx fills api error''))"

text \<open>How a walk ends: at the end of the history, at a position to resume at, or before any trade.\<close>

datatype fills_end = FillsDone | FillsLeft string | FillsFailed go_error

fun fills_pages ::
  "fills_api \<Rightarrow> string \<Rightarrow> bool \<Rightarrow> nat \<Rightarrow> nat \<Rightarrow> string \<Rightarrow> cex_trade list \<Rightarrow> cex_trade list \<times> fills_end" where
  "fills_pages server oldest proven page 0 after all = (all, FillsLeft after)"
| "fills_pages server oldest proven page (Suc budget) after all =
    (case fills_reply (server page after) of
       Inl e \<Rightarrow> (all, if all \<noteq> [] then FillsLeft after else FillsFailed e)
     | Inr rows \<Rightarrow>
         if rows = [] then (all, FillsDone)
         else let all' = all @ List.map_filter fill_trade rows in
           if oldest \<noteq> [] \<and> proven \<and> list_ex (\<lambda>f. okf_bill_id f = oldest) rows then (all', FillsDone)
           else if length rows < fillsPageSize then (all', FillsDone)
           else fills_pages server oldest proven (Suc page) budget (okf_bill_id (List.last rows)) all')"

text \<open>Where a run starts: its position, whether an earlier run proved completion, and the client.\<close>

definition resumes_in_memory :: "okx_cex \<Rightarrow> bool" where
  "resumes_in_memory c \<longleftrightarrow> okc_fills_after c \<noteq> [] \<and> okc_fills_after_committed c"

definition fills_start :: "sync_cursor \<Rightarrow> okx_cex \<Rightarrow> string \<times> bool \<times> okx_cex" where
  "fills_start durable c =
    (if resumes_in_memory c then (okc_fills_after c, False, c)
     else (if \<not> scu_complete durable \<and> scu_position durable \<noteq> [] then scu_position durable else [],
           scu_complete durable, c\<lparr>okc_fills_after := []\<rparr>))"

text \<open>What the end of a walk leaves in the client.\<close>

definition fills_stop :: "okx_cex \<Rightarrow> cex_trade list \<times> fills_end \<Rightarrow> cex_trade list \<times> go_error option \<times> okx_cex" where
  "fills_stop c r = (case r of
     (trades, FillsDone) \<Rightarrow> (trades, None, c\<lparr>okc_fills_after := [], okc_fills_after_committed := True,
        okc_pending_cursor := zero_sync_cursor\<lparr>scu_scope := fillsScope, scu_complete := True\<rparr>, okc_pending_dirty := True\<rparr>)
   | (trades, FillsLeft p) \<Rightarrow> (trades, Some errFillsPending, c\<lparr>okc_fills_after := p, okc_fills_after_committed := False,
        okc_pending_cursor := zero_sync_cursor\<lparr>scu_scope := fillsScope, scu_position := p\<rparr>, okc_pending_dirty := True\<rparr>)
   | (trades, FillsFailed e) \<Rightarrow> (trades, Some e, c))"

text \<open>A run, from what it reads in the cursor table and the oldest stored fill.\<close>

definition fills_run :: "fills_api \<Rightarrow> sync_cursor \<Rightarrow> string \<Rightarrow> okx_cex \<Rightarrow> cex_trade list \<times> go_error option \<times> okx_cex" where
  "fills_run server durable oldest c =
    (case fills_start durable c of (after, proven, c1) \<Rightarrow>
       fills_stop c1 (fills_pages server (if after = [] then oldest else []) proven 0 fillsPageBudget after []))"

definition loadFillsCursor :: "okx_cex \<Rightarrow> ('x db_scheme, sync_cursor) eff" where
  "loadFillsCursor c = (if \<not> okc_cursors c then ret zero_sync_cursor
     else bind_eff (attempt (cursor_get fillsScope)) (\<lambda>r. case r of Inl _ \<Rightarrow> ret zero_sync_cursor | Inr cur \<Rightarrow> ret cur))"

definition fills_filter :: "int \<Rightarrow> activity_filter" where
  "fills_filter offset = \<lparr>afi_account_id = ''okx-spot'', afi_start_date = None, afi_end_date = None,
     afi_offset = offset, afi_limit = 1\<rparr>"

definition oldestSavedBillID :: "okx_cex \<Rightarrow> ('x db_scheme, string) eff" where
  "oldestSavedBillID c = (if \<not> okc_history c then ret []
     else bind_eff (attempt (activity_list (fills_filter 0))) (\<lambda>r. case r of
         Inl _ \<Rightarrow> ret []
       | Inr (_, n) \<Rightarrow> if n \<le> 0 then ret []
           else bind_eff (attempt (activity_list (fills_filter (n - 1)))) (\<lambda>q. case q of
               Inr (row # _, _) \<Rightarrow> ret (trim_suffix (trim_suffix (act_source_record_id row) ''-quote'') ''-base'')
             | _ \<Rightarrow> ret [])))"

definition getFillsHistory ::
  "fills_api \<Rightarrow> okx_cex \<Rightarrow> ('x db_scheme, cex_trade list \<times> go_error option \<times> okx_cex) eff" where
  "getFillsHistory server c =
     bind_eff (if resumes_in_memory c then ret zero_sync_cursor else loadFillsCursor c) (\<lambda>durable.
     bind_eff (if fst (fills_start durable c) = [] then oldestSavedBillID c else ret []) (\<lambda>oldest.
       ret (fills_run server durable oldest c)))"

text \<open>\<open>SnapshotCommitted\<close>; a cursor that cannot be written is ignored.\<close>

definition okx_acknowledge :: "okx_cex \<Rightarrow> okx_cex" where
  "okx_acknowledge c = (if \<not> okc_pending_dirty c then c
     else c\<lparr>okc_pending_dirty := False, okc_fills_after_committed := True\<rparr>)"

definition okx_committed :: "okx_cex \<Rightarrow> ('x db_scheme, okx_cex) eff" where
  "okx_committed c = (if \<not> okc_pending_dirty c \<or> \<not> okc_cursors c then ret (okx_acknowledge c)
     else bind_eff (attempt (cursor_set (okc_pending_cursor c))) (\<lambda>_. ret (okx_acknowledge c)))"

section \<open>The snapshot\<close>

definition okx_balance :: "okx_asset \<Rightarrow> cex_balance option" where
  "okx_balance a =
    (let qty = atof (oka_cash_bal a); usd = atof (oka_eq_usd a) in
     if f64_eq qty (Fin 0) then None
     else Some \<lparr>cxb_asset = NormalizeAsset (oka_ccy a), cxb_quantity = qty,
       cxb_price_usd = (if f64_gt qty (Fin 0) then f64_div usd qty else Fin 0), cxb_usd_value = usd\<rparr>)"

definition okx_snapshot :: "okx_asset list list \<Rightarrow> cex_trade list \<times> go_error option \<Rightarrow> cex_snapshot" where
  "okx_snapshot details fills = (case fills of (trades, err) \<Rightarrow>
     \<lparr>cxs_balances = List.map_filter okx_balance (concat details),
      cxs_trades = (if err = None \<or> (\<exists>e. err = Some e \<and> errors_is e errFillsPending) then trades else []),
      cxs_activities_fetched = (err = None), cxs_partial = False, cxs_fee_price = None\<rparr>)"

definition okx_fetch ::
  "bool \<Rightarrow> okx_asset list list envelope res \<Rightarrow> fills_api \<Rightarrow> time \<Rightarrow> okx_cex \<Rightarrow>
   ('x db_scheme, broker_snapshot \<times> okx_cex) eff" where
  "okx_fetch credentials balance server now c =
    (if \<not> credentials then raise (ErrText ''okx: API credentials not fully configured'')
     else case balance of
       Inl e \<Rightarrow> raise (Wrapf ''okx: balance'' e)
     | Inr env \<Rightarrow>
         if \<not> okx_ok env then raise (ErrText ''okx: api error'')
         else bind_eff (getFillsHistory server c) (\<lambda>(trades, err, c').
           ret (cex_translate now ''okx'' ''OKX'' (okx_snapshot (env_data env) (trades, err)), c')))"

section \<open>What a walk covers\<close>

text \<open>The fills of the account are listed newest first; \<open>p\<close> is the last one already read.\<close>

definition after_bill :: "string \<Rightarrow> okx_fill list \<Rightarrow> okx_fill list" where
  "after_bill p D = (if p = [] then D else tl (dropWhile (\<lambda>f. okf_bill_id f \<noteq> p) D))"

definition last_bill :: "okx_fill list \<Rightarrow> string" where
  "last_bill D = (if D = [] then [] else okf_bill_id (List.last D))"

text \<open>A server that answers a request with the next page or with an error of its own.\<close>

definition okx_serves :: "okx_fill list \<Rightarrow> fills_api \<Rightarrow> bool" where
  "okx_serves D server \<longleftrightarrow> (\<forall>k p. fills_reply (server k p) \<noteq> Inl errFillsPending \<and>
     (\<forall>page. fills_reply (server k p) = Inr page \<longrightarrow> page = take fillsPageSize (after_bill p D)))"

definition fill_ledger :: "okx_fill list \<Rightarrow> bool" where
  "fill_ledger D \<longleftrightarrow> distinct (map okf_bill_id D) \<and> (\<forall>f\<in>set D. okf_bill_id f \<noteq> [] \<and> fill_trade f \<noteq> None)"

abbreviation bills :: "okx_fill list \<Rightarrow> string set" where
  "bills D \<equiv> okf_bill_id ` set D"

abbreviation trade_ids :: "cex_trade list \<Rightarrow> string set" where
  "trade_ids ts \<equiv> cxt_id ` set ts"

lemma fill_ledger_append: "fill_ledger (pre @ rest) \<Longrightarrow> fill_ledger pre \<and> fill_ledger rest \<and> bills pre \<inter> bills rest = {}"
  by (auto simp: fill_ledger_def)

lemma after_last_bill:
  assumes "fill_ledger (pre @ rest)"
  shows "after_bill (last_bill pre) (pre @ rest) = rest"
proof (cases pre rule: rev_cases)
  case (snoc xs x)
  have "okf_bill_id x \<notin> bills xs" using assms snoc by (simp add: fill_ledger_def)
  then have "okf_bill_id f \<noteq> okf_bill_id x" if "f \<in> set xs" for f using that by (metis imageI)
  then have "dropWhile (\<lambda>f. okf_bill_id f \<noteq> okf_bill_id x) (xs @ x # rest) = x # rest"
    by (subst dropWhile_append2) simp_all
  with assms snoc show ?thesis by (simp add: after_bill_def last_bill_def fill_ledger_def)
qed (simp add: after_bill_def last_bill_def)

lemma fill_trade_id: "fill_trade f = Some t \<Longrightarrow> cxt_id t = okf_bill_id f"
  by (auto simp: fill_trade_def Let_def split: if_splits)

lemma trades_of_fills:
  "fill_ledger page \<Longrightarrow> map cxt_id (List.map_filter fill_trade page) = map okf_bill_id page"
proof (induction page)
  case (Cons f page)
  then obtain t where "fill_trade f = Some t" by (auto simp: fill_ledger_def)
  with Cons fill_ledger_append [of "[f]" page] show ?case by (simp add: fill_trade_id List.map_filter_simps)
qed (simp add: List.map_filter_simps)

lemma last_bill_append: "seg \<noteq> [] \<Longrightarrow> last_bill (pre @ seg) = last_bill seg"
  by (simp add: last_bill_def)

definition end_covers :: "string \<Rightarrow> bool \<Rightarrow> okx_fill list \<Rightarrow> okx_fill list \<Rightarrow> okx_fill list \<Rightarrow> fills_end \<Rightarrow> bool" where
  "end_covers oldest proven pre seg post e \<longleftrightarrow> (case e of
     FillsDone \<Rightarrow> post = [] \<or> proven \<and> oldest \<in> bills seg
   | FillsLeft p \<Rightarrow> p = last_bill (pre @ seg)
   | FillsFailed x \<Rightarrow> seg = [] \<and> x \<noteq> errFillsPending)"

lemma fills_pages_cover:
  assumes "okx_serves (pre @ rest) server" "fill_ledger (pre @ rest)"
    "fills_pages server oldest proven page budget (last_bill pre) all = (ts, e)"
  shows "\<exists>seg post. rest = seg @ post \<and> map cxt_id ts = map cxt_id all @ map okf_bill_id seg \<and>
    end_covers oldest proven pre seg post e \<and> ((\<exists>x. e = FillsFailed x) \<longrightarrow> all = [])"
  using assms
proof (induction budget arbitrary: pre rest page all)
  case 0
  then show ?case by (intro exI [of _ "[]"] exI [of _ rest]) (auto simp: end_covers_def)
next
  case (Suc budget)
  show ?case
  proof (cases "fills_reply (server page (last_bill pre))")
    case (Inl x)
    then have "x \<noteq> errFillsPending" using Suc.prems(1) by (auto simp: okx_serves_def)
    with Suc.prems(3) Inl show ?thesis
      by (intro exI [of _ "[]"] exI [of _ rest]) (auto simp: end_covers_def split: if_splits)
  next
    case (Inr rows)
    let ?all = "all @ List.map_filter fill_trade rows" and ?post = "drop fillsPageSize rest"
    have rows: "rows = take fillsPageSize rest"
      using Suc.prems(1) Inr after_last_bill [OF Suc.prems(2)] unfolding okx_serves_def by metis
    then have split: "rest = rows @ ?post" by simp
    with Suc.prems(2) have ok: "fill_ledger rows" using fill_ledger_append by (metis append_assoc)
    have ids: "map cxt_id ?all = map cxt_id all @ map okf_bill_id rows" using trades_of_fills [OF ok] by simp
    consider (empty) "rows = []"
      | (rejoined) "rows \<noteq> []" "oldest \<noteq> [] \<and> proven \<and> list_ex (\<lambda>f. okf_bill_id f = oldest) rows"
      | (short) "rows \<noteq> []" "\<not> (oldest \<noteq> [] \<and> proven \<and> list_ex (\<lambda>f. okf_bill_id f = oldest) rows)"
          "length rows < fillsPageSize"
      | (more) "rows \<noteq> []" "\<not> (oldest \<noteq> [] \<and> proven \<and> list_ex (\<lambda>f. okf_bill_id f = oldest) rows)"
          "\<not> length rows < fillsPageSize" by blast
    then show ?thesis
    proof cases
      case empty
      then have "rest = []" using rows by (simp add: fillsPageSize_def)
      with Suc.prems(3) Inr empty show ?thesis by (simp add: end_covers_def)
    next
      case rejoined
      then have "oldest \<in> bills rows" by (auto simp: list_ex_iff)
      with Suc.prems(3) Inr rejoined ids split show ?thesis
        by (intro exI [of _ rows] exI [of _ ?post]) (auto simp: end_covers_def Let_def)
    next
      case short
      then have "?post = []" using rows by auto
      moreover have "ts = ?all" "e = FillsDone" using Suc.prems(3) Inr short by (auto simp: Let_def)
      ultimately show ?thesis using ids split by (intro exI [of _ rows] exI [of _ ?post]) (simp add: end_covers_def)
    next
      case more
      have pages: "fills_pages server oldest proven (Suc page) budget (last_bill (pre @ rows)) ?all = (ts, e)"
        using Suc.prems(3) Inr more by (auto simp: Let_def last_bill_def)
      have whole: "(pre @ rows) @ ?post = pre @ rest" using split by simp
      from Suc.IH [of "pre @ rows" ?post, unfolded whole, OF Suc.prems(1,2) pages]
      obtain seg post where r: "?post = seg @ post" "map cxt_id ts = map cxt_id ?all @ map okf_bill_id seg"
        "end_covers oldest proven (pre @ rows) seg post e" "(\<exists>x. e = FillsFailed x) \<longrightarrow> ?all = []" by blast
      have "rest = (rows @ seg) @ post" using split r(1) by simp
      moreover have "map cxt_id ts = map cxt_id all @ map okf_bill_id (rows @ seg)" using r(2) ids by simp
      moreover have "?all \<noteq> []" using ids more(1) by (metis Nil_is_append_conv Nil_is_map_conv)
      moreover have "end_covers oldest proven pre (rows @ seg) post e"
        using r(3,4) \<open>?all \<noteq> []\<close> by (auto simp: end_covers_def split: fills_end.splits)
      ultimately show ?thesis using r(4) by blast
    qed
  qed
qed

section \<open>Runs, commits, crashes and new fills\<close>

text \<open>
  The account as the exchange has it, the fills that are stored, the cursor row and the client.
  The two marks record, for the position of the cursor row and for the one in memory, how many
  fills the account had when the walk of the position began at the newest fill.
\<close>

record okx_sys =
  oks_ledger :: "okx_fill list"
  oks_saved :: "string set"
  oks_durable :: sync_cursor
  oks_client :: okx_cex
  oks_mark_durable :: nat
  oks_mark_memory :: nat

definition oldest_saved :: "okx_sys \<Rightarrow> string" where
  "oldest_saved y = last_bill (filter (\<lambda>f. okf_bill_id f \<in> oks_saved y) (oks_ledger y))"

text \<open>The fills the walk of a run is about: those there when it began, in whichever run that was.\<close>

definition walk_mark :: "okx_sys \<Rightarrow> sync_cursor \<Rightarrow> nat" where
  "walk_mark y d = (if resumes_in_memory (oks_client y) then oks_mark_memory y
     else if fst (fills_start d (oks_client y)) \<noteq> [] then oks_mark_durable y else length (oks_ledger y))"

definition walk_fills :: "okx_sys \<Rightarrow> sync_cursor \<Rightarrow> okx_fill list" where
  "walk_fills y d = drop (length (oks_ledger y) - walk_mark y d) (oks_ledger y)"

text \<open>
  The steps. A run reads the cursor row and the oldest stored fill, or fails to. It is
  committed, its trades stored and the cursor row written or not; or it is not, and its trades
  are stored or not. A run that fails before any trade is committed only when nothing older is
  pending in the client.
\<close>

definition reads :: "okx_sys \<Rightarrow> sync_cursor \<Rightarrow> string \<Rightarrow> bool" where
  "reads y d oldest \<longleftrightarrow> d \<in> {oks_durable y, zero_sync_cursor} \<and> oldest \<in> {[], oldest_saved y}"

inductive okx_step :: "okx_sys \<Rightarrow> okx_sys \<Rightarrow> bool" where
  committed: "reads y d oldest \<Longrightarrow> okx_serves (oks_ledger y) server \<Longrightarrow>
    fills_run server d oldest (oks_client y) = (ts, err, c) \<Longrightarrow>
    err \<in> {None, Some errFillsPending} \<or> \<not> okc_pending_dirty (oks_client y) \<Longrightarrow>
    okx_step y (y\<lparr>oks_saved := oks_saved y \<union> trade_ids ts,
      oks_durable := (if written \<and> okc_pending_dirty c then okc_pending_cursor c else oks_durable y),
      oks_client := okx_acknowledge c,
      oks_mark_durable := (if written \<and> okc_pending_dirty c then walk_mark y d else oks_mark_durable y),
      oks_mark_memory := walk_mark y d\<rparr>)"
| uncommitted: "reads y d oldest \<Longrightarrow> okx_serves (oks_ledger y) server \<Longrightarrow>
    fills_run server d oldest (oks_client y) = (ts, err, c) \<Longrightarrow>
    okx_step y (y\<lparr>oks_saved := oks_saved y \<union> (if stored then trade_ids ts else {}), oks_client := c,
      oks_mark_memory := walk_mark y d\<rparr>)"
| restart: "okx_step y (y\<lparr>oks_client := NewCEX history cursors\<rparr>)"
| arrival: "fill_ledger (new @ oks_ledger y) \<Longrightarrow> okx_step y (y\<lparr>oks_ledger := new @ oks_ledger y\<rparr>)"

inductive okx_run :: "okx_sys \<Rightarrow> bool" where
  okx_fresh: "fill_ledger D \<Longrightarrow> D \<noteq> [] \<Longrightarrow>
    okx_run \<lparr>oks_ledger = D, oks_saved = S, oks_durable = zero_sync_cursor, oks_client = NewCEX history cursors,
      oks_mark_durable = 0, oks_mark_memory = 0\<rparr>"
| okx_next: "okx_run y \<Longrightarrow> okx_step y y' \<Longrightarrow> okx_run y'"

text \<open>A position whose walk has stored every fill from its start down to the position.\<close>

definition walked :: "okx_fill list \<Rightarrow> string set \<Rightarrow> nat \<Rightarrow> string \<Rightarrow> bool" where
  "walked D S n p \<longleftrightarrow> (\<exists>pre seg post. D = pre @ seg @ post \<and> length (seg @ post) = n \<and> seg \<noteq> [] \<and>
     last_bill seg = p \<and> bills seg \<subseteq> S)"

definition position_ok :: "okx_sys \<Rightarrow> nat \<Rightarrow> string \<Rightarrow> bool" where
  "position_ok y n p \<longleftrightarrow> p \<noteq> [] \<longrightarrow> walked (oks_ledger y) (oks_saved y) n p"

definition okx_inv :: "okx_sys \<Rightarrow> bool" where
  "okx_inv y \<longleftrightarrow> fill_ledger (oks_ledger y) \<and> oks_ledger y \<noteq> [] \<and>
     (if scu_complete (oks_durable y) then last_bill (oks_ledger y) \<in> oks_saved y
      else position_ok y (oks_mark_durable y) (scu_position (oks_durable y))) \<and>
     (okc_fills_after_committed (oks_client y) \<longrightarrow> position_ok y (oks_mark_memory y) (okc_fills_after (oks_client y)))"

lemma walkedI:
  "D = pre @ seg @ post \<Longrightarrow> length (seg @ post) = n \<Longrightarrow> seg \<noteq> [] \<Longrightarrow> last_bill seg = p \<Longrightarrow> bills seg \<subseteq> S \<Longrightarrow> walked D S n p"
  unfolding walked_def by blast

lemma walked_mono:
  assumes "walked D S n p" "S \<subseteq> S'"
  shows "walked (new @ D) S' n p"
proof -
  obtain pre seg post where w: "D = pre @ seg @ post" "length (seg @ post) = n" "seg \<noteq> []" "last_bill seg = p" "bills seg \<subseteq> S"
    using assms(1) unfolding walked_def by blast
  show ?thesis by (rule walkedI [of _ "new @ pre" seg post]) (use w assms(2) in auto)
qed

lemma walked_saved: "walked D S n p \<Longrightarrow> S \<subseteq> S' \<Longrightarrow> walked D S' n p"
  using walked_mono [of D S n p S' "[]"] by simp

lemma last_bill_in: "D \<noteq> [] \<Longrightarrow> last_bill D \<in> bills D"
  by (simp add: last_bill_def)

lemma oldest_is_last:
  assumes "last_bill D \<in> S" "D \<noteq> []"
  shows "last_bill (filter (\<lambda>f. okf_bill_id f \<in> S) D) = last_bill D"
  using assms by (cases D rule: rev_cases) (auto simp: last_bill_def)

lemma no_post:
  assumes "fill_ledger (seg @ post)" "last_bill (seg @ post) \<in> bills seg"
  shows "post = []"
proof (rule ccontr)
  assume "post \<noteq> []"
  then have "last_bill (seg @ post) \<in> bills post" by (simp add: last_bill_append last_bill_in)
  with assms fill_ledger_append [OF assms(1)] show False by blast
qed

text \<open>What a run adds, whatever position it starts at.\<close>

lemma start_position:
  assumes inv: "okx_inv y" and d: "d \<in> {oks_durable y, zero_sync_cursor}"
    and start: "fills_start d (oks_client y) = (p, proven, c)"
  obtains pre seg rest where "oks_ledger y = pre @ seg @ rest" "p = last_bill (pre @ seg)"
    "length (seg @ rest) = walk_mark y d" "bills seg \<subseteq> oks_saved y"
    "proven \<and> p = [] \<longrightarrow> pre = [] \<and> seg = [] \<and> last_bill (oks_ledger y) \<in> oks_saved y" "p \<noteq> [] \<longrightarrow> \<not> proven \<and> seg \<noteq> []"
    "p = [] \<longrightarrow> pre = [] \<and> seg = []"
proof (cases "p = []")
  case True
  then have "walk_mark y d = length (oks_ledger y)"
    using start by (auto simp: walk_mark_def fills_start_def resumes_in_memory_def split: if_splits)
  moreover have "proven \<longrightarrow> last_bill (oks_ledger y) \<in> oks_saved y"
    using start d inv True
    by (auto simp: fills_start_def okx_inv_def zero_sync_cursor_def resumes_in_memory_def split: if_splits)
  ultimately show ?thesis using that [of "[]" "[]" "oks_ledger y"] True by (simp add: last_bill_def)
next
  case False
  then have "walked (oks_ledger y) (oks_saved y) (walk_mark y d) p \<and> \<not> proven"
    using start d inv
    by (auto simp: walk_mark_def fills_start_def okx_inv_def position_ok_def zero_sync_cursor_def
        resumes_in_memory_def split: if_splits)
  then obtain pre seg post where w: "oks_ledger y = pre @ seg @ post" "length (seg @ post) = walk_mark y d"
    "seg \<noteq> []" "last_bill seg = p" "bills seg \<subseteq> oks_saved y" "\<not> proven"
    unfolding walked_def by blast
  show ?thesis by (rule that [OF w(1)]) (use w False in \<open>simp_all add: last_bill_append\<close>)
qed

lemma run_cases:
  assumes inv: "okx_inv y" and reads: "reads y d oldest" and server: "okx_serves (oks_ledger y) server"
    and run: "fills_run server d oldest (oks_client y) = (ts, err, c)"
  obtains (finished) "err = None" "bills (walk_fills y d) \<subseteq> oks_saved y \<union> trade_ids ts" "walk_fills y d \<noteq> []"
      "okc_fills_after c = []" "okc_pending_dirty c" "scu_complete (okc_pending_cursor c)"
  | (paused) p where "err = Some errFillsPending" "okc_fills_after c = p" "okc_pending_dirty c"
      "\<not> scu_complete (okc_pending_cursor c)" "scu_position (okc_pending_cursor c) = p"
      "\<not> okc_fills_after_committed c" "p \<noteq> [] \<longrightarrow> walked (oks_ledger y) (oks_saved y \<union> trade_ids ts) (walk_mark y d) p"
  | (failed) e where "err = Some e" "e \<noteq> errFillsPending" "ts = []" "c = snd (snd (fills_start d (oks_client y)))"
proof -
  obtain p0 proven c0 where start: "fills_start d (oks_client y) = (p0, proven, c0)" by (metis prod_cases3)
  have d: "d \<in> {oks_durable y, zero_sync_cursor}" using reads by (simp add: reads_def)
  obtain pre seg rest where w: "oks_ledger y = pre @ seg @ rest" "p0 = last_bill (pre @ seg)"
    "length (seg @ rest) = walk_mark y d" "bills seg \<subseteq> oks_saved y"
    "proven \<and> p0 = [] \<longrightarrow> pre = [] \<and> seg = [] \<and> last_bill (oks_ledger y) \<in> oks_saved y" "p0 \<noteq> [] \<longrightarrow> \<not> proven \<and> seg \<noteq> []"
    "p0 = [] \<longrightarrow> pre = [] \<and> seg = []"
    using start_position [OF inv d start] .
  have led: "fill_ledger ((pre @ seg) @ rest)" "oks_ledger y = (pre @ seg) @ rest" "oks_ledger y \<noteq> []"
    using inv w(1) by (simp_all add: okx_inv_def)
  let ?o = "if p0 = [] then oldest else []"
  obtain e where pages: "fills_pages server ?o proven 0 fillsPageBudget (last_bill (pre @ seg)) [] = (ts, e)"
    and stop: "fills_stop c0 (ts, e) = (ts, err, c)"
  proof (cases "fills_pages server ?o proven 0 fillsPageBudget (last_bill (pre @ seg)) []")
    case (Pair us e)
    with run start w(2) have "fills_stop c0 (us, e) = (ts, err, c)" by (simp add: fills_run_def)
    moreover from this have "us = ts" by (auto simp: fills_stop_def split: fills_end.splits)
    ultimately show ?thesis using that [of e] Pair by simp
  qed
  obtain new post where n: "rest = new @ post" "map cxt_id ts = map okf_bill_id new"
    "end_covers ?o proven (pre @ seg) new post e"
    using fills_pages_cover [OF server [unfolded led(2)] led(1) pages] by auto
  have ids: "trade_ids ts = bills new" using n(2) by (metis list.set_map)
  have walk: "walk_fills y d = seg @ rest"
    using w(1,3) by (simp add: walk_fills_def)
  show ?thesis
  proof (cases e)
    case FillsDone
    have "post = []"
    proof (rule ccontr)
      assume p: "post \<noteq> []"
      with n(3) FillsDone have o: "proven" "?o \<in> bills new" by (auto simp: end_covers_def)
      then have "p0 = []" using w(6) by blast
      with o w(5,7) have old: "oldest \<in> bills new" "last_bill (oks_ledger y) \<in> oks_saved y" "pre = []" "seg = []" by simp_all
      have new: "fill_ledger new" using led(1) n(1) old(3,4) fill_ledger_append [of new post] by simp
      with old(1) have "oldest \<noteq> []" by (auto simp: fill_ledger_def)
      with reads have "oldest = last_bill (oks_ledger y)"
        using oldest_is_last [OF old(2) led(3)] by (simp add: reads_def oldest_saved_def)
      with old n(1) w(1) no_post [of new post] led(1) p show False by simp
    qed
    moreover have "seg @ rest \<noteq> []" using led(3) w(1,6,7) by (cases "p0 = []") simp_all
    ultimately show ?thesis using stop FillsDone w(4) n(1) ids walk
      by (intro finished) (auto simp: fills_stop_def zero_sync_cursor_def)
  next
    case (FillsLeft p)
    have p: "p = last_bill (pre @ seg @ new)" using n(3) FillsLeft by (simp add: end_covers_def)
    have "walked (oks_ledger y) (oks_saved y \<union> trade_ids ts) (walk_mark y d) p" if "p \<noteq> []"
    proof (rule walkedI [of _ pre "seg @ new" post])
      show "seg @ new \<noteq> []" using that p w(6,7) by (cases "p0 = []") (simp_all add: last_bill_def split: if_splits)
      then show "last_bill (seg @ new) = p" using p by (simp add: last_bill_append)
      show "oks_ledger y = pre @ (seg @ new) @ post" using w(1) n(1) by simp
      show "length ((seg @ new) @ post) = walk_mark y d" using w(3) n(1) by simp
      show "bills (seg @ new) \<subseteq> oks_saved y \<union> trade_ids ts" using w(4) ids by auto
    qed
    with stop FillsLeft show ?thesis by (intro paused) (auto simp: fills_stop_def zero_sync_cursor_def)
  next
    case (FillsFailed x)
    with n have "ts = []" "x \<noteq> errFillsPending" by (simp_all add: end_covers_def)
    with stop FillsFailed start show ?thesis by (intro failed) (auto simp: fills_stop_def)
  qed
qed

lemma okx_acknowledge_sel [simp]:
  "okc_fills_after (okx_acknowledge c) = okc_fills_after c"
  "okc_pending_dirty c \<Longrightarrow> okc_fills_after_committed (okx_acknowledge c)"
  "\<not> okc_pending_dirty c \<Longrightarrow> okx_acknowledge c = c"
  by (simp_all add: okx_acknowledge_def)

lemma start_client:
  "c = snd (snd (fills_start d c0)) \<Longrightarrow>
   okc_pending_dirty c = okc_pending_dirty c0 \<and>
   (c = c0 \<and> resumes_in_memory c0 \<or> okc_fills_after c = [])"
  by (auto simp: fills_start_def)

lemma position_mono:
  "position_ok y n p \<Longrightarrow> oks_ledger y' = new @ oks_ledger y \<Longrightarrow> oks_saved y \<subseteq> oks_saved y' \<Longrightarrow> position_ok y' n p"
  by (auto simp: position_ok_def intro: walked_mono)

text \<open>Only the claim about the position in memory depends on how the run ended.\<close>

lemma memory_position:
  assumes inv: "okx_inv y" and reads: "reads y d oldest" and server: "okx_serves (oks_ledger y) server"
    and run: "fills_run server d oldest (oks_client y) = (ts, err, c)"
    and c': "okc_fills_after c' = okc_fills_after c" "okc_fills_after_committed c' \<longrightarrow> okc_fills_after_committed c \<or> S' = oks_saved y \<union> trade_ids ts"
    and y': "oks_ledger y' = oks_ledger y" "oks_saved y' = S'" "oks_saved y \<subseteq> S'" "okc_fills_after_committed c'"
  shows "position_ok y' (walk_mark y d) (okc_fills_after c')"
  using inv reads server run
proof (cases rule: run_cases)
  case finished
  with c' show ?thesis by (simp add: position_ok_def)
next
  case (paused p)
  with c'(2) y'(4) have "S' = oks_saved y \<union> trade_ids ts" by blast
  with paused c'(1) y'(1,2) show ?thesis by (simp add: position_ok_def)
next
  case (failed e)
  from start_client [OF failed(4)] consider "c = oks_client y" "resumes_in_memory (oks_client y)" | "okc_fills_after c = []" by blast
  then show ?thesis
  proof cases
    case 1
    then have "walk_mark y d = oks_mark_memory y" "position_ok y (oks_mark_memory y) (okc_fills_after c)"
      using inv by (simp_all add: walk_mark_def okx_inv_def resumes_in_memory_def)
    with position_mono [of y _ _ y' "[]"] y' c'(1) show ?thesis by simp
  qed (use c'(1) in \<open>simp add: position_ok_def\<close>)
qed

definition durable_ok :: "okx_sys \<Rightarrow> bool" where
  "durable_ok y \<longleftrightarrow> (if scu_complete (oks_durable y) then last_bill (oks_ledger y) \<in> oks_saved y
     else position_ok y (oks_mark_durable y) (scu_position (oks_durable y)))"

lemma durable_mono:
  assumes "durable_ok y" "oks_ledger y' = new @ oks_ledger y" "oks_saved y \<subseteq> oks_saved y'" "oks_ledger y \<noteq> []"
    "oks_durable y' = oks_durable y" "oks_mark_durable y' = oks_mark_durable y"
  shows "durable_ok y'"
  using assms position_mono [OF _ assms(2,3)] by (auto simp: durable_ok_def last_bill_append)

lemma last_walk_fill:
  assumes "walk_fills y d \<noteq> []"
  shows "last_bill (oks_ledger y) \<in> bills (walk_fills y d)"
proof -
  have "last_bill (oks_ledger y) = last_bill (walk_fills y d)"
    using assms by (auto simp: walk_fills_def last_bill_def)
  with last_bill_in [OF assms] show ?thesis by simp
qed

lemma inv_durable: "okx_inv y \<Longrightarrow> durable_ok y"
  by (simp add: okx_inv_def durable_ok_def)

lemma okx_inv_split:
  "okx_inv y \<longleftrightarrow> fill_ledger (oks_ledger y) \<and> oks_ledger y \<noteq> [] \<and> durable_ok y \<and>
     (okc_fills_after_committed (oks_client y) \<longrightarrow> position_ok y (oks_mark_memory y) (okc_fills_after (oks_client y)))"
  by (simp add: okx_inv_def durable_ok_def)

lemma step_inv:
  assumes "okx_step y y'" "okx_inv y"
  shows "okx_inv y'"
  using assms(1)
proof cases
  case (committed d oldest server ts err c written)
  let ?c = "okx_acknowledge c"
  have mem: "okc_fills_after_committed ?c \<longrightarrow> position_ok y' (walk_mark y d) (okc_fills_after ?c)"
    using memory_position [OF assms(2) committed(2,3,4), of ?c "oks_saved y'" y'] committed(1) by simp
  have "durable_ok y'"
  proof (cases "written \<and> okc_pending_dirty c")
    case False
    with committed(1) show ?thesis
      by (intro durable_mono [OF inv_durable [OF assms(2)], of _ "[]"]) (use assms(2) in \<open>auto simp: okx_inv_def\<close>)
  next
    case True
    from assms(2) committed(2,3,4) show ?thesis
    proof (cases rule: run_cases)
      case finished
      with True last_walk_fill [of y d] committed(1) show ?thesis by (auto simp: durable_ok_def)
    next
      case (paused p)
      with True committed(1) show ?thesis by (simp add: durable_ok_def position_ok_def)
    next
      case (failed e)
      with committed(5) have "\<not> okc_pending_dirty (oks_client y)" by simp
      with start_client [OF failed(4)] True show ?thesis by simp
    qed
  qed
  with mem committed(1) assms(2) show ?thesis by (simp add: okx_inv_split)
next
  case (uncommitted d oldest server ts err c stored)
  have mem: "okc_fills_after_committed c \<longrightarrow> position_ok y' (walk_mark y d) (okc_fills_after c)"
    using memory_position [OF assms(2) uncommitted(2,3,4), of c "oks_saved y'" y'] uncommitted(1) by simp
  have "durable_ok y'"
    using uncommitted(1)
    by (intro durable_mono [OF inv_durable [OF assms(2)], of _ "[]"]) (use assms(2) in \<open>auto simp: okx_inv_def\<close>)
  with mem uncommitted(1) assms(2) show ?thesis by (simp add: okx_inv_split)
next
  case (restart history cursors)
  then have "durable_ok y'"
    by (intro durable_mono [OF inv_durable [OF assms(2)], of _ "[]"]) (use assms(2) in \<open>auto simp: okx_inv_def\<close>)
  with restart assms(2) show ?thesis by (simp add: okx_inv_split NewCEX_def)
next
  case (arrival new)
  have "durable_ok y'"
    using arrival(1)
    by (intro durable_mono [OF inv_durable [OF assms(2)], of _ new]) (use assms(2) in \<open>auto simp: okx_inv_def\<close>)
  moreover have "position_ok y' n p" if "position_ok y n p" for n p
    by (rule position_mono [OF that, of _ new]) (use arrival(1) in simp_all)
  ultimately show ?thesis using arrival assms(2) by (simp add: okx_inv_split)
qed

lemma run_okx_inv: "okx_run y \<Longrightarrow> okx_inv y"
proof (induction rule: okx_run.induct)
  case (okx_fresh D S history cursors)
  then show ?case by (simp add: okx_inv_def NewCEX_def position_ok_def zero_sync_cursor_def)
qed (rule step_inv)


text \<open>
  The condition on failing runs is needed: progress of a snapshot that was never stored stays
  pending in the client, and the acknowledgement of a later run without trades publishes it.
\<close>

lemma stale_progress_published:
  assumes "okc_pending_dirty c" "\<not> resumes_in_memory c"
    "fills_reply (server 0 (fst (fills_start d c))) = Inl e"
  shows "\<exists>c1. fills_run server d oldest c = ([], Some e, c1) \<and>
    okc_pending_dirty c1 \<and> okc_pending_cursor c1 = okc_pending_cursor c"
  using assms
  by (auto simp: fills_run_def fills_start_def fills_stop_def fillsPageBudget_def numeral_3_eq_3 split: prod.splits)

section \<open>A finished backfill rejoined\<close>

text \<open>Two fills are imported and acknowledged, a third arrives, and the next run rejoins the stored ones.\<close>

definition fill_no :: "string \<Rightarrow> okx_fill" where
  "fill_no i = \<lparr>okf_bill_id = i, okf_inst_id = ''BTC-USDT'', okf_side = ''buy'', okf_fill_px = ''1'',
     okf_fill_sz = ''2'', okf_size = [], okf_acc_sz = [], okf_fee = ''0'', okf_fee_ccy = ''BTC'', okf_ts = ''1000''\<rparr>"

definition old_ledger :: "okx_fill list" where "old_ledger = [fill_no ''b2'', fill_no ''b1'']"

definition okx_ledger_server :: "okx_fill list \<Rightarrow> fills_api" where
  "okx_ledger_server D = (\<lambda>k p. Inr \<lparr>env_code = ''0'', env_msg = [], env_data = take fillsPageSize (after_bill p D)\<rparr>)"

definition fresh_sys :: okx_sys where
  "fresh_sys = \<lparr>oks_ledger = old_ledger, oks_saved = {}, oks_durable = zero_sync_cursor, oks_client = NewCEX True True,
     oks_mark_durable = 0, oks_mark_memory = 0\<rparr>"

definition first_run :: "cex_trade list \<times> go_error option \<times> okx_cex" where
  "first_run = fills_run (okx_ledger_server old_ledger) zero_sync_cursor [] (NewCEX True True)"

definition imported_sys :: okx_sys where
  "imported_sys = fresh_sys\<lparr>oks_saved := oks_saved fresh_sys \<union> cxt_id ` set (fst first_run),
     oks_durable := (if True \<and> okc_pending_dirty (snd (snd first_run)) then okc_pending_cursor (snd (snd first_run)) else oks_durable fresh_sys),
     oks_client := okx_acknowledge (snd (snd first_run)),
     oks_mark_durable := (if True \<and> okc_pending_dirty (snd (snd first_run)) then walk_mark fresh_sys zero_sync_cursor else oks_mark_durable fresh_sys),
     oks_mark_memory := walk_mark fresh_sys zero_sync_cursor\<rparr>"

definition grown_sys :: okx_sys where
  "grown_sys = imported_sys\<lparr>oks_ledger := [fill_no ''b3''] @ oks_ledger imported_sys\<rparr>"

definition second_run :: "cex_trade list \<times> go_error option \<times> okx_cex" where
  "second_run = fills_run (okx_ledger_server (oks_ledger grown_sys)) (oks_durable grown_sys) ''b1'' (oks_client grown_sys)"

lemma okx_ledger_server_serves: "okx_serves D (okx_ledger_server D)"
  by (simp add: okx_serves_def okx_ledger_server_def fills_reply_def okx_ok_def errFillsPending_def)

lemma fill_no_sel: "okf_bill_id (fill_no i) = i" "\<exists>t. fill_trade (fill_no i) = Some t"
proof -
  have "trim_space ''2'' \<noteq> []" by code_simp
  then show "\<exists>t. fill_trade (fill_no i) = Some t" by (simp add: fill_trade_def fill_no_def Let_def)
qed (simp add: fill_no_def)

lemmas run_defs = fills_run_def fills_start_def fills_stop_def fillsPageBudget_def numeral_3_eq_3 fillsPageSize_def
  okx_ledger_server_def fills_reply_def okx_ok_def after_bill_def resumes_in_memory_def NewCEX_def zero_sync_cursor_def Let_def

lemma first_result:
  "fst first_run = List.map_filter fill_trade old_ledger" "fst (snd first_run) = None"
  "okc_pending_dirty (snd (snd first_run))" "okc_fills_after (snd (snd first_run)) = []"
  "okc_pending_cursor (snd (snd first_run)) = zero_sync_cursor\<lparr>scu_scope := fillsScope, scu_complete := True\<rparr>"
  by (simp_all add: first_run_def run_defs old_ledger_def)

lemma grown_state:
  "oks_durable grown_sys = zero_sync_cursor\<lparr>scu_scope := fillsScope, scu_complete := True\<rparr>"
  "okc_fills_after (oks_client grown_sys) = []"
  by (simp_all add: grown_sys_def imported_sys_def first_result)


end
