(* ===== verification/Okx_Web3.thy ===== *)
theory Okx_Web3
  imports Okx_Fills
begin

text \<open>
  The OKX wallet client: \<open>Web3Client\<close> of \<open>clients/okx/client.go\<close>, \<open>chains.go\<close> and
  \<open>transactions.go\<close>. The server is part of the state and may answer every request
  differently, as may the clock; SHA-256 over the JSON of a transfer identity is an argument.
\<close>

section \<open>Data\<close>

record transaction_party =
  txp_address :: string
  txp_amount :: string

record web3_tx =
  w3x_chain :: string
  w3x_hash :: string
  w3x_tier :: string
  w3x_time :: string
  w3x_from :: "transaction_party list"
  w3x_to :: "transaction_party list"
  w3x_token :: string
  w3x_amount :: string
  w3x_symbol :: string
  w3x_fee :: string
  w3x_status :: string
  w3x_blacklisted :: bool

record transaction_page =
  txg_cursor :: string
  txg_transactions :: "web3_tx list"
  txg_transaction_list :: "web3_tx list"

record chain_row =
  chr_index :: string
  chr_api_name :: string

record token_row =
  tkr_symbol :: string
  tkr_address :: string
  tkr_chain :: string
  tkr_balance :: string
  tkr_price :: string
  tkr_risk :: bool

record web3_token =
  w3t_symbol :: string
  w3t_address :: string
  w3t_chain :: string
  w3t_quantity :: f64
  w3t_price :: f64

record okx_wallet =
  okw_address :: string
  okw_chains :: "string list"
  okw_label :: string

record chain_entry =
  che_chains :: "string list"
  che_history :: "string list"
  che_expires :: time

text \<open>The server, by the number of the request, and the state of a client.\<close>

record web3_api =
  w3a_supported :: "nat \<Rightarrow> chain_row list envelope res"
  w3a_active :: "nat \<Rightarrow> string \<Rightarrow> chain_row list envelope res"
  w3a_wallet_chains :: "nat \<Rightarrow> chain_row list envelope res"
  w3a_balances :: "nat \<Rightarrow> string \<Rightarrow> string list \<Rightarrow> token_row list list envelope res"
  w3a_history :: "nat \<Rightarrow> string \<Rightarrow> string list \<Rightarrow> int \<Rightarrow> string \<Rightarrow> transaction_page list envelope res"

record web3_world =
  w3w_cache :: "string \<Rightarrow> chain_entry option"
  w3w_clock :: "nat \<Rightarrow> time"
  w3w_ticks :: nat
  w3w_calls :: nat

definition w3_now :: "(web3_world, time) eff" where
  "w3_now = (\<lambda>w. (Inr (w3w_clock w (w3w_ticks w)), w\<lparr>w3w_ticks := Suc (w3w_ticks w)\<rparr>))"

definition w3_call :: "(nat \<Rightarrow> 'a res) \<Rightarrow> (web3_world, 'a) eff" where
  "w3_call f = (\<lambda>w. (f (w3w_calls w), w\<lparr>w3w_calls := Suc (w3w_calls w)\<rparr>))"

section \<open>Addresses and amounts\<close>

definition isTONWallet :: "string \<Rightarrow> bool" where
  "isTONWallet address0 =
    (let address = trim_space address0; upper = to_upper address in
     address \<noteq> [] \<and> (has_prefix upper ''EQ'' \<or> has_prefix upper ''UQ'' \<or> has_prefix address ''0:'' \<or>
       has_prefix address ''-1:''))"

definition canonicalAddress :: "string \<Rightarrow> string" where
  "canonicalAddress address = (if has_prefix (to_lower address) ''0x'' then to_lower address else address)"

definition walletAccountID :: "string \<Rightarrow> string" where
  "walletAccountID address = ''okxweb3-'' @ canonicalAddress address"

definition chainName :: "string \<Rightarrow> string" where
  "chainName idx =
    (if idx = ''1'' then ''ETHEREUM'' else if idx = ''56'' then ''BSC'' else if idx = ''137'' then ''POLYGON''
     else if idx = ''42161'' then ''ARBITRUM'' else if idx = ''10'' then ''OPTIMISM'' else if idx = ''8453'' then ''BASE''
     else if idx = ''43114'' then ''AVALANCHE'' else if idx = ''324'' then ''ZKSYNC'' else if idx = ''59144'' then ''LINEA''
     else if idx = ''5000'' then ''MANTLE'' else ''CHAIN-'' @ idx)"

definition shortAddr :: "string \<Rightarrow> string" where
  "shortAddr a = (if length a < 10 then a else take 6 a @ ''...'' @ drop (length a - 4) a)"

definition unsupportedWalletChains :: "string set" where
  "unsupportedWalletChains = {''0'', ''501'', ''607''}"

definition hasUnsupportedChain :: "string list \<Rightarrow> bool" where
  "hasUnsupportedChain chs = list_ex (\<lambda>c. c \<in> unsupportedWalletChains) chs"

definition finiteAmount :: "string \<Rightarrow> f64 res" where
  "finiteAmount value = (case parse_float value of
     None \<Rightarrow> Inl (ErrText ''okx_web3: invalid amount'')
   | Some n \<Rightarrow> if f64_is_nan n \<or> f64_is_inf n \<or> f64_lt n (Fin 0) then Inl (ErrText ''okx_web3: invalid amount'') else Inr n)"

section \<open>Requests\<close>

definition web3Get :: "string \<Rightarrow> (nat \<Rightarrow> 'a envelope res) \<Rightarrow> (web3_world, 'a) eff" where
  "web3Get path f = wrap_err path (w3_call (\<lambda>n. case f n of
     Inl e \<Rightarrow> Inl e
   | Inr env \<Rightarrow> if env_code env \<noteq> ''0'' then Inl (ErrText ''api error'') else Inr (env_data env)))"

text \<open>The rows of a balance answer: risky tokens and foreign chains are skipped.\<close>

fun token_rows :: "string list \<Rightarrow> token_row list \<Rightarrow> web3_token list res" where
  "token_rows chs [] = Inr []"
| "token_rows chs (t # ts) =
    (if tkr_risk t \<or> tkr_chain t \<notin> set chs then token_rows chs ts
     else case finiteAmount (tkr_balance t) of
       Inl e \<Rightarrow> Inl (Wrapf ''okx_web3 balance'' e)
     | Inr qty \<Rightarrow> (case (if tkr_price t = [] then Inr (Fin 0) else finiteAmount (tkr_price t)) of
           Inl e \<Rightarrow> Inl (Wrapf ''okx_web3 token price'' e)
         | Inr price \<Rightarrow> if f64_eq qty (Fin 0) then token_rows chs ts
             else map_sum id (\<lambda>rest. \<lparr>w3t_symbol = NormalizeAsset (tkr_symbol t), w3t_address = tkr_address t,
               w3t_chain = tkr_chain t, w3t_quantity = qty, w3t_price = price\<rparr> # rest) (token_rows chs ts)))"

definition fetchBalanceBatch :: "web3_api \<Rightarrow> string \<Rightarrow> string list \<Rightarrow> (web3_world, web3_token list) eff" where
  "fetchBalanceBatch api address chs = w3_call (\<lambda>n. case w3a_balances api n address chs of
     Inl e \<Rightarrow> Inl e
   | Inr env \<Rightarrow> if \<not> okx_ok env then Inl (ErrText ''okx_web3 api error'') else token_rows chs (concat (env_data env)))"

definition fetchWallet :: "web3_api \<Rightarrow> string \<Rightarrow> string list \<Rightarrow> (web3_world, web3_token list) eff" where
  "fetchWallet api address chs =
    (if chs = [] then fetchBalanceBatch api address []
     else fold_eff (\<lambda>batch all. bind_eff (fetchBalanceBatch api address batch) (\<lambda>tokens. ret (all @ tokens)))
       (chunks_of 50 chs) [])"

section \<open>Chain discovery\<close>

definition chainDiscoveryTTL :: duration where "chainDiscoveryTTL = 15 * dur_minute"

definition nonzeroChains :: "string list \<Rightarrow> web3_token list \<Rightarrow> string list" where
  "nonzeroChains chs tokens =
    filter (\<lambda>c. list_ex (\<lambda>t. f64_gt (w3t_quantity t) (Fin 0) \<and> w3t_chain t = c) tokens) chs"

definition candidate_chains :: "chain_row list \<Rightarrow> chain_row list \<Rightarrow> chain_row list \<Rightarrow> string list" where
  "candidate_chains support active supported =
    rev (foldl (\<lambda>acc row. if
         (\<exists>r\<in>set support. chr_api_name r = ''address-active-chain'' \<and> chr_index r = chr_index row) \<and>
         chr_index row \<in> chr_index ` set supported \<and> chr_index row \<notin> unsupportedWalletChains \<and> chr_index row \<notin> set acc
       then chr_index row # acc else acc) [] active)"

definition discover_chains :: "web3_api \<Rightarrow> string \<Rightarrow> (web3_world, string list \<times> string list) eff" where
  "discover_chains api address0 =
    (let address = canonicalAddress address0 in
     bind_eff (web3Get ''supported-chains'' (w3a_supported api)) (\<lambda>support.
     bind_eff (web3Get ''address-active-chain'' (\<lambda>n. w3a_active api n address0)) (\<lambda>active.
     bind_eff (web3Get ''supported/chain'' (w3a_wallet_chains api)) (\<lambda>supported.
       let candidate = candidate_chains support active supported in
       bind_eff (wrap_err ''okx_web3 chain balance discovery'' (fetchWallet api address0 candidate)) (\<lambda>tokens.
         let chs = nonzeroChains candidate tokens in
         bind_eff w3_now (\<lambda>now.
         seq_eff (writing (\<lambda>w. w\<lparr>w3w_cache := (w3w_cache w)(address \<mapsto>
             \<lparr>che_chains = chs, che_history = candidate, che_expires = now + chainDiscoveryTTL\<rparr>)\<rparr>))
           (ret (chs, candidate))))))))"

definition resolveChains :: "web3_api \<Rightarrow> okx_wallet \<Rightarrow> (web3_world, string list \<times> string list) eff" where
  "resolveChains api wl =
    (if okw_chains wl \<noteq> [] then ret (okw_chains wl, okw_chains wl)
     else let address = canonicalAddress (okw_address wl) in
       if length address \<noteq> 42 \<or> \<not> has_prefix address ''0x''
       then raise (ErrText ''okx_web3: automatic discovery requires an EVM address'')
       else if \<not> list_all is_hex (drop 2 address) then raise (ErrText ''okx_web3: invalid EVM address'')
       else bind_eff (reading (\<lambda>w. w3w_cache w address)) (\<lambda>entry. case entry of
           None \<Rightarrow> discover_chains api (okw_address wl)
         | Some e \<Rightarrow> bind_eff w3_now (\<lambda>now.
             if now < che_expires e then ret (che_chains e, che_history e)
             else discover_chains api (okw_address wl))))"

section \<open>One transaction\<close>

text \<open>
  The amount of a wallet on one side of a transaction: whether it is there at all, and the sum
  of the amounts given for it. An amount that is missing while another is given is an error.
\<close>

fun party_scan :: "transaction_party list \<Rightarrow> string \<Rightarrow> bool \<times> bool \<times> bool \<times> f64 \<Rightarrow> (bool \<times> bool \<times> bool \<times> f64) res" where
  "party_scan [] address acc = Inr acc"
| "party_scan (p # ps) address (found, supplied, missing, qty_sum) =
    (if \<not> list_ex (\<lambda>c. canonicalAddress (trim_space c) = canonicalAddress address) (split_on CHR '','' (txp_address p))
     then party_scan ps address (found, supplied, missing, qty_sum)
     else if txp_amount p = [] then party_scan ps address (True, supplied, True, qty_sum)
     else case finiteAmount (txp_amount p) of
       Inl e \<Rightarrow> Inl e
     | Inr n \<Rightarrow> party_scan ps address (True, True, missing, f64_add qty_sum n))"

definition partyAmount :: "transaction_party list \<Rightarrow> string \<Rightarrow> (bool \<times> f64 option) res" where
  "partyAmount parties address = (case party_scan parties address (False, False, False, Fin 0) of
     Inl e \<Rightarrow> Inl e
   | Inr (found, supplied, missing, qty_sum) \<Rightarrow>
       if supplied \<and> missing then Inl (ErrText ''okx_web3: incomplete transaction party amounts'')
       else if supplied then Inr (found, Some qty_sum) else Inr (found, None))"

definition counterparties :: "web3_tx \<Rightarrow> string list" where
  "counterparties tx = map (\<lambda>raw. canonicalAddress (trim_space raw))
     (concat (map (\<lambda>p. split_on CHR '','' (txp_address p)) (w3x_from tx @ w3x_to tx)))"

definition hasExternalCounterparty :: "web3_tx \<Rightarrow> string \<Rightarrow> string set \<Rightarrow> bool" where
  "hasExternalCounterparty tx address ours =
    list_ex (\<lambda>c. c \<noteq> [] \<and> c \<noteq> canonicalAddress address \<and> c \<notin> ours) (counterparties tx)"

definition partyKeys :: "transaction_party list \<Rightarrow> string list" where
  "partyKeys parties = sort (map (\<lambda>p. join_with '',''
     (sort (map (\<lambda>a. canonicalAddress (trim_space a)) (split_on CHR '','' (txp_address p))))) parties)"

record tx_identity =
  txi_chain :: string
  txi_hash :: string
  txi_tier :: string
  txi_token :: string
  txi_amount :: f64
  txi_from :: "string list"
  txi_to :: "string list"

definition identity_of :: "web3_tx \<Rightarrow> f64 \<Rightarrow> tx_identity" where
  "identity_of tx amount = \<lparr>txi_chain = w3x_chain tx, txi_hash = canonicalAddress (w3x_hash tx), txi_tier = w3x_tier tx,
     txi_token = canonicalAddress (w3x_token tx), txi_amount = f64_abs amount, txi_from = partyKeys (w3x_from tx),
     txi_to = partyKeys (w3x_to tx)\<rparr>"

text \<open>The net amount of the wallet: \<open>None\<close> when the transaction is not about it.\<close>

definition net_amount :: "string \<Rightarrow> web3_tx \<Rightarrow> f64 option res" where
  "net_amount address tx =
    (case partyAmount (w3x_from tx) address of Inl e \<Rightarrow> Inl e
     | Inr (from_us, out) \<Rightarrow> (case partyAmount (w3x_to tx) address of Inl e \<Rightarrow> Inl e
       | Inr (to_us, inn) \<Rightarrow>
           if \<not> from_us \<and> \<not> to_us then Inr None
           else case finiteAmount (w3x_amount tx) of Inl e \<Rightarrow> Inl e
             | Inr amount \<Rightarrow>
                 if out \<noteq> None \<or> inn \<noteq> None then
                   (if (from_us \<and> out = None) \<or> (to_us \<and> inn = None) then Inl (ErrText ''okx_web3: incomplete party amounts'')
                    else Inr (Some (let a = (case inn of None \<Rightarrow> Fin 0 | Some x \<Rightarrow> f64_add (Fin 0) x)
                      in case out of None \<Rightarrow> a | Some x \<Rightarrow> f64_sub a x)))
                 else if from_us \<and> to_us then Inr None
                 else Inr (Some (if from_us then f64_neg amount else amount))))"

definition transfer_of :: "(tx_identity \<Rightarrow> string) \<Rightarrow> string \<Rightarrow> web3_tx \<Rightarrow> string set \<Rightarrow> f64 \<Rightarrow> int \<Rightarrow> activity" where
  "transfer_of digest address tx ours amount timestamp =
    (let key = digest (identity_of tx amount); accountID = walletAccountID address; asset = NormalizeAsset (w3x_symbol tx);
         usd = \<lparr>cur_code = ''USD'', cur_name = []\<rparr>
     in zero_activity\<lparr>act_id := accountID @ '':'' @ key, act_account_id := accountID, act_source_record_id := key,
          act_source_group_id := w3x_chain tx @ '':'' @ w3x_hash tx, act_external_reference_id := w3x_hash tx,
          act_type := (if f64_lt amount (Fin 0) then ActivityTransferOut else ActivityTransferIn),
          act_raw_type := ''TRANSFER_'' @ w3x_tier tx, act_units := f64_abs amount,
          act_is_external := hasExternalCounterparty tx address ours, act_trade_date := of_unix_milli timestamp,
          act_currency := usd,
          act_symbol := Some (zero_symbol\<lparr>sym_symbol := asset, sym_raw_symbol := asset,
            sym_type := \<lparr>sty_code = ''CRYPTO'', sty_description = [], sty_is_supported = True\<rparr>,
            sym_exchange := \<lparr>exc_code = chainName (w3x_chain tx), exc_mic_code = [], exc_name = [], exc_suffix = []\<rparr>,
            sym_currency := usd\<rparr>),
          act_provider_type := ''okx_web3'', act_source_system := ''okx_web3'', act_needs_review := True,
          act_description := ''On-chain asset transfer; historical valuation unavailable'' @
            (if w3x_fee tx = [] then [] else ''; transaction network fee (native units): '' @ w3x_fee tx)\<rparr>)"

definition transactionActivity ::
  "(tx_identity \<Rightarrow> string) \<Rightarrow> string \<Rightarrow> web3_tx \<Rightarrow> string set \<Rightarrow> activity option res" where
  "transactionActivity digest address tx ours =
    (if w3x_status tx \<noteq> ''success'' \<or> w3x_blacklisted tx then Inr None
     else case net_amount address tx of
       Inl e \<Rightarrow> Inl e
     | Inr None \<Rightarrow> Inr None
     | Inr (Some amount) \<Rightarrow>
         if f64_eq amount (Fin 0) then Inr None
         else (case parse_int (w3x_time tx) of
             None \<Rightarrow> Inl (ErrText ''okx_web3: invalid transaction identity/time'')
           | Some timestamp \<Rightarrow>
               if timestamp \<le> 0 \<or> w3x_hash tx = [] \<or> w3x_chain tx = [] \<or> w3x_symbol tx = []
               then Inl (ErrText ''okx_web3: invalid transaction identity/time'')
               else Inr (Some (transfer_of digest address tx ours amount timestamp))))"

section \<open>The history of a wallet\<close>

fun add_transactions ::
  "(tx_identity \<Rightarrow> string) \<Rightarrow> string \<Rightarrow> string set \<Rightarrow> string list \<Rightarrow> web3_tx list \<Rightarrow> activity list \<Rightarrow>
   activity list \<times> go_error option" where
  "add_transactions digest address ours chs [] all = (all, None)"
| "add_transactions digest address ours chs (tx # txs) all =
    (if w3x_chain tx \<notin> set chs then add_transactions digest address ours chs txs all
     else case transactionActivity digest address tx ours of
       Inl e \<Rightarrow> (all, Some e)
     | Inr None \<Rightarrow> add_transactions digest address ours chs txs all
     | Inr (Some a) \<Rightarrow> add_transactions digest address ours chs txs
         (if act_id a \<in> act_id ` set all then all else all @ [a]))"

definition page_request :: "web3_api \<Rightarrow> string \<Rightarrow> string list \<Rightarrow> int \<Rightarrow> string \<Rightarrow> (web3_world, transaction_page list) eff" where
  "page_request api address chs until cursor =
    web3Get ''transactions-by-address'' (\<lambda>n. w3a_history api n address chs until cursor)"

text \<open>One turn of the paging loop: the next cursor, or the result of the batch.\<close>

definition history_turn ::
  "(web3_tx list \<Rightarrow> activity list \<Rightarrow> activity list \<times> go_error option) \<Rightarrow>
   (string \<Rightarrow> (web3_world, transaction_page list) eff) \<Rightarrow> string \<Rightarrow> string list \<Rightarrow> activity list \<Rightarrow>
   web3_world \<Rightarrow> (string \<times> activity list \<times> web3_world) + (activity list \<times> go_error option \<times> web3_world)" where
  "history_turn add request cursor cursors all w =
    (case request cursor w of
       (Inl e, w') \<Rightarrow> Inr (all, Some e, w')
     | (Inr [], w') \<Rightarrow> Inr (all, None, w')
     | (Inr [page], w') \<Rightarrow>
         (case add (txg_transactions page @ txg_transaction_list page) all of
            (all', Some e) \<Rightarrow> Inr (all', Some e, w')
          | (all', None) \<Rightarrow>
              if txg_cursor page = [] then Inr (all', None, w')
              else if txg_cursor page \<in> set cursors then Inr (all', Some (ErrText ''okx_web3: history cursor did not advance''), w')
              else Inl (txg_cursor page, all', w'))
     | (Inr (p1 # p2 # ps), w') \<Rightarrow> Inr (all, Some (ErrText ''okx_web3: unexpected history page count''), w'))"

text \<open>The pages of one batch of chains; \<open>None\<close> is a walk that never ends.\<close>

partial_function (option) web3_walk ::
  "(web3_tx list \<Rightarrow> activity list \<Rightarrow> activity list \<times> go_error option) \<Rightarrow>
   (string \<Rightarrow> (web3_world, transaction_page list) eff) \<Rightarrow> string \<Rightarrow> string list \<Rightarrow> activity list \<Rightarrow>
   web3_world \<Rightarrow> (activity list \<times> go_error option \<times> web3_world) option" where
  "web3_walk add request cursor cursors all w =
    (case history_turn add request cursor cursors all w of
       Inr r \<Rightarrow> Some r
     | Inl (cursor', all', w') \<Rightarrow> web3_walk add request cursor' (cursor' # cursors) all' w')"

declare web3_walk.simps [code]

fun history_batches ::
  "(string list \<Rightarrow> web3_tx list \<Rightarrow> activity list \<Rightarrow> activity list \<times> go_error option) \<Rightarrow> web3_api \<Rightarrow> string \<Rightarrow> int \<Rightarrow>
   string list list \<Rightarrow> activity list \<Rightarrow> web3_world \<Rightarrow> (activity list \<times> go_error option \<times> web3_world) option" where
  "history_batches add api address until [] all w = Some (all, None, w)"
| "history_batches add api address until (chs # batches) all w =
    (case web3_walk (add chs) (page_request api address chs until) [] [] all w of
       None \<Rightarrow> None
     | Some (all', Some e, w') \<Rightarrow> Some (all', Some e, w')
     | Some (all', None, w') \<Rightarrow> history_batches add api address until batches all' w')"

definition tracked_addresses :: "okx_wallet list \<Rightarrow> string set" where
  "tracked_addresses wallets = canonicalAddress ` set (map okw_address wallets)"

definition fetchTransactions ::
  "(tx_identity \<Rightarrow> string) \<Rightarrow> web3_api \<Rightarrow> okx_wallet list \<Rightarrow> string \<Rightarrow> string list \<Rightarrow> web3_world \<Rightarrow>
   (activity list \<times> go_error option \<times> web3_world) option" where
  "fetchTransactions digest api wallets address chs w =
    (let until = to_unix_milli (w3w_clock w (w3w_ticks w)); w1 = w\<lparr>w3w_ticks := Suc (w3w_ticks w)\<rparr>
     in history_batches (add_transactions digest address (tracked_addresses wallets)) api address until (chunks_of 50 chs) [] w1)"

section \<open>The snapshot\<close>

record web3_wallet_data =
  wwd_wallet :: okx_wallet
  wwd_tokens :: "web3_token list"
  wwd_activities :: "activity list"
  wwd_fetched :: bool

definition web3_position :: "web3_token \<Rightarrow> position" where
  "web3_position t = zero_position\<lparr>pos_symbol := zero_symbol\<lparr>sym_symbol := w3t_symbol t, sym_raw_symbol := w3t_symbol t,
       sym_name := w3t_symbol t, sym_description := w3t_symbol t,
       sym_type := \<lparr>sty_code = ''CRYPTO'', sty_description = [], sty_is_supported = True\<rparr>,
       sym_exchange := \<lparr>exc_code = chainName (w3t_chain t), exc_mic_code = [], exc_name = chainName (w3t_chain t), exc_suffix = []\<rparr>,
       sym_currency := \<lparr>cur_code = ''USD'', cur_name = []\<rparr>\<rparr>,
     pos_units := w3t_quantity t, pos_price := w3t_price t, pos_currency := \<lparr>cur_code = ''USD'', cur_name = []\<rparr>\<rparr>"

text \<open>One turn of the token loop over the total, the stable cash and the positions.\<close>

definition fold_token :: "f64 \<times> f64 \<times> position list \<Rightarrow> web3_token \<Rightarrow> f64 \<times> f64 \<times> position list" where
  "fold_token acc t = (case acc of (total_usd, cash, ps) \<Rightarrow>
     let usd = f64_mul (w3t_quantity t) (w3t_price t) in
     if IsStablecoin (w3t_symbol t) then (f64_add total_usd usd, f64_add cash usd, ps)
     else if f64_lt usd (Fin 1) then (total_usd, cash, ps)
     else (f64_add total_usd usd, cash, ps @ [web3_position t]))"

definition web3_account_id :: "okx_wallet \<Rightarrow> string" where
  "web3_account_id wl = ''okxweb3-'' @ to_lower (okw_address wl)"

definition web3_account :: "time \<Rightarrow> web3_wallet_data \<Rightarrow> account \<times> holdings" where
  "web3_account now w =
    (let wl = wwd_wallet w;
         (total_usd, cash, ps) = foldl fold_token (Fin 0, Fin 0, []) (wwd_tokens w);
         label = (if okw_label wl = [] then ''Wallet '' @ shortAddr (okw_address wl) else okw_label wl)
     in (zero_account\<lparr>acc_id := web3_account_id wl, acc_name := label, acc_account_number := shortAddr (okw_address wl),
           acc_type := AccountTypeCryptocurrency, acc_raw_type := ''CRYPTO_WALLET'', acc_currency := ''USD'',
           acc_balance_total := total_usd, acc_balance_currency := ''USD'', acc_brokerage_authorization := ''okx-web3-auth'',
           acc_institution_name := ''OKX Web3'', acc_sync_enabled := True, acc_status := ''open'', acc_created_date := now,
           acc_last_holdings_sync := Some now, acc_initial_holdings_done := True,
           acc_initial_tx_sync_done := wwd_fetched w, acc_last_tx_sync := (if wwd_fetched w then Some now else None)\<rparr>,
         zero_holdings\<lparr>hol_account_id := web3_account_id wl,
           hol_balances := [\<lparr>bal_currency = \<lparr>cur_code = ''USD'', cur_name = []\<rparr>, bal_cash = cash, bal_buying_power = Fin 0\<rparr>],
           hol_positions := ps, hol_captured_at := now\<rparr>))"

definition TranslateWeb3 :: "time \<Rightarrow> web3_wallet_data list \<Rightarrow> broker_snapshot" where
  "TranslateWeb3 now wallets = zero_snapshot\<lparr>
     snap_connection := zero_connection\<lparr>con_id := ''okx-web3-conn'', con_authorization_id := ''okx-web3-auth'',
       con_brokerage_name := ''OKX Web3'', con_brokerage_slug := ''okx_web3'', con_display_name := ''OKX Web3 (DeFi)'',
       con_name := ''OKX Web3'', con_status := ConnectionActive, con_updated_at := now\<rparr>,
     snap_accounts := map (\<lambda>w. fst (web3_account now w)) wallets,
     snap_holdings := map (\<lambda>w. snd (web3_account now w)) wallets,
     snap_activities := foldl (\<lambda>m w. if wwd_activities w = [] then m
       else AList.update (walletAccountID (okw_address (wwd_wallet w))) (wwd_activities w) m) [] wallets\<rparr>"

section \<open>Fetch\<close>

text \<open>One wallet of the loop; a wallet that cannot be read is left out of the snapshot.\<close>

definition wallet_history ::
  "(tx_identity \<Rightarrow> string) \<Rightarrow> web3_api \<Rightarrow> okx_wallet list \<Rightarrow> okx_wallet \<Rightarrow> string list \<Rightarrow> string list \<Rightarrow>
   web3_token list \<Rightarrow> web3_world \<Rightarrow> (web3_wallet_data option \<times> web3_world) option" where
  "wallet_history digest api wallets wl funded history tokens w =
    (let hs = (if history = [] then funded else history) in
     map_option (\<lambda>(acts, err, w'). (Some \<lparr>wwd_wallet = wl\<lparr>okw_chains := funded\<rparr>, wwd_tokens = tokens, wwd_activities = acts,
         wwd_fetched = (err = None \<and> hs \<noteq> [])\<rparr>, w'))
       (fetchTransactions digest api wallets (okw_address wl) hs w))"

definition wallet_data ::
  "(tx_identity \<Rightarrow> string) \<Rightarrow> web3_api \<Rightarrow> okx_wallet list \<Rightarrow> okx_wallet \<Rightarrow> web3_world \<Rightarrow>
   (web3_wallet_data option \<times> web3_world) option" where
  "wallet_data digest api wallets wl w =
    (if isTONWallet (okw_address wl) then Some (None, w)
     else case resolveChains api wl w of
       (Inl e, w1) \<Rightarrow> Some (None, w1)
     | (Inr (funded, history), w1) \<Rightarrow>
         if funded = [] \<and> history = [] \<or> hasUnsupportedChain funded
         then Some (Some \<lparr>wwd_wallet = wl\<lparr>okw_chains := funded\<rparr>, wwd_tokens = [], wwd_activities = [], wwd_fetched = False\<rparr>, w1)
         else (case (if funded = [] then (Inr [], w1) else fetchWallet api (okw_address wl) funded w1) of
             (Inl e, w2) \<Rightarrow> Some (None, w2)
           | (Inr tokens, w2) \<Rightarrow> wallet_history digest api wallets wl funded history tokens w2))"

fun wallets_data ::
  "(tx_identity \<Rightarrow> string) \<Rightarrow> web3_api \<Rightarrow> okx_wallet list \<Rightarrow> okx_wallet list \<Rightarrow> web3_world \<Rightarrow>
   (web3_wallet_data list \<times> web3_world) option" where
  "wallets_data digest api wallets [] w = Some ([], w)"
| "wallets_data digest api wallets (wl # wls) w =
    (case wallet_data digest api wallets wl w of
       None \<Rightarrow> None
     | Some (d, w1) \<Rightarrow> (case wallets_data digest api wallets wls w1 of
         None \<Rightarrow> None
       | Some (ds, w2) \<Rightarrow> Some (case_option ds (\<lambda>x. x # ds) d, w2)))"

definition web3_fetch ::
  "(tx_identity \<Rightarrow> string) \<Rightarrow> bool \<Rightarrow> web3_api \<Rightarrow> okx_wallet list \<Rightarrow> time \<Rightarrow> web3_world \<Rightarrow>
   (broker_snapshot res \<times> web3_world) option" where
  "web3_fetch digest credentials api wallets now w =
    (if \<not> credentials then Some (Inl (ErrText ''okx_web3: API credentials not fully configured''), w)
     else if wallets = [] then Some (Inr zero_snapshot, w)
     else map_option (\<lambda>(ds, w'). (Inr (TranslateWeb3 now ds), w')) (wallets_data digest api wallets wallets w))"

section \<open>TON wallets are never named to the server\<close>

text \<open>Two servers that answer alike for every address that is not a TON address.\<close>

definition same_but_ton :: "web3_api \<Rightarrow> web3_api \<Rightarrow> bool" where
  "same_but_ton api api' \<longleftrightarrow> w3a_supported api' = w3a_supported api \<and> w3a_wallet_chains api' = w3a_wallet_chains api \<and>
     (\<forall>address. \<not> isTONWallet address \<longrightarrow> (\<forall>n. w3a_active api' n address = w3a_active api n address \<and>
        w3a_balances api' n address = w3a_balances api n address \<and> w3a_history api' n address = w3a_history api n address))"

lemma same_requests:
  assumes "same_but_ton api api'" "\<not> isTONWallet address"
  shows "fetchBalanceBatch api' address = fetchBalanceBatch api address"
    and "page_request api' address = page_request api address"
    and "fetchWallet api' address = fetchWallet api address"
    and "discover_chains api' address = discover_chains api address"
proof -
  show b: "fetchBalanceBatch api' address = fetchBalanceBatch api address"
    and "page_request api' address = page_request api address"
    using assms by (simp_all add: same_but_ton_def fetchBalanceBatch_def page_request_def fun_eq_iff)
  show w: "fetchWallet api' address = fetchWallet api address"
    unfolding fetchWallet_def b ..
  have "w3a_supported api' = w3a_supported api" "w3a_wallet_chains api' = w3a_wallet_chains api"
    "(\<lambda>n. w3a_active api' n address) = (\<lambda>n. w3a_active api n address)"
    using assms by (simp_all add: same_but_ton_def)
  then show "discover_chains api' address = discover_chains api address"
    unfolding discover_chains_def w by (simp only:)
qed

lemma same_batches:
  assumes "page_request api' address = page_request api address"
  shows "history_batches add api' address until batches all w = history_batches add api address until batches all w"
proof (induction batches arbitrary: all w)
  case (Cons chs batches)
  then show ?case by (auto simp: assms split: option.split)
qed simp

lemma same_wallet_data:
  assumes "same_but_ton api api'"
  shows "wallet_data digest api' wallets wl w = wallet_data digest api wallets wl w"
proof (cases "isTONWallet (okw_address wl)")
  case False
  note same = same_requests [OF assms False]
  have "resolveChains api' wl = resolveChains api wl"
    unfolding resolveChains_def same(4) ..
  moreover have "fetchTransactions digest api' wallets (okw_address wl) = fetchTransactions digest api wallets (okw_address wl)"
    by (simp add: fetchTransactions_def fun_eq_iff Let_def same_batches [OF same(2)])
  then have "wallet_history digest api' wallets wl = wallet_history digest api wallets wl"
    by (simp add: wallet_history_def fun_eq_iff)
  ultimately show ?thesis by (simp only: wallet_data_def same(3))
qed (simp add: wallet_data_def)

lemma same_wallets_data:
  "same_but_ton api api' \<Longrightarrow> wallets_data digest api' wallets wls w = wallets_data digest api wallets wls w"
  by (induction wls arbitrary: w) (simp_all add: same_wallet_data split: option.splits)

text \<open>
  C37. The OKX wallet client never names a TON wallet to the server: whatever the server would
  answer to requests for TON addresses, and however many of them are configured, a fetch
  returns the same snapshot and leaves the same state, so no such request is ever made. Their
  activities are still known to belong to the user's own wallets.
\<close>

theorem ton_wallets_never_queried:
  assumes "same_but_ton api api'"
  shows "web3_fetch digest credentials api' wallets now w = web3_fetch digest credentials api wallets now w"
  by (simp add: web3_fetch_def same_wallets_data [OF assms])

section \<open>The history walk\<close>

definition adds_keep ::
  "(activity list \<Rightarrow> bool) \<Rightarrow> (web3_tx list \<Rightarrow> activity list \<Rightarrow> activity list \<times> go_error option) \<Rightarrow> bool" where
  "adds_keep Q add \<longleftrightarrow> (\<forall>txs xs. Q xs \<longrightarrow> Q (fst (add txs xs)))"

lemma history_turn_keeps:
  assumes "adds_keep Q add" "Q all"
  shows "case history_turn add request cursor cursors all w of Inl (c, all', w') \<Rightarrow> Q all' | Inr r \<Rightarrow> Q (fst r)"
proof -
  have "Q all'" if "add txs all = (all', e)" for txs all' e
    using assms that unfolding adds_keep_def by (metis fst_conv)
  with assms(2) show ?thesis
    by (auto simp: history_turn_def split: prod.splits sum.splits list.splits option.splits)
qed

lemma web3_walk_preserves:
  assumes walk: "web3_walk add request cursor cursors all w = Some r"
    and add: "adds_keep Q add" "Q all"
  shows "Q (fst r)"
proof -
  define P where "P = (\<lambda>add (request :: string \<Rightarrow> (web3_world, transaction_page list) eff) (cursor :: string)
    (cursors :: string list) all (w :: web3_world) (r :: activity list \<times> go_error option \<times> web3_world).
    adds_keep Q add \<longrightarrow> Q all \<longrightarrow> Q (fst r))"
  have "P add request cursor cursors all w r"
  proof (rule web3_walk.raw_induct [OF _ walk])
    fix walk add request cursor cursors all w r
    assume IH: "\<And>add request cursor cursors all w y. walk add request cursor cursors all w = Some y \<Longrightarrow> P add request cursor cursors all w y"
      and step: "(case history_turn add request cursor cursors all w of Inr r \<Rightarrow> Some r
        | Inl (cursor', all', w') \<Rightarrow> walk add request cursor' (cursor' # cursors) all' w') = Some r"
    show "P add request cursor cursors all w r"
      unfolding P_def using IH [unfolded P_def] step history_turn_keeps [of Q add all request cursor cursors w]
      by (auto split: sum.splits prod.splits)
  qed
  with add show ?thesis by (simp add: P_def)
qed

text \<open>What every stored transfer of a wallet looks like.\<close>

definition wallet_transfer :: "string \<Rightarrow> activity \<Rightarrow> bool" where
  "wallet_transfer address a \<longleftrightarrow> act_account_id a = walletAccountID address \<and>
     act_id a = act_account_id a @ '':'' @ act_source_record_id a \<and>
     (act_type a = ActivityTransferIn \<or> act_type a = ActivityTransferOut) \<and> \<not> f64_eq (act_units a) (Fin 0) \<and>
     act_needs_review a \<and> act_external_reference_id a \<noteq> []"

lemma f64_abs_eq_zero [simp]: "f64_abs x = Fin 0 \<longleftrightarrow> x = Fin 0"
  by (cases x) simp_all

lemma transfer_of_sel [simp]:
  "act_account_id (transfer_of digest address tx ours amount t) = walletAccountID address"
  "act_source_record_id (transfer_of digest address tx ours amount t) = digest (identity_of tx amount)"
  "act_id (transfer_of digest address tx ours amount t) = walletAccountID address @ '':'' @ digest (identity_of tx amount)"
  "act_type (transfer_of digest address tx ours amount t) = (if f64_lt amount (Fin 0) then ActivityTransferOut else ActivityTransferIn)"
  "act_units (transfer_of digest address tx ours amount t) = f64_abs amount"
  "act_is_external (transfer_of digest address tx ours amount t) = hasExternalCounterparty tx address ours"
  "act_trade_date (transfer_of digest address tx ours amount t) = of_unix_milli t"
  "act_needs_review (transfer_of digest address tx ours amount t)"
  "act_external_reference_id (transfer_of digest address tx ours amount t) = w3x_hash tx"
  by (simp_all add: transfer_of_def Let_def zero_activity_def)

lemma transaction_cases:
  assumes "transactionActivity digest address tx ours = Inr (Some a)"
  obtains amount timestamp where "w3x_status tx = ''success''" "\<not> w3x_blacklisted tx"
    "net_amount address tx = Inr (Some amount)" "\<not> f64_eq amount (Fin 0)"
    "parse_int (w3x_time tx) = Some timestamp" "0 < timestamp" "w3x_hash tx \<noteq> []"
    "a = transfer_of digest address tx ours amount timestamp"
  using assms by (auto simp: transactionActivity_def split: if_splits sum.splits option.splits)

lemma transaction_transfer:
  assumes "transactionActivity digest address tx ours = Inr (Some a)"
  shows "wallet_transfer address a"
  using assms
  by (cases rule: transaction_cases)
    (simp add: wallet_transfer_def)

definition transfers_ok :: "string \<Rightarrow> activity list \<Rightarrow> bool" where
  "transfers_ok address acts \<longleftrightarrow> distinct (map act_id acts) \<and> (\<forall>a\<in>set acts. wallet_transfer address a)"

lemma add_transactions_ok:
  "transfers_ok address all \<Longrightarrow> transfers_ok address (fst (add_transactions digest address ours chs txs all))"
proof (induction txs arbitrary: all)
  case (Cons tx txs)
  have "transfers_ok address (all @ [a])"
    if "transactionActivity digest address tx ours = Inr (Some a)" "act_id a \<notin> act_id ` set all" for a
    using Cons.prems that transaction_transfer by (auto simp: transfers_ok_def)
  with Cons show ?case by (auto split: sum.splits option.splits)
qed simp

lemma history_batches_ok:
  "history_batches (add_transactions digest address ours) api address until batches all w = Some r \<Longrightarrow>
   transfers_ok address all \<Longrightarrow> transfers_ok address (fst r)"
proof (induction batches arbitrary: all w)
  case (Cons chs batches)
  have keep: "adds_keep (transfers_ok address) (add_transactions digest address ours chs)"
    by (simp add: adds_keep_def add_transactions_ok)
  from Cons.prems(1) obtain r1 where
    r1: "web3_walk (add_transactions digest address ours chs) (page_request api address chs until) [] [] all w = Some r1"
    by (auto split: option.splits)
  from web3_walk_preserves [OF r1 keep Cons.prems(2)] have "transfers_ok address (fst r1)" .
  with Cons r1 show ?case by (cases r1) (auto split: option.splits)
qed auto

lemma fetchTransactions_ok:
  assumes "fetchTransactions digest api wallets address chs w = Some (acts, err, w')"
  shows "transfers_ok address acts"
  using history_batches_ok [of digest address "tracked_addresses wallets" api "to_unix_milli (w3w_clock w (w3w_ticks w))" "chunks_of 50 chs" "[]"] assms
  by (fastforce simp: fetchTransactions_def Let_def transfers_ok_def)

section \<open>The snapshot is well formed\<close>

definition data_ok :: "okx_wallet list \<Rightarrow> web3_wallet_data \<Rightarrow> bool" where
  "data_ok wallets d \<longleftrightarrow> okw_address (wwd_wallet d) \<in> okw_address ` set wallets \<and>
     \<not> isTONWallet (okw_address (wwd_wallet d)) \<and> transfers_ok (okw_address (wwd_wallet d)) (wwd_activities d)"

lemma wallet_data_ok:
  assumes "wallet_data digest api wallets wl w = Some (Some d, w')" "wl \<in> set wls"
  shows "data_ok wls d"
proof -
  have ton: "\<not> isTONWallet (okw_address wl)" using assms(1) by (auto simp: wallet_data_def)
  have "okw_address (wwd_wallet d) = okw_address wl \<and> transfers_ok (okw_address wl) (wwd_activities d)"
    using assms(1) ton
    by (auto simp: wallet_data_def wallet_history_def Let_def transfers_ok_def
        dest!: fetchTransactions_ok split: sum.splits prod.splits if_splits)
  with ton assms(2) show ?thesis by (simp add: data_ok_def)
qed

lemma wallets_data_ok:
  "wallets_data digest api wallets wls w = Some (ds, w') \<Longrightarrow> \<forall>d\<in>set ds. data_ok wls d"
proof (induction wls arbitrary: w ds)
  case (Cons wl wls)
  from Cons.prems obtain d w1 ds1 where d: "wallet_data digest api wallets wl w = Some (d, w1)"
    and ds1: "wallets_data digest api wallets wls w1 = Some (ds1, w')" and ds: "ds = case_option ds1 (\<lambda>x. x # ds1) d"
    by (auto split: option.splits)
  have "\<forall>d\<in>set ds1. data_ok (wl # wls) d"
    using Cons.IH [OF ds1] by (auto simp: data_ok_def)
  moreover have "data_ok (wl # wls) x" if "d = Some x" for x
    using d that wallet_data_ok by (metis list.set_intros(1))
  ultimately show ?case using ds by (auto split: option.splits)
qed simp

text \<open>A well-formed wallet snapshot: one set of holdings per account, and transfers under their owner.\<close>

definition snapshot_typed :: "broker_snapshot \<Rightarrow> bool" where
  "snapshot_typed snap \<longleftrightarrow> map hol_account_id (snap_holdings snap) = map acc_id (snap_accounts snap) \<and>
     (\<forall>a\<in>set (snap_accounts snap). acc_brokerage_authorization a = con_authorization_id (snap_connection snap)) \<and>
     distinct (map fst (snap_activities snap)) \<and>
     (\<forall>(k, acts)\<in>set (snap_activities snap). acts \<noteq> [] \<and> distinct (map act_id acts) \<and>
        (\<forall>a\<in>set acts. act_account_id a = k \<and> (act_type a = ActivityTransferIn \<or> act_type a = ActivityTransferOut) \<and>
           \<not> f64_eq (act_units a) (Fin 0)))"

definition wallet_map :: "web3_wallet_data list \<Rightarrow> (string \<times> activity list) list" where
  "wallet_map wallets = foldl (\<lambda>m w. if wwd_activities w = [] then m
     else AList.update (walletAccountID (okw_address (wwd_wallet w))) (wwd_activities w) m) [] wallets"

lemma set_update: "set (AList.update k v m) \<subseteq> insert (k, v) (set m)"
  by (induction m) auto

lemma wallet_map_entries:
  "distinct (map fst (wallet_map ds)) \<and>
   (\<forall>(k, acts)\<in>set (wallet_map ds). \<exists>d\<in>set ds. k = walletAccountID (okw_address (wwd_wallet d)) \<and> acts = wwd_activities d \<and> acts \<noteq> [])"
proof (induction ds rule: rev_induct)
  case Nil
  then show ?case by (simp add: wallet_map_def)
next
  case (snoc d ds)
  let ?k = "walletAccountID (okw_address (wwd_wallet d))"
  have eq: "wallet_map (ds @ [d]) = (if wwd_activities d = [] then wallet_map ds
      else AList.update ?k (wwd_activities d) (wallet_map ds))"
    by (simp add: wallet_map_def)
  show ?case
  proof (cases "wwd_activities d = []")
    case True
    with snoc eq show ?thesis by fastforce
  next
    case False
    have "distinct (map fst (wallet_map (ds @ [d])))" using snoc eq by (simp add: distinct_update)
    moreover have "set (wallet_map (ds @ [d])) \<subseteq> insert (?k, wwd_activities d) (set (wallet_map ds))"
      using eq False set_update by simp
    ultimately show ?thesis using snoc False by fastforce
  qed
qed

text \<open>
  C38. Every snapshot of the OKX wallet client is well formed, whatever the server answers: one
  set of holdings per account and in its order, every account under the one connection, and
  under each key of the activity map a non-empty list of transfers of exactly that account,
  with distinct ids and non-zero units. When the configured wallets are all EVM wallets, every
  such key is the id of an account of the snapshot.
\<close>

theorem web3_snapshot_typed:
  assumes "web3_fetch digest credentials api wallets now w = Some (Inr snap, w')"
  shows "snapshot_typed snap \<and>
    (list_all (\<lambda>wl. has_prefix (to_lower (okw_address wl)) ''0x'') wallets \<longrightarrow>
       fst ` set (snap_activities snap) \<subseteq> acc_id ` set (snap_accounts snap))"
proof (cases "wallets = []")
  case True
  with assms show ?thesis
    by (auto simp: web3_fetch_def snapshot_typed_def zero_snapshot_def split: if_splits)
next
  case False
  with assms obtain ds where ds: "wallets_data digest api wallets wallets w = Some (ds, w')"
    and snap: "snap = TranslateWeb3 now ds"
    by (auto simp: web3_fetch_def split: if_splits)
  note ok = wallets_data_ok [OF ds]
  have acts: "snap_activities snap = wallet_map ds"
    by (simp add: snap TranslateWeb3_def wallet_map_def)
  have accs: "snap_accounts snap = map (\<lambda>d. fst (web3_account now d)) ds"
    "snap_holdings snap = map (\<lambda>d. snd (web3_account now d)) ds"
    "con_authorization_id (snap_connection snap) = ''okx-web3-auth''"
    by (simp_all add: snap TranslateWeb3_def)
  have ids: "acc_id (fst (web3_account now d)) = web3_account_id (wwd_wallet d)"
    "hol_account_id (snd (web3_account now d)) = web3_account_id (wwd_wallet d)"
    "acc_brokerage_authorization (fst (web3_account now d)) = ''okx-web3-auth''" for d
    by (simp_all add: web3_account_def Let_def split: prod.splits)
  have entry: "\<exists>d\<in>set ds. k = walletAccountID (okw_address (wwd_wallet d)) \<and> acts = wwd_activities d \<and> acts \<noteq> []"
    if "(k, acts) \<in> set (wallet_map ds)" for k acts
    using that wallet_map_entries [of ds] by blast
  have typed: "case x of (k, acts) \<Rightarrow> acts \<noteq> [] \<and> distinct (map act_id acts) \<and> (\<forall>a\<in>set acts. act_account_id a = k \<and>
      (act_type a = ActivityTransferIn \<or> act_type a = ActivityTransferOut) \<and> \<not> f64_eq (act_units a) (Fin 0))"
    if x: "x \<in> set (wallet_map ds)" for x
  proof (cases x)
    case (Pair k acts)
    with entry x obtain d where d: "d \<in> set ds" "k = walletAccountID (okw_address (wwd_wallet d))"
      "acts = wwd_activities d" "acts \<noteq> []" by blast
    with ok have "transfers_ok (okw_address (wwd_wallet d)) acts" by (simp add: data_ok_def)
    with d(2,4) Pair show ?thesis unfolding transfers_ok_def wallet_transfer_def by simp
  qed
  have "snapshot_typed snap"
    unfolding snapshot_typed_def acts accs
  proof (intro conjI ballI)
    show "distinct (map fst (wallet_map ds))" using wallet_map_entries by blast
  qed (use typed ids in \<open>auto simp del: f64_eq.simps\<close>)
  moreover have "fst ` set (wallet_map ds) \<subseteq> acc_id ` set (snap_accounts snap)"
    if evm: "list_all (\<lambda>wl. has_prefix (to_lower (okw_address wl)) ''0x'') wallets"
  proof
    fix k assume "k \<in> fst ` set (wallet_map ds)"
    then obtain d where d: "d \<in> set ds" "k = walletAccountID (okw_address (wwd_wallet d))" using entry by force
    with ok have "okw_address (wwd_wallet d) \<in> okw_address ` set wallets" by (simp add: data_ok_def)
    with evm have "has_prefix (to_lower (okw_address (wwd_wallet d))) ''0x''" by (auto simp: list_all_iff)
    with d have "k = acc_id (fst (web3_account now d))"
      by (simp add: ids web3_account_id_def walletAccountID_def canonicalAddress_def)
    with d(1) show "k \<in> acc_id ` set (snap_accounts snap)" by (auto simp: accs)
  qed
  ultimately show ?thesis by (simp add: acts)
qed

text \<open>
  Without that condition it is not: the account of a case-sensitive address is named in lower
  case, while its activities keep the spelling of the address.
\<close>

lemma base58_account_mismatch:
  "walletAccountID ''TXyz'' \<noteq> web3_account_id \<lparr>okw_address = ''TXyz'', okw_chains = [''195''], okw_label = []\<rparr>"
  by code_simp

section \<open>The history is read to its end\<close>

definition answered_cursors :: "web3_api \<Rightarrow> string set" where
  "answered_cursors api = {c. \<exists>n address chs until cursor env p. w3a_history api n address chs until cursor = Inr env \<and>
     p \<in> set (env_data env) \<and> c = txg_cursor p}"

lemma page_request_answer:
  "page_request api address chs until cursor w =
     (case w3a_history api (w3w_calls w) address chs until cursor of
        Inl e \<Rightarrow> Inl (Wrapf ''transactions-by-address'' e)
      | Inr env \<Rightarrow> if env_code env \<noteq> ''0'' then Inl (Wrapf ''transactions-by-address'' (ErrText ''api error''))
          else Inr (env_data env), w\<lparr>w3w_calls := Suc (w3w_calls w)\<rparr>)"
  by (auto simp: page_request_def web3Get_def wrap_err_def w3_call_def split: sum.split)

lemma page_request_cursor:
  assumes "page_request api address chs until cursor w = (Inr ps, w')" "p \<in> set ps"
  shows "txg_cursor p \<in> answered_cursors api"
proof -
  from assms(1) obtain env where "w3a_history api (w3w_calls w) address chs until cursor = Inr env" "env_data env = ps"
    by (auto simp: page_request_answer split: sum.splits if_splits)
  with assms(2) show ?thesis unfolding answered_cursors_def by blast
qed

lemma history_turn_go:
  assumes "history_turn add request cursor cursors all w = Inl (c, all', w')"
  obtains p where "request cursor w = (Inr [p], w')" "c = txg_cursor p" "c \<noteq> []" "c \<notin> set cursors"
    "add (txg_transactions p @ txg_transaction_list p) all = (all', None)"
  using assms
  by (auto simp: history_turn_def split: prod.splits sum.splits list.splits option.splits if_splits)

lemma web3_walk_ends:
  assumes "finite C" "\<And>cursor w ps w' p. request cursor w = (Inr ps, w') \<Longrightarrow> p \<in> set ps \<Longrightarrow> txg_cursor p \<in> C"
  shows "\<exists>r. web3_walk add request cursor cursors all w = Some r"
proof (induction "card (C - set cursors)" arbitrary: cursor cursors all w rule: less_induct)
  case less
  have "\<exists>r. web3_walk add request c (c # cursors) all' w' = Some r"
    if turn: "history_turn add request cursor cursors all w = Inl (c, all', w')" for c all' w'
  proof (rule less)
    from turn have "c \<in> C" "c \<notin> set cursors" using assms(2) by (auto elim!: history_turn_go)
    with assms(1) show "card (C - set (c # cursors)) < card (C - set cursors)"
      by (intro psubset_card_mono) auto
  qed
  then show ?case by (subst web3_walk.simps) (auto split: sum.split prod.split)
qed

text \<open>The transactions of the pages an unbroken walk is served, from request \<open>n\<close> on.\<close>

inductive pages_read :: "web3_api \<Rightarrow> string \<Rightarrow> string list \<Rightarrow> int \<Rightarrow> string \<Rightarrow> nat \<Rightarrow> web3_tx list \<Rightarrow> bool"
  for api address chs until where
  no_page: "w3a_history api n address chs until cursor = Inr env \<Longrightarrow> env_code env = ''0'' \<Longrightarrow> env_data env = [] \<Longrightarrow>
    pages_read api address chs until cursor n []"
| last_page: "w3a_history api n address chs until cursor = Inr env \<Longrightarrow> env_code env = ''0'' \<Longrightarrow> env_data env = [p] \<Longrightarrow>
    txg_cursor p = [] \<Longrightarrow> pages_read api address chs until cursor n (txg_transactions p @ txg_transaction_list p)"
| next_page: "w3a_history api n address chs until cursor = Inr env \<Longrightarrow> env_code env = ''0'' \<Longrightarrow> env_data env = [p] \<Longrightarrow>
    txg_cursor p \<noteq> [] \<Longrightarrow> pages_read api address chs until (txg_cursor p) (Suc n) txs \<Longrightarrow>
    pages_read api address chs until cursor n ((txg_transactions p @ txg_transaction_list p) @ txs)"

definition adds_in_turn :: "(web3_tx list \<Rightarrow> activity list \<Rightarrow> activity list \<times> go_error option) \<Rightarrow> bool" where
  "adds_in_turn add \<longleftrightarrow> (\<forall>all. add [] all = (all, None)) \<and>
     (\<forall>xs ys all all'. add xs all = (all', None) \<longrightarrow> add (xs @ ys) all = add ys all')"

lemma add_transactions_in_turn: "adds_in_turn (add_transactions digest address ours chs)"
proof -
  have "add_transactions digest address ours chs xs all = (all', None) \<Longrightarrow>
    add_transactions digest address ours chs (xs @ ys) all = add_transactions digest address ours chs ys all'" for xs ys all all'
    by (induction xs arbitrary: all) (auto split: if_splits sum.splits option.splits)
  then show ?thesis by (simp add: adds_in_turn_def)
qed

lemma request_page:
  assumes "page_request api address chs until cursor w = (Inr ps, w')"
  obtains env where "w3a_history api (w3w_calls w) address chs until cursor = Inr env" "env_code env = ''0''"
    "env_data env = ps" "w3w_calls w' = Suc (w3w_calls w)"
  using assms by (auto simp: page_request_answer split: sum.splits if_splits)

lemma history_turn_stop:
  assumes "history_turn add request cursor cursors all w = Inr (all', None, w')"
  obtains "request cursor w = (Inr [], w')" "all' = all"
  | p where "request cursor w = (Inr [p], w')" "txg_cursor p = []"
    "add (txg_transactions p @ txg_transaction_list p) all = (all', None)"
  using assms
  by (auto simp: history_turn_def split: prod.splits sum.splits list.splits option.splits if_splits)

lemma stopped_pages:
  assumes "history_turn add (page_request api address chs until) cursor cursors all w = Inr (all', None, w')" "adds_in_turn add"
  shows "\<exists>txs. pages_read api address chs until cursor (w3w_calls w) txs \<and> add txs all = (all', None)"
  using assms(1)
proof (cases rule: history_turn_stop)
  case 1
  from request_page [OF 1(1)] no_page 1(2) assms(2) show ?thesis unfolding adds_in_turn_def by metis
next
  case (2 p)
  from request_page [OF 2(1)] last_page 2(2,3) show ?thesis by metis
qed

lemma continued_pages:
  assumes turn: "history_turn add (page_request api address chs until) cursor cursors all w = Inl (c, all', w')"
    and add: "adds_in_turn add"
    and rest: "pages_read api address chs until c (w3w_calls w') txs" "add txs all' = (res, None)"
  shows "\<exists>txs. pages_read api address chs until cursor (w3w_calls w) txs \<and> add txs all = (res, None)"
proof -
  from turn obtain p where p: "page_request api address chs until cursor w = (Inr [p], w')" "c = txg_cursor p" "c \<noteq> []"
    "add (txg_transactions p @ txg_transaction_list p) all = (all', None)" by (auto elim!: history_turn_go)
  from request_page [OF p(1)] obtain env where env:
    "w3a_history api (w3w_calls w) address chs until cursor = Inr env" "env_code env = ''0''"
    "env_data env = [p]" "w3w_calls w' = Suc (w3w_calls w)" .
  from next_page [OF env(1,2,3)] p(2,3) rest(1) env(4)
  have "pages_read api address chs until cursor (w3w_calls w) ((txg_transactions p @ txg_transaction_list p) @ txs)"
    by simp
  moreover have "add ((txg_transactions p @ txg_transaction_list p) @ txs) all = (res, None)"
    using add p(4) rest(2) unfolding adds_in_turn_def by metis
  ultimately show ?thesis by blast
qed

lemma web3_walk_done:
  assumes walk: "web3_walk add (page_request api address chs until) cursor cursors all w = Some r"
    and add: "adds_in_turn add" and none: "fst (snd r) = None"
  shows "\<exists>txs. pages_read api address chs until cursor (w3w_calls w) txs \<and> add txs all = (fst r, None)"
proof -
  define P where "P = (\<lambda>add request cursor (cursors :: string list) all (w :: web3_world) (r :: activity list \<times> go_error option \<times> web3_world).
    request = page_request api address chs until \<longrightarrow> adds_in_turn add \<longrightarrow> fst (snd r) = None \<longrightarrow>
    (\<exists>txs. pages_read api address chs until cursor (w3w_calls w) txs \<and> add txs all = (fst r, None)))"
  have "P add (page_request api address chs until) cursor cursors all w r"
  proof (rule web3_walk.raw_induct [OF _ walk])
    fix walk add request cursor cursors all w r
    assume IH: "\<And>add request cursor cursors all w y. walk add request cursor cursors all w = Some y \<Longrightarrow> P add request cursor cursors all w y"
      and step: "(case history_turn add request cursor cursors all w of Inr r \<Rightarrow> Some r
        | Inl (cursor', all', w') \<Rightarrow> walk add request cursor' (cursor' # cursors) all' w') = Some r"
    show "P add request cursor cursors all w r"
      unfolding P_def
    proof (intro impI)
      assume req: "request = page_request api address chs until" and add: "adds_in_turn add" and none: "fst (snd r) = None"
      show "\<exists>txs. pages_read api address chs until cursor (w3w_calls w) txs \<and> add txs all = (fst r, None)"
      proof (cases "history_turn add request cursor cursors all w")
        case (Inr r')
        with step none have "history_turn add request cursor cursors all w = Inr (fst r, None, snd (snd r))"
          by (cases r) simp
        then show ?thesis unfolding req using add by (rule stopped_pages)
      next
        case (Inl t)
        obtain c all' w' where t: "t = (c, all', w')" by (cases t)
        with Inl step have nxt: "walk add request c (c # cursors) all' w' = Some r" by simp
        from IH [OF nxt, unfolded P_def] req add none obtain txs where
          "pages_read api address chs until c (w3w_calls w') txs" "add txs all' = (fst r, None)" by auto
        with Inl t add show ?thesis unfolding req by (blast intro: continued_pages)
      qed
    qed
  qed
  with add none show ?thesis by (simp add: P_def)
qed

text \<open>Whether a served transaction is accounted for in the activities.\<close>

definition recorded :: "(tx_identity \<Rightarrow> string) \<Rightarrow> string \<Rightarrow> string set \<Rightarrow> activity list \<Rightarrow> web3_tx \<Rightarrow> bool" where
  "recorded digest address ours acts tx \<longleftrightarrow> (case transactionActivity digest address tx ours of
     Inl _ \<Rightarrow> False | Inr None \<Rightarrow> True | Inr (Some a) \<Rightarrow> act_id a \<in> act_id ` set acts)"

definition extends :: "activity list \<Rightarrow> activity list \<Rightarrow> bool" where
  "extends xs ys \<longleftrightarrow> act_id ` set xs \<subseteq> act_id ` set ys"

lemma recorded_extends: "recorded digest address ours xs tx \<Longrightarrow> extends xs ys \<Longrightarrow> recorded digest address ours ys tx"
  by (auto simp: recorded_def extends_def split: sum.splits option.splits)

lemma added_recorded:
  "add_transactions digest address ours chs txs all = (all', None) \<Longrightarrow> extends all all' \<and>
   (\<forall>tx\<in>set txs. w3x_chain tx \<in> set chs \<longrightarrow> recorded digest address ours all' tx)"
proof (induction txs arbitrary: all)
  case (Cons tx txs)
  have here: "recorded digest address ours ys tx"
    if "transactionActivity digest address tx ours = Inr (Some a)" "extends (if act_id a \<in> act_id ` set all then all else all @ [a]) ys" for a ys
    using that by (auto simp: recorded_def extends_def split: if_splits)
  from Cons.prems show ?case
    by (auto split: if_splits sum.splits option.splits dest!: Cons.IH here)
      (auto simp: extends_def recorded_def)
qed (simp add: extends_def)

definition batch_recorded ::
  "(tx_identity \<Rightarrow> string) \<Rightarrow> web3_api \<Rightarrow> string \<Rightarrow> string set \<Rightarrow> int \<Rightarrow> activity list \<Rightarrow> string list \<Rightarrow> bool" where
  "batch_recorded digest api address ours until acts chs \<longleftrightarrow> (\<exists>n txs. pages_read api address chs until [] n txs \<and>
     (\<forall>tx\<in>set txs. w3x_chain tx \<in> set chs \<longrightarrow> recorded digest address ours acts tx))"

lemma batch_recorded_extends:
  "batch_recorded digest api address ours until xs chs \<Longrightarrow> extends xs ys \<Longrightarrow> batch_recorded digest api address ours until ys chs"
  unfolding batch_recorded_def using recorded_extends by blast

lemma history_batches_complete:
  assumes "finite (answered_cursors api)"
  shows "\<exists>acts err w'. history_batches (add_transactions digest address ours) api address until batches all w = Some (acts, err, w') \<and>
    (err = None \<longrightarrow> extends all acts \<and> (\<forall>chs\<in>set batches. batch_recorded digest api address ours until acts chs))"
proof (induction batches arbitrary: all w)
  case (Cons chs batches)
  let ?add = "add_transactions digest address ours chs" and ?req = "page_request api address chs until"
  obtain all' err w' where walk: "web3_walk ?add ?req [] [] all w = Some (all', err, w')"
  proof -
    have "\<exists>r. web3_walk ?add ?req [] [] all w = Some r"
      by (rule web3_walk_ends [OF assms]) (rule page_request_cursor)
    then show ?thesis using that by (metis prod_cases3)
  qed
  show ?case
  proof (cases err)
    case None
    from web3_walk_done [OF walk add_transactions_in_turn] None obtain txs where
      "pages_read api address chs until [] (w3w_calls w) txs" "?add txs all = (all', None)" by auto
    with added_recorded have here: "batch_recorded digest api address ours until all' chs" "extends all all'"
      unfolding batch_recorded_def by blast+
    from Cons.IH [of all' w'] obtain acts err2 w2 where rest:
      "history_batches (add_transactions digest address ours) api address until batches all' w' = Some (acts, err2, w2)"
      "err2 = None \<longrightarrow> extends all' acts \<and> (\<forall>chs\<in>set batches. batch_recorded digest api address ours until acts chs)"
      by blast
    have "extends all acts" if "err2 = None" using that rest(2) here(2) by (auto simp: extends_def)
    with rest here walk None show ?thesis using batch_recorded_extends by auto
  qed (use walk in simp)
qed (simp add: extends_def)

text \<open>
  C39. Reading the history of a wallet ends, and a history reported complete is complete. If the
  server only knows finitely many cursors, the paging loop returns, because no cursor is
  followed twice; the transfers it returns have distinct ids; and when it reports no error,
  every batch of chains was read to a page without a cursor and every transaction on those
  pages is accounted for.
\<close>

theorem web3_history_complete:
  assumes "finite (answered_cursors api)"
  shows "\<exists>acts err w'. fetchTransactions digest api wallets address chs w = Some (acts, err, w') \<and>
    distinct (map act_id acts) \<and>
    (err = None \<longrightarrow> (\<forall>batch\<in>set (chunks_of 50 chs). batch_recorded digest api address (tracked_addresses wallets)
       (to_unix_milli (w3w_clock w (w3w_ticks w))) acts batch))"
proof -
  from history_batches_complete [OF assms] obtain acts err w' where
    r: "fetchTransactions digest api wallets address chs w = Some (acts, err, w')"
    "err = None \<longrightarrow> (\<forall>batch\<in>set (chunks_of 50 chs). batch_recorded digest api address (tracked_addresses wallets)
       (to_unix_milli (w3w_clock w (w3w_ticks w))) acts batch)"
    unfolding fetchTransactions_def Let_def by blast
  moreover have "distinct (map act_id acts)" using fetchTransactions_ok [OF r(1)] by (simp add: transfers_ok_def)
  ultimately show ?thesis by blast
qed

section \<open>Transfers between the user's own wallets\<close>

lemma single_party:
  "CHR '','' \<notin> set a \<Longrightarrow> trim_space a = a \<Longrightarrow>
   partyAmount [\<lparr>txp_address = a, txp_amount = []\<rparr>] b = Inr (canonicalAddress a = canonicalAddress b, None)"
  by (simp add: partyAmount_def split_on_absent)

lemma finiteAmount_sign: "finiteAmount s = Inr q \<Longrightarrow> \<not> f64_eq q (Fin 0) \<Longrightarrow> \<exists>r. q = Fin r \<and> 0 < r"
  by (cases q) (auto simp: finiteAmount_def f64_is_nan_def f64_is_inf_def split: option.splits if_splits)


section \<open>Concrete histories\<close>

definition own_tx :: web3_tx where
  "own_tx = \<lparr>w3x_chain = ''1'', w3x_hash = ''0xABCD'', w3x_tier = ''0'', w3x_time = ''1700000000000'',
     w3x_from = [\<lparr>txp_address = ''0xAA'', txp_amount = []\<rparr>], w3x_to = [\<lparr>txp_address = ''0xbb'', txp_amount = []\<rparr>],
     w3x_token = [], w3x_amount = ''3'', w3x_symbol = ''eth'', w3x_fee = ''1'', w3x_status = ''success'', w3x_blacklisted = False\<rparr>"


text \<open>Two pages of history, both with the same transfer, and one token balance.\<close>

definition eth_api :: web3_api where
  "eth_api = \<lparr>w3a_supported = \<lambda>n. Inl (ErrUpstream ''http 502''), w3a_active = \<lambda>n a. Inl (ErrUpstream ''http 502''),
     w3a_wallet_chains = \<lambda>n. Inl (ErrUpstream ''http 502''),
     w3a_balances = \<lambda>n a chs. Inr \<lparr>env_code = ''0'', env_msg = [], env_data = [[\<lparr>tkr_symbol = ''eth'', tkr_address = [],
       tkr_chain = ''1'', tkr_balance = ''2'', tkr_price = ''100'', tkr_risk = False\<rparr>]]\<rparr>,
     w3a_history = \<lambda>n a chs until cursor. Inr \<lparr>env_code = ''0'', env_msg = [],
       env_data = [\<lparr>txg_cursor = (if cursor = [] then ''c1'' else []), txg_transactions = [own_tx], txg_transaction_list = []\<rparr>]\<rparr>\<rparr>"

definition eth_wallets :: "okx_wallet list" where
  "eth_wallets = map (\<lambda>a. \<lparr>okw_address = a, okw_chains = [''1''], okw_label = []\<rparr>) [''0xAa'', ''EQton'']"

definition idle_world :: web3_world where
  "idle_world = \<lparr>w3w_cache = (\<lambda>_. None), w3w_clock = (\<lambda>_. 5), w3w_ticks = 0, w3w_calls = 0\<rparr>"

lemma eth_cursors: "finite (answered_cursors eth_api)"
  by (rule finite_subset [of _ "{''c1'', []}"]) (auto simp: answered_cursors_def eth_api_def)

lemma eth_walk: "map_option (\<lambda>(acts, err, w'). (length acts, err)) (fetchTransactions txi_hash eth_api eth_wallets ''0xaa'' [''1''] idle_world) = Some (1, None)"
  by code_simp

theorem web3_history_complete_witness:
  "\<exists>acts w'. fetchTransactions txi_hash eth_api eth_wallets ''0xaa'' [''1''] idle_world = Some (acts, None, w') \<and>
     length acts = 1 \<and> batch_recorded txi_hash eth_api ''0xaa'' (tracked_addresses eth_wallets)
       (to_unix_milli 5) acts [''1'']"
proof -
  from web3_history_complete [OF eth_cursors, of txi_hash eth_wallets "''0xaa''" "[''1'']" idle_world]
  obtain acts err w' where r: "fetchTransactions txi_hash eth_api eth_wallets ''0xaa'' [''1''] idle_world = Some (acts, err, w')"
    "err = None \<longrightarrow> (\<forall>batch\<in>set (chunks_of 50 [''1'']). batch_recorded txi_hash eth_api ''0xaa'' (tracked_addresses eth_wallets)
       (to_unix_milli (w3w_clock idle_world (w3w_ticks idle_world))) acts batch)" by blast
  from eth_walk r(1) have e: "err = None" "length acts = 1" by simp_all
  have "chunks_of 50 [''1''] = [[''1'']]" by (simp add: chunks_of.simps)
  with r e show ?thesis by (simp add: idle_world_def)
qed

definition eth_fetch :: "(broker_snapshot res \<times> web3_world) option" where
  "eth_fetch = web3_fetch txi_hash True eth_api eth_wallets 7 idle_world"

theorem web3_snapshot_typed_witness:
  "\<exists>snap w'. eth_fetch = Some (Inr snap, w') \<and> snapshot_typed snap \<and> length (snap_accounts snap) = 1 \<and>
     map fst (snap_activities snap) = [''okxweb3-0xaa'']"
proof -
  have view: "map_option (\<lambda>(r, w'). map_sum id (\<lambda>snap. (length (snap_accounts snap), map fst (snap_activities snap))) r) eth_fetch =
      Some (Inr (1, [''okxweb3-0xaa'']))" by code_simp
  then obtain r w' where r: "eth_fetch = Some (r, w')" by auto
  note view' = view [unfolded r, simplified]
  then obtain snap where "r = Inr snap" by (cases r) simp_all
  with r view' have s: "eth_fetch = Some (Inr snap, w')" "length (snap_accounts snap) = 1"
    "map fst (snap_activities snap) = [''okxweb3-0xaa'']" by simp_all
  from web3_snapshot_typed [OF s(1) [unfolded eth_fetch_def]] have "snapshot_typed snap" ..
  with s show ?thesis by (intro exI [of _ snap] exI [of _ w']) simp
qed

text \<open>A server that would answer differently, were it asked about the TON wallet.\<close>

definition ton_api :: web3_api where
  "ton_api = eth_api\<lparr>w3a_balances := (\<lambda>n a chs. if isTONWallet a then Inl (ErrUpstream ''unsupported address'') else w3a_balances eth_api n a chs)\<rparr>"

theorem ton_wallets_never_queried_witness:
  "web3_fetch txi_hash True ton_api eth_wallets 7 idle_world = eth_fetch \<and>
   w3a_balances ton_api 0 ''EQton'' [''1''] \<noteq> w3a_balances eth_api 0 ''EQton'' [''1'']"
proof
  have "same_but_ton eth_api ton_api" by (simp add: same_but_ton_def ton_api_def)
  then show "web3_fetch txi_hash True ton_api eth_wallets 7 idle_world = eth_fetch"
    unfolding eth_fetch_def by (rule ton_wallets_never_queried)
  have "isTONWallet ''EQton''" by code_simp
  then show "w3a_balances ton_api 0 ''EQton'' [''1''] \<noteq> w3a_balances eth_api 0 ''EQton'' [''1'']"
    by (simp add: ton_api_def eth_api_def)
qed

end
