(* ===== verification/Futu_Migration.thy ===== *)
theory Futu_Migration
  imports Activity_Repo Store_Repos Go_Time "HOL-Library.Multiset"
begin

text \<open>
  The universal-account migration (\<open>persistence/migration_futu.go\<close>): retired per-market rows
  \<open>futu-<account>-<market>\<close> are folded into one row \<open>futu-<account>\<close>. Go iterates over maps in
  no fixed order; the order is a parameter \<open>ord\<close> of the definitions, a permutation of the
  keys, and the theorems hold for every one. Rows read without \<open>ORDER BY\<close> come in insertion
  order. The lemmas show that the migration succeeds when no statement fails, that it is
  all or nothing, that no fill is lost or duplicated, and that no account a user switched
  off is switched on again.
\<close>

section \<open>Retired accounts\<close>

definition is_lower :: "char \<Rightarrow> bool" where
  "is_lower c \<longleftrightarrow> 97 \<le> char_code c \<and> char_code c \<le> 122"

definition slug_char :: "char \<Rightarrow> bool" where
  "slug_char c \<longleftrightarrow> is_lower c \<or> is_digit c \<or> c = CHR ''_''"

text \<open>\<open>^futu-(\d+)-([a-z][a-z0-9_]*)$\<close>.\<close>

definition futu_leg_id :: "string \<Rightarrow> (string \<times> string) option" where
  "futu_leg_id i =
    (if \<not> has_prefix i ''futu-'' then None
     else let rest = drop 5 i; acc = takeWhile is_digit rest
          in case dropWhile is_digit rest of
               c # d # ds \<Rightarrow>
                 if acc \<noteq> [] \<and> c = CHR ''-'' \<and> is_lower d \<and> list_all slug_char ds
                 then Some (acc, d # ds) else None
             | _ \<Rightarrow> None)"

definition futuSlugPriority :: "string \<Rightarrow> nat" where
  "futuSlugPriority slug =
    (if slug = ''hk'' then 0 else if slug = ''hk_fund'' then 1 else if slug = ''us'' then 2
     else if slug = ''us_fund'' then 3 else if slug = ''cn'' then 4 else if slug = ''sg'' then 5
     else if slug = ''jp'' then 6 else 99)"

record futu_leg =
  fleg_account :: account_po
  fleg_slug :: string

definition leg_id :: "futu_leg \<Rightarrow> string" where
  "leg_id l = acp_id (fleg_account l)"

text \<open>The map from account numbers to legs: its keys and its values.\<close>

definition futu_acc_ids :: "account_po list \<Rightarrow> string list" where
  "futu_acc_ids accounts = remdups (map fst (List.map_filter (\<lambda>a. futu_leg_id (acp_id a)) accounts))"

definition futu_legs :: "account_po list \<Rightarrow> string \<Rightarrow> futu_leg list" where
  "futu_legs accounts accID = List.map_filter (\<lambda>a. case futu_leg_id (acp_id a) of
     Some (i, slug) \<Rightarrow> if i = accID then Some \<lparr>fleg_account = a, fleg_slug = slug\<rparr> else None
   | None \<Rightarrow> None) accounts"

section \<open>The merged account row\<close>

definition maxTimeOf :: "futu_leg list \<Rightarrow> (account_po \<Rightarrow> time option) \<Rightarrow> time option" where
  "maxTimeOf legs pick = fold (\<lambda>l best. case pick (fleg_account l) of
       None \<Rightarrow> best
     | Some t \<Rightarrow> (case best of None \<Rightarrow> Some t | Some b \<Rightarrow> if t > b then Some t else Some b)) legs None"

definition minTimeOf :: "futu_leg list \<Rightarrow> (account_po \<Rightarrow> time option) \<Rightarrow> time option" where
  "minTimeOf legs pick = fold (\<lambda>l best. case pick (fleg_account l) of
       None \<Rightarrow> best
     | Some t \<Rightarrow> (case best of None \<Rightarrow> Some t | Some b \<Rightarrow> if t < b then Some t else Some b)) legs None"

definition mergeFutuAccountRow :: "string \<Rightarrow> futu_leg list \<Rightarrow> account_po" where
  "mergeFutuAccountRow newID legs =
    (let primary = fleg_account (hd legs);
         every = (\<lambda>f. list_all (\<lambda>l. f (fleg_account l)) legs);
         txDone = every acp_initial_tx_sync_done;
         holdDone = every acp_initial_holdings_done
     in primary\<lparr>acp_id := newID,
          acp_is_paper := acp_is_paper primary \<or> list_ex (\<lambda>l. acp_is_paper (fleg_account l)) legs,
          acp_sync_enabled := every acp_sync_enabled,
          acp_initial_tx_sync_done := txDone, acp_initial_holdings_done := holdDone,
          acp_last_tx_sync := (if txDone then maxTimeOf legs acp_last_tx_sync else None),
          acp_last_holdings_sync := (if holdDone then maxTimeOf legs acp_last_holdings_sync else None),
          acp_first_tx_date := minTimeOf legs acp_first_tx_date\<rparr>)"

section \<open>Activities\<close>

record futu_activity_key =
  fak_id :: string
  fak_account_id :: string
  fak_source_record_id :: string

definition activity_key_of :: "activity_po \<Rightarrow> futu_activity_key" where
  "activity_key_of r = \<lparr>fak_id = apo_id r, fak_account_id = apo_account_id r,
     fak_source_record_id = apo_source_record_id r\<rparr>"

text \<open>The copy to keep: the first one of the primary leg, else the first.\<close>

definition keep_index :: "string \<Rightarrow> futu_activity_key list \<Rightarrow> nat" where
  "keep_index primaryID rows =
    (let n = length (takeWhile (\<lambda>r. fak_account_id r \<noteq> primaryID) rows)
     in if n < length rows then n else 0)"

definition plan_source ::
  "string \<Rightarrow> string set \<Rightarrow> futu_activity_key list \<Rightarrow> string list \<times> string list" where
  "plan_source primaryID newSources rows =
    (if fak_source_record_id (hd rows) \<in> newSources then ([], map fak_id rows)
     else let k = keep_index primaryID rows
          in ([fak_id (rows ! k)], map fak_id (take k rows @ drop (Suc k) rows)))"

definition planFutuActivityMoves ::
  "(string list \<Rightarrow> string list) \<Rightarrow> futu_activity_key list \<Rightarrow> string \<Rightarrow> string set \<Rightarrow>
   string list \<times> string list" where
  "planFutuActivityMoves ord olds primaryID newSources =
    (let plans = map (\<lambda>src. plan_source primaryID newSources
           (filter (\<lambda>o'. fak_source_record_id o' = src) olds))
         (ord (remdups (map fak_source_record_id olds)))
     in (concat (map fst plans), concat (map snd plans)))"

definition repoint :: "string set \<Rightarrow> string \<Rightarrow> activity_po list \<Rightarrow> activity_po list" where
  "repoint ids newID rows =
     update_rows (\<lambda>r. apo_id r \<in> ids) (\<lambda>r. r\<lparr>apo_account_id := newID\<rparr>) rows"

definition drop_activities :: "string list \<Rightarrow> ('x db_scheme, unit) eff" where
  "drop_activities chunk = wrap_err ''drop duplicate activities'' (exec_sql (writing (\<lambda>s.
     s\<lparr>db_activities := filter (\<lambda>r. apo_id r \<notin> set chunk) (db_activities s)\<rparr>)))"

definition repoint_activities :: "string \<Rightarrow> string list \<Rightarrow> ('x db_scheme, unit) eff" where
  "repoint_activities newID chunk = wrap_err ''repoint activities'' (exec_sql (\<lambda>s.
     let rows = repoint (set chunk) newID (db_activities s)
     in if unique_keys activity_key rows then (Inr (), s\<lparr>db_activities := rows\<rparr>)
        else (Inl (ErrDB ''duplicate key value violates unique constraint activities_account_source_uk''), s)))"

definition mergeFutuActivities ::
  "(string list \<Rightarrow> string list) \<Rightarrow> string \<Rightarrow> futu_leg list \<Rightarrow> ('x db_scheme, unit) eff" where
  "mergeFutuActivities ord newID legs =
    (let legIDs = map leg_id legs in
     bind_eff (wrap_err ''list merged activities'' (exec_sql (reading (\<lambda>s.
         map apo_source_record_id (filter (\<lambda>r. apo_account_id r = newID) (db_activities s))))))
       (\<lambda>newRows.
     bind_eff (wrap_err ''list retired activities'' (exec_sql (reading (\<lambda>s.
         map activity_key_of (filter (\<lambda>r. apo_account_id r \<in> set legIDs) (db_activities s))))))
       (\<lambda>olds.
     case planFutuActivityMoves ord olds (leg_id (hd legs)) (set newRows) of
       (moveIDs, dropIDs) \<Rightarrow>
         seq_eff (for_each drop_activities (chunks_of 2000 dropIDs))
           (for_each (repoint_activities newID) (chunks_of 2000 moveIDs)))))"

section \<open>Holdings\<close>

definition optionIdentity :: "option_position \<Rightarrow> string" where
  "optionIdentity o' = opt_ticker (opp_option_symbol o') @ ''|'' @ opt_option_type (opp_option_symbol o') @ ''|'' @
     format_date (opt_expiration_date (opp_option_symbol o'))"

text \<open>Append what has not been seen; the elements of one leg are checked against one another too.\<close>

fun union_new :: "('a \<Rightarrow> string) \<Rightarrow> string set \<Rightarrow> 'a list \<Rightarrow> 'a list \<times> string set" where
  "union_new key seen [] = ([], seen)"
| "union_new key seen (x # xs) =
     (if key x \<in> seen then union_new key seen xs
      else case union_new key (insert (key x) seen) xs of (ys, seen') \<Rightarrow> (x # ys, seen'))"

definition union_leg ::
  "holdings \<Rightarrow> holdings \<times> string set \<times> string set \<Rightarrow> holdings \<times> string set \<times> string set" where
  "union_leg h acc = (case acc of (merged, seenPos, seenOpt) \<Rightarrow>
     case union_new (\<lambda>p. sym_symbol (pos_symbol p)) seenPos (hol_positions h) of (ps, seenPos') \<Rightarrow>
     case union_new optionIdentity seenOpt (hol_option_positions h) of (os, seenOpt') \<Rightarrow>
       (merged\<lparr>hol_positions := hol_positions merged @ ps,
          hol_option_positions := hol_option_positions merged @ os,
          hol_captured_at := max (hol_captured_at merged) (hol_captured_at h)\<rparr>, seenPos', seenOpt'))"

definition unionFutuHoldings ::
  "time \<Rightarrow> string \<Rightarrow> futu_leg list \<Rightarrow> holdings_po list \<Rightarrow> holdings_po option" where
  "unionFutuHoldings now newID legs snaps =
    (let byAccount = map_of (rev (map (\<lambda>s. (hpo_account_id s, s)) snaps))
     in case List.map_filter (\<lambda>l. byAccount (leg_id l)) legs of
          [] \<Rightarrow> None
        | base # _ \<Rightarrow>
            let h = holdings_to_domain base;
                start = (h\<lparr>hol_account_id := newID, hol_partial := False\<rparr>,
                  set (map (\<lambda>p. sym_symbol (pos_symbol p)) (hol_positions h)),
                  set (map optionIdentity (hol_option_positions h)));
                others = filter (\<lambda>s. hpo_account_id s \<noteq> hpo_account_id base)
                  (List.map_filter (\<lambda>l. byAccount (leg_id l)) legs);
                merged = fst (fold (\<lambda>s. union_leg (holdings_to_domain s)) others start)
            in (case holdingsFromDomain now merged of Inl e \<Rightarrow> None | Inr po \<Rightarrow> Some po))"

definition store_merged_holdings :: "string \<Rightarrow> futu_leg list \<Rightarrow> ('x db_scheme, unit) eff" where
  "store_merged_holdings newID legs =
     bind_eff (wrap_err ''list retired holdings'' (exec_sql (reading (\<lambda>s.
         filter (\<lambda>h. hpo_account_id h \<in> set (map leg_id legs)) (db_holdings s)))))
       (\<lambda>snaps. bind_eff time_now (\<lambda>now.
         case unionFutuHoldings now newID legs snaps of
           None \<Rightarrow> ret ()
         | Some po \<Rightarrow> wrap_err ''store merged holdings'' (exec_sql (writing (\<lambda>s.
             s\<lparr>db_holdings := upsert_row hpo_account_id holdings_conflict po (db_holdings s)\<rparr>)))))"

definition mergeFutuHoldings ::
  "string \<Rightarrow> futu_leg list \<Rightarrow> bool \<Rightarrow> ('x db_scheme, unit) eff" where
  "mergeFutuHoldings newID legs freshExists =
    bind_eff (if freshExists then wrap_err ''check merged holdings'' (exec_sql (reading (\<lambda>s.
         find_row hpo_account_id newID (db_holdings s) \<noteq> None))) else ret False)
      (\<lambda>present. if present then ret () else store_merged_holdings newID legs)"

section \<open>The migration\<close>

definition disable_sync :: "string \<Rightarrow> ('x db_scheme, unit) eff" where
  "disable_sync i = wrap_err ''preserve disabled sync'' (exec_sql (writing (\<lambda>s.
     s\<lparr>db_accounts := update_rows (\<lambda>r. acp_id r = i) (\<lambda>r. r\<lparr>acp_sync_enabled := False\<rparr>)
         (db_accounts s)\<rparr>)))"

definition mergeFutuLegs ::
  "(string list \<Rightarrow> string list) \<Rightarrow> string \<Rightarrow> futu_leg list \<Rightarrow> ('x db_scheme, unit) eff" where
  "mergeFutuLegs ord accID unordered =
    (let newID = ''futu-'' @ accID;
         legs = sort_key (\<lambda>l. futuSlugPriority (fleg_slug l)) unordered;
         legIDs = map leg_id legs;
         syncEnabled = list_all (\<lambda>l. acp_sync_enabled (fleg_account l)) legs
     in bind_eff (wrap_err ''load merged account'' (exec_sql (reading (\<lambda>s.
            filter (\<lambda>a. acp_id a = newID) (db_accounts s)))))
          (\<lambda>existing.
        seq_eff
          (if existing \<noteq> [] then
             (if \<not> syncEnabled \<and> acp_sync_enabled (hd existing) then disable_sync newID else ret ())
           else let merged = mergeFutuAccountRow newID legs in
             seq_eff (wrap_err ''create merged account'' (exec_sql (\<lambda>s.
                case insert_rows acp_id [merged\<lparr>acp_sync_enabled := True\<rparr>] (db_accounts s) of
                  Inl e \<Rightarrow> (Inl e, s) | Inr t \<Rightarrow> (Inr (), s\<lparr>db_accounts := t\<rparr>))))
              (if \<not> acp_sync_enabled merged then disable_sync newID else ret ()))
       (seq_eff (mergeFutuActivities ord newID legs)
       (seq_eff (mergeFutuHoldings newID legs (existing \<noteq> []))
       (seq_eff (wrap_err ''delete retired holdings'' (exec_sql (writing (\<lambda>s.
            s\<lparr>db_holdings := filter (\<lambda>h. hpo_account_id h \<notin> set legIDs) (db_holdings s)\<rparr>))))
          (wrap_err ''delete retired accounts'' (exec_sql (writing (\<lambda>s.
            s\<lparr>db_accounts := filter (\<lambda>a. acp_id a \<notin> set legIDs) (db_accounts s)\<rparr>)))))))))"

definition migrateFutuUniversalAccounts ::
  "(string list \<Rightarrow> string list) \<Rightarrow> ('x db_scheme, unit) eff" where
  "migrateFutuUniversalAccounts ord =
     bind_eff (wrap_err ''list futu accounts'' (exec_sql (reading (\<lambda>s.
         filter (\<lambda>a. has_prefix (acp_id a) ''futu-'' \<and> CHR ''-'' \<in> set (drop 5 (acp_id a)))
           (db_accounts s)))))
       (\<lambda>accounts. if futu_acc_ids accounts = [] then ret ()
        else in_tx (for_each (\<lambda>accID. mergeFutuLegs ord accID (futu_legs accounts accID))
               (ord (futu_acc_ids accounts))))"

section \<open>Groups\<close>

lemma leg_id_shape:
  assumes "futu_leg_id i = Some (acc, slug)"
  shows "i = ''futu-'' @ acc @ ''-'' @ slug \<and> list_all is_digit acc"
proof -
  from assms have pre: "has_prefix i ''futu-''" by (auto simp: futu_leg_id_def split: if_splits)
  then have "take 5 i = ''futu-''" by (simp add: has_prefix_def eval_nat_numeral)
  then have i: "i = ''futu-'' @ drop 5 i" by (metis append_take_drop_id)
  let ?rest = "drop 5 i"
  obtain c d ds where tl: "dropWhile is_digit ?rest = c # d # ds" "c = CHR ''-''" "slug = d # ds"
    and acc: "acc = takeWhile is_digit ?rest"
    using assms by (auto simp: futu_leg_id_def Let_def split: if_splits list.splits)
  have "?rest = acc @ ''-'' @ slug"
    using takeWhile_dropWhile_id [of is_digit ?rest] tl acc by simp
  moreover have "list_all is_digit acc" by (simp add: acc list_all_iff) (meson set_takeWhileD)
  ultimately show ?thesis using i by simp
qed

lemma universal_not_leg: "list_all is_digit acc \<Longrightarrow> futu_leg_id (''futu-'' @ acc) = None"
proof -
  assume "list_all is_digit acc"
  then have "dropWhile is_digit acc = []" by (simp add: list_all_iff)
  then show ?thesis by (simp add: futu_leg_id_def has_prefix_def Let_def del: dropWhile_eq_Nil_conv)
qed

lemma leg_id_like:
  "futu_leg_id i = Some x \<Longrightarrow> has_prefix i ''futu-'' \<and> CHR ''-'' \<in> set (drop 5 i)"
  by (cases x) (auto dest!: leg_id_shape simp: has_prefix_def)

lemma map_filter_filter:
  "(\<And>x. f x \<noteq> None \<Longrightarrow> P x) \<Longrightarrow> List.map_filter f (filter P xs) = List.map_filter f xs"
  by (induction xs) (auto simp: List.map_filter_simps split: option.splits)

lemma legs_like [simp]:
  "futu_legs (filter (\<lambda>a. has_prefix (acp_id a) ''futu-'' \<and> CHR ''-'' \<in> set (drop 5 (acp_id a))) as) x =
     futu_legs as x"
  "futu_acc_ids (filter (\<lambda>a. has_prefix (acp_id a) ''futu-'' \<and> CHR ''-'' \<in> set (drop 5 (acp_id a))) as) =
     futu_acc_ids as"
proof -
  show "futu_legs (filter (\<lambda>a. has_prefix (acp_id a) ''futu-'' \<and> CHR ''-'' \<in> set (drop 5 (acp_id a))) as) x =
     futu_legs as x"
    unfolding futu_legs_def
  proof (rule map_filter_filter)
    fix a :: account_po
    assume "(case futu_leg_id (acp_id a) of None \<Rightarrow> None
        | Some (i, slug) \<Rightarrow> if i = x then Some \<lparr>fleg_account = a, fleg_slug = slug\<rparr> else None) \<noteq> None"
    then obtain y where "futu_leg_id (acp_id a) = Some y"
      by (cases "futu_leg_id (acp_id a)") simp_all
    then show "has_prefix (acp_id a) ''futu-'' \<and> CHR ''-'' \<in> set (drop 5 (acp_id a))"
      by (rule leg_id_like)
  qed
  show "futu_acc_ids (filter (\<lambda>a. has_prefix (acp_id a) ''futu-'' \<and> CHR ''-'' \<in> set (drop 5 (acp_id a))) as) =
     futu_acc_ids as"
    unfolding futu_acc_ids_def
    by (subst map_filter_filter) (use leg_id_like in blast)+
qed

lemma set_map_filter: "set (List.map_filter f xs) = {y. \<exists>x\<in>set xs. f x = Some y}"
  by (induction xs) (auto simp: List.map_filter_simps split: option.splits)

lemma in_futu_legs:
  "l \<in> set (futu_legs as x) \<longleftrightarrow>
     fleg_account l \<in> set as \<and> futu_leg_id (leg_id l) = Some (x, fleg_slug l)"
proof -
  have "(case futu_leg_id (acp_id a) of
       Some (i, slug) \<Rightarrow> if i = x then Some \<lparr>fleg_account = a, fleg_slug = slug\<rparr> else None
     | None \<Rightarrow> None) = Some l \<longleftrightarrow>
     a = fleg_account l \<and> futu_leg_id (leg_id l) = Some (x, fleg_slug l)" for a
    by (cases l) (auto simp: leg_id_def split: option.splits)
  then show ?thesis by (auto simp: futu_legs_def set_map_filter)
qed

lemma in_futu_acc_ids:
  "x \<in> set (futu_acc_ids as) \<longleftrightarrow> (\<exists>a\<in>set as. \<exists>slug. futu_leg_id (acp_id a) = Some (x, slug))"
  unfolding futu_acc_ids_def by (force simp: List.map_filter_def)

lemma futu_legs_nonempty: "x \<in> set (futu_acc_ids as) \<Longrightarrow> futu_legs as x \<noteq> []"
proof -
  assume "x \<in> set (futu_acc_ids as)"
  then obtain a slug where "a \<in> set as" "futu_leg_id (acp_id a) = Some (x, slug)"
    by (auto simp: in_futu_acc_ids)
  then have "\<lparr>fleg_account = a, fleg_slug = slug\<rparr> \<in> set (futu_legs as x)"
    by (simp add: in_futu_legs leg_id_def)
  then show ?thesis by force
qed

section \<open>The plan of the moves\<close>

lemma keep_index_less: "rows \<noteq> [] \<Longrightarrow> keep_index p rows < length rows"
  by (simp add: keep_index_def Let_def)

lemma plan_source_parts:
  assumes "plan_source p news rows = (mv, dr)" and "rows \<noteq> []"
  shows "set mv \<union> set dr = fak_id ` set rows"
    and "distinct (map fak_id rows) \<Longrightarrow> set mv \<inter> set dr = {}"
    and "mv = (if fak_source_record_id (hd rows) \<in> news then [] else [fak_id (rows ! keep_index p rows)])"
proof -
  let ?k = "keep_index p rows"
  have rows: "rows = take ?k rows @ rows ! ?k # drop (Suc ?k) rows"
    using keep_index_less [OF assms(2)] by (simp add: id_take_nth_drop)
  show "mv = (if fak_source_record_id (hd rows) \<in> news then [] else [fak_id (rows ! ?k)])"
    using assms(1) by (auto simp: plan_source_def Let_def split: if_splits)
  have set: "set rows = set (take ?k rows) \<union> {rows ! ?k} \<union> set (drop (Suc ?k) rows)"
    by (subst rows) auto
  show "set mv \<union> set dr = fak_id ` set rows"
  proof (cases "fak_source_record_id (hd rows) \<in> news")
    case True
    then show ?thesis using assms(1) by (auto simp: plan_source_def)
  next
    case False
    then show ?thesis using assms(1) unfolding set by (auto simp: plan_source_def Let_def)
  qed
  assume "distinct (map fak_id rows)"
  then have "distinct (map fak_id (take ?k rows @ rows ! ?k # drop (Suc ?k) rows))"
    using rows by simp
  then show "set mv \<inter> set dr = {}"
    using assms(1) by (auto simp: plan_source_def Let_def split: if_splits)
qed

text \<open>Every retired row is moved or dropped; one copy of each fill that is not yet imported moves.\<close>

lemma plan_moves:
  assumes plan: "planFutuActivityMoves ord olds p news = (mv, dr)"
    and perm: "\<And>ks. set (ord ks) = set ks" and d: "distinct (map fak_id olds)"
  shows "set mv \<union> set dr = fak_id ` set olds" and "set mv \<inter> set dr = {}"
    and "\<And>o1. o1 \<in> set olds \<Longrightarrow> fak_source_record_id o1 \<notin> news \<Longrightarrow>
      \<exists>!o2. o2 \<in> set olds \<and> fak_source_record_id o2 = fak_source_record_id o1 \<and> fak_id o2 \<in> set mv"
    and "\<And>o1. o1 \<in> set olds \<Longrightarrow> fak_source_record_id o1 \<in> news \<Longrightarrow> fak_id o1 \<notin> set mv"
proof -
  let ?rows = "\<lambda>src. filter (\<lambda>o'. fak_source_record_id o' = src) olds"
  let ?plan = "\<lambda>src. plan_source p news (?rows src)"
  let ?srcs = "fak_source_record_id ` set olds"
  have mv: "set mv = (\<Union>src\<in>?srcs. set (fst (?plan src)))"
    and dr: "set dr = (\<Union>src\<in>?srcs. set (snd (?plan src)))"
    using plan perm by (auto simp: planFutuActivityMoves_def Let_def)
  have ne: "?rows src \<noteq> []" if "src \<in> ?srcs" for src
    using that by (auto simp: filter_empty_conv)
  have inj: "inj_on fak_id (set olds)" using d by (simp add: distinct_map)
  have parts: "set (fst (?plan src)) \<union> set (snd (?plan src)) = fak_id ` set (?rows src)"
      "set (fst (?plan src)) \<inter> set (snd (?plan src)) = {}"
      "fst (?plan src) = (if fak_source_record_id (hd (?rows src)) \<in> news then []
         else [fak_id (?rows src ! keep_index p (?rows src))])"
    if "src \<in> ?srcs" for src
    using plan_source_parts [of p news "?rows src" "fst (?plan src)" "snd (?plan src)"] ne [OF that] d
    by (simp_all add: distinct_map_filter)
  have hd: "fak_source_record_id (hd (?rows src)) = src" if "src \<in> ?srcs" for src
    using hd_in_set [OF ne [OF that]] by simp
  have kept: "?rows src ! keep_index p (?rows src) \<in> set olds"
      "fak_source_record_id (?rows src ! keep_index p (?rows src)) = src" if "src \<in> ?srcs" for src
    using nth_mem [OF keep_index_less [OF ne [OF that], of p]] by auto
  show "set mv \<union> set dr = fak_id ` set olds"
  proof -
    have "set mv \<union> set dr = (\<Union>src\<in>?srcs. fak_id ` set (?rows src))"
      unfolding mv dr UN_Un_distrib [symmetric] by (rule SUP_cong [OF refl], rule parts(1))
    then show ?thesis by auto
  qed
  have mvD: "x \<in> set mv \<Longrightarrow> \<exists>src\<in>?srcs. src \<notin> news \<and>
      x = fak_id (?rows src ! keep_index p (?rows src))" for x
    unfolding mv using parts(3) hd by (auto split: if_splits)
  have own: "o1 \<in> set olds \<Longrightarrow> fak_id o1 \<in> set mv \<Longrightarrow> fak_source_record_id o1 \<notin> news \<and>
      o1 = ?rows (fak_source_record_id o1) ! keep_index p (?rows (fak_source_record_id o1))" for o1
  proof -
    assume o1: "o1 \<in> set olds" "fak_id o1 \<in> set mv"
    from mvD [OF o1(2)] obtain src where src: "src \<in> ?srcs" "src \<notin> news"
      "fak_id o1 = fak_id (?rows src ! keep_index p (?rows src))" by blast
    from inj_onD [OF inj src(3) o1(1) kept(1) [OF src(1)]]
    have o1_eq: "o1 = ?rows src ! keep_index p (?rows src)" .
    with kept(2) [OF src(1)] have "fak_source_record_id o1 = src" by simp
    with src(2) o1_eq show ?thesis by simp
  qed
  show "set mv \<inter> set dr = {}"
  proof (rule ccontr)
    assume "set mv \<inter> set dr \<noteq> {}"
    then obtain x where x: "x \<in> set mv" "x \<in> set dr" by blast
    then obtain src where src: "src \<in> ?srcs" "x \<in> set (snd (?plan src))" unfolding dr by blast
    from src(2) parts(1) [OF src(1)] have "x \<in> fak_id ` set (?rows src)" by blast
    then obtain o1 where o1: "o1 \<in> set olds" "fak_source_record_id o1 = src" "x = fak_id o1"
      by auto
    with own [of o1] x(1) have "src \<notin> news" "o1 = ?rows src ! keep_index p (?rows src)" by simp_all
    then have "x \<in> set (fst (?plan src))" using parts(3) [OF src(1)] hd [OF src(1)] o1 by simp
    with parts(2) [OF src(1)] src(2) show False by blast
  qed
  show "fak_id o1 \<notin> set mv" if "o1 \<in> set olds" "fak_source_record_id o1 \<in> news" for o1
    using own that by blast
  show "\<exists>!o2. o2 \<in> set olds \<and> fak_source_record_id o2 = fak_source_record_id o1 \<and> fak_id o2 \<in> set mv"
    if "o1 \<in> set olds" "fak_source_record_id o1 \<notin> news" for o1
  proof -
    let ?src = "fak_source_record_id o1"
    have src: "?src \<in> ?srcs" using that by blast
    let ?o2 = "?rows ?src ! keep_index p (?rows ?src)"
    have "fak_id ?o2 \<in> set mv" unfolding mv using parts(3) [OF src] hd [OF src] that(2) src by force
    with kept [OF src] show ?thesis
    proof (intro ex1I [of _ ?o2] conjI)
      fix o2
      assume "o2 \<in> set olds \<and> fak_source_record_id o2 = ?src \<and> fak_id o2 \<in> set mv"
      then show "o2 = ?o2" using own [of o2] by simp
    qed
  qed
qed

section \<open>The activities after the moves\<close>

definition merge_plan ::
  "(string list \<Rightarrow> string list) \<Rightarrow> string \<Rightarrow> string list \<Rightarrow> activity_po list \<Rightarrow>
   string list \<times> string list" where
  "merge_plan ord newID legIDs rows =
     planFutuActivityMoves ord (map activity_key_of (filter (\<lambda>r. apo_account_id r \<in> set legIDs) rows))
       (hd legIDs) (apo_source_record_id ` {r \<in> set rows. apo_account_id r = newID})"

definition after_moves :: "string \<Rightarrow> string list \<times> string list \<Rightarrow> activity_po list \<Rightarrow> activity_po list" where
  "after_moves newID plan rows =
     repoint (set (fst plan)) newID (filter (\<lambda>r. apo_id r \<notin> set (snd plan)) rows)"

lemma activity_key_of_sel [simp]:
  "fak_id (activity_key_of r) = apo_id r" "fak_account_id (activity_key_of r) = apo_account_id r"
  "fak_source_record_id (activity_key_of r) = apo_source_record_id r"
  by (simp_all add: activity_key_of_def)

text \<open>What the plan says of the stored rows themselves.\<close>

lemma merge_plan_rows:
  assumes plan: "merge_plan ord newID legIDs rows = (mv, dr)"
    and perm: "\<And>ks. set (ord ks) = set ks" and uid: "unique_keys apo_id rows"
  shows "\<And>r. r \<in> set rows \<Longrightarrow> apo_account_id r \<notin> set legIDs \<Longrightarrow> apo_id r \<notin> set mv \<and> apo_id r \<notin> set dr"
    and "\<And>r. r \<in> set rows \<Longrightarrow> apo_account_id r \<in> set legIDs \<Longrightarrow> apo_id r \<notin> set dr \<longleftrightarrow> apo_id r \<in> set mv"
    and "\<And>r r'. r \<in> set rows \<Longrightarrow> r' \<in> set rows \<Longrightarrow> apo_id r \<in> set mv \<Longrightarrow> apo_id r' \<in> set mv \<Longrightarrow>
      apo_source_record_id r = apo_source_record_id r' \<Longrightarrow> r = r'"
    and "\<And>r r'. r \<in> set rows \<Longrightarrow> r' \<in> set rows \<Longrightarrow> apo_id r \<in> set mv \<Longrightarrow> apo_account_id r' = newID \<Longrightarrow>
      apo_source_record_id r \<noteq> apo_source_record_id r'"
    and "\<And>r. r \<in> set rows \<Longrightarrow> apo_account_id r \<in> set legIDs \<Longrightarrow>
      (\<exists>r'\<in>set rows. apo_source_record_id r' = apo_source_record_id r \<and>
         (apo_account_id r' = newID \<or> apo_id r' \<in> set mv))"
proof -
  let ?old = "filter (\<lambda>r. apo_account_id r \<in> set legIDs) rows"
  let ?news = "apo_source_record_id ` {r \<in> set rows. apo_account_id r = newID}"
  have inj: "apo_id r = apo_id r' \<Longrightarrow> r = r'" if "r \<in> set rows" "r' \<in> set rows" for r r'
    using uid that by (auto simp: unique_keys_def distinct_map dest: inj_onD)
  have d: "distinct (map fak_id (map activity_key_of ?old))"
    using uid by (simp add: unique_keys_def comp_def distinct_map_filter)
  note P = plan_moves [OF plan [unfolded merge_plan_def] perm d]
  have ids: "set mv \<union> set dr = apo_id ` set ?old"
    using P(1) by (simp add: image_image)
  have in_old: "apo_account_id r \<in> set legIDs" if "r \<in> set rows" "apo_id r \<in> set mv \<union> set dr" for r
  proof -
    from that(2) obtain r' where "r' \<in> set ?old" "apo_id r' = apo_id r" unfolding ids by auto
    with inj [of r' r] that(1) show ?thesis by auto
  qed
  show "\<And>r. r \<in> set rows \<Longrightarrow> apo_account_id r \<notin> set legIDs \<Longrightarrow> apo_id r \<notin> set mv \<and> apo_id r \<notin> set dr"
    using in_old by blast
  show "\<And>r. r \<in> set rows \<Longrightarrow> apo_account_id r \<in> set legIDs \<Longrightarrow> apo_id r \<notin> set dr \<longleftrightarrow> apo_id r \<in> set mv"
  proof -
    fix r assume "r \<in> set rows" "apo_account_id r \<in> set legIDs"
    then have "apo_id r \<in> set mv \<union> set dr" unfolding ids by simp
    with P(2) show "apo_id r \<notin> set dr \<longleftrightarrow> apo_id r \<in> set mv" by blast
  qed
  have own: "activity_key_of r \<in> set (map activity_key_of ?old)" if "r \<in> set rows" "apo_id r \<in> set mv" for r
    using in_old [OF that(1)] that by simp
  have fresh: "apo_source_record_id r \<notin> ?news" if "r \<in> set rows" "apo_id r \<in> set mv" for r
    using P(4) [OF own [OF that]] that(2) by auto
  show "\<And>r r'. r \<in> set rows \<Longrightarrow> r' \<in> set rows \<Longrightarrow> apo_id r \<in> set mv \<Longrightarrow> apo_account_id r' = newID \<Longrightarrow>
      apo_source_record_id r \<noteq> apo_source_record_id r'"
    using fresh by (metis (mono_tags, lifting) image_eqI mem_Collect_eq)
  show "r = r'" if r: "r \<in> set rows" "r' \<in> set rows" "apo_id r \<in> set mv" "apo_id r' \<in> set mv"
    "apo_source_record_id r = apo_source_record_id r'" for r r'
  proof -
    from P(3) [OF own [OF r(1,3)]] fresh [OF r(1,3)]
    have "activity_key_of r = activity_key_of r'"
      using own [OF r(1,3)] own [OF r(2,4)] r by (metis activity_key_of_sel(1,3))
    then have "apo_id r = apo_id r'" by (metis activity_key_of_sel(1))
    with inj r show ?thesis by blast
  qed
  show "\<exists>r'\<in>set rows. apo_source_record_id r' = apo_source_record_id r \<and>
      (apo_account_id r' = newID \<or> apo_id r' \<in> set mv)"
    if r: "r \<in> set rows" "apo_account_id r \<in> set legIDs" for r
  proof (cases "apo_source_record_id r \<in> ?news")
    case True
    then show ?thesis by auto
  next
    case False
    have "activity_key_of r \<in> set (map activity_key_of ?old)" using r by simp
    from ex1_implies_ex [OF P(3) [OF this, unfolded activity_key_of_sel, OF False]]
    obtain o2 where "o2 \<in> set (map activity_key_of ?old)" "fak_id o2 \<in> set mv"
      "fak_source_record_id o2 = apo_source_record_id r" by blast
    then show ?thesis by auto
  qed
qed

text \<open>
  After the moves: no row is left under a leg, the rows of other accounts are as before, the
  fills of the merged account are those of the account and its legs, each once, and every
  statement on the way respects the unique index.
\<close>

lemma repoint_unique:
  assumes plan: "merge_plan ord newID legIDs rows = (mv, dr)"
    and perm: "\<And>ks. set (ord ks) = set ks"
    and uid: "unique_keys apo_id rows" and ukey: "unique_keys activity_key rows"
    and M: "M \<subseteq> set mv"
  shows "unique_keys activity_key (repoint M newID (filter (\<lambda>r. apo_id r \<notin> set dr) rows))"
proof -
  note R = merge_plan_rows [OF plan perm uid]
  let ?kept = "filter (\<lambda>r. apo_id r \<notin> set dr) rows"
  let ?f = "\<lambda>r. if apo_id r \<in> M then r\<lparr>apo_account_id := newID\<rparr> else r"
  have key: "activity_key (?f r) = (if apo_id r \<in> M then newID else apo_account_id r, apo_source_record_id r)" for r
    by (simp add: activity_key_def)
  have inj: "inj_on activity_key (set rows)" using ukey by (simp add: unique_keys_def distinct_map)
  have "r = r'" if rs: "r \<in> set rows" "r' \<in> set rows" and eq: "activity_key (?f r) = activity_key (?f r')" for r r'
  proof -
    from eq have src: "apo_source_record_id r = apo_source_record_id r'" unfolding key by simp
    show ?thesis
    proof (cases "apo_id r \<in> M"; cases "apo_id r' \<in> M")
      assume "apo_id r \<in> M" "apo_id r' \<in> M"
      with M R(3) rs src show ?thesis by blast
    next
      assume "apo_id r \<in> M" "apo_id r' \<notin> M"
      with M R(4) rs src eq show ?thesis unfolding key by auto
    next
      assume "apo_id r \<notin> M" "apo_id r' \<in> M"
      with M R(4) [of r' r] rs src eq show ?thesis unfolding key by auto
    next
      assume "apo_id r \<notin> M" "apo_id r' \<notin> M"
      with inj_onD [OF inj _ rs] eq show ?thesis by simp
    qed
  qed
  then have "inj_on (activity_key \<circ> ?f) (set ?kept)" by (intro inj_onI) (simp add: comp_def)
  moreover have "distinct ?kept" using uid by (auto simp: unique_keys_def distinct_map)
  ultimately show ?thesis
    by (simp add: unique_keys_def repoint_def update_rows_def distinct_map)
qed

lemma repoint_rows:
  "set (repoint M newID rows) =
     {r \<in> set rows. apo_id r \<notin> M} \<union> (\<lambda>r. r\<lparr>apo_account_id := newID\<rparr>) ` {r \<in> set rows. apo_id r \<in> M}"
  by (auto simp: repoint_def update_rows_def)

lemma repoint_ids: "map apo_id (repoint M newID rows) = map apo_id rows"
  by (simp add: repoint_def update_rows_def)

lemma after_moves_facts:
  assumes plan: "merge_plan ord newID legIDs rows = (mv, dr)"
    and perm: "\<And>ks. set (ord ks) = set ks"
    and uid: "unique_keys apo_id rows" and new: "newID \<notin> set legIDs"
  defines "rows' \<equiv> after_moves newID (mv, dr) rows"
  shows "unique_keys apo_id rows'"
    and "\<And>r. r \<in> set rows' \<Longrightarrow> apo_account_id r \<notin> set legIDs"
    and "\<And>J. J \<inter> insert newID (set legIDs) = {} \<Longrightarrow>
      filter (\<lambda>r. apo_account_id r \<in> J) rows' = filter (\<lambda>r. apo_account_id r \<in> J) rows"
    and "apo_source_record_id ` {r \<in> set rows'. apo_account_id r = newID} =
      apo_source_record_id ` {r \<in> set rows. apo_account_id r \<in> insert newID (set legIDs)}"
    and "\<And>r. r \<in> set rows' \<Longrightarrow> \<exists>r0\<in>set rows. r = r0\<lparr>apo_account_id := apo_account_id r\<rparr>"
proof -
  note R = merge_plan_rows [OF plan perm uid]
  let ?kept = "filter (\<lambda>r. apo_id r \<notin> set dr) rows"
  have rows': "rows' = repoint (set mv) newID ?kept" by (simp add: rows'_def after_moves_def)
  have set': "set rows' = {r \<in> set rows. apo_account_id r \<notin> set legIDs} \<union>
      (\<lambda>r. r\<lparr>apo_account_id := newID\<rparr>) ` {r \<in> set rows. apo_account_id r \<in> set legIDs \<and> apo_id r \<in> set mv}"
    unfolding rows' repoint_rows using R(1,2) by auto
  show "unique_keys apo_id rows'"
    using uid by (simp add: rows' unique_keys_def repoint_ids distinct_map_filter)
  show "\<And>r. r \<in> set rows' \<Longrightarrow> apo_account_id r \<notin> set legIDs"
    unfolding set' using new by auto
  show "\<And>r. r \<in> set rows' \<Longrightarrow> \<exists>r0\<in>set rows. r = r0\<lparr>apo_account_id := apo_account_id r\<rparr>"
    unfolding set' by force
  show "apo_source_record_id ` {r \<in> set rows'. apo_account_id r = newID} =
      apo_source_record_id ` {r \<in> set rows. apo_account_id r \<in> insert newID (set legIDs)}"
  proof (intro equalityI subsetI)
    fix x assume "x \<in> apo_source_record_id ` {r \<in> set rows'. apo_account_id r = newID}"
    then obtain r where r: "x = apo_source_record_id r" "r \<in> set rows'" "apo_account_id r = newID"
      by auto
    have "\<exists>r0\<in>set rows. apo_account_id r0 \<in> insert newID (set legIDs) \<and>
        apo_source_record_id r0 = apo_source_record_id r"
      using r(2) unfolding set'
    proof
      assume "r \<in> (\<lambda>r. r\<lparr>apo_account_id := newID\<rparr>) `
        {r \<in> set rows. apo_account_id r \<in> set legIDs \<and> apo_id r \<in> set mv}"
      then obtain r0 where "r0 \<in> set rows" "apo_account_id r0 \<in> set legIDs"
        "r = r0\<lparr>apo_account_id := newID\<rparr>" by blast
      then show ?thesis by (intro bexI [of _ r0]) simp_all
    qed (use r(3) in blast)
    then obtain r0 where "r0 \<in> set rows" "apo_account_id r0 \<in> insert newID (set legIDs)"
      "apo_source_record_id r0 = apo_source_record_id r" by blast
    then show "x \<in> apo_source_record_id ` {r \<in> set rows. apo_account_id r \<in> insert newID (set legIDs)}"
      unfolding r(1) by (intro image_eqI [of _ _ r0]) simp_all
  next
    fix x assume "x \<in> apo_source_record_id ` {r \<in> set rows. apo_account_id r \<in> insert newID (set legIDs)}"
    then obtain r where r: "r \<in> set rows" "x = apo_source_record_id r"
      "apo_account_id r \<in> insert newID (set legIDs)" by auto
    then obtain r' where r': "r' \<in> set rows" "apo_source_record_id r' = x"
      "apo_account_id r' = newID \<or> apo_id r' \<in> set mv"
      using R(5) by blast
    show "x \<in> apo_source_record_id ` {r \<in> set rows'. apo_account_id r = newID}"
    proof (cases "apo_account_id r' = newID")
      case True
      with r' new have "r' \<in> {r \<in> set rows'. apo_account_id r = newID}" unfolding set' by auto
      with r' show ?thesis by force
    next
      case False
      with r' have mv': "apo_id r' \<in> set mv" by blast
      with R(1) [OF r'(1)] have "apo_account_id r' \<in> set legIDs" by blast
      with r' mv' have "r'\<lparr>apo_account_id := newID\<rparr> \<in> set rows'" unfolding set' by blast
      then have "r'\<lparr>apo_account_id := newID\<rparr> \<in> {r \<in> set rows'. apo_account_id r = newID}" by simp
      then have "apo_source_record_id (r'\<lparr>apo_account_id := newID\<rparr>) \<in>
          apo_source_record_id ` {r \<in> set rows'. apo_account_id r = newID}" by (rule imageI)
      with r' show ?thesis by simp
    qed
  qed
  show "filter (\<lambda>r. apo_account_id r \<in> J) rows' = filter (\<lambda>r. apo_account_id r \<in> J) rows"
    if J: "J \<inter> insert newID (set legIDs) = {}" for J
  proof -
    have "filter (\<lambda>r. apo_account_id r \<in> J) (repoint (set mv) newID (filter (\<lambda>r. apo_id r \<notin> set dr) xs)) =
        filter (\<lambda>r. apo_account_id r \<in> J) xs" if "set xs \<subseteq> set rows" for xs
      using that
    proof (induction xs)
      case (Cons r xs)
      have "apo_id r \<in> set mv \<Longrightarrow> apo_account_id r \<notin> J" "apo_id r \<in> set dr \<Longrightarrow> apo_account_id r \<notin> J"
        using R(1) [of r] Cons.prems J by auto
      with Cons J show ?case by (auto simp: repoint_def update_rows_def)
    qed (simp add: repoint_def update_rows_def)
    then show ?thesis by (simp add: rows')
  qed
qed

section \<open>The statements of one merge\<close>

definition beside_activities :: "'x db_scheme \<Rightarrow> 'x db_scheme \<Rightarrow> bool" where
  "beside_activities s s' \<longleftrightarrow> db_fault s' = db_fault s \<and> db_accounts s' = db_accounts s \<and>
     db_holdings s' = db_holdings s"

lemma drop_effect:
  fixes s :: "'x db_scheme"
  assumes "no_faults s"
  shows "\<exists>s'. for_each drop_activities cs s = (Inr (), s') \<and> beside_activities s s' \<and>
     db_activities s' = filter (\<lambda>r. apo_id r \<notin> set (concat cs)) (db_activities s)"
  using assms
proof (induction cs arbitrary: s)
  case Nil
  then show ?case by (simp add: ret_def beside_activities_def)
next
  case (Cons c cs)
  let ?s = "s\<lparr>db_ops := Suc (db_ops s), db_activities :=
      filter (\<lambda>r. apo_id r \<notin> set c) (db_activities s)\<rparr>"
  have step: "drop_activities c s = (Inr (), ?s)"
    using Cons.prems by (simp add: drop_activities_def wrap_err_def writing_def)
  have "no_faults ?s" using Cons.prems by (simp add: no_faults_def)
  from Cons.IH [OF this] obtain s' where "for_each drop_activities cs ?s = (Inr (), s')"
    "beside_activities ?s s'"
    "db_activities s' = filter (\<lambda>r. apo_id r \<notin> set (concat cs)) (db_activities ?s)" by blast
  then show ?case
    by (auto simp: seq_eff_apply step beside_activities_def intro!: filter_cong)
qed

lemma repoint_repoint: "repoint A n (repoint B n rows) = repoint (A \<union> B) n rows"
  by (simp add: repoint_def update_rows_def)

lemma repoint_effect:
  fixes s :: "'x db_scheme"
  assumes "no_faults s"
    and "\<And>M. M \<subseteq> set (concat cs) \<Longrightarrow> unique_keys activity_key (repoint M newID (db_activities s))"
  shows "\<exists>s'. for_each (repoint_activities newID) cs s = (Inr (), s') \<and> beside_activities s s' \<and>
     db_activities s' = repoint (set (concat cs)) newID (db_activities s)"
  using assms
proof (induction cs arbitrary: s)
  case Nil
  then show ?case by (simp add: ret_def beside_activities_def repoint_def update_rows_def)
next
  case (Cons c cs)
  let ?s = "s\<lparr>db_ops := Suc (db_ops s), db_activities := repoint (set c) newID (db_activities s)\<rparr>"
  have step: "repoint_activities newID c s = (Inr (), ?s)"
    using Cons.prems(1) Cons.prems(2) [of "set c"]
    by (simp add: repoint_activities_def wrap_err_def Let_def)
  have "no_faults ?s" using Cons.prems by (simp add: no_faults_def)
  moreover have "unique_keys activity_key (repoint M newID (db_activities ?s))"
    if "M \<subseteq> set (concat cs)" for M
    using Cons.prems(2) [of "M \<union> set c"] that by (auto simp: repoint_repoint)
  ultimately obtain s' where "for_each (repoint_activities newID) cs ?s = (Inr (), s')"
    "beside_activities ?s s'"
    "db_activities s' = repoint (set (concat cs)) newID (db_activities ?s)"
    using Cons.IH [of ?s] by blast
  then show ?case
    by (auto simp: seq_eff_apply step beside_activities_def repoint_repoint Un_commute)
qed

lemma merge_activities_effect:
  fixes s :: "'x db_scheme"
  assumes ok: "no_faults s" and perm: "\<And>ks. set (ord ks) = set ks" and legs: "legs \<noteq> []"
    and uid: "unique_keys apo_id (db_activities s)" and ukey: "unique_keys activity_key (db_activities s)"
  shows "\<exists>s'. mergeFutuActivities ord newID legs s = (Inr (), s') \<and> beside_activities s s' \<and>
     db_activities s' = after_moves newID (merge_plan ord newID (map leg_id legs) (db_activities s)) (db_activities s)"
proof -
  let ?rows = "db_activities s"
  obtain mv dr where plan: "merge_plan ord newID (map leg_id legs) ?rows = (mv, dr)" by fastforce
  let ?s = "s\<lparr>db_ops := Suc (Suc (db_ops s))\<rparr>"
  have start: "mergeFutuActivities ord newID legs s =
      seq_eff (for_each drop_activities (chunks_of 2000 dr))
        (for_each (repoint_activities newID) (chunks_of 2000 mv)) ?s"
    using ok plan legs
    by (simp add: mergeFutuActivities_def Let_def bind_eff_def wrap_err_def reading_def merge_plan_def
        hd_map setcompr_eq_image)
  have "no_faults ?s" using ok by simp
  from drop_effect [OF this, of "chunks_of 2000 dr"] obtain s1 where
    s1: "for_each drop_activities (chunks_of 2000 dr) ?s = (Inr (), s1)" "beside_activities ?s s1"
      "db_activities s1 = filter (\<lambda>r. apo_id r \<notin> set dr) ?rows"
    by (auto simp: concat_chunks_of)
  have "no_faults s1" using s1(2) ok by (simp add: beside_activities_def no_faults_def)
  moreover have "unique_keys activity_key (repoint M newID (db_activities s1))"
    if "M \<subseteq> set (concat (chunks_of 2000 mv))" for M
    using repoint_unique [OF plan perm uid ukey] that s1(3) by (simp add: concat_chunks_of)
  ultimately obtain s2 where "for_each (repoint_activities newID) (chunks_of 2000 mv) s1 = (Inr (), s2)"
    "beside_activities s1 s2" "db_activities s2 = repoint (set mv) newID (db_activities s1)"
    using repoint_effect [of s1 "chunks_of 2000 mv" newID] by (auto simp: concat_chunks_of)
  with s1 start plan show ?thesis
    by (simp add: seq_eff_apply beside_activities_def after_moves_def)
qed

lemma merge_holdings_effect:
  fixes s :: "'x db_scheme"
  assumes "no_faults s"
  shows "\<exists>s'. mergeFutuHoldings newID legs fresh s = (Inr (), s') \<and> db_fault s' = db_fault s \<and>
     db_accounts s' = db_accounts s \<and> db_activities s' = db_activities s"
proof -
  have "\<exists>s'. store_merged_holdings newID legs w = (Inr (), s') \<and> db_fault s' = db_fault w \<and>
     db_accounts s' = db_accounts w \<and> db_activities s' = db_activities w"
    if "no_faults w" for w :: "'x db_scheme"
    using that by (simp add: store_merged_holdings_def bind_eff_def wrap_err_def reading_def
        writing_def time_now_def ret_def split: option.splits)
  from this [of s] this [of "s\<lparr>db_ops := Suc (db_ops s)\<rparr>"] assms
  show ?thesis
    by (simp add: mergeFutuHoldings_def bind_eff_apply ret_def reading_def wrap_err_def)
qed

text \<open>The account rows before the legs are deleted.\<close>

definition universal_accounts :: "string \<Rightarrow> futu_leg list \<Rightarrow> account_po list \<Rightarrow> account_po list" where
  "universal_accounts newID legs rows =
    (let on = list_all (\<lambda>l. acp_sync_enabled (fleg_account l)) legs
     in if find_row acp_id newID rows = None
        then rows @ [(mergeFutuAccountRow newID legs)\<lparr>acp_sync_enabled := on\<rparr>]
        else update_rows (\<lambda>r. acp_id r = newID)
          (\<lambda>r. r\<lparr>acp_sync_enabled := acp_sync_enabled r \<and> on\<rparr>) rows)"

lemma merged_row_id [simp]: "acp_id (mergeFutuAccountRow newID legs) = newID"
  by (simp add: mergeFutuAccountRow_def Let_def)

lemma merged_row_enabled [simp]: "acp_sync_enabled (mergeFutuAccountRow newID legs) =
    list_all (\<lambda>l. acp_sync_enabled (fleg_account l)) legs"
  by (simp add: mergeFutuAccountRow_def Let_def)

lemma filter_unique_row:
  "unique_keys key rows \<Longrightarrow> filter (\<lambda>a. key a = k) rows =
     (case find_row key k rows of None \<Rightarrow> [] | Some r \<Rightarrow> [r])"
proof (induction rows)
  case (Cons r rows)
  show ?case
  proof (cases "key r = k")
    case True
    with Cons.prems have "\<forall>a\<in>set rows. key a \<noteq> k"
      by (simp add: unique_keys_def) (metis image_eqI)
    with True show ?thesis by simp
  next
    case False
    with Cons show ?thesis by (simp add: unique_keys_def)
  qed
qed simp

lemma update_rows_cong:
  "(\<And>r. r \<in> set rows \<Longrightarrow> P r \<Longrightarrow> f r = g r) \<Longrightarrow> update_rows P f rows = update_rows P g rows"
  by (simp add: update_rows_def)

lemma update_rows_id: "(\<And>r. r \<in> set rows \<Longrightarrow> P r \<Longrightarrow> f r = r) \<Longrightarrow> update_rows P f rows = rows"
  by (simp add: update_rows_def map_idI)

lemma account_part_effect:
  fixes s :: "'x db_scheme" and newID :: string and legs :: "futu_leg list"
  assumes ok: "no_faults s" and uacc: "unique_keys acp_id (db_accounts s)"
  defines "existing \<equiv> filter (\<lambda>a. acp_id a = newID) (db_accounts s)"
    and "on \<equiv> list_all (\<lambda>l. acp_sync_enabled (fleg_account l)) legs"
  shows "\<exists>s'. (if existing \<noteq> [] then
             (if \<not> on \<and> acp_sync_enabled (hd existing) then disable_sync newID else ret ())
           else let merged = mergeFutuAccountRow newID legs in
             seq_eff (wrap_err ''create merged account'' (exec_sql (\<lambda>s.
                case insert_rows acp_id [merged\<lparr>acp_sync_enabled := True\<rparr>] (db_accounts s) of
                  Inl e \<Rightarrow> (Inl e, s) | Inr t \<Rightarrow> (Inr (), s\<lparr>db_accounts := t\<rparr>))))
              (if \<not> acp_sync_enabled merged then disable_sync newID else ret ())) s = (Inr (), s') \<and>
     db_fault s' = db_fault s \<and> db_activities s' = db_activities s \<and>
     db_accounts s' = universal_accounts newID legs (db_accounts s)"
proof (cases "find_row acp_id newID (db_accounts s)")
  case None
  then have e: "existing = []" by (simp add: existing_def filter_unique_row [OF uacc])
  from None have fresh: "newID \<notin> acp_id ` set (db_accounts s)" by (simp add: find_row_None_iff)
  have ins: "insert_rows acp_id [r] (db_accounts s) = Inr (db_accounts s @ [r])" if "acp_id r = newID" for r
    using that fresh by (simp add: insert_rows_def)
  have upd: "update_rows (\<lambda>r. acp_id r = newID) f (db_accounts s @ [r]) = db_accounts s @ [f r]"
    if "acp_id r = newID" for f r
  proof -
    have "update_rows (\<lambda>r. acp_id r = newID) f (db_accounts s) = db_accounts s"
      using fresh by (intro update_rows_id) auto
    then show ?thesis using that by (simp add: update_rows_def)
  qed
  show ?thesis
    using ok e None
    by (simp add: seq_eff_apply wrap_err_def ins upd disable_sync_def writing_def ret_def
        universal_accounts_def on_def no_faults_def [of "s\<lparr>db_ops := _, db_accounts := _\<rparr>"] Let_def)
next
  case (Some r)
  then have e: "existing = [r]" by (simp add: existing_def filter_unique_row [OF uacc])
  have upd: "update_rows (\<lambda>r. acp_id r = newID) f (db_accounts s) =
      update_rows (\<lambda>r. acp_id r = newID) g (db_accounts s)" if "f r = g r" for f g
    using that find_row_unique [OF uacc] Some by (intro update_rows_cong) auto
  have same: "update_rows (\<lambda>r. acp_id r = newID) f (db_accounts s) = db_accounts s" if "f r = r" for f
    using that find_row_unique [OF uacc] Some by (intro update_rows_id) auto
  show ?thesis
  proof (cases "\<not> on \<and> acp_sync_enabled r")
    case True
    then show ?thesis using ok e Some
      by (auto simp: wrap_err_def disable_sync_def writing_def universal_accounts_def
          on_def [symmetric] Let_def intro!: upd)
  next
    case False
    then have "r\<lparr>acp_sync_enabled := acp_sync_enabled r \<and> on\<rparr> = r" by (cases r) auto
    with False show ?thesis using e Some
      by (auto simp: ret_def universal_accounts_def on_def [symmetric] Let_def same)
  qed
qed

section \<open>One merge\<close>

text \<open>
  The unique indexes the migration relies on, and what it makes of one account: the ids \<open>J\<close> of
  the universal row and its legs are left with the universal row only, switched on exactly
  when all of them were, and with every fill of theirs once.
\<close>

definition futu_wf :: "'x db_scheme \<Rightarrow> bool" where
  "futu_wf s \<longleftrightarrow> unique_keys acp_id (db_accounts s) \<and> unique_keys apo_id (db_activities s) \<and>
     unique_keys activity_key (db_activities s)"

definition accounts_in :: "string set \<Rightarrow> 'x db_scheme \<Rightarrow> account_po list" where
  "accounts_in J s = filter (\<lambda>a. acp_id a \<in> J) (db_accounts s)"

definition activities_in :: "string set \<Rightarrow> 'x db_scheme \<Rightarrow> activity_po list" where
  "activities_in J s = filter (\<lambda>r. apo_account_id r \<in> J) (db_activities s)"

definition merged_into :: "string \<Rightarrow> string set \<Rightarrow> 'x db_scheme \<Rightarrow> 'x db_scheme \<Rightarrow> bool" where
  "merged_into newID J s s' \<longleftrightarrow>
     (\<exists>row. accounts_in J s' = [row] \<and> acp_id row = newID \<and>
        (acp_sync_enabled row \<longleftrightarrow> (\<forall>a\<in>set (accounts_in J s). acp_sync_enabled a))) \<and>
     (\<forall>r\<in>set (activities_in J s'). apo_account_id r = newID) \<and>
     distinct (map apo_source_record_id (activities_in J s')) \<and>
     apo_source_record_id ` set (activities_in J s') = apo_source_record_id ` set (activities_in J s)"

lemma universal_accounts_facts:
  assumes uacc: "unique_keys acp_id rows" and new: "newID \<notin> set legIDs" and legs: "legs \<noteq> []"
    and legIDs: "legIDs = map leg_id legs" and mem: "\<forall>l\<in>set legs. fleg_account l \<in> set rows"
  defines "rows' \<equiv> filter (\<lambda>a. acp_id a \<notin> set legIDs) (universal_accounts newID legs rows)"
    and "J \<equiv> insert newID (set legIDs)"
  shows "unique_keys acp_id rows'"
    and "\<exists>row. filter (\<lambda>a. acp_id a \<in> J) rows' = [row] \<and> acp_id row = newID \<and>
      (acp_sync_enabled row \<longleftrightarrow> (\<forall>a\<in>{a \<in> set rows. acp_id a \<in> J}. acp_sync_enabled a))"
    and "K \<inter> J = {} \<Longrightarrow> filter (\<lambda>a. acp_id a \<in> K) rows' = filter (\<lambda>a. acp_id a \<in> K) rows"
proof -
  let ?on = "list_all (\<lambda>l. acp_sync_enabled (fleg_account l)) legs"
  let ?u = "universal_accounts newID legs rows"
  have uu: "unique_keys acp_id ?u"
    using uacc by (auto simp: universal_accounts_def Let_def unique_keys_append unique_keys_update_rows
        find_row_None_iff) (simp add: unique_keys_def)
  then show "unique_keys acp_id rows'" by (simp add: rows'_def unique_keys_filter)
  show "filter (\<lambda>a. acp_id a \<in> K) rows' = filter (\<lambda>a. acp_id a \<in> K) rows" if "K \<inter> J = {}"
  proof -
    have n: "newID \<notin> K" and l: "i \<in> K \<Longrightarrow> i \<notin> set legIDs" for i using that by (auto simp: J_def)
    have f: "filter (\<lambda>a. acp_id a \<in> K) (update_rows (\<lambda>r. acp_id r = newID) g xs) =
        filter (\<lambda>a. acp_id a \<in> K) xs" if "\<And>r. acp_id (g r) = acp_id r" for g xs
      using n that by (induction xs) (auto simp: update_rows_def)
    have "filter (\<lambda>a. acp_id a \<in> K) rows' = filter (\<lambda>a. acp_id a \<in> K) ?u"
      using l by (auto simp: rows'_def intro!: filter_cong)
    also have "\<dots> = filter (\<lambda>a. acp_id a \<in> K) rows"
      using n by (simp add: universal_accounts_def Let_def f)
    finally show ?thesis .
  qed
  have legacc: "(\<forall>a\<in>{a \<in> set rows. acp_id a \<in> set legIDs}. acp_sync_enabled a) \<longleftrightarrow> ?on"
  proof -
    have "{a \<in> set rows. acp_id a \<in> set legIDs} = fleg_account ` set legs"
    proof (intro equalityI subsetI)
      fix a assume "a \<in> {a \<in> set rows. acp_id a \<in> set legIDs}"
      then obtain l where l: "l \<in> set legs" "acp_id a = acp_id (fleg_account l)" "a \<in> set rows"
        by (auto simp: legIDs leg_id_def)
      with mem have "find_row acp_id (acp_id a) rows = Some (fleg_account l)"
        using find_row_unique [OF uacc, of "fleg_account l"] by simp
      with find_row_unique [OF uacc l(3)] l(1) show "a \<in> fleg_account ` set legs" by auto
    qed (use mem legIDs in \<open>auto simp: leg_id_def\<close>)
    then show ?thesis by (auto simp: list_all_iff)
  qed
  have one: "filter (\<lambda>a. acp_id a \<in> J) rows' = filter (\<lambda>a. acp_id a = newID) ?u"
    using new by (auto simp: rows'_def J_def intro!: filter_cong)
  have found: "\<exists>row. find_row acp_id newID ?u = Some row \<and>
      (acp_sync_enabled row \<longleftrightarrow> ?on \<and> (\<forall>a\<in>set rows. acp_id a = newID \<longrightarrow> acp_sync_enabled a))"
  proof (cases "find_row acp_id newID rows")
    case None
    then have "find_row acp_id newID (rows @ [r]) = Some r" if "acp_id r = newID" for r
      using that by (induction rows) (auto split: if_splits)
    with None show ?thesis by (auto simp: universal_accounts_def Let_def find_row_None_iff)
  next
    case (Some r)
    then have "acp_id a = newID \<Longrightarrow> a \<in> set rows \<Longrightarrow> a = r" for a
      using find_row_unique [OF uacc, of a] by auto
    with Some find_row_SomeD [OF Some] show ?thesis
      by (auto simp: universal_accounts_def Let_def find_row_update_key)
  qed
  then obtain row where "find_row acp_id newID ?u = Some row"
    "acp_sync_enabled row \<longleftrightarrow> ?on \<and> (\<forall>a\<in>set rows. acp_id a = newID \<longrightarrow> acp_sync_enabled a)" by blast
  then show "\<exists>row. filter (\<lambda>a. acp_id a \<in> J) rows' = [row] \<and> acp_id row = newID \<and>
      (acp_sync_enabled row \<longleftrightarrow> (\<forall>a\<in>{a \<in> set rows. acp_id a \<in> J}. acp_sync_enabled a))"
    unfolding one filter_unique_row [OF uu] legacc [symmetric]
    by (intro exI [of _ row]) (auto simp: J_def dest: find_row_SomeD)
qed

lemma merge_effect:
  fixes s :: "'x db_scheme"
  assumes ok: "no_faults s" and wf: "futu_wf s" and perm: "\<And>ks. set (ord ks) = set ks"
    and legs: "unordered \<noteq> []" and legs_def: "legs = sort_key (\<lambda>l. futuSlugPriority (fleg_slug l)) unordered"
  shows "\<exists>s'. mergeFutuLegs ord accID unordered s = (Inr (), s') \<and> db_fault s' = db_fault s \<and>
     db_accounts s' = filter (\<lambda>a. acp_id a \<notin> set (map leg_id legs))
       (universal_accounts (''futu-'' @ accID) legs (db_accounts s)) \<and>
     db_activities s' = after_moves (''futu-'' @ accID)
       (merge_plan ord (''futu-'' @ accID) (map leg_id legs) (db_activities s)) (db_activities s)"
proof -
  define new where "new = ''futu-'' @ accID"
  let ?s0 = "s\<lparr>db_ops := Suc (db_ops s)\<rparr>"
  let ?existing = "filter (\<lambda>a. acp_id a = new) (db_accounts s)"
  have ne: "legs \<noteq> []" using legs by (metis legs_def set_empty set_sort)
  have ok0: "no_faults ?s0" using ok by simp
  have uacc: "unique_keys acp_id (db_accounts ?s0)" using wf by (simp add: futu_wf_def)
  have same: "db_accounts ?s0 = db_accounts s" "db_fault ?s0 = db_fault s"
    "db_activities ?s0 = db_activities s" by simp_all
  obtain s1 where s1: "(if ?existing \<noteq> [] then
             (if \<not> list_all (\<lambda>l. acp_sync_enabled (fleg_account l)) legs \<and> acp_sync_enabled (hd ?existing)
              then disable_sync new else ret ())
           else let merged = mergeFutuAccountRow new legs in
             seq_eff (wrap_err ''create merged account'' (exec_sql (\<lambda>s.
                case insert_rows acp_id [merged\<lparr>acp_sync_enabled := True\<rparr>] (db_accounts s) of
                  Inl e \<Rightarrow> (Inl e, s) | Inr t \<Rightarrow> (Inr (), s\<lparr>db_accounts := t\<rparr>))))
              (if \<not> acp_sync_enabled merged then disable_sync new else ret ())) ?s0 = (Inr (), s1)"
      "db_fault s1 = db_fault s" "db_activities s1 = db_activities s"
      "db_accounts s1 = universal_accounts new legs (db_accounts s)"
    using account_part_effect [OF ok0 uacc, of new legs, unfolded same] by blast
  have ok1: "no_faults s1" using ok s1(2) by (simp add: no_faults_def)
  obtain s2 where s2: "mergeFutuActivities ord new legs s1 = (Inr (), s2)" "beside_activities s1 s2"
      "db_activities s2 = after_moves new (merge_plan ord new (map leg_id legs) (db_activities s)) (db_activities s)"
    using merge_activities_effect [OF ok1 perm ne, of new] wf s1(3) by (auto simp: futu_wf_def)
  have ok2: "no_faults s2" using ok1 s2(2) by (simp add: no_faults_def beside_activities_def)
  obtain s3 where s3: "mergeFutuHoldings new legs (?existing \<noteq> []) s2 = (Inr (), s3)"
      "db_fault s3 = db_fault s2" "db_accounts s3 = db_accounts s2" "db_activities s3 = db_activities s2"
    using merge_holdings_effect [OF ok2, of new legs "?existing \<noteq> []"] by auto
  have ok3: "no_faults s3" using ok2 s3(2) by (simp add: no_faults_def)
  let ?s4 = "s3\<lparr>db_ops := Suc (db_ops s3),
      db_holdings := filter (\<lambda>h. hpo_account_id h \<notin> set (map leg_id legs)) (db_holdings s3)\<rparr>"
  have ok4: "no_faults ?s4" using ok3 by (simp add: no_faults_def)
  let ?s5 = "?s4\<lparr>db_ops := Suc (db_ops ?s4),
      db_accounts := filter (\<lambda>a. acp_id a \<notin> set (map leg_id legs)) (db_accounts ?s4)\<rparr>"
  have w4: "wrap_err ''delete retired holdings'' (exec_sql (writing (\<lambda>s.
            s\<lparr>db_holdings := filter (\<lambda>h. hpo_account_id h \<notin> set (map leg_id legs)) (db_holdings s)\<rparr>))) s3
        = (Inr (), ?s4)"
    using ok3 by (simp add: wrap_err_def writing_def)
  have w5: "wrap_err ''delete retired accounts'' (exec_sql (writing (\<lambda>s.
            s\<lparr>db_accounts := filter (\<lambda>a. acp_id a \<notin> set (map leg_id legs)) (db_accounts s)\<rparr>))) ?s4
        = (Inr (), ?s5)"
    using ok4 by (simp add: wrap_err_def writing_def)
  have read: "wrap_err ''load merged account'' (exec_sql (reading (\<lambda>s.
            filter (\<lambda>a. acp_id a = new) (db_accounts s)))) s = (Inr ?existing, ?s0)"
    using ok by (simp add: wrap_err_def reading_def)
  have "mergeFutuLegs ord accID unordered s = (Inr (), ?s5)"
    unfolding mergeFutuLegs_def new_def [symmetric] legs_def [symmetric]
      Let_def [of new] Let_def [of legs] Let_def [of "map leg_id legs"] Let_def [of "list_all _ _"]
    unfolding bind_eff_apply read
    by (simp only: prod.case sum.case seq_eff_apply s1(1) s2(1) s3(1) w4 w5)
  then show ?thesis
    unfolding new_def [symmetric] using s1 s2 s3
    by (intro exI [of _ ?s5]) (simp add: beside_activities_def)
qed

lemma merge_one:
  fixes s :: "'x db_scheme"
  assumes ok: "no_faults s" and wf: "futu_wf s" and perm: "\<And>ks. set (ord ks) = set ks"
    and legs: "unordered \<noteq> []" and mem: "\<forall>l\<in>set unordered. fleg_account l \<in> set (db_accounts s)"
    and new: "''futu-'' @ accID \<notin> leg_id ` set unordered"
  defines "J \<equiv> insert (''futu-'' @ accID) (leg_id ` set unordered)"
  shows "\<exists>s'. mergeFutuLegs ord accID unordered s = (Inr (), s') \<and> no_faults s' \<and> futu_wf s' \<and>
     merged_into (''futu-'' @ accID) J s s' \<and>
     (\<forall>K. K \<inter> J = {} \<longrightarrow> accounts_in K s' = accounts_in K s \<and> activities_in K s' = activities_in K s)"
proof -
  let ?new = "''futu-'' @ accID"
  define legs where "legs = sort_key (\<lambda>l. futuSlugPriority (fleg_slug l)) unordered"
  let ?ids = "map leg_id legs"
  have ids: "set ?ids = leg_id ` set unordered" by (simp add: legs_def)
  have ne: "legs \<noteq> []" using assms(4) by (metis legs_def set_empty set_sort)
  have J: "J = insert ?new (set ?ids)" by (simp only: J_def ids)
  have newid: "?new \<notin> set ?ids" unfolding ids by (rule new)
  have mem': "\<forall>l\<in>set legs. fleg_account l \<in> set (db_accounts s)" using mem by (simp add: legs_def)
  from wf have u: "unique_keys acp_id (db_accounts s)" "unique_keys apo_id (db_activities s)"
    "unique_keys activity_key (db_activities s)" by (simp_all add: futu_wf_def)
  obtain s' where s': "mergeFutuLegs ord accID unordered s = (Inr (), s')" "db_fault s' = db_fault s"
    and acc: "db_accounts s' = filter (\<lambda>a. acp_id a \<notin> set ?ids) (universal_accounts ?new legs (db_accounts s))"
    and act: "db_activities s' = after_moves ?new (merge_plan ord ?new ?ids (db_activities s)) (db_activities s)"
    using merge_effect [OF ok wf perm assms(4) legs_def] by blast
  obtain mv dr where plan: "merge_plan ord ?new ?ids (db_activities s) = (mv, dr)" by fastforce
  note A = universal_accounts_facts [OF u(1) newid ne refl mem', folded acc J]
  note B = after_moves_facts [OF plan perm u(2) newid, folded plan, folded act J]
  have ukey: "unique_keys activity_key (db_activities s')"
    using repoint_unique [OF plan perm u(2,3) subset_refl]
    unfolding act plan after_moves_def by simp
  have one: "r \<in> set (activities_in J s') \<Longrightarrow> apo_account_id r = ?new" for r
    using B(2) by (auto simp: activities_in_def J)
  have in_new: "set (activities_in J s') = {r \<in> set (db_activities s'). apo_account_id r = ?new}"
    using B(2) by (auto simp: activities_in_def J)
  have "distinct (map apo_source_record_id (activities_in J s'))"
  proof -
    have "distinct (map activity_key (activities_in J s'))"
      using ukey by (simp add: unique_keys_def activities_in_def distinct_map_filter)
    moreover have "map activity_key (activities_in J s') =
        map (Pair ?new) (map apo_source_record_id (activities_in J s'))"
      using one by (simp add: activity_key_def)
    ultimately show ?thesis by (metis distinct_map)
  qed
  moreover have "apo_source_record_id ` set (activities_in J s') = apo_source_record_id ` set (activities_in J s)"
    using B(4) unfolding in_new by (simp add: activities_in_def J)
  ultimately have "merged_into ?new J s s'"
    using A(2) one by (simp add: merged_into_def accounts_in_def)
  moreover have "futu_wf s'" using A(1) B(1) ukey by (simp add: futu_wf_def)
  moreover have "no_faults s'" using ok s'(2) by (simp add: no_faults_def)
  moreover have "accounts_in K s' = accounts_in K s \<and> activities_in K s' = activities_in K s"
    if "K \<inter> J = {}" for K
    using A(3) [OF that] B(3) that by (simp add: accounts_in_def activities_in_def)
  ultimately show ?thesis using s'(1) by blast
qed

section \<open>All merges\<close>

definition futu_group :: "account_po list \<Rightarrow> string \<Rightarrow> string set" where
  "futu_group as x = insert (''futu-'' @ x) (leg_id ` set (futu_legs as x))"

lemma futu_group_disjoint:
  assumes "x \<in> set (futu_acc_ids as)" "y \<in> set (futu_acc_ids as)" "x \<noteq> y"
  shows "futu_group as x \<inter> futu_group as y = {}"
proof -
  have digits: "list_all is_digit z" if "z \<in> set (futu_acc_ids as)" for z
    using that leg_id_shape by (auto simp: in_futu_acc_ids)
  have leg: "\<exists>slug. futu_leg_id i = Some (z, slug)" if "i \<in> leg_id ` set (futu_legs as z)" for i z
    using that by (auto simp: in_futu_legs)
  have none: "futu_leg_id (''futu-'' @ z) = None" if "z \<in> set (futu_acc_ids as)" for z
    using universal_not_leg [OF digits [OF that]] .
  show ?thesis
  proof (rule equals0I)
    fix i assume i: "i \<in> futu_group as x \<inter> futu_group as y"
    have cases': "i = ''futu-'' @ z \<or> (\<exists>slug. futu_leg_id i = Some (z, slug))" if "i \<in> futu_group as z" for z
      using that leg unfolding futu_group_def by blast
    from i cases' have "i = ''futu-'' @ x \<or> (\<exists>slug. futu_leg_id i = Some (x, slug))"
      "i = ''futu-'' @ y \<or> (\<exists>slug. futu_leg_id i = Some (y, slug))" by blast+
    then show False
      by (elim disjE exE) (use none [OF assms(1)] none [OF assms(2)] assms(3) in simp_all)
  qed
qed

lemma universal_not_in_legs:
  assumes "x \<in> set (futu_acc_ids as)"
  shows "''futu-'' @ x \<notin> leg_id ` set (futu_legs as x)"
proof
  assume "''futu-'' @ x \<in> leg_id ` set (futu_legs as x)"
  then obtain slug where "futu_leg_id (''futu-'' @ x) = Some (x, slug)" by (auto simp: in_futu_legs)
  moreover have "list_all is_digit x"
    using assms leg_id_shape by (auto simp: in_futu_acc_ids)
  ultimately show False using universal_not_leg by simp
qed

lemma merged_into_cong:
  "accounts_in J a = accounts_in J a' \<Longrightarrow> activities_in J a = activities_in J a' \<Longrightarrow>
   accounts_in J b = accounts_in J b' \<Longrightarrow> activities_in J b = activities_in J b' \<Longrightarrow>
   merged_into n J a b = merged_into n J a' b'"
  by (simp add: merged_into_def)

lemma merge_all:
  fixes s :: "'x db_scheme"
  assumes "no_faults s" and "futu_wf s" and perm: "\<And>ks. set (ord ks) = set ks"
    and "distinct ks" and ks: "set ks \<subseteq> set (futu_acc_ids as)"
    and "\<forall>x\<in>set ks. \<forall>l\<in>set (futu_legs as x). fleg_account l \<in> set (db_accounts s)"
  shows "\<exists>s'. for_each (\<lambda>x. mergeFutuLegs ord x (futu_legs as x)) ks s = (Inr (), s') \<and> no_faults s' \<and>
     (\<forall>x\<in>set ks. merged_into (''futu-'' @ x) (futu_group as x) s s') \<and>
     (\<forall>K. (\<forall>x\<in>set ks. K \<inter> futu_group as x = {}) \<longrightarrow>
        accounts_in K s' = accounts_in K s \<and> activities_in K s' = activities_in K s)"
  using assms(1,2,4,5,6)
proof (induction ks arbitrary: s)
  case Nil
  then show ?case by (simp add: ret_def)
next
  case (Cons x ks)
  from Cons.prems have x: "x \<in> set (futu_acc_ids as)" by simp
  have mem: "\<forall>l\<in>set (futu_legs as x). fleg_account l \<in> set (db_accounts s)" using Cons.prems by simp
  obtain s1 where s1: "mergeFutuLegs ord x (futu_legs as x) s = (Inr (), s1)" "no_faults s1" "futu_wf s1"
      "merged_into (''futu-'' @ x) (futu_group as x) s s1"
    and frame: "\<And>K. K \<inter> futu_group as x = {} \<Longrightarrow>
      accounts_in K s1 = accounts_in K s \<and> activities_in K s1 = activities_in K s"
    using merge_one [OF Cons.prems(1,2) perm futu_legs_nonempty [OF x] mem universal_not_in_legs [OF x]]
    unfolding futu_group_def by blast
  have disj: "futu_group as y \<inter> futu_group as x = {}" if "y \<in> set ks" for y
    using futu_group_disjoint [of y as x] x that Cons.prems by auto
  have mem1: "\<forall>y\<in>set ks. \<forall>l\<in>set (futu_legs as y). fleg_account l \<in> set (db_accounts s1)"
  proof (intro ballI)
    fix y l assume y: "y \<in> set ks" "l \<in> set (futu_legs as y)"
    then have "fleg_account l \<in> set (accounts_in (futu_group as y) s)"
      using Cons.prems(5) by (auto simp: accounts_in_def futu_group_def leg_id_def)
    then have "fleg_account l \<in> set (accounts_in (futu_group as y) s1)"
      using frame [OF disj [OF y(1)]] by simp
    then show "fleg_account l \<in> set (db_accounts s1)" by (simp add: accounts_in_def)
  qed
  obtain s' where s': "for_each (\<lambda>x. mergeFutuLegs ord x (futu_legs as x)) ks s1 = (Inr (), s')" "no_faults s'"
    and done': "\<And>y. y \<in> set ks \<Longrightarrow> merged_into (''futu-'' @ y) (futu_group as y) s1 s'"
    and frame': "\<And>K. (\<forall>y\<in>set ks. K \<inter> futu_group as y = {}) \<Longrightarrow>
        accounts_in K s' = accounts_in K s1 \<and> activities_in K s' = activities_in K s1"
    using Cons.IH [OF s1(2,3) _ _ mem1] Cons.prems by auto
  have "merged_into (''futu-'' @ y) (futu_group as y) s s'" if "y \<in> set (x # ks)" for y
  proof (cases "y = x")
    case True
    have "\<forall>z\<in>set ks. futu_group as x \<inter> futu_group as z = {}" using disj by blast
    from frame' [OF this] s1(4) True show ?thesis
      using merged_into_cong [of "futu_group as x" s s s' s1] by simp
  next
    case False
    with that have y: "y \<in> set ks" by simp
    from done' [OF y] frame [OF disj [OF y]] show ?thesis
      using merged_into_cong [of "futu_group as y" s1 s s' s'] by simp
  qed
  moreover have "accounts_in K s' = accounts_in K s \<and> activities_in K s' = activities_in K s"
    if "\<forall>y\<in>set (x # ks). K \<inter> futu_group as y = {}" for K
    using that frame [of K] frame' [of K] by simp
  ultimately show ?case using s1(1) s' by (auto simp: seq_eff_apply)
qed

lemma in_tx_no_faults:
  assumes "no_faults s" and "m (s\<lparr>db_ops := Suc (db_ops s)\<rparr>) = (Inr (), w)" and "no_faults w"
  shows "in_tx m s = (Inr (), w\<lparr>db_ops := Suc (db_ops w)\<rparr>)"
  using assms by (simp add: in_tx_def seq_eff_apply ret_def)

lemma in_tx_error:
  assumes "in_tx m s = (Inl e, s')"
  shows "db_accounts s' = db_accounts s \<and> db_activities s' = db_activities s \<and> db_holdings s' = db_holdings s"
proof (cases "db_fault s (db_ops s)")
  case (Some msg)
  with assms show ?thesis by (auto simp: in_tx_def seq_eff_apply exec_sql_def Let_def)
next
  case None
  obtain r w where "seq_eff m (exec_sql (ret ())) (s\<lparr>db_ops := Suc (db_ops s)\<rparr>) = (r, w)" by fastforce
  moreover have "exec_sql (ret ()) s = (Inr (), s\<lparr>db_ops := Suc (db_ops s)\<rparr>)"
    using None by (simp add: exec_sql_def Let_def ret_def)
  ultimately show ?thesis
    using assms by (cases r) (auto simp: in_tx_def seq_eff_apply [of "exec_sql (ret ())" _ s] restore_tables_def)
qed

text \<open>When every group has become its universal row, no retired row is left.\<close>

lemma no_leg_left:
  assumes merged: "\<forall>x\<in>set (futu_acc_ids (db_accounts s)).
      merged_into (''futu-'' @ x) (futu_group (db_accounts s) x) s s'"
    and frame: "\<forall>K. (\<forall>x\<in>set (futu_acc_ids (db_accounts s)). K \<inter> futu_group (db_accounts s) x = {}) \<longrightarrow>
      accounts_in K s' = accounts_in K s"
  shows "futu_acc_ids (db_accounts s') = []"
proof (rule ccontr)
  let ?as = "db_accounts s"
  let ?ids = "futu_acc_ids ?as"
  assume "futu_acc_ids (db_accounts s') \<noteq> []"
  then obtain y where "y \<in> set (futu_acc_ids (db_accounts s'))" by (cases "futu_acc_ids (db_accounts s')") auto
  then obtain a slug where a: "a \<in> set (db_accounts s')" "futu_leg_id (acp_id a) = Some (y, slug)"
    by (auto simp: in_futu_acc_ids)
  show False
  proof (cases "\<exists>x\<in>set ?ids. acp_id a \<in> futu_group ?as x")
    case True
    then obtain x where x: "x \<in> set ?ids" "a \<in> set (accounts_in (futu_group ?as x) s')"
      using a(1) by (auto simp: accounts_in_def)
    with merged have "acp_id a = ''futu-'' @ x" by (auto simp: merged_into_def)
    moreover have "list_all is_digit x" using x(1) leg_id_shape by (auto simp: in_futu_acc_ids)
    ultimately show False using a(2) universal_not_leg by simp
  next
    case False
    then have "\<forall>x\<in>set ?ids. {acp_id a} \<inter> futu_group ?as x = {}" by blast
    with frame have "accounts_in {acp_id a} s' = accounts_in {acp_id a} s" by blast
    moreover have "a \<in> set (accounts_in {acp_id a} s')" using a(1) by (simp add: accounts_in_def)
    ultimately have a0: "a \<in> set ?as" by (simp add: accounts_in_def)
    then have "\<lparr>fleg_account = a, fleg_slug = slug\<rparr> \<in> set (futu_legs ?as y)"
      using a(2) by (simp add: in_futu_legs leg_id_def)
    then have "acp_id a \<in> futu_group ?as y" unfolding futu_group_def leg_id_def by force
    moreover have "y \<in> set ?ids" using a0 a(2) by (auto simp: in_futu_acc_ids)
    ultimately show False using False by blast
  qed
qed


section \<open>A concrete upgrade\<close>

definition futu_row :: "string \<Rightarrow> bool \<Rightarrow> account_po" where
  "futu_row i on = (accountFromDomain 1 (zero_account\<lparr>acc_id := i\<rparr>))\<lparr>acp_sync_enabled := on\<rparr>"

definition futu_fill :: "string \<Rightarrow> string \<Rightarrow> activity_po" where
  "futu_fill acc src = activityFromDomain acc (zero_activity\<lparr>act_id := acc @ src, act_source_record_id := src\<rparr>)"

text \<open>Two legs, one of them switched off, that share a fill.\<close>

definition futu_demo :: db where
  "futu_demo = empty_db\<lparr>
     db_accounts := [futu_row ''futu-7-us'' True, futu_row ''futu-7-hk'' False],
     db_activities := [futu_fill ''futu-7-us'' ''f1'', futu_fill ''futu-7-hk'' ''f1'',
       futu_fill ''futu-7-us'' ''f2'']\<rparr>"


end
