(* ===== verification/Spec2Isabelle.thy ===== *)
theory Spec2Isabelle
  imports Sync_Runs Http_Contracts Config_Checks Cex_Common Price_Cache Steam_Progress Snap_Limiter Okx_Web3 Futu_Migration
begin

text \<open>
  Wealthfolio Connect, self-hosted: a verification development of the Go server under
  \<open>src/internal\<close>. The server collects accounts, balances, holdings and activities from brokers,
  exchanges and wallets, keeps them in PostgreSQL, and serves them to the Wealthfolio
  application through an authenticated HTTP interface.

  \<^bold>\<open>How the parts work together.\<close> The sync engine calls the \<open>Fetch\<close> of every configured client
  and persists the snapshot it returns: connection, accounts, the sync-switch gates, holdings,
  activities, and last the acknowledgement \<open>SnapshotCommitted\<close>, after which a client may advance
  what it remembers of its progress. The clients translate the answers of their servers into one
  snapshot type; the exchange clients share \<open>cexcommon\<close>, and the Steam client keeps evidence
  tables of its own and prices its items through the price service and its Redis cache. The HTTP
  layer authenticates requests with the JWT signer and reads what the engine stored through the
  read services. The configuration decides which clients exist and whom the gates let in.

  \<^bold>\<open>Representation.\<close> Go code with effects is a function from a state to an error or a value and
  a state (\<open>'a eff\<close>, theory \<open>Wf_Prelude\<close>), composed by \<open>bind_eff\<close> in the order of the source; an
  early return is a branch. Errors are values of \<open>go_error\<close>, with the sentinels \<open>errors.Is\<close>
  compares. SQL is a sequence of statements over a record of tables (\<open>db\<close>); each statement takes
  a number, and the field \<open>db_fault\<close> says which statements fail and how, so a theorem about every
  state is a theorem about every schedule of database failures. A transaction restores the tables
  when its body fails. State records are extended where a component adds tables or fields
  (\<open>db\<close>, then \<open>world\<close>, \<open>auth_world\<close>, \<open>steam_db\<close>, \<open>redis_world\<close>, \<open>steam_world\<close>). A Go string is a list of
  bytes, \<open>float64\<close> is the exact IEEE value \<open>f64\<close> (a rational, an infinity or NaN, rounded after
  every operation), \<open>int64\<close> wraps where the source can overflow, a time is a count of nanoseconds
  and \<open>Time.Sub\<close> saturates. Go does not fix the iteration order of a map: where the order can be seen
  it is an argument, and the theorems hold for every order.

  \<^bold>\<open>Foundations.\<close>
  \<^item> \<open>Wf_Prelude\<close>: errors, the effect combinators and the triples over them.
  \<^item> \<open>Go_Strings\<close>, \<open>Go_Float\<close>, \<open>Go_Number\<close>, \<open>Go_Time\<close>: the parts of \<open>strings\<close>, \<open>strconv\<close>,
    \<open>math\<close> and \<open>time\<close> the server calls, with round trips of printing and parsing and of the calendar.
  \<^item> \<open>Keyed_Table\<close>: a table with a unique key and \<open>ON CONFLICT\<close>; its locales are interpreted on
    every table of the server.

  \<^bold>\<open>Storage.\<close>
  \<^item> \<open>Brokerage_Domain\<close>: \<open>domain/brokerage/entities.go\<close>, \<open>domain/sync/ports.go\<close>.
  \<^item> \<open>Persistence_Models\<close>, \<open>Persistence_Repos\<close>, \<open>Store_Repos\<close>, \<open>Activity_Repo\<close>:
    \<open>infrastructure/persistence\<close>, from the models and their conversions to the repositories. An
    upsert never moves the sync switch of a user; \<open>UpsertBatch\<close> is all or nothing, in chunks of
    500 rows, and keeps the unique key.
  \<^item> \<open>Futu_Migration\<close>: \<open>migration_futu.go\<close> and \<open>migration_steam_prices.go\<close>; the merge of retired
    account rows is atomic and loses no fill.
  \<^item> \<open>Steam_Repo\<close>: \<open>steam_model.go\<close>, the seven tables of Steam evidence, whose acquisition records
    are only ever upgraded.

  \<^bold>\<open>The engine.\<close>
  \<^item> \<open>Sync_Engine\<close>: \<open>application/sync/service.go\<close>, one snapshot and one page of activities.
  \<^item> \<open>Sync_Safety\<close>: the locales \<open>data_invariant\<close>, \<open>sync_invariant\<close> and \<open>run_invariant\<close> carry a
    predicate through a whole run from one law per repository operation; their interpretations
    give the safety of switched-off accounts, of partial snapshots and of the acknowledgement.
  \<^item> \<open>Sync_Runs\<close>: \<open>RunOnce\<close>, and the interleaving of scheduler, manual refreshes and the user as
    the step relation \<open>engine_step\<close>.

  \<^bold>\<open>Access.\<close>
  \<^item> \<open>Auth_Service\<close>: \<open>infrastructure/auth/jwt.go\<close>, \<open>application/auth/service.go\<close>. The locale
    \<open>refresh_tokens\<close> is the contract of the refresh-token store; the JWT library, SHA-256 and UUIDs
    are the fields of \<open>auth_env\<close>.
  \<^item> \<open>Brokerage_Services\<close>, \<open>Steam_Price_Service\<close>: \<open>application/brokerage\<close>, \<open>application/steamprices\<close>.
  \<^item> \<open>Http_Core\<close>, \<open>Http_Dto\<close>, \<open>Http_Handlers\<close>, \<open>Http_Router\<close>, \<open>Http_Contracts\<close>: \<open>interfaces/http\<close>:
    middleware, response types, endpoints, the routing table and what the endpoints promise.
  \<^item> \<open>Config\<close>, \<open>Config_Checks\<close>: \<open>infrastructure/config/config.go\<close>, every variable and check, with
    \<open>url.Parse\<close> and the wallet JSON as the fields of \<open>config_lib\<close>.

  \<^bold>\<open>Clients.\<close>
  \<^item> \<open>Cex_Common\<close>: \<open>clients/cexcommon\<close>; every fill is a pair of legs, no balance disappears.
  \<^item> \<open>Binance_History\<close>: \<open>clients/binance\<close>, at most twenty history requests in a run, without a gap
    between the stored cursor and the next one.
  \<^item> \<open>Cex_Clients\<close>: \<open>clients/bitget\<close>, \<open>clients/hyperliquid\<close>; an outage marks the snapshot partial,
    and the engine then keeps the stored valuation.
  \<^item> \<open>Okx_Fills\<close>, \<open>Okx_Web3\<close>: \<open>clients/okx\<close>. The step relation \<open>okx_step\<close> interleaves runs of the
    fills backfill with failures, restarts and new fills.
  \<^item> \<open>Snap_Limiter\<close>: \<open>clients/snaptrade/limiter.go\<close>; the step relation \<open>limiter_run\<close> interleaves
    the turns of any number of callers.
  \<^item> \<open>Price_Cache\<close>: \<open>application/prices/service.go\<close> over \<open>infrastructure/cache/redis.go\<close>.
  \<^item> \<open>Steam_Match\<close>, \<open>Steam_Positions\<close>: the binding of assets to evidence and the positions made of
    it (\<open>clients/steam/reconcile.go\<close>).
  \<^item> \<open>Steam_Fetch\<close>, \<open>Steam_Market\<close>: the paged walks (\<open>inventory.go\<close>, \<open>history.go\<close>, \<open>trades.go\<close>,
    \<open>market.go\<close>).
  \<^item> \<open>Steam_Quotes\<close>: market prices and price series (\<open>prices.go\<close>).
  \<^item> \<open>Steam_Snapshot\<close>: a whole run, \<open>Fetch\<close>. \<open>Steam_Runs\<close>, \<open>Steam_Safety\<close>, \<open>Steam_Evidence\<close> and
    \<open>Steam_Progress\<close> are its theorems; the locales \<open>read_frame\<close>, \<open>run_frame\<close> and \<open>write_frame\<close> say
    which part of the state a phase of the run leaves alone.

  \<^bold>\<open>Loops and bounds.\<close> Every loop with a page cap in the source is recursion on the number of
  pages left, started with the bound of the source (\<open>MaxPages\<close> of the Steam client, three pages of
  OKX fills, twenty Binance requests), so the bound is the code's own and not a chosen one. Three loops have no bound in the source and are \<open>partial_function (option)\<close>, where
  \<open>None\<close> is not returning: the scan of stored activities for Binance cursors (\<open>saved_pages\<close>), the
  waiting loop of the limiter (\<open>limiter_wait\<close>) and the wallet history (\<open>web3_walk\<close>). When they
  return is proved where it is claimed: \<open>lone_caller_is_served\<close>, \<open>web3_history_complete\<close> and
  \<open>saved_cursor_scan_ends\<close>. Nothing is computed with fuel of the model's own choosing.

  \<^bold>\<open>Arguments of the model.\<close> Servers (Binance, Bitget, Hyperliquid, OKX, Steam, SnapTrade) are
  arguments that give decoded answers, in most clients by the number of the request, so that they may
  answer the same question differently each time. Clock readings are arguments or part of the
  state. Signatures, digests, JSON decoding of third-party payloads, the codec of stored Steam
  positions and the rows the Steam HTML parsers find are arguments too. Redis values are the texts
  \<open>strconv\<close> and \<open>encoding/json\<close> write, as the datatype \<open>redis_text\<close>.

  \<^bold>\<open>Not modelled.\<close> HTTP transport and retries, request signing, HTML parsing, the Steam login
  and its cookies (\<open>auth.go\<close>, \<open>transport.go\<close>), logging and redaction, dependency injection and
  process start (\<open>module.go\<close>, \<open>cmd\<close>), opening the database and creating its schema
  (\<open>database/postgres.go\<close>), the Binance weight transport (\<open>ratelimit.go\<close>), and the clients of Futu,
  IBKR, SnapTrade and TON, of which only the SnapTrade limiter, the Futu migration and the settings
  are here. They do not change what is proved: the engine's theorems hold for every
  snapshot any client can return.
\<close>

end
